(* ===== verification/Prelude.thy ===== *)
theory Prelude
  imports Main "HOL-Library.Sublist" "HOL-Library.Char_ord"
begin

text \<open>
  Shared vocabulary of the development: the outcome of a Go function (a value, a returned
  error, the end of the process, a panic), programs that read and change a state, and the
  handful of combinators every component is written with.  A Go function that returns
  \<open>(T, error)\<close> is a program whose outcome is \<open>Ok\<close> or \<open>Err\<close>; \<open>log.Fatal\<close> and \<open>os.Exit\<close>
  are \<open>Exit\<close>; an out-of-range index or a nil dereference is \<open>Panic\<close>.
\<close>

section \<open>Collections of facts\<close>

named_theorems prog_simps \<open>unfolding of the program combinators\<close>
named_theorems go_strings \<open>facts on the modelled Go string functions\<close>
named_theorems frame \<open>facts of the form: an operation leaves a part of the state alone\<close>

section \<open>Outcomes and programs\<close>

datatype 'a outcome = Ok 'a | Err string | Exit nat | Panic string

type_synonym ('w, 'a) prog = "'w \<Rightarrow> 'a outcome \<times> 'w"

definition ret :: "'a \<Rightarrow> ('w, 'a) prog" where
  "ret x w = (Ok x, w)"

definition failE :: "string \<Rightarrow> ('w, 'a) prog" where
  "failE e w = (Err e, w)"

definition exitP :: "nat \<Rightarrow> ('w, 'a) prog" where
  "exitP n w = (Exit n, w)"

definition panicP :: "string \<Rightarrow> ('w, 'a) prog" where
  "panicP e w = (Panic e, w)"

definition bindP :: "('w, 'a) prog \<Rightarrow> ('a \<Rightarrow> ('w, 'b) prog) \<Rightarrow> ('w, 'b) prog" where
  "bindP m f w = (case m w of
       (Ok x, w') \<Rightarrow> f x w'
     | (Err e, w') \<Rightarrow> (Err e, w')
     | (Exit n, w') \<Rightarrow> (Exit n, w')
     | (Panic e, w') \<Rightarrow> (Panic e, w'))"

text \<open>\<open>attempt m\<close> is \<open>x, err := m\<close> where the code goes on to look at \<open>err\<close>.\<close>

definition attempt :: "('w, 'a) prog \<Rightarrow> ('w, string + 'a) prog" where
  "attempt m w = (case m w of
       (Ok x, w') \<Rightarrow> (Ok (Inr x), w')
     | (Err e, w') \<Rightarrow> (Ok (Inl e), w')
     | (Exit n, w') \<Rightarrow> (Exit n, w')
     | (Panic e, w') \<Rightarrow> (Panic e, w'))"

text \<open>\<open>wrapErr p m\<close> is \<open>if err != nil { return fmt.Errorf("p%w", err) }\<close>.\<close>

definition wrapErr :: "string \<Rightarrow> ('w, 'a) prog \<Rightarrow> ('w, 'a) prog" where
  "wrapErr p m w = (case m w of
       (Err e, w') \<Rightarrow> (Err (p @ e), w')
     | r \<Rightarrow> r)"

text \<open>\<open>fatal m\<close> is \<open>if err != nil { log.Fatal(err) }\<close>: the process ends with status 1.\<close>

definition fatal :: "('w, 'a) prog \<Rightarrow> ('w, 'a) prog" where
  "fatal m w = (case m w of
       (Err e, w') \<Rightarrow> (Exit 1, w')
     | r \<Rightarrow> r)"

definition gets :: "('w \<Rightarrow> 'a) \<Rightarrow> ('w, 'a) prog" where
  "gets f w = (Ok (f w), w)"

definition modifyP :: "('w \<Rightarrow> 'w) \<Rightarrow> ('w, unit) prog" where
  "modifyP f w = (Ok (), f w)"

definition liftE :: "string + 'a \<Rightarrow> ('w, 'a) prog" where
  "liftE r = (case r of Inl e \<Rightarrow> failE e | Inr x \<Rightarrow> ret x)"

text \<open>An expression that may panic (\<open>None\<close>): an index or a slice out of range.\<close>

definition liftPanic :: "string \<Rightarrow> 'a option \<Rightarrow> ('w, 'a) prog" where
  "liftPanic msg r = (case r of None \<Rightarrow> panicP msg | Some x \<Rightarrow> ret x)"

text \<open>A \<open>for ... range\<close> loop whose body may return early with an error.\<close>

primrec forEach :: "'a list \<Rightarrow> ('a \<Rightarrow> ('w, unit) prog) \<Rightarrow> ('w, unit) prog" where
  "forEach [] f = ret ()"
| "forEach (x # xs) f = bindP (f x) (\<lambda>_. forEach xs f)"

text \<open>The same loop collecting one result per element.\<close>

primrec mapP :: "('a \<Rightarrow> ('w, 'b) prog) \<Rightarrow> 'a list \<Rightarrow> ('w, 'b list) prog" where
  "mapP f [] = ret []"
| "mapP f (x # xs) = bindP (f x) (\<lambda>y. bindP (mapP f xs) (\<lambda>ys. ret (y # ys)))"

text \<open>The same loop carrying the variables the body updates.\<close>

primrec foldP :: "('b \<Rightarrow> 'a \<Rightarrow> ('w, 'b) prog) \<Rightarrow> 'b \<Rightarrow> 'a list \<Rightarrow> ('w, 'b) prog" where
  "foldP f acc [] = ret acc"
| "foldP f acc (x # xs) = bindP (f acc x) (\<lambda>acc'. foldP f acc' xs)"

declare ret_def [prog_simps] failE_def [prog_simps] exitP_def [prog_simps]
  panicP_def [prog_simps] gets_def [prog_simps] modifyP_def [prog_simps]

lemma bindP_Ok [simp]: "m w = (Ok x, w') \<Longrightarrow> bindP m f w = f x w'"
  by (simp add: bindP_def)

lemma bindP_Err [simp]: "m w = (Err e, w') \<Longrightarrow> bindP m f w = (Err e, w')"
  by (simp add: bindP_def)

lemma bindP_Exit [simp]: "m w = (Exit n, w') \<Longrightarrow> bindP m f w = (Exit n, w')"
  by (simp add: bindP_def)

lemma bindP_Panic [simp]: "m w = (Panic e, w') \<Longrightarrow> bindP m f w = (Panic e, w')"
  by (simp add: bindP_def)

lemma bind_ret [simp]: "bindP (ret x) f = f x"
  by (rule ext) (simp add: bindP_def ret_def)

lemma bind_fail [simp]: "bindP (failE e) f = failE e"
  by (rule ext) (simp add: bindP_def failE_def)

lemma bind_exit [simp]: "bindP (exitP n) f = exitP n"
  by (rule ext) (simp add: bindP_def exitP_def)

lemma bind_panic [simp]: "bindP (panicP e) f = panicP e"
  by (rule ext) (simp add: bindP_def panicP_def)

lemma bind_assoc: "bindP (bindP m f) g = bindP m (\<lambda>x. bindP (f x) g)"
  by (rule ext) (simp add: bindP_def split: prod.split outcome.split)

lemma bindP_OkE:
  assumes "bindP m f w = (Ok y, w'')"
  obtains x w' where "m w = (Ok x, w')" and "f x w' = (Ok y, w'')"
  using assms by (auto simp: bindP_def split: prod.splits outcome.splits)

lemma attempt_ret [simp]: "attempt (ret x) = ret (Inr x)"
  by (rule ext) (simp add: attempt_def ret_def)

lemma attempt_fail [simp]: "attempt (failE e) = ret (Inl e)"
  by (rule ext) (simp add: attempt_def ret_def failE_def)

lemma wrapErr_ret [simp]: "wrapErr p (ret x) = ret x"
  by (rule ext) (simp add: wrapErr_def ret_def)

lemma wrapErr_fail [simp]: "wrapErr p (failE e) = failE (p @ e)"
  by (rule ext) (simp add: wrapErr_def failE_def)

lemma wrapErr_Ok [simp]: "wrapErr p m w = (Ok x, w') \<longleftrightarrow> m w = (Ok x, w')"
  by (auto simp: wrapErr_def split: prod.splits outcome.splits)

lemma fatal_ret [simp]: "fatal (ret x) = ret x"
  by (rule ext) (simp add: fatal_def ret_def)

lemma fatal_fail [simp]: "fatal (failE e) = exitP 1"
  by (rule ext) (simp add: fatal_def failE_def exitP_def)

lemma fatal_Ok [simp]: "fatal m w = (Ok x, w') \<longleftrightarrow> m w = (Ok x, w')"
  by (auto simp: fatal_def split: prod.splits outcome.splits)

lemma foldP_append: "foldP f a (xs @ ys) = bindP (foldP f a xs) (\<lambda>b. foldP f b ys)"
  by (induction xs arbitrary: a) (simp_all add: bind_assoc)

lemma liftE_simps [simp]: "liftE (Inl e) = failE e" "liftE (Inr x) = ret x"
  by (simp_all add: liftE_def)

lemma liftPanic_simps [simp]:
  "liftPanic msg None = panicP msg" "liftPanic msg (Some x) = ret x"
  by (simp_all add: liftPanic_def)

text \<open>
  Invariants of programs.  \<open>preserves I m\<close>: whatever the outcome, the relation \<open>I\<close> between
  the state before and after holds; relations that are reflexive and transitive compose.
\<close>

definition preserves :: "('w \<Rightarrow> 'w \<Rightarrow> bool) \<Rightarrow> ('w, 'a) prog \<Rightarrow> bool" where
  "preserves R m \<longleftrightarrow> (\<forall>w. R w (snd (m w)))"

lemma preservesD: "preserves R m \<Longrightarrow> m w = (r, w') \<Longrightarrow> R w w'"
  unfolding preserves_def by (metis snd_conv)

text \<open>
  The contract of such a relation, and what every program built from the combinators then
  satisfies.  The file system and the trace of external calls interpret it.
\<close>

locale step_relation =
  fixes R :: "'w \<Rightarrow> 'w \<Rightarrow> bool"
  assumes refl: "R w w"
    and trans: "R w w' \<Longrightarrow> R w' w'' \<Longrightarrow> R w w''"
begin

lemma ret: "preserves R (ret x)"
  by (simp add: preserves_def prog_simps refl)

lemma fail: "preserves R (failE e)"
  by (simp add: preserves_def prog_simps refl)

lemma exit: "preserves R (exitP n)"
  by (simp add: preserves_def prog_simps refl)

lemma panic: "preserves R (panicP e)"
  by (simp add: preserves_def prog_simps refl)

lemma get: "preserves R (gets f)"
  by (simp add: preserves_def prog_simps refl)

lemma bind:
  assumes "preserves R m" and "\<And>x. preserves R (f x)"
  shows "preserves R (bindP m f)"
  unfolding preserves_def
proof
  fix w
  obtain r w' where m: "m w = (r, w')" by (cases "m w")
  with assms(1) have "R w w'" by (rule preservesD)
  moreover have "R w' (snd (f x w'))" for x
    using assms(2) by (simp add: preserves_def)
  ultimately show "R w (snd (bindP m f w))"
    using trans by (cases r) (auto simp: bindP_def m)
qed

lemma attempt: "preserves R m \<Longrightarrow> preserves R (attempt m)"
  by (auto simp: preserves_def attempt_def split: prod.split outcome.split dest: spec) (metis snd_conv)+

lemma wrap: "preserves R m \<Longrightarrow> preserves R (wrapErr p m)"
  by (auto simp: preserves_def wrapErr_def split: prod.split outcome.split dest: spec) (metis snd_conv)+

lemma fatal: "preserves R m \<Longrightarrow> preserves R (fatal m)"
  by (auto simp: preserves_def fatal_def split: prod.split outcome.split dest: spec) (metis snd_conv)+

lemma liftE: "preserves R (liftE r)"
  by (cases r) (simp_all add: ret fail)

lemma liftPanic: "preserves R (liftPanic msg r)"
  by (cases r) (simp_all add: ret panic)

lemma forEach: "(\<And>x. x \<in> set xs \<Longrightarrow> preserves R (f x)) \<Longrightarrow> preserves R (forEach xs f)"
  by (induction xs) (auto intro: ret bind)

lemma mapP: "(\<And>x. x \<in> set xs \<Longrightarrow> preserves R (f x)) \<Longrightarrow> preserves R (mapP f xs)"
  by (induction xs) (auto intro!: ret bind)

lemma foldP: "(\<And>acc x. x \<in> set xs \<Longrightarrow> preserves R (f acc x)) \<Longrightarrow> preserves R (foldP f acc xs)"
  by (induction xs arbitrary: acc) (auto intro: ret bind)

lemma case_prod: "(\<And>a b. preserves R (f a b)) \<Longrightarrow> preserves R (case_prod f p)"
  by (cases p) simp

lemma case_option: "preserves R m \<Longrightarrow> (\<And>a. preserves R (f a)) \<Longrightarrow> preserves R (case_option m f p)"
  by (cases p) simp_all

lemma case_sum: "(\<And>a. preserves R (f a)) \<Longrightarrow> (\<And>a. preserves R (g a)) \<Longrightarrow> preserves R (case_sum f g p)"
  by (cases p) simp_all

lemma if_both: "preserves R m \<Longrightarrow> preserves R n \<Longrightarrow> preserves R (if b then m else n)"
  by simp

lemmas rules = case_prod case_option case_sum if_both ret fail exit panic get bind attempt wrap fatal liftE liftPanic forEach mapP foldP

end

section \<open>Lists\<close>

text \<open>The first element satisfying a test, as a search loop with an early return finds it.\<close>

primrec findFirst :: "('a \<Rightarrow> bool) \<Rightarrow> 'a list \<Rightarrow> 'a option" where
  "findFirst P [] = None"
| "findFirst P (x # xs) = (if P x then Some x else findFirst P xs)"

lemma findFirst_None_iff: "findFirst P xs = None \<longleftrightarrow> (\<forall>x\<in>set xs. \<not> P x)"
  by (induction xs) auto

lemma findFirst_SomeD: "findFirst P xs = Some x \<Longrightarrow> x \<in> set xs \<and> P x"
  by (induction xs) (auto split: if_splits)

lemma findFirst_Some_iff:
  "findFirst P xs = Some x \<longleftrightarrow>
     (\<exists>ys zs. xs = ys @ x # zs \<and> P x \<and> (\<forall>y\<in>set ys. \<not> P y))"
proof (induction xs)
  case Nil
  then show ?case by simp
next
  case (Cons a xs)
  show ?case
  proof (cases "P a")
    case True
    then show ?thesis by (auto simp: Cons_eq_append_conv)
  next
    case False
    with Cons.IH show ?thesis
      by (auto simp: Cons_eq_append_conv) (metis Cons_eq_appendI set_ConsD)
  qed
qed

text \<open>
  Whether a list is longer than a power of two, computed by halving instead of by counting to it.
\<close>

primrec dropPow :: "nat \<Rightarrow> 'a list \<Rightarrow> 'a list" where
  "dropPow 0 xs = tl xs"
| "dropPow (Suc k) xs = (case dropPow k xs of [] \<Rightarrow> [] | y # ys \<Rightarrow> dropPow k (y # ys))"

lemma dropPow_drop: "dropPow k xs = drop (2 ^ k) xs"
proof (induction k arbitrary: xs)
  case 0
  then show ?case by (cases xs) simp_all
next
  case (Suc k)
  have "dropPow (Suc k) xs = dropPow k (dropPow k xs)"
    by (cases "dropPow k xs") (simp_all add: Suc.IH)
  then show ?case by (simp add: Suc.IH mult_2)
qed

end
