(* ===== verification/GoStrings.thy ===== *)
theory GoStrings
  imports Prelude
begin

text \<open>
  The functions of Go's \<open>strings\<close>, \<open>strconv\<close>, \<open>path\<close> and \<open>path/filepath\<close> packages
  that the repository calls, on byte strings.  A Go string is a \<open>string\<close> here, one
  \<open>char\<close> per byte; case mapping and white space are those of ASCII, so the model is exact
  on ASCII input.  Every function is executable.
\<close>

section \<open>Characters\<close>

abbreviation code :: "char \<Rightarrow> nat" where
  "code c \<equiv> of_char c"

definition isUpper :: "char \<Rightarrow> bool" where
  "isUpper c \<longleftrightarrow> 65 \<le> code c \<and> code c \<le> 90"

definition isLowerC :: "char \<Rightarrow> bool" where
  "isLowerC c \<longleftrightarrow> 97 \<le> code c \<and> code c \<le> 122"

definition isDigit :: "char \<Rightarrow> bool" where
  "isDigit c \<longleftrightarrow> 48 \<le> code c \<and> code c \<le> 57"

definition isSpace :: "char \<Rightarrow> bool" where
  "isSpace c \<longleftrightarrow> code c = 32 \<or> (9 \<le> code c \<and> code c \<le> 13)"

definition toLowerC :: "char \<Rightarrow> char" where
  "toLowerC c = (if isUpper c then char_of (code c + 32) else c)"

lemma code_less [simp]: "code c < 256"
  using nat_of_char_less_256 [of c] by simp

lemma code_toLowerC: "code (toLowerC c) = (if isUpper c then code c + 32 else code c)"
  by (simp add: toLowerC_def isUpper_def)

lemma not_isUpper_toLowerC [simp]: "\<not> isUpper (toLowerC c)"
  by (auto simp: isUpper_def code_toLowerC)

lemma toLowerC_id [simp]: "\<not> isUpper c \<Longrightarrow> toLowerC c = c"
  by (simp add: toLowerC_def)

section \<open>strings\<close>

definition ToLower :: "string \<Rightarrow> string" where
  "ToLower s = map toLowerC s"

definition TrimSpace :: "string \<Rightarrow> string" where
  "TrimSpace s = rev (dropWhile isSpace (rev (dropWhile isSpace s)))"

definition HasPrefix :: "string \<Rightarrow> string \<Rightarrow> bool" where
  "HasPrefix s p \<longleftrightarrow> prefix p s"

definition HasSuffix :: "string \<Rightarrow> string \<Rightarrow> bool" where
  "HasSuffix s p \<longleftrightarrow> suffix p s"

definition TrimPrefix :: "string \<Rightarrow> string \<Rightarrow> string" where
  "TrimPrefix s p = (if HasPrefix s p then drop (length p) s else s)"

definition TrimSuffix :: "string \<Rightarrow> string \<Rightarrow> string" where
  "TrimSuffix s p = (if HasSuffix s p then take (length s - length p) s else s)"

text \<open>\<open>Index\<close> is the least offset at which \<open>sub\<close> occurs; Go returns \<open>-1\<close> for none.\<close>

fun Index :: "string \<Rightarrow> string \<Rightarrow> nat option" where
  "Index [] sub = (if sub = [] then Some 0 else None)"
| "Index (c # cs) sub = (if prefix sub (c # cs) then Some 0 else map_option Suc (Index cs sub))"

definition Contains :: "string \<Rightarrow> string \<Rightarrow> bool" where
  "Contains s sub \<longleftrightarrow> Index s sub \<noteq> None"

text \<open>\<open>strings.Replace(s, old, new, n)\<close> for a non-empty \<open>old\<close>; \<open>n = -1\<close> is \<open>ReplaceAll\<close>,
  which stops by itself after at most \<open>length s\<close> replacements.\<close>

fun Replace :: "nat \<Rightarrow> string \<Rightarrow> string \<Rightarrow> string \<Rightarrow> string" where
  "Replace 0 s old new = s"
| "Replace (Suc n) s old new = (case Index s old of
       None \<Rightarrow> s
     | Some i \<Rightarrow> take i s @ new @ Replace n (drop (i + length old) s) old new)"

definition ReplaceAll :: "string \<Rightarrow> string \<Rightarrow> string \<Rightarrow> string" where
  "ReplaceAll s old new = Replace (length s) s old new"

text \<open>\<open>strings.SplitN(s, sep, n)\<close> for \<open>n > 0\<close> and a non-empty separator.\<close>

fun SplitN :: "nat \<Rightarrow> string \<Rightarrow> string \<Rightarrow> string list" where
  "SplitN 0 s sep = []"
| "SplitN (Suc 0) s sep = [s]"
| "SplitN (Suc (Suc n)) s sep = (case Index s sep of
       None \<Rightarrow> [s]
     | Some i \<Rightarrow> take i s # SplitN (Suc n) (drop (i + length sep) s) sep)"

definition Split :: "string \<Rightarrow> string \<Rightarrow> string list" where
  "Split s sep = SplitN (Suc (length s)) s sep"

fun Join :: "string list \<Rightarrow> string \<Rightarrow> string" where
  "Join [] sep = []"
| "Join [s] sep = s"
| "Join (s # t # ss) sep = s @ sep @ Join (t # ss) sep"

subsection \<open>Facts\<close>

lemma HasPrefix_append [simp, go_strings]: "HasPrefix (p @ s) p"
  by (simp add: HasPrefix_def)

lemma TrimPrefix_append [simp, go_strings]: "TrimPrefix (p @ s) p = s"
  by (simp add: TrimPrefix_def)

lemma TrimPrefix_not [simp, go_strings]: "\<not> HasPrefix s p \<Longrightarrow> TrimPrefix s p = s"
  by (simp add: TrimPrefix_def)

lemma HasSuffix_append [simp, go_strings]: "HasSuffix (s @ p) p"
  by (simp add: HasSuffix_def suffix_def)

lemma TrimSuffix_append [simp, go_strings]: "TrimSuffix (s @ p) p = s"
  by (simp add: TrimSuffix_def)

lemma HasPrefixE: "HasPrefix s p \<Longrightarrow> (\<And>t. s = p @ t \<Longrightarrow> thesis) \<Longrightarrow> thesis"
  by (auto simp: HasPrefix_def elim: prefixE)

lemma HasSuffixE: "HasSuffix s p \<Longrightarrow> (\<And>t. s = t @ p \<Longrightarrow> thesis) \<Longrightarrow> thesis"
  by (auto simp: HasSuffix_def suffix_def)

lemma length_ToLower [simp, go_strings]: "length (ToLower s) = length s"
  by (simp add: ToLower_def)

lemma ToLower_append [simp, go_strings]: "ToLower (s @ t) = ToLower s @ ToLower t"
  by (simp add: ToLower_def)

lemma ToLower_Nil [simp, go_strings]: "ToLower [] = []"
  by (simp add: ToLower_def)

lemma ToLower_idem [simp, go_strings]: "ToLower (ToLower s) = ToLower s"
  by (simp add: ToLower_def)

lemma ToLower_not_upper: "c \<in> set (ToLower s) \<Longrightarrow> \<not> isUpper c"
  by (auto simp: ToLower_def)

lemma ToLower_eq_iff: "ToLower s = s \<longleftrightarrow> (\<forall>c\<in>set s. \<not> isUpper c)"
proof
  assume "ToLower s = s"
  then show "\<forall>c\<in>set s. \<not> isUpper c"
    by (metis ToLower_not_upper)
next
  assume "\<forall>c\<in>set s. \<not> isUpper c"
  then show "ToLower s = s"
    unfolding ToLower_def by (induction s) auto
qed

lemma Index_SomeD:
  "Index s sub = Some i \<Longrightarrow> i + length sub \<le> length s \<and> s = take i s @ sub @ drop (i + length sub) s"
proof (induction s arbitrary: i)
  case Nil
  then show ?case by (simp split: if_splits)
next
  case (Cons c cs)
  show ?case
  proof (cases "prefix sub (c # cs)")
    case True
    with Cons.prems have "i = 0" by simp
    moreover from True have "length sub \<le> length (c # cs)" by (rule prefix_length_le)
    moreover from True obtain zs where "c # cs = sub @ zs" by (rule prefixE)
    ultimately show ?thesis by simp
  next
    case False
    with Cons.prems obtain j where j: "Index cs sub = Some j" "i = Suc j" by auto
    from Cons.IH [OF j(1)] j(2) show ?thesis by simp
  qed
qed

lemma Index_prefix: "prefix sub s \<Longrightarrow> Index s sub = Some 0"
  by (cases s) auto

lemma Index_append: "Index (a @ sub @ b) sub \<noteq> None"
  by (induction a) (auto simp: Index_prefix)

lemma Contains_iff [go_strings]: "Contains s sub \<longleftrightarrow> (\<exists>a b. s = a @ sub @ b)"
proof
  assume "Contains s sub"
  then show "\<exists>a b. s = a @ sub @ b"
    unfolding Contains_def using Index_SomeD by blast
next
  assume "\<exists>a b. s = a @ sub @ b"
  then show "Contains s sub"
    unfolding Contains_def using Index_append by blast
qed

lemma dropWhile_idem: "dropWhile P (dropWhile P s) = dropWhile P s"
  by (induction s) auto

lemma TrimSpace_id: "s = [] \<or> (\<not> isSpace (hd s) \<and> \<not> isSpace (last s)) \<Longrightarrow> TrimSpace s = s"
proof (cases s)
  case Nil
  then show ?thesis by (simp add: TrimSpace_def)
next
  case (Cons a t)
  assume "s = [] \<or> (\<not> isSpace (hd s) \<and> \<not> isSpace (last s))"
  with Cons have a: "\<not> isSpace a" "\<not> isSpace (hd (rev s))"
    by (simp_all only: hd_rev) auto
  from a(1) Cons have "dropWhile isSpace s = s" by simp
  moreover from a(2) Cons have "dropWhile isSpace (rev s) = rev s"
    by (cases "rev s") auto
  ultimately show ?thesis by (simp add: TrimSpace_def)
qed

subsection \<open>Splitting and replacing at one character\<close>

primrec split1 :: "char \<Rightarrow> string \<Rightarrow> string list" where
  "split1 c [] = [[]]"
| "split1 c (x # xs) = (if x = c then [] # split1 c xs
     else (x # hd (split1 c xs)) # tl (split1 c xs))"

lemma split1_ne [simp]: "split1 c s \<noteq> []"
  by (cases s) auto

lemma Index_char: "Index (x # xs) [c] = (if x = c then Some 0 else map_option Suc (Index xs [c]))"
  by auto

lemma SplitN_ne: "SplitN (Suc n) s sep \<noteq> []"
  by (cases n) (auto split: option.splits)

lemma SplitN_skip:
  "x \<noteq> c \<Longrightarrow> SplitN (Suc n) (x # xs) [c] =
     (x # hd (SplitN (Suc n) xs [c])) # tl (SplitN (Suc n) xs [c])"
  by (cases n) (auto split: option.splits)

lemma SplitN_split1: "length s \<le> n \<Longrightarrow> SplitN (Suc n) s [c] = split1 c s"
proof (induction s arbitrary: n)
  case Nil
  then show ?case by (cases n) auto
next
  case (Cons x xs)
  then obtain m where n: "n = Suc m" "length xs \<le> m" by (cases n) auto
  show ?case
  proof (cases "x = c")
    case True
    with n Cons.IH [of m] show ?thesis by simp
  next
    case False
    have "SplitN (Suc n) xs [c] = split1 c xs" using Cons.IH [of n] n by simp
    then show ?thesis using SplitN_skip [OF False, of n xs] False by simp
  qed
qed

lemma Split_char [go_strings]: "Split s [c] = split1 c s"
  by (simp add: Split_def SplitN_split1)

lemma Split_nonempty [simp]: "Split s sep \<noteq> []"
  by (simp add: Split_def SplitN_ne)

lemma hd_split1: "hd (split1 c s) = takeWhile (\<lambda>x. x \<noteq> c) s"
  by (induction s) auto

lemma split1_no_sep: "p \<in> set (split1 c s) \<Longrightarrow> c \<notin> set p"
proof (induction s arbitrary: p)
  case Nil
  then show ?case by simp
next
  case (Cons x xs)
  have "hd (split1 c xs) \<in> set (split1 c xs)" by simp
  with Cons show ?case
    by (auto split: if_splits dest: list.set_sel(2) [OF split1_ne])
qed

lemma split1_append_sep:
  "c \<notin> set a \<Longrightarrow> split1 c (a @ c # b) = a # split1 c b"
  by (induction a) auto

lemma split1_no: "c \<notin> set a \<Longrightarrow> split1 c a = [a]"
  by (induction a) auto

lemma Index_char_None: "Index s [c] = None \<longleftrightarrow> c \<notin> set s"
  by (induction s) auto

lemma Replace_char:
  "length (filter (\<lambda>x. x = c) s) \<le> n \<Longrightarrow> Replace n s [c] [d] = map (\<lambda>x. if x = c then d else x) s"
proof (induction s arbitrary: n)
  case Nil
  then show ?case by (cases n) auto
next
  case (Cons x xs)
  show ?case
  proof (cases "x = c")
    case True
    with Cons.prems obtain m where "n = Suc m" "length (filter (\<lambda>x. x = c) xs) \<le> m"
      by (cases n) auto
    with True Cons.IH [of m] show ?thesis by simp
  next
    case False
    with Cons.prems have IH: "Replace n xs [c] [d] = map (\<lambda>x. if x = c then d else x) xs"
      using Cons.IH [of n] by simp
    have "Replace n (x # xs) [c] [d] = x # Replace n xs [c] [d]"
      using False by (cases n) (auto split: option.splits)
    with IH False show ?thesis by simp
  qed
qed

lemma ReplaceAll_char [go_strings]:
  "ReplaceAll s [c] [d] = map (\<lambda>x. if x = c then d else x) s"
  by (simp add: ReplaceAll_def Replace_char)

section \<open>strconv\<close>

fun digitStr :: "nat \<Rightarrow> string" where
  "digitStr n = (if n < 10 then [char_of (48 + n)]
     else digitStr (n div 10) @ [char_of (48 + n mod 10)])"

declare digitStr.simps [simp del]

definition Itoa :: "int \<Rightarrow> string" where
  "Itoa i = (if i < 0 then CHR ''-'' # digitStr (nat (- i)) else digitStr (nat i))"

primrec digitsVal :: "string \<Rightarrow> nat \<Rightarrow> nat option" where
  "digitsVal [] acc = Some acc"
| "digitsVal (c # cs) acc =
     (if isDigit c then digitsVal cs (acc * 10 + (code c - 48)) else None)"

definition intInRange :: "int \<Rightarrow> bool" where
  "intInRange i \<longleftrightarrow> - (2 ^ 63) \<le> i \<and> i < 2 ^ 63"

text \<open>\<open>strconv.Atoi\<close> on a 64-bit platform: an optional sign, at least one digit, in range.\<close>

definition Atoi :: "string \<Rightarrow> int option" where
  "Atoi s = (let neg = (s \<noteq> [] \<and> hd s = CHR ''-'');
                 body = (if s \<noteq> [] \<and> (hd s = CHR ''-'' \<or> hd s = CHR ''+'') then tl s else s)
             in if body = [] then None
                else case digitsVal body 0 of
                    None \<Rightarrow> None
                  | Some n \<Rightarrow> let i = (if neg then - int n else int n)
                               in if intInRange i then Some i else None)"

definition ParseBool :: "string \<Rightarrow> bool option" where
  "ParseBool s =
     (if s \<in> set [''1'', ''t'', ''T'', ''true'', ''TRUE'', ''True''] then Some True
      else if s \<in> set [''0'', ''f'', ''F'', ''false'', ''FALSE'', ''False''] then Some False
      else None)"

text \<open>\<open>fmt.Sprintf("%v", b)\<close> for a \<open>bool\<close>.\<close>

definition fmtBool :: "bool \<Rightarrow> string" where
  "fmtBool b = (if b then ''true'' else ''false'')"

lemma digitsVal_append: "digitsVal (a @ b) acc = Option.bind (digitsVal a acc) (digitsVal b)"
  by (induction a arbitrary: acc) auto

lemma code_digit: "(d::nat) < 10 \<Longrightarrow> code (char_of (48 + d)) = 48 + d"
  by simp

lemma isDigit_digit: "(d::nat) < 10 \<Longrightarrow> isDigit (char_of (48 + d))"
  by (simp add: isDigit_def)

lemma digitsVal_digitStr: "digitsVal (digitStr n) 0 = Some n"
proof (induction n rule: digitStr.induct)
  case (1 n)
  show ?case
  proof (cases "n < 10")
    case True
    then show ?thesis
      by (subst digitStr.simps) (simp add: isDigit_digit code_digit)
  next
    case False
    have d: "n mod 10 < 10" by simp
    from False "1.IH" have "digitsVal (digitStr (n div 10)) 0 = Some (n div 10)" by simp
    with False d show ?thesis
      by (subst digitStr.simps) (simp add: digitsVal_append isDigit_digit code_digit)
  qed
qed

lemma digitStr_digits: "\<forall>c\<in>set (digitStr n). isDigit c"
proof (induction n rule: digitStr.induct)
  case (1 n)
  then show ?case
    by (subst digitStr.simps) (auto simp: isDigit_digit)
qed

lemma digitStr_ne [simp]: "digitStr n \<noteq> []"
  by (subst digitStr.simps) simp

lemma hd_digitStr: "hd (digitStr n) \<noteq> CHR ''-'' \<and> hd (digitStr n) \<noteq> CHR ''+''"
proof -
  have "isDigit (hd (digitStr n))"
    using digitStr_digits [of n] hd_in_set [OF digitStr_ne, of n] by blast
  then show ?thesis by (auto simp: isDigit_def)
qed

lemma Atoi_Itoa: "intInRange i \<Longrightarrow> Atoi (Itoa i) = Some i"
  using hd_digitStr [of "nat i"]
  by (auto simp: Atoi_def Itoa_def Let_def digitsVal_digitStr)

lemma Itoa_inj: "intInRange i \<Longrightarrow> intInRange j \<Longrightarrow> Itoa i = Itoa j \<longleftrightarrow> i = j"
  by (metis Atoi_Itoa option.inject)

section \<open>path and path/filepath\<close>

primrec cleanStep :: "bool \<Rightarrow> string list \<Rightarrow> string list \<Rightarrow> string list" where
  "cleanStep rooted acc [] = acc"
| "cleanStep rooted acc (e # es) =
     (if e = [] \<or> e = ''.'' then cleanStep rooted acc es
      else if e = ''..'' then
        (case acc of
           [] \<Rightarrow> cleanStep rooted (if rooted then [] else [''..'']) es
         | a # as \<Rightarrow> cleanStep rooted (if a = ''..'' then ''..'' # acc else as) es)
      else cleanStep rooted (e # acc) es)"

text \<open>The elements of \<open>filepath.Clean(p)\<close>, first to last.\<close>

definition cleanElems :: "string \<Rightarrow> string list" where
  "cleanElems p = rev (cleanStep (HasPrefix p ''/'') [] (Split p ''/''))"

definition Clean :: "string \<Rightarrow> string" where
  "Clean p = (if HasPrefix p ''/'' then ''/'' @ Join (cleanElems p) ''/''
     else if cleanElems p = [] then ''.'' else Join (cleanElems p) ''/'')"

definition filepathJoin :: "string list \<Rightarrow> string" where
  "filepathJoin es = (case dropWhile (\<lambda>e. e = []) es of
       [] \<Rightarrow> []
     | es' \<Rightarrow> Clean (Join es' ''/''))"

definition lastElem :: "string \<Rightarrow> string" where
  "lastElem p = rev (takeWhile (\<lambda>c. c \<noteq> CHR ''/'') (rev p))"

definition Base :: "string \<Rightarrow> string" where
  "Base p = (if p = [] then ''.''
     else let q = rev (dropWhile (\<lambda>c. c = CHR ''/'') (rev p))
          in if lastElem q = [] then ''/'' else lastElem q)"

definition pathDir :: "string \<Rightarrow> string" where
  "pathDir p = Clean (rev (dropWhile (\<lambda>c. c \<noteq> CHR ''/'') (rev p)))"

definition Ext :: "string \<Rightarrow> string" where
  "Ext p = (let e = lastElem p
     in if CHR ''.'' \<in> set e then CHR ''.'' # rev (takeWhile (\<lambda>c. c \<noteq> CHR ''.'') (rev e)) else [])"

lemma Ext_suffix: "HasSuffix p (Ext p)"
proof (cases "CHR ''.'' \<in> set (lastElem p)")
  case False
  then show ?thesis by (simp add: Ext_def HasSuffix_def)
next
  case True
  obtain a b where e: "rev (lastElem p) = a @ CHR ''.'' # b" "CHR ''.'' \<notin> set a"
    using True by (metis set_rev split_list_first)
  then have t: "takeWhile (\<lambda>c. c \<noteq> CHR ''.'') (rev (lastElem p)) = a"
    by (auto intro!: takeWhile_eq_all_conv [THEN iffD2] simp: takeWhile_append)
  have "lastElem p = rev b @ CHR ''.'' # rev a"
    using e(1) by (metis append.assoc append_Cons append_Nil rev.simps(2) rev_append rev_rev_ident)
  moreover have "suffix (lastElem p) p"
    unfolding lastElem_def suffix_def
    by (metis rev_append rev_rev_ident takeWhile_dropWhile_id)
  ultimately have "suffix (CHR ''.'' # rev a) p"
    by (metis suffix_appendD suffix_def suffix_order.trans)
  with True t show ?thesis by (simp add: Ext_def HasSuffix_def)
qed

end
