(* ===== verification/Bitbucket.thy ===== *)
theory Bitbucket
  imports GoStrings
begin

text \<open>
  The data types of \<open>pkg/bitbucket\<close> that cross the client interfaces: tags, branches, commits,
  pull requests, repositories, build statuses and code insight reports.  The requests
  themselves are operations of the environment (theory World).
\<close>

section \<open>Tags (tags.go)\<close>

record tag =
  tg_ID :: string
  tg_DisplayID :: string
  tg_Type :: string
  tg_LatestCommit :: string
  tg_LatestChangeset :: string
  tg_Hash :: string

record tagPage =
  tp_Size :: int
  tp_Limit :: int
  tp_IsLastPage :: bool
  tp_Values :: "tag list"
  tp_Start :: int

record tagCreatePayload =
  tc_Message :: string
  tc_Name :: string
  tc_Force :: bool
  tc_StartPoint :: string
  tc_Type :: string

record tagListParams =
  tl_FilterText :: string
  tl_OrderBy :: string

section \<open>Branches (branches.go)\<close>

record branch =
  br_ID :: string
  br_DisplayID :: string
  br_Type :: string
  br_LatestCommit :: string
  br_LatestChangeset :: string
  br_IsDefault :: bool

record branchPage =
  bp_Size :: int
  bp_Limit :: int
  bp_IsLastPage :: bool
  bp_Values :: "branch list"
  bp_Start :: int

record branchListParams =
  bl_Base :: string
  bl_Details :: bool
  bl_FilterText :: string
  bl_OrderBy :: string
  bl_BoostMatches :: bool

section \<open>Commits and pull requests (commits.go)\<close>

record person =
  pe_Name :: string
  pe_EmailAddress :: string

record commit =
  cm_ID :: string
  cm_DisplayID :: string
  cm_Author :: person
  cm_AuthorTimestamp :: int
  cm_Committer :: person
  cm_CommitterTimestamp :: int
  cm_Message :: string
  cm_Parents :: "(string \<times> string) list"

record commitPage =
  cp_Size :: int
  cp_Limit :: int
  cp_IsLastPage :: bool
  cp_Values :: "commit list"
  cp_Start :: int
  cp_AuthorCount :: int
  cp_TotalCount :: int

record commitListParams =
  cl_Since :: string
  cl_Until :: string

record user =
  us_Name :: string
  us_EmailAddress :: string
  us_ID :: int
  us_DisplayName :: string
  us_Active :: bool
  us_Slug :: string
  us_Type :: string

text \<open>The member \<open>Name\<close> of a repository reference is untyped JSON, kept as text.\<close>

record ref =
  rf_ID :: string
  rf_Repository_Slug :: string
  rf_Repository_Name :: string
  rf_Repository_Project_Key :: string

text \<open>One participant: the user, the role, whether approved, the status.\<close>

type_synonym participant = "user \<times> string \<times> bool \<times> string"

record pullRequest =
  pq_ID :: int
  pq_Version :: int
  pq_Title :: string
  pq_Description :: string
  pq_State :: string
  pq_Open :: bool
  pq_Closed :: bool
  pq_CreatedDate :: int
  pq_UpdatedDate :: int
  pq_FromRef :: ref
  pq_ToRef :: ref
  pq_Locked :: bool
  pq_Author :: participant
  pq_Reviewers :: "(string \<times> participant) list"
  pq_Participants :: "participant list"
  pq_Links_Self :: "string list"

record pullRequestPage =
  pp_Size :: int
  pp_Limit :: int
  pp_IsLastPage :: bool
  pp_Values :: "pullRequest list"
  pp_Start :: int

section \<open>Repositories (repos.go)\<close>

record project =
  pj_Key :: string
  pj_Name :: string
  pj_ID :: int
  pj_Description :: string
  pj_Public :: bool
  pj_Type :: string
  pj_Links_Self :: "string list"

record repo =
  rp_Slug :: string
  rp_ID :: int
  rp_Name :: string
  rp_Description :: string
  rp_Hierarchyid :: string
  rp_SCMID :: string
  rp_State :: string
  rp_StatusMessage :: string
  rp_Forkable :: bool
  rp_Project :: project
  rp_Public :: bool
  rp_Links_Clone :: "(string \<times> string) list"
  rp_Links_Self :: "string list"

record repoPage =
  rg_Size :: int
  rg_Limit :: int
  rg_IsLastPage :: bool
  rg_Values :: "repo list"
  rg_Start :: int

section \<open>Build status and code insights (build\_status.go, code\_insights.go)\<close>

definition BuildStatusInProgress :: string where "BuildStatusInProgress = ''INPROGRESS''"
definition BuildStatusSuccessful :: string where "BuildStatusSuccessful = ''SUCCESSFUL''"
definition BuildStatusFailed :: string where "BuildStatusFailed = ''FAILED''"

record buildStatusCreatePayload =
  bs_State :: string
  bs_Key :: string
  bs_Name :: string
  bs_URL :: string
  bs_Description :: string

definition InsightReportPass :: string where "InsightReportPass = ''PASS''"
definition InsightReportFail :: string where "InsightReportFail = ''FAIL''"

record insightReportData =
  id_Title :: string
  id_Value :: "(string \<times> string) list"
  id_Type :: string

record insightReportCreatePayload =
  ir_Data :: "insightReportData list"
  ir_Details :: string
  ir_Title :: string
  ir_Reporter :: string
  ir_CreatedDate :: int
  ir_Link :: string
  ir_LogoURL :: string
  ir_Result :: string

end
