(* ===== verification/Tekton.thy ===== *)
theory Tekton
  imports GoStrings
begin

text \<open>
  The Tekton and Kubernetes objects the program builds and inspects.  Their Go types live in
  third-party packages; the records keep the members the program reads or writes and one
  opaque member for the rest, so that an object passes through the model unchanged.  The
  methods of \<open>tekton.PipelineRun\<close> (\<open>IsDone\<close>, \<open>IsPending\<close>, \<open>IsCancelled\<close>, \<open>IsTimedOut\<close>)
  are a parameter, the record \<open>runMethods\<close>.
\<close>

type_synonym labels = "(string \<times> string) list"

text \<open>Reading a Go map of strings: a missing key gives the empty string.\<close>

definition lookupS :: "labels \<Rightarrow> string \<Rightarrow> string" where
  "lookupS m k = (case map_of m k of None \<Rightarrow> [] | Some v \<Rightarrow> v)"

record pipelineTask =
  pt_Name :: string
  pt_TaskRef :: "(string \<times> string) option"
  pt_RunAfter :: "string list"
  pt_Workspaces :: "(string \<times> string) list"
  pt_Params :: "(string \<times> string) list"
  pt_Rest :: string

record paramSpec =
  ps_Name :: string
  ps_Type :: string
  ps_Default :: string

record pipeline =
  pl_Name :: string
  pl_Labels :: labels
  pl_ResourceVersion :: string
  pl_APIVersion :: string
  pl_Kind :: string
  pl_Description :: string
  pl_Params :: "paramSpec list"
  pl_Tasks :: "pipelineTask list"
  pl_Workspaces :: "string list"
  pl_Finally :: "pipelineTask list"

record pipelineRun =
  pr_Name :: string
  pr_GenerateName :: string
  pr_Labels :: labels
  pr_CreationTimestamp :: int
  pr_ResourceVersion :: string
  pr_APIVersion :: string
  pr_Kind :: string
  pr_PipelineRef :: string
  pr_ServiceAccountName :: string
  pr_Workspaces :: "(string \<times> string) list"
  pr_SpecStatus :: string
  pr_Status :: string

record runMethods =
  tk_IsDone :: "pipelineRun \<Rightarrow> bool"
  tk_IsPending :: "pipelineRun \<Rightarrow> bool"
  tk_IsCancelled :: "pipelineRun \<Rightarrow> bool"
  tk_IsTimedOut :: "pipelineRun \<Rightarrow> bool"

definition PipelineRunSpecStatusPending :: string where
  "PipelineRunSpecStatusPending = ''PipelineRunPending''"

text \<open>Documented behaviour of Tekton: a run is pending when its spec status says so.\<close>

definition pendingLaw :: "runMethods \<Rightarrow> bool" where
  "pendingLaw tk \<longleftrightarrow>
     (\<forall>pr. tk_IsPending tk pr \<longleftrightarrow> pr_SpecStatus pr = PipelineRunSpecStatusPending)"

record pvc =
  vc_Name :: string
  vc_Labels :: labels
  vc_Finalizers :: "string list"
  vc_Annotations :: labels
  vc_AccessModes :: "string list"
  vc_StorageRequest :: string
  vc_StorageClassName :: string
  vc_VolumeMode :: string

text \<open>Concrete objects, used by the examples.\<close>

definition exampleMethods :: runMethods where
  "exampleMethods =
     \<lparr>tk_IsDone = (\<lambda>pr. pr_Status pr = ''Succeeded'' \<or> pr_Status pr = ''Failed''),
      tk_IsPending = (\<lambda>pr. pr_SpecStatus pr = PipelineRunSpecStatusPending),
      tk_IsCancelled = (\<lambda>pr. pr_SpecStatus pr = ''Cancelled''),
      tk_IsTimedOut = (\<lambda>pr. pr_Status pr = ''PipelineRunTimeout'')\<rparr>"

definition exampleRun :: "string \<Rightarrow> labels \<Rightarrow> int \<Rightarrow> string \<Rightarrow> string \<Rightarrow> pipelineRun" where
  "exampleRun name ls created spec status =
     \<lparr>pr_Name = name, pr_GenerateName = [], pr_Labels = ls, pr_CreationTimestamp = created,
      pr_ResourceVersion = [], pr_APIVersion = [], pr_Kind = [], pr_PipelineRef = [],
      pr_ServiceAccountName = [], pr_Workspaces = [], pr_SpecStatus = spec, pr_Status = status\<rparr>"

lemma exampleMethods_pending: "pendingLaw exampleMethods"
  by (simp add: pendingLaw_def exampleMethods_def)

end
