(* ===== verification/Config.thy ===== *)
theory Config
  imports Tekton
begin

text \<open>
  The pipeline configuration of a repository, \<open>pkg/config/ods.go\<close>: the ODS record, its
  validation, the choice of an environment, and reading it from bytes.  The YAML decoder is
  third-party code (\<open>sigs.k8s.io/yaml\<close>) and a parameter; it returns \<open>None\<close> for a document
  that leaves the pointer nil.
\<close>

section \<open>Data\<close>

definition DevStage :: string where "DevStage = ''dev''"
definition QAStage :: string where "QAStage = ''qa''"
definition ProdStage :: string where "ProdStage = ''prod''"
definition DefaultBranch :: string where "DefaultBranch = ''refs/heads/master''"
definition ODSYMLFile :: string where "ODSYMLFile = ''ods.yml''"
definition ODSYAMLFile :: string where "ODSYAMLFile = ''ods.yaml''"

definition ODSFileCandidates :: "string list" where
  "ODSFileCandidates = [ODSYAMLFile, ODSYMLFile]"

record repository =
  re_Name :: string
  re_URL :: string
  re_Branch :: string

record branchToEnvironmentMapping =
  be_Branch :: string
  be_Environment :: string

text \<open>The free-form member \<open>Config\<close> of an environment is never read; it is kept opaque.\<close>

record environment =
  en_Name :: string
  en_Stage :: string
  en_APIServer :: string
  en_APICredentialsSecret :: string
  en_RegistryHost :: string
  en_RegistryTLSVerify :: "bool option"
  en_Namespace :: string
  en_Config :: string
  en_APIToken :: string

record pipelineSpec =
  sp_Tasks :: "pipelineTask list"
  sp_Finally :: "pipelineTask list"

record ODS =
  od_Repositories :: "repository list"
  od_Environments :: "environment list"
  od_BranchToEnvironmentMapping :: "branchToEnvironmentMapping list"
  od_Pipeline :: pipelineSpec
  od_Version :: string

section \<open>Operations\<close>

text \<open>The pattern \<open>^[a-z-]*$\<close>; in Go's syntax \<open>$\<close> without the \<open>m\<close> flag is the end of the text.\<close>

definition envNamePattern :: "string \<Rightarrow> bool" where
  "envNamePattern s \<longleftrightarrow> (\<forall>c\<in>set s. isLowerC c \<or> c = CHR ''-'')"

definition Environment_Validate :: "environment \<Rightarrow> string + unit" where
  "Environment_Validate e =
     (if en_Name e = [] then Inl ''name of environment must not be blank''
      else if \<not> envNamePattern (en_Name e) then Inl (''name of environment must match '' @ ''^[a-z-]*$'')
      else if en_Stage e = DevStage \<or> en_Stage e = QAStage \<or> en_Stage e = ProdStage then Inr ()
      else Inl (''invalid stage value '' @ [CHR 0x27] @ en_Stage e @ [CHR 0x27] @ '' for environment '' @ en_Name e))"

primrec validateEnvironments :: "environment list \<Rightarrow> string + unit" where
  "validateEnvironments [] = Inr ()"
| "validateEnvironments (e # es) = (case Environment_Validate e of
       Inl err \<Rightarrow> Inl err
     | Inr _ \<Rightarrow> validateEnvironments es)"

definition ODS_Validate :: "ODS \<Rightarrow> string + unit" where
  "ODS_Validate o' = validateEnvironments (od_Environments o')"

text \<open>The loop of \<open>(o *ODS) Environment\<close>: \<open>envs\<close> collects the names already passed.\<close>

fun environmentLoop :: "environment list \<Rightarrow> string \<Rightarrow> string list \<Rightarrow> string + environment" where
  "environmentLoop [] environment envs =
     Inl (''no environment matched '' @ [CHR 0x27] @ environment @ [CHR 0x27] @ '', have: '' @ Join envs '', '')"
| "environmentLoop (e # es) environment envs =
     (if en_Name e = environment then Inr e
      else environmentLoop es environment (envs @ [en_Name e]))"

definition ODS_Environment :: "ODS \<Rightarrow> string \<Rightarrow> string + environment" where
  "ODS_Environment o' environment = environmentLoop (od_Environments o') environment []"

text \<open>
  \<open>Read\<close>: the decoder leaves \<open>odsConfig\<close> nil for a document whose value is null, and the
  call of \<open>Validate\<close> then dereferences a nil pointer.
\<close>

type_synonym yamlODS = "string \<Rightarrow> string + ODS option"

definition Config_Read :: "yamlODS \<Rightarrow> string \<Rightarrow> ('w, ODS) prog" where
  "Config_Read dec body =
     (if body = [] then failE ''config is empty''
      else case dec body of
          Inl e \<Rightarrow> failE (''could not unmarshal config: '' @ e)
        | Inr None \<Rightarrow> panicP ''nil pointer dereference''
        | Inr (Some o') \<Rightarrow> (case ODS_Validate o' of
              Inl e \<Rightarrow> failE e
            | Inr _ \<Rightarrow> ret o'))"

section \<open>Facts\<close>

text \<open>A valid environment: the abstract reading of \<open>Validate\<close>.\<close>

definition validEnvironment :: "environment \<Rightarrow> bool" where
  "validEnvironment e \<longleftrightarrow> en_Name e \<noteq> [] \<and> envNamePattern (en_Name e) \<and>
     en_Stage e \<in> {DevStage, QAStage, ProdStage}"

lemma Environment_Validate_iff: "Environment_Validate e = Inr () \<longleftrightarrow> validEnvironment e"
  by (auto simp: Environment_Validate_def validEnvironment_def)

lemma validateEnvironments_iff:
  "validateEnvironments es = Inr () \<longleftrightarrow> (\<forall>e\<in>set es. validEnvironment e)"
  by (induction es) (auto simp: Environment_Validate_iff [symmetric] split: sum.split)

lemma environmentLoop_Inr:
  "environmentLoop es n envs = Inr e \<longleftrightarrow> findFirst (\<lambda>e. en_Name e = n) es = Some e"
  by (induction es n envs rule: environmentLoop.induct) auto

lemma environmentLoop_Inl:
  "(\<exists>err. environmentLoop es n envs = Inl err) \<longleftrightarrow> n \<notin> en_Name ` set es"
  by (induction es n envs rule: environmentLoop.induct) auto

lemma ODS_Environment_Inr:
  "ODS_Environment o' n = Inr e \<longleftrightarrow> findFirst (\<lambda>e. en_Name e = n) (od_Environments o') = Some e"
  by (simp add: ODS_Environment_def environmentLoop_Inr)

lemma Config_Read_Ok:
  "Config_Read dec body w = (Ok o', w') \<longleftrightarrow>
     body \<noteq> [] \<and> dec body = Inr (Some o') \<and> w' = w \<and> (\<forall>e\<in>set (od_Environments o'). validEnvironment e)"
proof (cases "validateEnvironments (od_Environments o')")
  case (Inl e)
  then have "\<not> (\<forall>e\<in>set (od_Environments o'). validEnvironment e)"
    by (simp add: validateEnvironments_iff [symmetric])
  with Inl show ?thesis
    by (auto simp: Config_Read_def ODS_Validate_def prog_simps split: sum.splits option.splits)
next
  case (Inr u)
  then have "\<forall>e\<in>set (od_Environments o'). validEnvironment e"
    by (simp add: validateEnvironments_iff [symmetric])
  with Inr show ?thesis
    by (auto simp: Config_Read_def ODS_Validate_def prog_simps split: sum.splits option.splits)
qed

end
