(* ===== verification/World.thy ===== *)
theory World
  imports Bitbucket Config "HOL-Library.AList" "HOL-Library.List_Lexorder"
begin

text \<open>
  The world a process of this repository acts on: a tree of files with a working directory,
  the environment variables, the clock, and the trace of calls made to other systems
  (Bitbucket, Nexus, Tekton, Kubernetes, SonarQube, child processes).  What those systems
  answer is the parameter \<open>services\<close>: each answer may depend on the whole history of calls.
\<close>

section \<open>File trees\<close>

text \<open>A file carries its content and modification time.\<close>

datatype node = File string int | Dir "(string \<times> node) list"

datatype statRes = StatOk node | NotExist | StatErr string

primrec fs_stat :: "string list \<Rightarrow> node \<Rightarrow> statRes" where
  "fs_stat [] n = StatOk n"
| "fs_stat (p # ps) n = (case n of
       File c t \<Rightarrow> StatErr ''not a directory''
     | Dir es \<Rightarrow> (case map_of es p of None \<Rightarrow> NotExist | Some m \<Rightarrow> fs_stat ps m))"

definition fs_get :: "string list \<Rightarrow> node \<Rightarrow> node option" where
  "fs_get p n = (case fs_stat p n of StatOk m \<Rightarrow> Some m | _ \<Rightarrow> None)"

primrec fs_put :: "string list \<Rightarrow> node \<Rightarrow> node \<Rightarrow> node option" where
  "fs_put [] v n = Some v"
| "fs_put (p # ps) v n = (case n of
       File c t \<Rightarrow> None
     | Dir es \<Rightarrow> (case map_of es p of
           None \<Rightarrow> (if ps = [] then Some (Dir (AList.update p v es)) else None)
         | Some m \<Rightarrow> map_option (\<lambda>m'. Dir (AList.update p m' es)) (fs_put ps v m)))"

primrec fs_del :: "string list \<Rightarrow> node \<Rightarrow> node" where
  "fs_del [] n = n"
| "fs_del (p # ps) n = (case n of
       File c t \<Rightarrow> n
     | Dir es \<Rightarrow> (if ps = [] then Dir (AList.delete p es)
         else case map_of es p of
             None \<Rightarrow> n
           | Some m \<Rightarrow> Dir (AList.update p (fs_del ps m) es)))"

primrec fs_mkdirs :: "string list \<Rightarrow> node \<Rightarrow> node option" where
  "fs_mkdirs [] n = (case n of File c t \<Rightarrow> None | Dir es \<Rightarrow> Some n)"
| "fs_mkdirs (p # ps) n = (case n of
       File c t \<Rightarrow> None
     | Dir es \<Rightarrow> map_option (\<lambda>m'. Dir (AList.update p m' es))
         (fs_mkdirs ps (case map_of es p of None \<Rightarrow> Dir [] | Some m \<Rightarrow> m)))"

definition isDirNode :: "node \<Rightarrow> bool" where
  "isDirNode n = (case n of Dir _ \<Rightarrow> True | File _ _ \<Rightarrow> False)"

lemma isDirNode_simps [simp]: "isDirNode (Dir es)" "\<not> isDirNode (File c t)"
  by (simp_all add: isDirNode_def)

subsection \<open>Laws of the tree operations\<close>

lemma fs_get_simps [simp]:
  "fs_get [] n = Some n"
  "fs_get (p # ps) (File c t) = None"
  "fs_get (p # ps) (Dir es) = (case map_of es p of None \<Rightarrow> None | Some m \<Rightarrow> fs_get ps m)"
  by (auto simp: fs_get_def split: option.split)

lemma fs_get_put_same: "fs_put p v n = Some n' \<Longrightarrow> fs_get p n' = Some v"
proof (induction p arbitrary: n n')
  case Nil
  then show ?case by simp
next
  case (Cons a p)
  then show ?case
    by (cases n) (auto simp: update_conv' split: option.splits if_splits)
qed

lemma fs_get_put_other:
  "fs_put p v n = Some n' \<Longrightarrow> \<not> prefix p q \<Longrightarrow> \<not> prefix q p \<Longrightarrow> fs_get q n' = fs_get q n"
proof (induction p arbitrary: n n' q)
  case Nil
  then show ?case by simp
next
  case (Cons a p)
  then obtain b q' where q: "q = b # q'" by (cases q) auto
  from Cons.prems(1) obtain es where n: "n = Dir es" by (cases n) auto
  show ?case
  proof (cases "b = a")
    case False
    with Cons.prems(1) n q show ?thesis
      by (auto simp: update_conv' split: option.splits if_splits)
  next
    case True
    with Cons.prems q have q': "\<not> prefix p q'" "\<not> prefix q' p" by auto
    show ?thesis
    proof (cases "map_of es a")
      case None
      with Cons.prems(1) n have "p = []" by (auto split: if_splits)
      with q' show ?thesis by simp
    next
      case (Some m)
      with Cons.prems(1) n obtain m' where "fs_put p v m = Some m'"
        "n' = Dir (AList.update a m' es)" by auto
      with Cons.IH [OF _ q'] Some n q True show ?thesis by (simp add: update_conv')
    qed
  qed
qed

lemma fs_get_put_above:
  "fs_put p v n = Some n' \<Longrightarrow> prefix q p \<Longrightarrow> q \<noteq> p \<Longrightarrow>
     \<exists>es es'. fs_get q n = Some (Dir es) \<and> fs_get q n' = Some (Dir es')"
proof (induction p arbitrary: n n' q)
  case Nil
  then show ?case by simp
next
  case (Cons a p)
  from Cons.prems(1) obtain es where n: "n = Dir es" by (cases n) auto
  show ?case
  proof (cases q)
    case Nil
    with Cons.prems(1) n show ?thesis by (auto split: option.splits if_splits)
  next
    case (Cons b q')
    with \<open>prefix q (a # p)\<close> \<open>q \<noteq> a # p\<close> have q': "b = a" "prefix q' p" "q' \<noteq> p" by auto
    show ?thesis
    proof (cases "map_of es a")
      case None
      with Cons.prems(1) n have "p = []" by (auto split: if_splits)
      with q' show ?thesis by simp
    next
      case (Some m)
      with Cons.prems(1) n obtain m' where "fs_put p v m = Some m'"
        "n' = Dir (AList.update a m' es)" by auto
      with Cons.IH [OF _ q'(2,3)] Some n Cons q' show ?thesis by (simp add: update_conv')
    qed
  qed
qed

lemma fs_put_ok:
  "fs_get q n = Some (Dir es) \<Longrightarrow> \<exists>n'. fs_put (q @ [a]) v n = Some n'"
proof (induction q arbitrary: n)
  case Nil
  then show ?case by (auto split: option.split)
next
  case (Cons b q)
  then show ?case by (cases n) (auto split: option.splits)
qed

lemma fs_get_del_same: "p \<noteq> [] \<Longrightarrow> fs_get p (fs_del p n) = None"
proof (induction p arbitrary: n)
  case Nil
  then show ?case by simp
next
  case (Cons a p)
  then show ?case
    by (cases n) (auto simp: update_conv' delete_conv' split: option.split)
qed

lemma fs_get_del_other:
  "p \<noteq> [] \<Longrightarrow> \<not> prefix p q \<Longrightarrow> \<not> prefix q p \<Longrightarrow> fs_get q (fs_del p n) = fs_get q n"
proof (induction p arbitrary: n q)
  case Nil
  then show ?case by simp
next
  case (Cons a p)
  from Cons.prems obtain b q' where q: "q = b # q'" by (cases q) auto
  show ?case
  proof (cases n)
    case (File c t)
    then show ?thesis by simp
  next
    case (Dir es)
    show ?thesis
    proof (cases "b = a")
      case False
      with Dir q show ?thesis
        by (auto simp: update_conv' delete_conv' split: option.split)
    next
      case True
      with Cons.prems q have "\<not> prefix p q'" "\<not> prefix q' p" by auto
      moreover from this have "p \<noteq> []" by auto
      ultimately show ?thesis
        using Cons.IH Dir q True by (auto simp: update_conv' split: option.split)
    qed
  qed
qed

lemma fs_mkdirs_get: "fs_mkdirs p n = Some n' \<Longrightarrow> \<exists>es. fs_get p n' = Some (Dir es)"
proof (induction p arbitrary: n n')
  case Nil
  then show ?case by (cases n) auto
next
  case (Cons a p)
  then show ?case by (cases n) (auto simp: update_conv')
qed

section \<open>Calls to other systems\<close>

text \<open>One constructor per operation the program performs outside its own process.\<close>

datatype call =
    CExec string "string list" "string list" string
  | CPrint string
  | CSleep int
  | CTagList string string tagListParams
  | CTagGet string string string
  | CTagCreate string string tagCreatePayload
  | CBranchList string string branchListParams
  | CCommitList string string commitListParams
  | CCommitGet string string string
  | CCommitPullRequestList string string string
  | CRepoList string
  | CRawGet string string string string
  | CBuildStatusCreate string buildStatusCreatePayload
  | CInsightReportCreate string string string string insightReportCreatePayload
  | CSearchAssets string string
  | CHttpGet string
  | CUploadComponent string string string string
  | CGetPipeline string
  | CCreatePipeline pipeline
  | CUpdatePipeline pipeline
  | CDeletePipeline string
  | CListPipelineRuns labels
  | CCreatePipelineRun pipelineRun
  | CUpdatePipelineRun pipelineRun
  | CDeletePipelineRun string
  | CGetPVC string
  | CCreatePVC pvc
  | CGetConfigMap string string
  | CGetSecret string string
  | CSonarGet string
  | CWebhook string string string string

record helmChart =
  hc_Name :: string
  hc_Version :: string

record artifactInfo =
  ai_URL :: string
  ai_Directory :: string
  ai_Name :: string

record artifactsManifest =
  am_SourceRepository :: string
  am_Artifacts :: "artifactInfo list"

text \<open>
  The answers.  \<open>Inl\<close> is an error; a PVC lookup distinguishes "not found" (\<open>True\<close>) from other
  errors.  The last fields are third-party functions without a history: the YAML decoders, the
  shell-word splitter, the syntax check of Kubernetes quantities, the constructors of the Nexus
  and Kubernetes clients (the latter for a kubeconfig file, empty inside a cluster), the text
  templates (their data given as the strings the template can refer to), and whether a program
  is in the search path.
\<close>

record services =
  sv_Exec :: "call list \<Rightarrow> string \<Rightarrow> string list \<Rightarrow> string list \<Rightarrow> string \<Rightarrow> node \<Rightarrow> node \<times> string \<times> string \<times> string option"
  sv_TagList :: "call list \<Rightarrow> string \<Rightarrow> string \<Rightarrow> tagListParams \<Rightarrow> string + tagPage"
  sv_TagGet :: "call list \<Rightarrow> string \<Rightarrow> string \<Rightarrow> string \<Rightarrow> string + tag"
  sv_TagCreate :: "call list \<Rightarrow> string \<Rightarrow> string \<Rightarrow> tagCreatePayload \<Rightarrow> string + tag"
  sv_BranchList :: "call list \<Rightarrow> string \<Rightarrow> string \<Rightarrow> branchListParams \<Rightarrow> string + branchPage"
  sv_CommitList :: "call list \<Rightarrow> string \<Rightarrow> string \<Rightarrow> commitListParams \<Rightarrow> string + commitPage"
  sv_CommitGet :: "call list \<Rightarrow> string \<Rightarrow> string \<Rightarrow> string \<Rightarrow> string + commit"
  sv_CommitPullRequestList :: "call list \<Rightarrow> string \<Rightarrow> string \<Rightarrow> string \<Rightarrow> string + pullRequestPage"
  sv_RepoList :: "call list \<Rightarrow> string \<Rightarrow> string + repoPage"
  sv_RawGet :: "call list \<Rightarrow> string \<Rightarrow> string \<Rightarrow> string \<Rightarrow> string \<Rightarrow> string + string"
  sv_BuildStatusCreate :: "call list \<Rightarrow> string \<Rightarrow> buildStatusCreatePayload \<Rightarrow> string + unit"
  sv_InsightReportCreate :: "call list \<Rightarrow> string \<Rightarrow> string \<Rightarrow> string \<Rightarrow> string \<Rightarrow> insightReportCreatePayload \<Rightarrow> string + unit"
  sv_SearchAssets :: "call list \<Rightarrow> string \<Rightarrow> string \<Rightarrow> string + string list"
  sv_HttpGet :: "call list \<Rightarrow> string \<Rightarrow> string + string"
  sv_UploadComponent :: "call list \<Rightarrow> string \<Rightarrow> string \<Rightarrow> string \<Rightarrow> string \<Rightarrow> string + unit"
  sv_GetPipeline :: "call list \<Rightarrow> string \<Rightarrow> string + pipeline"
  sv_CreatePipeline :: "call list \<Rightarrow> pipeline \<Rightarrow> string + pipeline"
  sv_UpdatePipeline :: "call list \<Rightarrow> pipeline \<Rightarrow> string + pipeline"
  sv_DeletePipeline :: "call list \<Rightarrow> string \<Rightarrow> string + unit"
  sv_ListPipelineRuns :: "call list \<Rightarrow> labels \<Rightarrow> string + pipelineRun list"
  sv_CreatePipelineRun :: "call list \<Rightarrow> pipelineRun \<Rightarrow> string + pipelineRun"
  sv_UpdatePipelineRun :: "call list \<Rightarrow> pipelineRun \<Rightarrow> string + pipelineRun"
  sv_DeletePipelineRun :: "call list \<Rightarrow> string \<Rightarrow> string + unit"
  sv_GetPVC :: "call list \<Rightarrow> string \<Rightarrow> (bool \<times> string) + pvc"
  sv_CreatePVC :: "call list \<Rightarrow> pvc \<Rightarrow> string + pvc"
  sv_GetConfigMap :: "call list \<Rightarrow> string \<Rightarrow> string \<Rightarrow> string + labels"
  sv_GetSecret :: "call list \<Rightarrow> string \<Rightarrow> string \<Rightarrow> string + labels"
  sv_SonarGet :: "call list \<Rightarrow> string \<Rightarrow> string + (int \<times> string)"
  sv_Webhook :: "call list \<Rightarrow> string \<Rightarrow> string \<Rightarrow> string \<Rightarrow> string \<Rightarrow> string + (int \<times> string \<times> string)"
  sv_YamlODS :: yamlODS
  sv_YamlManifest :: "string \<Rightarrow> string + artifactsManifest option"
  sv_YamlChart :: "string \<Rightarrow> string + helmChart option"
  sv_Shlex :: "string \<Rightarrow> string + string list"
  sv_QuantityValid :: "string \<Rightarrow> bool"
  sv_NexusNew :: "string \<Rightarrow> string \<Rightarrow> string \<Rightarrow> string + unit"
  sv_KubeNew :: "string \<Rightarrow> string + unit"
  sv_TemplateParse :: "string \<Rightarrow> string + unit"
  sv_TemplateExecute :: "string \<Rightarrow> (string \<times> string) list \<Rightarrow> string + string"
  sv_LookPath :: "string \<Rightarrow> bool"

text \<open>The environment in which every operation fails; concrete environments override it.\<close>

definition noServices :: services where
  "noServices =
     \<lparr>sv_Exec = (\<lambda>h e a x d r. (r, [], [], Some ''unavailable'')),
      sv_TagList = (\<lambda>_ _ _ _. Inl ''unavailable''),
      sv_TagGet = (\<lambda>_ _ _ _. Inl ''unavailable''),
      sv_TagCreate = (\<lambda>_ _ _ _. Inl ''unavailable''),
      sv_BranchList = (\<lambda>_ _ _ _. Inl ''unavailable''),
      sv_CommitList = (\<lambda>_ _ _ _. Inl ''unavailable''),
      sv_CommitGet = (\<lambda>_ _ _ _. Inl ''unavailable''),
      sv_CommitPullRequestList = (\<lambda>_ _ _ _. Inl ''unavailable''),
      sv_RepoList = (\<lambda>_ _. Inl ''unavailable''),
      sv_RawGet = (\<lambda>_ _ _ _ _. Inl ''unavailable''),
      sv_BuildStatusCreate = (\<lambda>_ _ _. Inl ''unavailable''),
      sv_InsightReportCreate = (\<lambda>_ _ _ _ _ _. Inl ''unavailable''),
      sv_SearchAssets = (\<lambda>_ _ _. Inl ''unavailable''),
      sv_HttpGet = (\<lambda>_ _. Inl ''unavailable''),
      sv_UploadComponent = (\<lambda>_ _ _ _ _. Inl ''unavailable''),
      sv_GetPipeline = (\<lambda>_ _. Inl ''unavailable''),
      sv_CreatePipeline = (\<lambda>_ _. Inl ''unavailable''),
      sv_UpdatePipeline = (\<lambda>_ _. Inl ''unavailable''),
      sv_DeletePipeline = (\<lambda>_ _. Inl ''unavailable''),
      sv_ListPipelineRuns = (\<lambda>_ _. Inl ''unavailable''),
      sv_CreatePipelineRun = (\<lambda>_ _. Inl ''unavailable''),
      sv_UpdatePipelineRun = (\<lambda>_ _. Inl ''unavailable''),
      sv_DeletePipelineRun = (\<lambda>_ _. Inl ''unavailable''),
      sv_GetPVC = (\<lambda>h n. Inl (False, ''unavailable'')),
      sv_CreatePVC = (\<lambda>_ _. Inl ''unavailable''),
      sv_GetConfigMap = (\<lambda>_ _ _. Inl ''unavailable''),
      sv_GetSecret = (\<lambda>_ _ _. Inl ''unavailable''),
      sv_SonarGet = (\<lambda>_ _. Inl ''unavailable''),
      sv_Webhook = (\<lambda>_ _ _ _ _. Inl ''unavailable''),
      sv_YamlODS = (\<lambda>_. Inl ''unavailable''),
      sv_YamlManifest = (\<lambda>_. Inl ''unavailable''),
      sv_YamlChart = (\<lambda>_. Inl ''unavailable''),
      sv_Shlex = (\<lambda>_. Inl ''unavailable''),
      sv_QuantityValid = (\<lambda>s. False),
      sv_NexusNew = (\<lambda>_ _ _. Inl ''unavailable''),
      sv_KubeNew = (\<lambda>_. Inl ''unavailable''),
      sv_TemplateParse = (\<lambda>_. Inl ''unavailable''),
      sv_TemplateExecute = (\<lambda>_ _. Inl ''unavailable''),
      sv_LookPath = (\<lambda>_. False)\<rparr>"

section \<open>The world\<close>

text \<open>\<open>w_faulty p\<close>: system calls on path \<open>p\<close> fail for a reason other than a missing file.\<close>

record world =
  w_root :: node
  w_cwd :: "string list"
  w_faulty :: "string list \<Rightarrow> bool"
  w_getenv :: "string \<Rightarrow> string"
  w_now :: int
  w_trace :: "call list"

type_synonym 'a prog_w = "(world, 'a) prog"

definition resolve :: "world \<Rightarrow> string \<Rightarrow> string list" where
  "resolve w s = (if HasPrefix s ''/'' then cleanElems s
     else rev (cleanStep True (rev (w_cwd w)) (Split s ''/'')))"

definition osStat :: "string \<Rightarrow> world \<Rightarrow> statRes" where
  "osStat s w = (if w_faulty w (resolve w s) then StatErr (''stat '' @ s @ '': input/output error'')
     else fs_stat (resolve w s) (w_root w))"

definition IsNotExist :: "statRes \<Rightarrow> bool" where
  "IsNotExist r \<longleftrightarrow> r = NotExist"

definition StatSucceeds :: "statRes \<Rightarrow> bool" where
  "StatSucceeds r = (case r of StatOk n \<Rightarrow> True | _ \<Rightarrow> False)"

definition osOpen :: "string \<Rightarrow> unit prog_w" where
  "osOpen s w = (case osStat s w of
       StatOk n \<Rightarrow> (Ok (), w)
     | NotExist \<Rightarrow> (Err (''open '' @ s @ '': no such file or directory''), w)
     | StatErr e \<Rightarrow> (Err e, w))"

definition readFile :: "string \<Rightarrow> string prog_w" where
  "readFile s w = (case osStat s w of
       StatOk (File c t) \<Rightarrow> (Ok c, w)
     | StatOk (Dir es) \<Rightarrow> (Err (''read '' @ s @ '': is a directory''), w)
     | NotExist \<Rightarrow> (Err (''open '' @ s @ '': no such file or directory''), w)
     | StatErr e \<Rightarrow> (Err e, w))"

definition writeFile :: "string \<Rightarrow> string \<Rightarrow> unit prog_w" where
  "writeFile s content w = (case osStat s w of
       StatOk (Dir es) \<Rightarrow> (Err (''open '' @ s @ '': is a directory''), w)
     | StatErr e \<Rightarrow> (Err e, w)
     | _ \<Rightarrow> (case fs_put (resolve w s) (File content (w_now w)) (w_root w) of
           None \<Rightarrow> (Err (''open '' @ s @ '': no such file or directory''), w)
         | Some r \<Rightarrow> (Ok (), w\<lparr>w_root := r\<rparr>)))"

definition osCreate :: "string \<Rightarrow> unit prog_w" where
  "osCreate s = writeFile s []"

definition osMkdir :: "string \<Rightarrow> unit prog_w" where
  "osMkdir s w = (case osStat s w of
       StatOk n \<Rightarrow> (Err (''mkdir '' @ s @ '': file exists''), w)
     | StatErr e \<Rightarrow> (Err e, w)
     | NotExist \<Rightarrow> (case fs_put (resolve w s) (Dir []) (w_root w) of
           None \<Rightarrow> (Err (''mkdir '' @ s @ '': no such file or directory''), w)
         | Some r \<Rightarrow> (Ok (), w\<lparr>w_root := r\<rparr>)))"

definition osMkdirAll :: "string \<Rightarrow> unit prog_w" where
  "osMkdirAll s w =
     (if w_faulty w (resolve w s) then (Err (''mkdir '' @ s @ '': input/output error''), w)
      else case fs_mkdirs (resolve w s) (w_root w) of
          None \<Rightarrow> (Err (''mkdir '' @ s @ '': not a directory''), w)
        | Some r \<Rightarrow> (Ok (), w\<lparr>w_root := r\<rparr>))"

text \<open>\<open>ioutil.ReadDir\<close>: the entries sorted by name, each with whether it is a directory.\<close>

definition dirEntries :: "(string \<times> node) list \<Rightarrow> (string \<times> bool) list" where
  "dirEntries es = map (\<lambda>k. (k, case map_of es k of Some n \<Rightarrow> isDirNode n | None \<Rightarrow> False))
     (sort (remdups (map fst es)))"

definition readDir :: "string \<Rightarrow> (string \<times> bool) list prog_w" where
  "readDir s w = (case osStat s w of
       StatOk (Dir es) \<Rightarrow> (Ok (dirEntries es), w)
     | StatOk (File c t) \<Rightarrow> (Err (''readdirent '' @ s @ '': not a directory''), w)
     | NotExist \<Rightarrow> (Err (''open '' @ s @ '': no such file or directory''), w)
     | StatErr e \<Rightarrow> (Err e, w))"

definition osRemoveAll :: "string \<Rightarrow> unit prog_w" where
  "osRemoveAll s w =
     (if w_faulty w (resolve w s) then (Err (''unlinkat '' @ s @ '': input/output error''), w)
      else (Ok (), w\<lparr>w_root := fs_del (resolve w s) (w_root w)\<rparr>))"

definition osChdir :: "string \<Rightarrow> unit prog_w" where
  "osChdir s w = (case osStat s w of
       StatOk (Dir es) \<Rightarrow> (Ok (), w\<lparr>w_cwd := resolve w s\<rparr>)
     | StatOk (File c t) \<Rightarrow> (Err (''chdir '' @ s @ '': not a directory''), w)
     | NotExist \<Rightarrow> (Err (''chdir '' @ s @ '': no such file or directory''), w)
     | StatErr e \<Rightarrow> (Err e, w))"

text \<open>\<open>filepath.Abs\<close>.\<close>

definition filepathAbs :: "string \<Rightarrow> world \<Rightarrow> string" where
  "filepathAbs s w = ''/'' @ Join (resolve w s) ''/''"

text \<open>\<open>internal/file/copy.go\<close>: open the source, create the target, copy the content.\<close>

definition file_Copy :: "string \<Rightarrow> string \<Rightarrow> unit prog_w" where
  "file_Copy from to' =
     bindP (osOpen from) (\<lambda>_.
     bindP (osCreate to') (\<lambda>_.
     bindP (readFile from) (\<lambda>content.
     writeFile to' content)))"

section \<open>Performing calls\<close>

definition record_call :: "call \<Rightarrow> unit prog_w" where
  "record_call c w = (Ok (), w\<lparr>w_trace := w_trace w @ [c]\<rparr>)"

definition perform :: "call \<Rightarrow> (call list \<Rightarrow> string + 'a) \<Rightarrow> 'a prog_w" where
  "perform c f w = (case f (w_trace w) of
       Inl e \<Rightarrow> (Err e, w\<lparr>w_trace := w_trace w @ [c]\<rparr>)
     | Inr x \<Rightarrow> (Ok x, w\<lparr>w_trace := w_trace w @ [c]\<rparr>))"

text \<open>The same, handing the answer to the caller whether or not it is an error.\<close>

definition query :: "call \<Rightarrow> (call list \<Rightarrow> 'a) \<Rightarrow> 'a prog_w" where
  "query c f w = (Ok (f (w_trace w)), w\<lparr>w_trace := w_trace w @ [c]\<rparr>)"

text \<open>
  \<open>internal/command/run.go\<close>: a child process may change the files; its output is returned
  also when it fails.  The three Go functions differ in the directory and the extra
  environment of the child.
\<close>

definition runCommand ::
  "services \<Rightarrow> string \<Rightarrow> string list \<Rightarrow> string list \<Rightarrow> string \<Rightarrow> (string \<times> string \<times> string option) prog_w" where
  "runCommand sv executable args extraEnvs dir w =
     (case sv_Exec sv (w_trace w) executable args extraEnvs dir (w_root w) of
        (r, out, err, e) \<Rightarrow>
          (Ok (out, err, e), w\<lparr>w_root := r, w_trace := w_trace w @ [CExec executable args extraEnvs dir]\<rparr>))"

definition command_Run :: "services \<Rightarrow> string \<Rightarrow> string list \<Rightarrow> (string \<times> string \<times> string option) prog_w" where
  "command_Run sv executable args = runCommand sv executable args [] []"

definition command_RunInDir ::
  "services \<Rightarrow> string \<Rightarrow> string list \<Rightarrow> string \<Rightarrow> (string \<times> string \<times> string option) prog_w" where
  "command_RunInDir sv executable args wsDir = runCommand sv executable args [] wsDir"

definition command_RunWithExtraEnvs ::
  "services \<Rightarrow> string \<Rightarrow> string list \<Rightarrow> string list \<Rightarrow> (string \<times> string \<times> string option) prog_w" where
  "command_RunWithExtraEnvs sv executable args extraEnvs = runCommand sv executable args extraEnvs []"

text \<open>Durations in nanoseconds; \<open>fmt.Println\<close> and \<open>time.Sleep\<close>.\<close>

definition second :: int where "second = 1000000000"
definition hour :: int where "hour = 3600 * second"

definition printLn :: "string \<Rightarrow> unit prog_w" where
  "printLn s = record_call (CPrint s)"

definition timeSleep :: "int \<Rightarrow> unit prog_w" where
  "timeSleep d = bindP (record_call (CSleep d)) (\<lambda>_. modifyP (\<lambda>w. w\<lparr>w_now := w_now w + d\<rparr>))"

section \<open>Relations every program respects\<close>

text \<open>The trace only grows; parts of the world other than the files, or the files, stay.\<close>

definition trace_grows :: "world \<Rightarrow> world \<Rightarrow> bool" where
  "trace_grows w w' \<longleftrightarrow> prefix (w_trace w) (w_trace w')"

definition only_files :: "world \<Rightarrow> world \<Rightarrow> bool" where
  "only_files w w' \<longleftrightarrow> (\<exists>r. w' = w\<lparr>w_root := r\<rparr>)"

definition only_trace :: "world \<Rightarrow> world \<Rightarrow> bool" where
  "only_trace w w' \<longleftrightarrow> (\<exists>t. w' = w\<lparr>w_trace := t\<rparr>)"

lemma w_root_self [simp]: "\<exists>r. w = w\<lparr>w_root := r\<rparr>" "\<exists>r. w\<lparr>w_root := n\<rparr> = w\<lparr>w_root := r\<rparr>"
  by (rule exI [of _ "w_root w"], simp) blast

lemma w_trace_self [simp]: "\<exists>t. w = w\<lparr>w_trace := t\<rparr>" "\<exists>t. w\<lparr>w_trace := u\<rparr> = w\<lparr>w_trace := t\<rparr>"
  by (rule exI [of _ "w_trace w"], simp) blast

interpretation tg: step_relation trace_grows
  by unfold_locales (auto simp: trace_grows_def intro: prefix_order.trans)

interpretation fo: step_relation only_files
  by unfold_locales (auto simp: only_files_def)

interpretation ot: step_relation only_trace
  by unfold_locales (auto simp: only_trace_def)

lemma only_files_frame [frame]:
  assumes "only_files w w'"
  shows "w_cwd w' = w_cwd w" "w_faulty w' = w_faulty w" "w_now w' = w_now w" "w_trace w' = w_trace w"
  using assms by (auto simp: only_files_def)

lemma osOpen_fo: "preserves only_files (osOpen s)"
  by (auto simp: preserves_def osOpen_def only_files_def split: statRes.split)

lemma readFile_fo: "preserves only_files (readFile s)"
  by (auto simp: preserves_def readFile_def only_files_def split: statRes.split node.split)

lemma writeFile_fo: "preserves only_files (writeFile s c)"
  by (auto simp: preserves_def writeFile_def only_files_def split: statRes.split node.split option.split)

lemma osMkdir_fo: "preserves only_files (osMkdir s)"
  by (auto simp: preserves_def osMkdir_def only_files_def split: statRes.split option.split)

lemma osMkdirAll_fo: "preserves only_files (osMkdirAll s)"
  by (auto simp: preserves_def osMkdirAll_def only_files_def split: option.split)

lemma readDir_fo: "preserves only_files (readDir s)"
  by (auto simp: preserves_def readDir_def only_files_def split: statRes.split node.split)

lemma osRemoveAll_fo: "preserves only_files (osRemoveAll s)"
  by (auto simp: preserves_def osRemoveAll_def only_files_def)

lemma osCreate_fo: "preserves only_files (osCreate s)"
  unfolding osCreate_def by (rule writeFile_fo)

lemma file_Copy_fo: "preserves only_files (file_Copy a b)"
  unfolding file_Copy_def
  by (intro fo.bind osOpen_fo osCreate_fo readFile_fo writeFile_fo)

lemmas files_only = osOpen_fo readFile_fo writeFile_fo osMkdir_fo osMkdirAll_fo readDir_fo
  osRemoveAll_fo osCreate_fo file_Copy_fo

lemma perform_ot: "preserves only_trace (perform c f)"
  by (auto simp: preserves_def perform_def only_trace_def split: sum.split)

lemma perform_tg: "preserves trace_grows (perform c f)"
  by (auto simp: preserves_def perform_def trace_grows_def split: sum.split)

lemma query_ot: "preserves only_trace (query c f)"
  by (auto simp: preserves_def query_def only_trace_def)

lemma query_tg: "preserves trace_grows (query c f)"
  by (auto simp: preserves_def query_def trace_grows_def)

lemma runCommand_tg: "preserves trace_grows (runCommand sv e a x d)"
  by (auto simp: preserves_def runCommand_def trace_grows_def split: prod.split)

lemma only_files_trace_grows: "preserves only_files m \<Longrightarrow> preserves trace_grows m"
  unfolding preserves_def trace_grows_def by (metis only_files_frame(4) prefix_order.refl)

lemma readFile_state [simp]: "readFile s w = (r, w') \<Longrightarrow> w' = w"
  by (auto simp: readFile_def split: statRes.splits node.splits)

lemma readDir_state [simp]: "readDir s w = (r, w') \<Longrightarrow> w' = w"
  by (auto simp: readDir_def split: statRes.splits node.splits)

section \<open>The calls a program makes\<close>

text \<open>\<open>adds w cs w'\<close>: the program made exactly the calls \<open>cs\<close> and changed nothing else.\<close>

definition adds :: "world \<Rightarrow> call list \<Rightarrow> world \<Rightarrow> bool" where
  "adds w cs w' \<longleftrightarrow> w' = w\<lparr>w_trace := w_trace w @ cs\<rparr>"

lemma adds_refl [simp]: "adds w [] w"
  by (simp add: adds_def)

lemma adds_trans: "adds w cs w' \<Longrightarrow> adds w' ds w'' \<Longrightarrow> adds w (cs @ ds) w''"
  by (simp add: adds_def)

lemma adds_trace: "adds w cs w' \<Longrightarrow> w_trace w' = w_trace w @ cs"
  by (simp add: adds_def)

lemma perform_result:
  "perform c f w = (r, w') \<Longrightarrow> adds w [c] w' \<and>
     ((\<exists>e. r = Err e \<and> f (w_trace w) = Inl e) \<or> (\<exists>x. r = Ok x \<and> f (w_trace w) = Inr x))"
  by (auto simp: perform_def adds_def split: sum.splits)

lemma query_result: "query c f w = (r, w') \<Longrightarrow> adds w [c] w' \<and> r = Ok (f (w_trace w))"
  by (auto simp: query_def adds_def)

text \<open>
  \<open>emits P w seg w'\<close>: of the calls made on the way from \<open>w\<close> to \<open>w'\<close>, those that satisfy \<open>P\<close> are \<open>seg\<close>.
  A program that makes none of them is silent.
\<close>

definition emits :: "(call \<Rightarrow> bool) \<Rightarrow> world \<Rightarrow> call list \<Rightarrow> world \<Rightarrow> bool" where
  "emits P w seg w' \<longleftrightarrow> (\<exists>t. w_trace w' = w_trace w @ t \<and> filter P t = seg)"

definition silent :: "(call \<Rightarrow> bool) \<Rightarrow> world \<Rightarrow> world \<Rightarrow> bool" where
  "silent P w w' \<longleftrightarrow> emits P w [] w'"

lemma emits_trans: "emits P w a w1 \<Longrightarrow> emits P w1 b w2 \<Longrightarrow> emits P w (a @ b) w2"
  unfolding emits_def by (metis append.assoc filter_append)

lemma emits_refl: "emits P w [] w"
  unfolding emits_def by (intro exI [of _ "[]"]) simp

lemma emits_adds: "adds w cs w' \<Longrightarrow> emits P w (filter P cs) w'"
  unfolding emits_def adds_def by auto

interpretation si: step_relation "silent P" for P
proof
  show "silent P w w" for w by (simp add: silent_def emits_refl)
  show "silent P w w' \<Longrightarrow> silent P w' w'' \<Longrightarrow> silent P w w''" for w w' w''
    unfolding silent_def using emits_trans [of P w "[]" w' "[]" w''] by simp
qed

lemma si_perform: "\<not> P c \<Longrightarrow> preserves (silent P) (perform c f)"
  unfolding preserves_def silent_def
  by (auto simp: perform_def emits_def split: sum.split intro!: exI [of _ "[c]"])

lemma si_query: "\<not> P c \<Longrightarrow> preserves (silent P) (query c f)"
  unfolding preserves_def silent_def
  by (auto simp: query_def emits_def intro!: exI [of _ "[c]"])

lemma si_print: "\<not> P (CPrint s) \<Longrightarrow> preserves (silent P) (printLn s)"
  unfolding preserves_def silent_def
  by (auto simp: printLn_def record_call_def emits_def intro!: exI [of _ "[CPrint s]"])

lemma si_runCommand: "\<not> P (CExec e a x d) \<Longrightarrow> preserves (silent P) (runCommand sv e a x d)"
  unfolding preserves_def silent_def
  by (auto simp: runCommand_def emits_def split: prod.split intro!: exI [of _ "[CExec e a x d]"])

lemma si_files: "preserves only_files m \<Longrightarrow> preserves (silent P) m"
  unfolding preserves_def silent_def emits_def
  by (metis append_Nil2 filter.simps(1) only_files_frame(4))

lemma silent_emits: "preserves (silent P) m \<Longrightarrow> m w = (r, w') \<Longrightarrow> emits P w [] w'"
  by (drule preservesD, assumption) (simp add: silent_def)

text \<open>The commands run.\<close>

definition isExec :: "call \<Rightarrow> bool" where
  "isExec c = (case c of CExec _ _ _ _ \<Rightarrow> True | _ \<Rightarrow> False)"

lemma isExec_simps [simp]: "isExec (CExec a b c d)" "\<not> isExec (CPrint s)" "\<not> isExec (CInsightReportCreate p r q k i)"
  by (simp_all add: isExec_def)

lemma printLn_result: "printLn s w = (Ok (), w\<lparr>w_trace := w_trace w @ [CPrint s]\<rparr>)"
  by (simp add: printLn_def record_call_def)

lemma bind_printLn: "bindP (printLn s) f w = f () (w\<lparr>w_trace := w_trace w @ [CPrint s]\<rparr>)"
  by (simp add: bindP_def printLn_result)

text \<open>An empty file system at time 0, where no call has been made.\<close>

definition emptyWorld :: world where
  "emptyWorld = \<lparr>w_root = Dir [], w_cwd = [], w_faulty = (\<lambda>p. False), w_getenv = (\<lambda>n. []),
     w_now = 0, w_trace = []\<rparr>"

end
