(* ===== verification/Paths.thy ===== *)
theory Paths
  imports World
begin

text \<open>
  Facts on paths: \<open>filepath.Clean\<close> and \<open>filepath.Join\<close> do not change the file a path names, so
  the file of a joined path is found from the directory of its first part.  And the two laws of
  writing and reading files that the components rest on.
\<close>

section \<open>Cleaning\<close>

lemma cleanStep_append:
  "cleanStep r acc (xs @ ys) = cleanStep r (cleanStep r acc xs) ys"
proof (induction xs arbitrary: acc)
  case Nil
  then show ?case by simp
next
  case (Cons x xs)
  then show ?case by (cases acc) auto
qed

definition plainElem :: "string \<Rightarrow> bool" where
  "plainElem e \<longleftrightarrow> e \<noteq> [] \<and> e \<noteq> ''.'' \<and> e \<noteq> ''..''"

lemma cleanStep_plain: "\<forall>e\<in>set es. plainElem e \<Longrightarrow> cleanStep r acc es = rev es @ acc"
  by (induction es arbitrary: acc) (auto simp: plainElem_def)

lemma cleanStep_rooted_plain:
  "list_all plainElem acc \<Longrightarrow> list_all plainElem (cleanStep True acc es)"
proof (induction es arbitrary: acc)
  case Nil
  then show ?case by simp
next
  case (Cons e es)
  have "plainElem e \<or> e = [] \<or> e = ''.'' \<or> e = ''..''" by (auto simp: plainElem_def)
  with Cons show ?case by (cases acc) (auto simp: plainElem_def [of "''..''"])
qed

text \<open>A relative path cleaned first leads to the same place.\<close>

lemma cleanStep_relative:
  "\<forall>e\<in>set r. e \<noteq> [] \<and> e \<noteq> ''.'' \<Longrightarrow>
     cleanStep True acc (rev (cleanStep False r es)) = cleanStep True (cleanStep True acc (rev r)) es"
proof (induction es arbitrary: r)
  case Nil
  then show ?case by simp
next
  case (Cons e es)
  show ?case
  proof (cases "e = [] \<or> e = ''.''")
    case True
    with Cons show ?thesis by auto
  next
    case ne: False
    show ?thesis
    proof (cases "e = ''..''")
      case False
      with ne Cons.IH [of "e # r"] Cons.prems show ?thesis by (simp add: cleanStep_append)
    next
      case dd: True
      show ?thesis
      proof (cases r)
        case Nil
        with dd Cons.IH [of "[''..'']"] show ?thesis by (simp add: cleanStep_append split: list.split)
      next
        case (Cons a as)
        show ?thesis
        proof (cases "a = ''..''")
          case True
          with dd Cons Cons.IH [of "''..'' # r"] Cons.prems show ?thesis
            by (simp add: cleanStep_append split: list.split)
        next
          case False
          with dd Cons Cons.IH [of as] Cons.prems show ?thesis
            by (simp add: cleanStep_append)
        qed
      qed
    qed
  qed
qed

definition slashFree :: "string \<Rightarrow> bool" where
  "slashFree e \<longleftrightarrow> e \<noteq> [] \<and> CHR ''/'' \<notin> set e"

lemma cleanStep_elems:
  "list_all slashFree acc \<Longrightarrow> list_all (\<lambda>e. e = [] \<or> slashFree e) es \<Longrightarrow> list_all slashFree (cleanStep r acc es)"
proof (induction es arbitrary: acc)
  case Nil
  then show ?case by simp
next
  case (Cons e es)
  have "slashFree ''..''" by (simp add: slashFree_def)
  with Cons show ?case by (cases acc) auto
qed

lemma cleanElems_ok: "e \<in> set (cleanElems p) \<Longrightarrow> e \<noteq> [] \<and> CHR ''/'' \<notin> set e"
proof -
  have "list_all (\<lambda>e. e = [] \<or> slashFree e) (Split p ''/'')"
    using split1_no_sep [of _ "CHR ''/''" p] by (auto simp: list_all_iff slashFree_def Split_char)
  from cleanStep_elems [OF _ this, of "[]"]
  show "e \<in> set (cleanElems p) \<Longrightarrow> e \<noteq> [] \<and> CHR ''/'' \<notin> set e"
    by (auto simp: cleanElems_def list_all_iff slashFree_def)
qed

lemma split1_Join:
  "es \<noteq> [] \<Longrightarrow> \<forall>e\<in>set es. c \<notin> set e \<Longrightarrow> split1 c (Join es [c]) = es"
  by (induction es "[c]" rule: Join.induct) (auto simp: split1_append_sep split1_no)

lemma Split_Clean_rel:
  assumes "\<not> HasPrefix p ''/''" "cleanElems p \<noteq> []"
  shows "Split (Clean p) ''/'' = cleanElems p" "\<not> HasPrefix (Clean p) ''/''"
proof -
  show s: "Split (Clean p) ''/'' = cleanElems p"
    using assms cleanElems_ok [of _ p] by (auto simp: Clean_def Split_char intro!: split1_Join)
  show "\<not> HasPrefix (Clean p) ''/''"
  proof
    assume "HasPrefix (Clean p) ''/''"
    then obtain t where "Clean p = CHR ''/'' # t" by (auto elim: HasPrefixE)
    then have "[] \<in> set (Split (Clean p) ''/'')" by (simp add: Split_char)
    with s cleanElems_ok [of "[]" p] show False by simp
  qed
qed

lemma resolve_Clean: "resolve w (Clean p) = resolve w p"
proof (cases "HasPrefix p ''/''")
  case True
  then have pl: "\<forall>e\<in>set (cleanElems p). plainElem e"
    using cleanStep_rooted_plain [of "[]" "Split p ''/''"] by (simp add: cleanElems_def list_all_iff)
  have "split1 (CHR ''/'') (Join (cleanElems p) ''/'') = (if cleanElems p = [] then [[]] else cleanElems p)"
    using split1_Join [of "cleanElems p" "CHR ''/''"] cleanElems_ok [of _ p] by auto
  then have "cleanElems (CHR ''/'' # Join (cleanElems p) ''/'') = cleanElems p"
    using cleanStep_plain [OF pl, of True "[]"]
    by (simp add: cleanElems_def [of "CHR ''/'' # _"] Split_char HasPrefix_def)
  with True show ?thesis by (simp add: resolve_def Clean_def HasPrefix_def)
next
  case False
  have E: "cleanElems p = rev (cleanStep False [] (Split p ''/''))"
    using False by (simp add: cleanElems_def)
  have c: "cleanStep True (rev (w_cwd w)) (cleanElems p) = cleanStep True (rev (w_cwd w)) (Split p ''/'')"
    using cleanStep_relative [of "[]" "rev (w_cwd w)" "Split p ''/''"] E by simp
  show ?thesis
  proof (cases "cleanElems p = []")
    case True
    with False have "Clean p = ''.''" by (simp add: Clean_def)
    with False True c show ?thesis
      by (simp add: resolve_def HasPrefix_def Split_char)
  next
    case ne: False
    with False c Split_Clean_rel [OF False ne] show ?thesis by (simp add: resolve_def)
  qed
qed

text \<open>The directory of the first part, then the elements of the second.\<close>

definition stepInto :: "string list \<Rightarrow> string \<Rightarrow> string list" where
  "stepInto d p = rev (cleanStep True (rev d) (Split p ''/''))"

lemma resolve_append: "resolve w (a @ ''/'' @ b) = stepInto (resolve w a) b" if "a \<noteq> []"
proof -
  have sp: "split1 (CHR ''/'') (a @ CHR ''/'' # b) = split1 (CHR ''/'') a @ split1 (CHR ''/'') b"
    by (induction a) auto
  have "HasPrefix (a @ CHR ''/'' # b) ''/'' \<longleftrightarrow> HasPrefix a ''/''"
    using that by (cases a) (auto simp: HasPrefix_def)
  with sp show ?thesis
    by (simp add: resolve_def cleanElems_def stepInto_def Split_char cleanStep_append)
qed

lemma resolve_Join:
  assumes "a \<noteq> [] \<or> \<not> HasPrefix b ''/''" "b \<noteq> []"
  shows "resolve w (filepathJoin [a, b]) = stepInto (resolve w a) b"
proof (cases "a = []")
  case True
  with assms show ?thesis
    by (simp add: filepathJoin_def resolve_Clean)
      (simp add: resolve_def stepInto_def HasPrefix_def Split_char)
next
  case False
  then show ?thesis
    using resolve_append [OF False, of w b] by (simp add: filepathJoin_def resolve_Clean)
qed

lemma stepInto_plain1: "plainElem x \<Longrightarrow> CHR ''/'' \<notin> set x \<Longrightarrow> stepInto d x = d @ [x]"
  by (simp add: stepInto_def Split_char split1_no plainElem_def)

lemma stepInto_plain2:
  "plainElem x \<Longrightarrow> CHR ''/'' \<notin> set x \<Longrightarrow> plainElem y \<Longrightarrow> CHR ''/'' \<notin> set y \<Longrightarrow>
     stepInto d (x @ CHR ''/'' # y) = d @ [x, y]"
  by (simp add: stepInto_def Split_char split1_append_sep split1_no plainElem_def)

section \<open>Writing and reading files\<close>

text \<open>What \<open>readFile\<close> would return, as a function of the world.\<close>

definition contentAt :: "string \<Rightarrow> world \<Rightarrow> string option" where
  "contentAt s w = (if w_faulty w (resolve w s) then None
     else case fs_get (resolve w s) (w_root w) of Some (File c t) \<Rightarrow> Some c | _ \<Rightarrow> None)"

lemma readFile_contentAt: "contentAt s w = Some c \<longleftrightarrow> readFile s w = (Ok c, w)"
  by (auto simp: contentAt_def readFile_def osStat_def fs_get_def split: statRes.splits node.splits)

lemma writeFile_OkD:
  assumes "writeFile s c w = (Ok (), w')"
  shows "\<not> w_faulty w (resolve w s)"
    and "\<exists>r. fs_put (resolve w s) (File c (w_now w)) (w_root w) = Some r \<and> w' = w\<lparr>w_root := r\<rparr>"
  using assms by (auto simp: writeFile_def osStat_def split: statRes.splits node.splits option.splits if_splits)

lemma resolve_root [simp]: "resolve (w\<lparr>w_root := r\<rparr>) s = resolve w s"
  by (simp add: resolve_def)

lemma contentAt_adds: "adds w cs w' \<Longrightarrow> contentAt f w' = contentAt f w"
  by (auto simp: adds_def contentAt_def resolve_def)

lemma contentAt_write_same: "writeFile s c w = (Ok (), w') \<Longrightarrow> contentAt s w' = Some c"
  using writeFile_OkD [of s c w w'] fs_get_put_same by (auto simp: contentAt_def)

lemma contentAt_write_other:
  assumes "writeFile s c w = (Ok (), w')"
    and "\<not> prefix (resolve w s) (resolve w s')" "\<not> prefix (resolve w s') (resolve w s)"
  shows "contentAt s' w' = contentAt s' w"
  using writeFile_OkD [OF assms(1)] fs_get_put_other [OF _ assms(2,3)] by (auto simp: contentAt_def)

text \<open>
  A family of files that do not overlap is a store: what was written last under a key is read
  under it, and writing under one key leaves the others alone.
\<close>

locale file_store =
  fixes wr :: "'k \<Rightarrow> string \<Rightarrow> ('w, unit) prog"
    and rd :: "'k \<Rightarrow> 'w \<Rightarrow> string option"
  assumes rd_same: "wr k c w = (Ok (), w') \<Longrightarrow> rd k w' = Some c"
    and rd_other: "wr k c w = (Ok (), w') \<Longrightarrow> k' \<noteq> k \<Longrightarrow> rd k' w' = rd k' w"
begin

lemma write_all:
  "forEach ks (\<lambda>k. wr k (val k)) w = (Ok (), w') \<Longrightarrow>
     (\<forall>k\<in>set ks. rd k w' = Some (val k)) \<and> (\<forall>k. k \<notin> set ks \<longrightarrow> rd k w' = rd k w)"
proof (induction ks arbitrary: w)
  case Nil
  then show ?case by (simp add: prog_simps)
next
  case (Cons k ks)
  from Cons.prems obtain w1 where 1: "wr k (val k) w = (Ok (), w1)"
    "forEach ks (\<lambda>k. wr k (val k)) w1 = (Ok (), w')"
    by (auto elim: bindP_OkE)
  from Cons.IH [OF 1(2)] rd_same [of k "val k" w w1] rd_other [of k "val k" w w1] 1(1)
  show ?case by (metis list.set_intros(1) list.set_intros(2) set_ConsD)
qed

end

section \<open>Legal names and relative paths\<close>

text \<open>
  The names a file system can have, trees with such names only, and relative paths of such names.
\<close>

definition legalName :: "string \<Rightarrow> bool" where
  "legalName n \<longleftrightarrow> plainElem n \<and> CHR ''/'' \<notin> set n"

lemma Split_legal: "legalName n \<Longrightarrow> Split n ''/'' = [n]"
  by (simp add: legalName_def Split_char split1_no)

lemma legal_ne: "legalName n \<Longrightarrow> n \<noteq> []" by (auto simp: legalName_def plainElem_def)

lemma Clean_relative:
  assumes "p \<noteq> []" "hd p \<noteq> CHR ''/''"
  shows "Clean p = (if cleanElems p = [] then ''.'' else Join (cleanElems p) ''/'')"
  using assms by (cases p) (auto simp: Clean_def HasPrefix_def)

lemma Join_dot: "legalName n \<Longrightarrow> filepathJoin [''.'', n] = n"
proof -
  assume l: "legalName n"
  have "Split (CHR ''.'' # CHR ''/'' # n) ''/'' = [''.'', n]"
    using l by (simp add: Split_char split1_no legalName_def)
  then have "cleanElems (CHR ''.'' # CHR ''/'' # n) = [n]"
    using l by (simp add: cleanElems_def legalName_def plainElem_def HasPrefix_def)
  then show ?thesis
    by (simp add: filepathJoin_def Clean_relative)
qed

lemma Join_resolve:
  assumes "legalName n" "a \<noteq> []"
  shows "resolve w (filepathJoin [a, n]) = resolve w a @ [n]"
  using resolve_Join [of a n w] stepInto_plain1 [of n "resolve w a"] assms
  by (simp add: legalName_def plainElem_def)

lemma fs_get_above: "fs_get (p @ q) n = (case fs_get p n of None \<Rightarrow> None | Some m \<Rightarrow> fs_get q m)"
proof (induction p arbitrary: n)
  case Nil
  then show ?case by simp
next
  case (Cons a p)
  then show ?case by (cases n) (auto split: option.split)
qed

lemma fs_get_stat: "fs_get p n = Some m \<longleftrightarrow> fs_stat p n = StatOk m"
  by (auto simp: fs_get_def split: statRes.split)

lemma dirEntries_names: "e \<in> set (dirEntries es) \<Longrightarrow> fst e \<in> fst ` set es"
  by (force simp: dirEntries_def)

lemma dirEntries_complete: "n \<in> fst ` set es \<Longrightarrow> \<exists>b. (n, b) \<in> set (dirEntries es)"
  by (auto simp: dirEntries_def image_iff)

definition relPath :: "string list \<Rightarrow> string" where
  "relPath ps = Join ps ''/''"

fun legalTree :: "node \<Rightarrow> bool" where
  "legalTree (File c t) = True"
| "legalTree (Dir es) = (\<forall>e\<in>set es. legalName (fst e) \<and> legalTree (snd e))"

lemma legal_slash: "legalName n \<Longrightarrow> CHR ''/'' \<notin> set n" by (simp add: legalName_def)

lemma Split_relPath: "ps \<noteq> [] \<Longrightarrow> \<forall>n\<in>set ps. legalName n \<Longrightarrow> Split (relPath ps) ''/'' = ps"
  unfolding relPath_def Split_char by (rule split1_Join) (auto simp: legalName_def)

lemma Join_snoc: "ps \<noteq> [] \<Longrightarrow> Join (ps @ [n]) sep = Join ps sep @ sep @ n"
  by (induction ps sep rule: Join.induct) auto

lemma relPath_ne: "ps \<noteq> [] \<Longrightarrow> \<forall>n\<in>set ps. legalName n \<Longrightarrow> relPath ps \<noteq> []"
  using Split_relPath [of ps] by (cases ps; cases "tl ps") (auto simp: Split_char relPath_def legalName_def plainElem_def)

lemma relPath_rel: "ps \<noteq> [] \<Longrightarrow> \<forall>n\<in>set ps. legalName n \<Longrightarrow> \<not> HasPrefix (relPath ps) ''/''"
proof
  assume ps: "ps \<noteq> []" "\<forall>n\<in>set ps. legalName n" and "HasPrefix (relPath ps) ''/''"
  then obtain t where "relPath ps = CHR ''/'' # t" by (auto elim: HasPrefixE)
  with Split_relPath [OF ps] have "[] \<in> set ps" by (metis Split_char list.set_intros(1) split1.simps(2))
  with ps(2) show False by (auto simp: legalName_def plainElem_def)
qed

lemma stepInto_relPath:
  "ps \<noteq> [] \<Longrightarrow> \<forall>n\<in>set ps. legalName n \<Longrightarrow> stepInto d (relPath ps) = d @ ps"
  unfolding stepInto_def by (simp add: Split_relPath cleanStep_plain legalName_def)

lemma Join_relPath:
  assumes "ps \<noteq> []" "\<forall>n\<in>set ps. legalName n" "legalName m"
  shows "filepathJoin [relPath ps, m] = relPath (ps @ [m])"
proof -
  have ne: "relPath ps \<noteq> []" by (rule relPath_ne [OF assms(1,2)])
  have all: "\<forall>n\<in>set (ps @ [m]). legalName n" using assms by auto
  have j: "Join [relPath ps, m] ''/'' = relPath (ps @ [m])"
    using Join_snoc [OF assms(1), of m] by (simp add: relPath_def)
  have e: "cleanElems (relPath (ps @ [m])) = ps @ [m]"
    using Split_relPath [OF _ all] relPath_rel [OF _ all] all
    by (simp add: cleanElems_def cleanStep_plain legalName_def)
  have "Clean (relPath (ps @ [m])) = relPath (ps @ [m])"
    using relPath_rel [OF _ all] e by (simp add: Clean_def relPath_def)
  then show ?thesis using ne j by (simp add: filepathJoin_def)
qed

lemma fs_stat_append: "fs_stat (p @ q) n = (case fs_stat p n of StatOk m \<Rightarrow> fs_stat q m | r \<Rightarrow> r)"
  by (induction p arbitrary: n) (auto split: node.split option.split)

lemma legalTree_del: "legalTree n \<Longrightarrow> legalTree (fs_del p n)"
proof (induction p arbitrary: n)
  case Nil
  then show ?case by simp
next
  case (Cons a p)
  show ?case
  proof (cases n)
    case (File c t)
    then show ?thesis by simp
  next
    case (Dir es)
    have u: "e \<in> set (AList.update k v al) \<Longrightarrow> e = (k, v) \<or> e \<in> set al" for e k and v :: node and al
      by (induction al) (auto split: if_splits)
    have l: "map_of es k = Some m \<Longrightarrow> legalName k \<and> legalTree m" for k m
      using Cons.prems Dir by (force dest: map_of_SomeD)
    have es: "e \<in> set es \<Longrightarrow> legalName (fst e) \<and> legalTree (snd e)" for e
      using Cons.prems Dir by simp
    show ?thesis
    proof (cases "p = [] \<or> map_of es a = None")
      case True
      with Dir Cons.prems show ?thesis by (auto simp: AList.delete_eq split: option.split)
    next
      case False
      then obtain m where m: "map_of es a = Some m" by auto
      with l Cons.IH have "legalName a \<and> legalTree (fs_del p m)" by blast
      with False Dir m es show ?thesis by (auto dest!: u)
    qed
  qed
qed

lemma fs_get_del_None: "fs_get q n = None \<Longrightarrow> fs_get q (fs_del p n) = None"
proof (induction p arbitrary: q n)
  case Nil
  then show ?case by simp
next
  case (Cons a p)
  then show ?case
    by (cases n; cases q) (auto simp: update_conv' delete_conv' split: option.splits)
qed

lemma legalTree_get: "legalTree n \<Longrightarrow> fs_get p n = Some m \<Longrightarrow> legalTree m"
proof (induction p arbitrary: n)
  case Nil
  then show ?case by simp
next
  case (Cons a p)
  then show ?case by (cases n) (auto split: option.splits dest!: map_of_SomeD)
qed

text \<open>An invariant of the world is a step relation of its own.\<close>

definition keepsInv :: "(world \<Rightarrow> bool) \<Rightarrow> world \<Rightarrow> world \<Rightarrow> bool" where
  "keepsInv I w w' \<longleftrightarrow> (I w \<longrightarrow> I w')"

interpretation ki: step_relation "keepsInv I" for I
  by unfold_locales (auto simp: keepsInv_def)

lemma keepsInv_preserves: "preserves (keepsInv I) m \<longleftrightarrow> (\<forall>w. I w \<longrightarrow> I (snd (m w)))"
  by (simp add: preserves_def keepsInv_def)

lemma readDir_OkD: "readDir s w = (Ok es, w') \<Longrightarrow> \<exists>ds. osStat s w = StatOk (Dir ds) \<and> es = dirEntries ds \<and> w' = w"
  unfolding readDir_def by (cases "osStat s w") (auto split: node.splits)

lemma Clean_ne: "Clean p \<noteq> []"
proof -
  have "Join (cleanElems p) ''/'' \<noteq> []" if "cleanElems p \<noteq> []"
  proof -
    from that obtain e es where "cleanElems p = e # es" by (cases "cleanElems p") auto
    moreover from this have "e \<noteq> []" using cleanElems_ok [of e p] by simp
    ultimately show ?thesis by (cases es) auto
  qed
  then show ?thesis by (simp add: Clean_def)
qed

lemma del_other: "\<not> prefix ps qs \<Longrightarrow> \<not> prefix qs ps \<Longrightarrow> fs_get (C @ qs) (fs_del (C @ ps) n) = fs_get (C @ qs) n"
  by (rule fs_get_del_other) (auto simp: Nil_is_append_conv)

lemma dirEntries_flag: "(n, b) \<in> set (dirEntries es) \<Longrightarrow> map_of es n = Some m \<Longrightarrow> b = isDirNode m"
  by (auto simp: dirEntries_def)

end
