(* ===== verification/Nexus.thy ===== *)
theory Nexus
  imports Paths
begin

text \<open>
  \<open>pkg/nexus\<close>: the client of the artifact store.  The REST library underneath is third-party
  code, so searching, fetching and uploading are operations of the environment; the files the
  client writes and reads, the groups and the links it builds are modelled.
\<close>

definition TemporaryRepositoryDefault :: string where
  "TemporaryRepositoryDefault = ''ods-temporary-artifacts''"

definition PermanentRepositoryDefault :: string where
  "PermanentRepositoryDefault = ''ods-permanent-artifacts''"

text \<open>The part of the client configuration that shows in results.\<close>

record nexusConfig =
  nx_Username :: string
  nx_Password :: string
  nx_BaseURL :: string

definition nexus_ArtifactGroupBase :: "string \<Rightarrow> string \<Rightarrow> string \<Rightarrow> string" where
  "nexus_ArtifactGroupBase project repository gitCommitSHA =
     ''/'' @ project @ ''/'' @ repository @ ''/'' @ gitCommitSHA"

definition nexus_ArtifactGroup :: "string \<Rightarrow> string \<Rightarrow> string \<Rightarrow> string \<Rightarrow> string" where
  "nexus_ArtifactGroup project repository gitCommitSHA subdir =
     nexus_ArtifactGroupBase project repository gitCommitSHA @ ''/'' @ subdir"

text \<open>
  The body of the response is written to the file whatever the status of the response is; the
  result is the number of bytes.
\<close>

definition nexus_Download :: "services \<Rightarrow> string \<Rightarrow> string \<Rightarrow> int prog_w" where
  "nexus_Download sv url outfile =
     (let outfile' = (if outfile = [] then Base url else outfile)
      in bindP (osCreate outfile') (\<lambda>_.
         bindP (perform (CHttpGet url) (\<lambda>h. sv_HttpGet sv h url)) (\<lambda>body.
         bindP (writeFile outfile' body) (\<lambda>_. ret (int (length body))))))"

definition nexus_Search :: "services \<Rightarrow> string \<Rightarrow> string \<Rightarrow> string list prog_w" where
  "nexus_Search sv repository grp =
     wrapErr ''could not search assets: ''
       (perform (CSearchAssets repository grp) (\<lambda>h. sv_SearchAssets sv h repository grp))"

definition nexus_Upload :: "services \<Rightarrow> nexusConfig \<Rightarrow> string \<Rightarrow> string \<Rightarrow> string \<Rightarrow> string prog_w" where
  "nexus_Upload sv cfg repository grp file =
     (let filename = Base file;
          link = nx_BaseURL cfg @ ''/repository/'' @ repository @ grp @ ''/'' @ filename
      in bindP (wrapErr (''could not open file '' @ file @ '': '') (osOpen file)) (\<lambda>_.
         bindP (wrapErr ''could not upload component: '' (readFile file)) (\<lambda>content.
         bindP (wrapErr ''could not upload component: ''
             (perform (CUploadComponent repository grp filename content)
               (\<lambda>h. sv_UploadComponent sv h repository grp filename content))) (\<lambda>_.
         ret link))))"

section \<open>Facts\<close>

lemma nexus_Search_result:
  assumes "nexus_Search sv repo g w = (r, w')"
  shows "w' = w\<lparr>w_trace := w_trace w @ [CSearchAssets repo g]\<rparr>"
    and "r = (case sv_SearchAssets sv (w_trace w) repo g of
        Inl e \<Rightarrow> Err (''could not search assets: '' @ e) | Inr urls \<Rightarrow> Ok urls)"
  using assms by (auto simp: nexus_Search_def wrapErr_def perform_def split: sum.splits)

lemma perform_faulty: "perform c f w = (r, w') \<Longrightarrow> w_faulty w' = w_faulty w \<and> w_cwd w' = w_cwd w \<and> w_root w' = w_root w"
  by (auto simp: perform_def split: sum.splits)

text \<open>A download that succeeds leaves the whole response in the file.\<close>

lemma nexus_Download_content:
  assumes "nexus_Download sv u f w = (Ok n, w')" "f \<noteq> []"
  shows "\<exists>body h. sv_HttpGet sv h u = Inr body \<and> contentAt f w' = Some body \<and> n = int (length body)"
proof -
  from assms obtain w1 where "osCreate f w = (Ok (), w1)"
    and 1: "bindP (perform (CHttpGet u) (\<lambda>h. sv_HttpGet sv h u)) (\<lambda>body.
         bindP (writeFile f body) (\<lambda>_. ret (int (length body)))) w1 = (Ok n, w')"
    by (auto simp: nexus_Download_def elim!: bindP_OkE)
  from 1 obtain body w2 where p: "perform (CHttpGet u) (\<lambda>h. sv_HttpGet sv h u) w1 = (Ok body, w2)"
    and "bindP (writeFile f body) (\<lambda>_. ret (int (length body))) w2 = (Ok n, w')"
    by (rule bindP_OkE)
  then obtain w3 where wf: "writeFile f body w2 = (Ok (), w3)" and "n = int (length body)" "w' = w3"
    by (auto elim!: bindP_OkE simp: prog_simps)
  moreover from p have "sv_HttpGet sv (w_trace w1) u = Inr body"
    by (auto simp: perform_def split: sum.splits)
  ultimately show ?thesis using contentAt_write_same [OF wf] by blast
qed

end
