(* ===== verification/GoUrl.thy ===== *)
theory GoUrl
  imports GoStrings
begin

text \<open>
  The part of Go's \<open>net/url\<close> (version 1.16) the repository calls: \<open>url.Parse\<close>, as far as
  scheme, user, host and path go, and \<open>url.QueryEscape\<close>.  Errors are values; the texts of the
  errors are those of the package without the quoted input.
\<close>

section \<open>Escaping\<close>

definition ishex :: "char \<Rightarrow> bool" where
  "ishex c \<longleftrightarrow> isDigit c \<or> (97 \<le> code c \<and> code c \<le> 102) \<or> (65 \<le> code c \<and> code c \<le> 70)"

definition unhex :: "char \<Rightarrow> nat" where
  "unhex c = (if isDigit c then code c - 48 else if 97 \<le> code c then code c - 87 else code c - 55)"

definition upperhex :: "nat \<Rightarrow> char" where
  "upperhex d = (if d < 10 then char_of (48 + d) else char_of (55 + d))"

definition isAlnum :: "char \<Rightarrow> bool" where
  "isAlnum c \<longleftrightarrow> isLowerC c \<or> isUpper c \<or> isDigit c"

definition isUnreserved :: "char \<Rightarrow> bool" where
  "isUnreserved c \<longleftrightarrow> isAlnum c \<or> c \<in> set ''-_.~''"

text \<open>Characters \<open>shouldEscape\<close> leaves alone in a host.\<close>

definition hostChar :: "char \<Rightarrow> bool" where
  "hostChar c \<longleftrightarrow> isUnreserved c \<or> c \<in> set (''!$&()*+,;=:[]<>'' @ [CHR 0x27, CHR 0x22])"

datatype escMode = EncodePath | EncodeUserPassword | EncodeHost | EncodeFragment

fun unescape :: "escMode \<Rightarrow> string \<Rightarrow> string + string" where
  "unescape mode [] = Inr []"
| "unescape mode (c # s) =
     (if c = CHR ''%'' then
        (case s of
           a # b # s' \<Rightarrow>
             (if \<not> (ishex a \<and> ishex b) then Inl ''invalid URL escape''
              else if mode = EncodeHost \<and> unhex a < 8 \<and> \<not> (a = CHR ''2'' \<and> b = CHR ''5'')
              then Inl ''invalid URL escape''
              else (case unescape mode s' of
                  Inl e \<Rightarrow> Inl e
                | Inr r \<Rightarrow> Inr (char_of (16 * unhex a + unhex b) # r)))
         | _ \<Rightarrow> Inl ''invalid URL escape'')
      else if mode = EncodeHost \<and> code c < 128 \<and> \<not> hostChar c then Inl ''invalid character in host name''
      else (case unescape mode s of Inl e \<Rightarrow> Inl e | Inr r \<Rightarrow> Inr (c # r)))"

definition pctEscape :: "char \<Rightarrow> string" where
  "pctEscape c = [CHR ''%'', upperhex (code c div 16), upperhex (code c mod 16)]"

definition QueryEscape :: "string \<Rightarrow> string" where
  "QueryEscape s = concat (map (\<lambda>c.
     if c = CHR '' '' then ''+''
     else if isUnreserved c then [c]
     else pctEscape c) s)"

text \<open>\<open>Userinfo.String\<close>; the nil pointer prints as the empty string.\<close>

definition escapeUserPassword :: "string \<Rightarrow> string" where
  "escapeUserPassword s = concat (map (\<lambda>c.
     if isUnreserved c \<or> c \<in> set ''$&+,;='' then [c] else pctEscape c) s)"

definition userinfoString :: "(string \<times> string option) option \<Rightarrow> string" where
  "userinfoString ui = (case ui of
       None \<Rightarrow> []
     | Some (u, None) \<Rightarrow> escapeUserPassword u
     | Some (u, Some p) \<Rightarrow> (if u = [] \<and> p = [] then [] else escapeUserPassword u @ '':'' @ escapeUserPassword p))"

section \<open>Parsing\<close>

record url =
  ur_Scheme :: string
  ur_Opaque :: string
  ur_User :: "(string \<times> string option) option"
  ur_Host :: string
  ur_Path :: string
  ur_RawQuery :: string
  ur_Fragment :: string

text \<open>The text before and after the first occurrence of a character.\<close>

definition cutAt :: "char \<Rightarrow> string \<Rightarrow> string \<times> string" where
  "cutAt c s = (takeWhile (\<lambda>x. x \<noteq> c) s, drop 1 (dropWhile (\<lambda>x. x \<noteq> c) s))"

text \<open>The text before and after the last occurrence, if there is one.\<close>

definition cutLast :: "char \<Rightarrow> string \<Rightarrow> (string \<times> string) option" where
  "cutLast c s = (if c \<in> set s
     then Some (rev (drop 1 (dropWhile (\<lambda>x. x \<noteq> c) (rev s))), rev (takeWhile (\<lambda>x. x \<noteq> c) (rev s)))
     else None)"

definition isCTL :: "char \<Rightarrow> bool" where
  "isCTL c \<longleftrightarrow> code c < 32 \<or> code c = 127"

definition schemeChar :: "char \<Rightarrow> bool" where
  "schemeChar c \<longleftrightarrow> isAlnum c \<or> c \<in> set ''+-.''"

definition getScheme :: "string \<Rightarrow> string + string \<times> string" where
  "getScheme s =
     (let sch = takeWhile schemeChar s; rest = dropWhile schemeChar s
      in if rest \<noteq> [] \<and> hd rest = CHR '':'' \<and> (sch = [] \<or> isLowerC (hd sch) \<or> isUpper (hd sch))
         then (if sch = [] then Inl ''missing protocol scheme'' else Inr (sch, tl rest))
         else Inr ([], s))"

definition validOptionalPort :: "string \<Rightarrow> bool" where
  "validOptionalPort p \<longleftrightarrow> (p = [] \<or> (hd p = CHR '':'' \<and> list_all isDigit (tl p)))"

definition parseHost :: "string \<Rightarrow> string + string" where
  "parseHost host =
     (if HasPrefix host ''['' then
        (case cutLast (CHR '']'') host of
           None \<Rightarrow> Inl ''missing ] in host''
         | Some (_, colonPort) \<Rightarrow>
             (if validOptionalPort colonPort then unescape EncodeHost host else Inl ''invalid port after host''))
      else (case cutLast (CHR '':'') host of
           None \<Rightarrow> unescape EncodeHost host
         | Some (_, port) \<Rightarrow>
             (if list_all isDigit port then unescape EncodeHost host else Inl ''invalid port after host'')))"

definition userinfoChar :: "char \<Rightarrow> bool" where
  "userinfoChar c \<longleftrightarrow> isAlnum c \<or> c \<in> set (''-._:~!$&()*+,;=%@'' @ [CHR 0x27])"

definition parseUserinfo :: "string \<Rightarrow> string + string \<times> string option" where
  "parseUserinfo ui =
     (if \<not> list_all userinfoChar ui then Inl ''net/url: invalid userinfo''
      else if CHR '':'' \<notin> set ui
      then (case unescape EncodeUserPassword ui of Inl e \<Rightarrow> Inl e | Inr u \<Rightarrow> Inr (u, None))
      else (case cutAt (CHR '':'') ui of (username, password) \<Rightarrow>
         (case unescape EncodeUserPassword username of
            Inl e \<Rightarrow> Inl e
          | Inr u \<Rightarrow> (case unescape EncodeUserPassword password of
               Inl e \<Rightarrow> Inl e
             | Inr p \<Rightarrow> Inr (u, Some p)))))"

definition parseAuthority :: "string \<Rightarrow> string + (string \<times> string option) option \<times> string" where
  "parseAuthority authority =
     (case cutLast (CHR ''@'') authority of
        None \<Rightarrow> (case parseHost authority of Inl e \<Rightarrow> Inl e | Inr h \<Rightarrow> Inr (None, h))
      | Some (userinfo, host) \<Rightarrow> (case parseHost host of
            Inl e \<Rightarrow> Inl e
          | Inr h \<Rightarrow> (case parseUserinfo userinfo of Inl e \<Rightarrow> Inl e | Inr u \<Rightarrow> Inr (Some u, h))))"

text \<open>A colon in the first segment of a relative path is refused.\<close>

definition colonInFirstSegment :: "string \<Rightarrow> bool" where
  "colonInFirstSegment s \<longleftrightarrow> CHR '':'' \<in> set (fst (cutAt (CHR ''/'') s))"

definition withPath :: "url \<Rightarrow> string \<Rightarrow> string + url" where
  "withPath u p = (case unescape EncodePath p of Inl e \<Rightarrow> Inl e | Inr q \<Rightarrow> Inr (u\<lparr>ur_Path := q\<rparr>))"

definition parseRest :: "url \<Rightarrow> string \<Rightarrow> string + url" where
  "parseRest u rest =
     (if \<not> HasPrefix rest ''/'' \<and> ur_Scheme u \<noteq> [] then Inr (u\<lparr>ur_Opaque := rest\<rparr>)
      else if \<not> HasPrefix rest ''/'' \<and> colonInFirstSegment rest
      then Inl ''first path segment in URL cannot contain colon''
      else if HasPrefix rest ''//'' \<and> (ur_Scheme u \<noteq> [] \<or> \<not> HasPrefix rest ''///'')
      then (let authority = takeWhile (\<lambda>c. c \<noteq> CHR ''/'') (drop 2 rest);
                path = dropWhile (\<lambda>c. c \<noteq> CHR ''/'') (drop 2 rest)
            in case parseAuthority authority of
                 Inl e \<Rightarrow> Inl e
               | Inr (usr, host) \<Rightarrow> withPath (u\<lparr>ur_User := usr, ur_Host := host\<rparr>) path)
      else withPath u rest)"

definition parseNoFragment :: "string \<Rightarrow> string + url" where
  "parseNoFragment s =
     (let u0 = \<lparr>ur_Scheme = [], ur_Opaque = [], ur_User = None, ur_Host = [], ur_Path = [],
                ur_RawQuery = [], ur_Fragment = []\<rparr>
      in if list_ex isCTL s then Inl ''net/url: invalid control character in URL''
         else if s = ''*'' then Inr (u0\<lparr>ur_Path := ''*''\<rparr>)
         else case getScheme s of
             Inl e \<Rightarrow> Inl e
           | Inr (sch, rest) \<Rightarrow>
               (case cutAt (CHR ''?'') rest of (noQuery, query) \<Rightarrow>
                  parseRest (u0\<lparr>ur_Scheme := ToLower sch, ur_RawQuery := query\<rparr>) noQuery))"

text \<open>\<open>url.Parse\<close>.\<close>

definition urlParse :: "string \<Rightarrow> string + url" where
  "urlParse s =
     (case cutAt (CHR ''#'') s of (u, frag) \<Rightarrow>
        (case parseNoFragment u of
           Inl e \<Rightarrow> Inl e
         | Inr r \<Rightarrow>
             (if frag = [] then Inr r
              else case unescape EncodeFragment frag of
                  Inl e \<Rightarrow> Inl e
                | Inr f \<Rightarrow> Inr (r\<lparr>ur_Fragment := f\<rparr>))))"

section \<open>Facts\<close>

lemma unescape_plain:
  "CHR ''%'' \<notin> set s \<Longrightarrow> mode \<noteq> EncodeHost \<Longrightarrow> unescape mode s = Inr s"
  by (induction mode s rule: unescape.induct) auto

lemma code_div: "code (x::char) div 16 < 16"
  using less_mult_imp_div_less [of "code x" 16 16] code_less [of x] by simp

lemma upperhex_unhex: "d < 16 \<Longrightarrow> ishex (upperhex d) \<and> unhex (upperhex d) = d"
  by (auto simp: upperhex_def ishex_def unhex_def isDigit_def)

lemma pctEscape_chars: "c \<in> set (pctEscape x) \<Longrightarrow> c = CHR ''%'' \<or> isUnreserved c"
proof -
  have "isUnreserved (upperhex d)" if "d < 16" for d
    using that by (auto simp: isUnreserved_def isAlnum_def upperhex_def isDigit_def isUpper_def)
  then show "c \<in> set (pctEscape x) \<Longrightarrow> c = CHR ''%'' \<or> isUnreserved c"
    by (auto simp: pctEscape_def code_div)
qed

lemma unreserved_not_special: "isUnreserved c \<Longrightarrow> c \<noteq> CHR '':'' \<and> c \<noteq> CHR ''@'' \<and> c \<noteq> CHR ''/''"
  by (auto simp: isUnreserved_def isAlnum_def isDigit_def isUpper_def isLowerC_def)

text \<open>The escaped text holds only unreserved characters, plus signs and percent escapes.\<close>

lemma QueryEscape_chars: "c \<in> set (QueryEscape s) \<Longrightarrow> isUnreserved c \<or> c = CHR ''+'' \<or> c = CHR ''%''"
  using pctEscape_chars by (auto simp: QueryEscape_def split: if_splits)

lemma escapeUserPassword_chars:
  assumes "c \<in> set (escapeUserPassword s)"
  shows "c \<noteq> CHR '':'' \<and> c \<noteq> CHR ''@'' \<and> c \<noteq> CHR ''/''"
proof -
  from assms obtain x where "c \<in> set (if isUnreserved x \<or> x \<in> set ''$&+,;='' then [x] else pctEscape x)"
    by (simp only: escapeUserPassword_def set_concat set_map UN_iff image_iff Bex_def) blast
  then have "isUnreserved c \<or> c \<in> set ''$&+,;='' \<or> c = CHR ''%''"
    using pctEscape_chars [of c x] by (auto split: if_splits)
  then show ?thesis using unreserved_not_special by auto
qed

text \<open>Unescaping undoes the escaping of user names and passwords.\<close>

lemma unescape_pct: "mode \<noteq> EncodeHost \<Longrightarrow> unescape mode (pctEscape c @ s) =
    (case unescape mode s of Inl e \<Rightarrow> Inl e | Inr r \<Rightarrow> Inr (c # r))"
  using upperhex_unhex [OF code_div [of c]] upperhex_unhex [of "code c mod 16"]
  by (simp add: pctEscape_def mult.commute split: sum.split)

lemma unescape_escapeUserPassword: "mode \<noteq> EncodeHost \<Longrightarrow> unescape mode (escapeUserPassword s) = Inr s"
proof (induction s)
  case Nil
  then show ?case by (simp add: escapeUserPassword_def)
next
  case (Cons c s)
  show ?case
  proof (cases "isUnreserved c \<or> c \<in> set ''$&+,;=''")
    case True
    then have "c \<noteq> CHR ''%''" by (auto simp: isUnreserved_def isAlnum_def isDigit_def isUpper_def isLowerC_def)
    with True Cons show ?thesis by (simp add: escapeUserPassword_def)
  next
    case False
    then have "escapeUserPassword (c # s) = pctEscape c @ escapeUserPassword s" by (simp add: escapeUserPassword_def)
    with Cons unescape_pct [OF Cons.prems] show ?thesis by simp
  qed
qed

end
