(* ===== verification/GoJson.thy ===== *)
theory GoJson
  imports GoUrl
begin

text \<open>
  Go's \<open>encoding/json\<close> as the repository uses it: values, \<open>json.Marshal\<close> of a value, the
  syntax \<open>json.Unmarshal\<close> accepts, and the rules by which a value is decoded into a Go variable
  (decoders merge into the variable; \<open>null\<close> leaves a plain variable alone and clears a pointer).
  Strings are bytes; the model is exact on valid UTF-8.
\<close>

datatype json = JNull | JBool bool | JNum string | JStr string
  | JArr "json list" | JObj "(string \<times> json) list"

section \<open>Marshal\<close>

definition lowerhex :: "nat \<Rightarrow> char" where
  "lowerhex d = (if d < 10 then char_of (48 + d) else char_of (87 + d))"

definition u00 :: "char \<Rightarrow> string" where
  "u00 c = [CHR 0x5C] @ ''u00'' @ [lowerhex (code c div 16), lowerhex (code c mod 16)]"

definition escapeChar :: "char \<Rightarrow> string" where
  "escapeChar c =
     (if c = CHR 0x22 \<or> c = CHR 0x5C then [CHR 0x5C, c]
      else if code c = 10 then [CHR 0x5C, CHR ''n'']
      else if code c = 13 then [CHR 0x5C, CHR ''r'']
      else if code c = 9 then [CHR 0x5C, CHR ''t'']
      else if code c < 32 \<or> c \<in> set ''<>&'' then u00 c
      else [c])"

definition quote :: "string \<Rightarrow> string" where
  "quote s = CHR 0x22 # concat (map escapeChar s) @ [CHR 0x22]"

fun Marshal :: "json \<Rightarrow> string" where
  "Marshal JNull = ''null''"
| "Marshal (JBool b) = fmtBool b"
| "Marshal (JNum n) = n"
| "Marshal (JStr s) = quote s"
| "Marshal (JArr vs) = CHR ''['' # Join (map Marshal vs) '','' @ '']''"
| "Marshal (JObj ms) = CHR 0x7B # Join (map (\<lambda>(k, v). quote k @ CHR '':'' # Marshal v) ms) '','' @ [CHR 0x7D]"

section \<open>Syntax\<close>

definition skipWs :: "string \<Rightarrow> string" where
  "skipWs s = dropWhile (\<lambda>c. code c \<in> {32, 9, 10, 13}) s"

definition eat :: "char \<Rightarrow> string \<Rightarrow> string option" where
  "eat c s = (case skipWs s of [] \<Rightarrow> None | x # xs \<Rightarrow> if x = c then Some xs else None)"

definition literal :: "string \<Rightarrow> json \<Rightarrow> string \<Rightarrow> (json \<times> string) option" where
  "literal l v s = (if prefix l s then Some (v, drop (length l) s) else None)"

definition digits1 :: "string \<Rightarrow> (string \<times> string) option" where
  "digits1 s = (let d = takeWhile isDigit s in if d = [] then None else Some (d, drop (length d) s))"

text \<open>Integer part, fraction and exponent of a number literal.\<close>

definition intPart :: "string \<Rightarrow> (string \<times> string) option" where
  "intPart s = (if s \<noteq> [] \<and> hd s = CHR ''0'' then Some (''0'', tl s) else digits1 s)"

definition fracPart :: "string \<Rightarrow> (string \<times> string) option" where
  "fracPart s = (if s \<noteq> [] \<and> hd s = CHR ''.''
     then map_option (\<lambda>(d, r). (CHR ''.'' # d, r)) (digits1 (tl s)) else Some ([], s))"

definition expPart :: "string \<Rightarrow> (string \<times> string) option" where
  "expPart s = (if s \<noteq> [] \<and> (hd s = CHR ''e'' \<or> hd s = CHR ''E'')
     then (let t = tl s; sgn = (if t \<noteq> [] \<and> (hd t = CHR ''+'' \<or> hd t = CHR ''-'') then [hd t] else [])
           in map_option (\<lambda>(d, r). (hd s # sgn @ d, r)) (digits1 (drop (length sgn) t)))
     else Some ([], s))"

definition pNum :: "string \<Rightarrow> (json \<times> string) option" where
  "pNum s = (let sgn = (if s \<noteq> [] \<and> hd s = CHR ''-'' then ''-'' else [])
     in Option.bind (intPart (drop (length sgn) s)) (\<lambda>(i, r1).
        Option.bind (fracPart r1) (\<lambda>(f, r2).
        Option.bind (expPart r2) (\<lambda>(e, r3). Some (JNum (sgn @ i @ f @ e), r3)))))"

definition utf8 :: "nat \<Rightarrow> string" where
  "utf8 n =
     (if n < 128 then [char_of n]
      else if n < 2048 then [char_of (192 + n div 64), char_of (128 + n mod 64)]
      else if n < 65536 then [char_of (224 + n div 4096), char_of (128 + n div 64 mod 64), char_of (128 + n mod 64)]
      else [char_of (240 + n div 262144), char_of (128 + n div 4096 mod 64),
            char_of (128 + n div 64 mod 64), char_of (128 + n mod 64)])"

definition hex4 :: "char \<Rightarrow> char \<Rightarrow> char \<Rightarrow> char \<Rightarrow> nat option" where
  "hex4 a b c d = (if ishex a \<and> ishex b \<and> ishex c \<and> ishex d
     then Some (unhex a * 4096 + unhex b * 256 + unhex c * 16 + unhex d) else None)"

definition simpleEscape :: "char \<Rightarrow> char option" where
  "simpleEscape e =
     (if e = CHR 0x22 \<or> e = CHR 0x5C \<or> e = CHR ''/'' then Some e
      else if e = CHR ''b'' then Some (CHR 0x08) else if e = CHR ''f'' then Some (CHR 0x0C)
      else if e = CHR ''n'' then Some (CHR 0x0A) else if e = CHR ''r'' then Some (CHR 0x0D)
      else if e = CHR ''t'' then Some (CHR 0x09) else None)"

definition isSurrogate :: "nat \<Rightarrow> bool" where
  "isSurrogate n \<longleftrightarrow> 55296 \<le> n \<and> n < 57344"

text \<open>A low surrogate escape at the head of a string combines with a high one.\<close>

fun lowSurrogate :: "nat \<Rightarrow> string \<Rightarrow> (nat \<times> string) option" where
  "lowSurrogate hi (x # y # a # b # c # d # s) =
     (if x = CHR 0x5C \<and> y = CHR ''u'' \<and> hi < 56320 then
        (case hex4 a b c d of
           None \<Rightarrow> None
         | Some lo \<Rightarrow> (if 56320 \<le> lo \<and> lo < 57344
               then Some (65536 + (hi - 55296) * 1024 + (lo - 56320), s) else None))
      else None)"
| "lowSurrogate hi s = None"

lemma lowSurrogate_shorter: "lowSurrogate hi s = Some (n, r) \<Longrightarrow> length r < length s"
  by (induction hi s rule: lowSurrogate.induct) (auto split: option.splits if_splits)

text \<open>The body of a string literal, up to and including the closing quote.\<close>

function pStr :: "string \<Rightarrow> (string \<times> string) option" where
  "pStr s = (case s of
       [] \<Rightarrow> None
     | c # s1 \<Rightarrow>
         (if c = CHR 0x22 then Some ([], s1)
          else if c = CHR 0x5C then
            (case s1 of
               [] \<Rightarrow> None
             | e # s2 \<Rightarrow>
                 (if e = CHR ''u'' then
                    (case s2 of
                       h1 # h2 # h3 # h4 # s3 \<Rightarrow>
                         (case hex4 h1 h2 h3 h4 of
                            None \<Rightarrow> None
                          | Some n \<Rightarrow>
                              (if isSurrogate n then
                                 (case lowSurrogate n s3 of
                                    Some (m, s4) \<Rightarrow> map_option (\<lambda>(t, r). (utf8 m @ t, r)) (pStr s4)
                                  | None \<Rightarrow> map_option (\<lambda>(t, r). (utf8 65533 @ t, r)) (pStr s3))
                               else map_option (\<lambda>(t, r). (utf8 n @ t, r)) (pStr s3)))
                     | _ \<Rightarrow> None)
                  else (case simpleEscape e of
                      None \<Rightarrow> None
                    | Some x \<Rightarrow> map_option (\<lambda>(t, r). (x # t, r)) (pStr s2))))
          else if code c < 32 then None
          else map_option (\<lambda>(t, r). (c # t, r)) (pStr s1)))"
  by auto
termination
  by (relation "measure length") (auto dest: lowSurrogate_shorter)

declare pStr.simps [simp del]

text \<open>
  Values, with fuel: \<open>pElems\<close> reads the rest of a non-empty array, \<open>pMembers\<close> that of an object.
\<close>

definition valueStep ::
  "(string \<Rightarrow> (json list \<times> string) option) \<Rightarrow> (string \<Rightarrow> ((string \<times> json) list \<times> string) option) \<Rightarrow>
     string \<Rightarrow> (json \<times> string) option" where
  "valueStep elems members s = (case skipWs s of
       [] \<Rightarrow> None
     | c # cs \<Rightarrow>
         (if c = CHR 0x7B then
            (case eat (CHR 0x7D) cs of
               Some r \<Rightarrow> Some (JObj [], r)
             | None \<Rightarrow> map_option (\<lambda>(ms, r). (JObj ms, r)) (members cs))
          else if c = CHR ''['' then
            (case eat (CHR '']'') cs of
               Some r \<Rightarrow> Some (JArr [], r)
             | None \<Rightarrow> map_option (\<lambda>(vs, r). (JArr vs, r)) (elems cs))
          else if c = CHR 0x22 then map_option (\<lambda>(t, r). (JStr t, r)) (pStr cs)
          else if c = CHR ''t'' then literal ''true'' (JBool True) (c # cs)
          else if c = CHR ''f'' then literal ''false'' (JBool False) (c # cs)
          else if c = CHR ''n'' then literal ''null'' JNull (c # cs)
          else pNum (c # cs)))"

definition elemsStep ::
  "(string \<Rightarrow> (json \<times> string) option) \<Rightarrow> (string \<Rightarrow> (json list \<times> string) option) \<Rightarrow>
     string \<Rightarrow> (json list \<times> string) option" where
  "elemsStep val elems s = Option.bind (val s) (\<lambda>(v, r).
     (case eat (CHR '','') r of
        Some r1 \<Rightarrow> map_option (\<lambda>(vs, r2). (v # vs, r2)) (elems r1)
      | None \<Rightarrow> map_option (\<lambda>r1. ([v], r1)) (eat (CHR '']'') r)))"

definition membersStep ::
  "(string \<Rightarrow> (json \<times> string) option) \<Rightarrow> (string \<Rightarrow> ((string \<times> json) list \<times> string) option) \<Rightarrow>
     string \<Rightarrow> ((string \<times> json) list \<times> string) option" where
  "membersStep val members s = Option.bind (eat (CHR 0x22) s) (\<lambda>s1.
     Option.bind (pStr s1) (\<lambda>(k, s2).
     Option.bind (eat (CHR '':'') s2) (\<lambda>s3.
     Option.bind (val s3) (\<lambda>(v, r).
         (case eat (CHR '','') r of
            Some r1 \<Rightarrow> map_option (\<lambda>(ms, r2). ((k, v) # ms, r2)) (members r1)
          | None \<Rightarrow> map_option (\<lambda>r1. ([(k, v)], r1)) (eat (CHR 0x7D) r))))))"

fun pValue :: "nat \<Rightarrow> string \<Rightarrow> (json \<times> string) option"
  and pElems :: "nat \<Rightarrow> string \<Rightarrow> (json list \<times> string) option"
  and pMembers :: "nat \<Rightarrow> string \<Rightarrow> ((string \<times> json) list \<times> string) option" where
  "pValue 0 s = None"
| "pValue (Suc n) s = valueStep (pElems n) (pMembers n) s"
| "pElems 0 s = None"
| "pElems (Suc n) s = elemsStep (pValue n) (pElems n) s"
| "pMembers 0 s = None"
| "pMembers (Suc n) s = membersStep (pValue n) (pMembers n) s"

definition parseJson :: "string \<Rightarrow> json option" where
  "parseJson s = (case pValue (2 * length s + 2) s of
       Some (v, r) \<Rightarrow> if skipWs r = [] then Some v else None
     | None \<Rightarrow> None)"

section \<open>Facts: fuel\<close>

lemma eat_shorter: "eat c s = Some r \<Longrightarrow> length r < length s"
proof -
  assume "eat c s = Some r"
  then have "Suc (length r) = length (skipWs s)"
    by (auto simp: eat_def split: list.splits if_splits)
  moreover have "length (skipWs s) \<le> length s" by (simp add: skipWs_def length_dropWhile_le)
  ultimately show ?thesis by simp
qed

lemma pStr_shorter: "pStr s = Some (t, r) \<Longrightarrow> length r < length s"
proof (induction s arbitrary: t r rule: length_induct)
  case (1 s)
  have IH: "length r' < length s'" if "length s' < length s" "pStr s' = Some (t', r')" for s' t' r'
    using "1.IH" that by blast
  show ?case
    using "1.prems"
    by (subst (asm) pStr.simps)
      (auto split: list.splits if_splits option.splits dest!: IH [rotated] lowSurrogate_shorter)
qed

lemma literal_shorter: "literal l v s = Some (x, r) \<Longrightarrow> l \<noteq> [] \<Longrightarrow> length r < length s"
  by (auto simp: literal_def prefix_def split: if_splits)

lemma digits1_shorter: "digits1 s = Some (d, r) \<Longrightarrow> length r < length s"
  by (auto simp: digits1_def Let_def split: if_splits) (metis append_Nil diff_less length_greater_0_conv takeWhile_dropWhile_id takeWhile.simps(1))

lemma pNum_shorter: "pNum s = Some (v, r) \<Longrightarrow> length r < length s"
proof -
  assume a: "pNum s = Some (v, r)"
  have i: "length b < length a" if "intPart a = Some (d, b)" for a d b
    using that by (auto simp: intPart_def split: if_splits dest: digits1_shorter)
  have f: "length b \<le> length a" if "fracPart a = Some (d, b)" for a d b
    using that by (auto simp: fracPart_def split: if_splits dest!: digits1_shorter)
  have e: "length b \<le> length a" if "expPart a = Some (d, b)" for a d b
    using that by (auto simp: expPart_def Let_def split: if_splits dest!: digits1_shorter)
  from a obtain k i1 r1 f1 r2 e1 where
    "intPart (drop k s) = Some (i1, r1)" "fracPart r1 = Some (f1, r2)" "expPart r2 = Some (e1, r)"
    unfolding pNum_def Let_def by (auto split: bind_splits)
  from i [OF this(1)] f [OF this(2)] e [OF this(3)] show ?thesis by simp
qed

lemma skipWs_Cons: "skipWs s = c # cs \<Longrightarrow> length cs < length s"
  using length_dropWhile_le [of "\<lambda>c. code c \<in> {32, 9, 10, 13}" s] by (simp add: skipWs_def)

lemma valueStep_shorter:
  assumes "valueStep elems members s = Some (v, r)"
    and "\<And>s vs r. elems s = Some (vs, r) \<Longrightarrow> length r < length s"
    and "\<And>s ms r. members s = Some (ms, r) \<Longrightarrow> length r < length s"
  shows "length r < length s"
proof (cases "skipWs s")
  case Nil
  with assms(1) show ?thesis by (simp add: valueStep_def)
next
  case (Cons c cs)
  with assms(1) have "length r < length (c # cs)"
    by (auto simp: valueStep_def split: if_splits option.splits
        dest!: eat_shorter pStr_shorter literal_shorter pNum_shorter assms(2,3))
  with skipWs_Cons [OF Cons] show ?thesis by simp
qed

lemma elemsStep_shorter:
  assumes "elemsStep val elems s = Some (vs, r)"
    and "\<And>s v r. val s = Some (v, r) \<Longrightarrow> length r < length s"
    and "\<And>s vs r. elems s = Some (vs, r) \<Longrightarrow> length r < length s"
  shows "length r < length s"
  using assms(1)
  by (auto simp: elemsStep_def split: bind_splits option.splits dest!: eat_shorter assms(2,3))

lemma membersStep_shorter:
  assumes "membersStep val members s = Some (vs, r)"
    and "\<And>s v r. val s = Some (v, r) \<Longrightarrow> length r < length s"
    and "\<And>s vs r. members s = Some (vs, r) \<Longrightarrow> length r < length s"
  shows "length r < length s"
  using assms(1)
  by (auto simp: membersStep_def split: bind_splits option.splits dest!: eat_shorter pStr_shorter assms(2,3))

lemma parser_shorter:
  "(\<forall>s v r. pValue n s = Some (v, r) \<longrightarrow> length r < length s) \<and>
   (\<forall>s vs r. pElems n s = Some (vs, r) \<longrightarrow> length r < length s) \<and>
   (\<forall>s ms r. pMembers n s = Some (ms, r) \<longrightarrow> length r < length s)"
proof (induction n)
  case 0
  then show ?case by simp
next
  case (Suc n)
  then show ?case
    using valueStep_shorter [of "pElems n" "pMembers n"] elemsStep_shorter [of "pValue n" "pElems n"]
      membersStep_shorter [of "pValue n" "pMembers n"]
    unfolding pValue.simps pElems.simps pMembers.simps by blast
qed

text \<open>More fuel than twice the length of the text changes nothing.\<close>

lemma valueStep_cong:
  assumes "\<And>cs. length cs < length s \<Longrightarrow> elems cs = elems' cs"
    and "\<And>cs. length cs < length s \<Longrightarrow> members cs = members' cs"
  shows "valueStep elems members s = valueStep elems' members' s"
  using skipWs_Cons [of s] assms by (cases "skipWs s") (auto simp: valueStep_def split: option.split)

lemma elemsStep_cong:
  assumes "val s = val' s" and "\<And>s v r. val s = Some (v, r) \<Longrightarrow> length r < length s"
    and "\<And>cs. length cs + 1 < length s \<Longrightarrow> elems cs = elems' cs"
  shows "elemsStep val elems s = elemsStep val' elems' s"
proof -
  have "elems r1 = elems' r1" if "val s = Some (v, r)" "eat c r = Some r1" for v r c r1
    using assms(2) [OF that(1)] eat_shorter [OF that(2)] assms(3) by simp
  then show ?thesis
    unfolding elemsStep_def assms(1) [symmetric]
    by (cases "val s") (auto split: option.split)
qed

lemma membersStep_cong:
  assumes "\<And>cs. length cs + 1 < length s \<Longrightarrow> val cs = val' cs" and "\<And>s v r. val s = Some (v, r) \<Longrightarrow> length r < length s"
    and "\<And>cs. length cs + 1 < length s \<Longrightarrow> members cs = members' cs"
  shows "membersStep val members s = membersStep val' members' s"
proof -
  have v: "val s3 = val' s3" if "eat c s = Some s1" "pStr s1 = Some (k, s2)" "eat d s2 = Some s3" for c s1 k s2 d s3
    using eat_shorter [OF that(1)] pStr_shorter [OF that(2)] eat_shorter [OF that(3)] by (intro assms(1)) simp
  have m: "members r1 = members' r1" if "eat c s = Some s1" "pStr s1 = Some (k, s2)" "eat d s2 = Some s3"
      "val s3 = Some (x, r)" "eat e r = Some r1" for c s1 k s2 d s3 x r e r1
    using eat_shorter [OF that(1)] pStr_shorter [OF that(2)] eat_shorter [OF that(3)] assms(2) [OF that(4)]
      eat_shorter [OF that(5)] by (intro assms(3)) simp
  show ?thesis
    unfolding membersStep_def
    by (intro Option.bind_cong HOL.refl) (auto simp: v m split: option.split intro!: Option.bind_cong)
qed

lemma fuel_enough:
  "(\<forall>s. 2 * length s < n \<longrightarrow> pValue (Suc n) s = pValue n s) \<and>
   (\<forall>s. 2 * length s + 1 < n \<longrightarrow> pElems (Suc n) s = pElems n s) \<and>
   (\<forall>s. 2 * length s + 1 < n \<longrightarrow> pMembers (Suc n) s = pMembers n s)"
proof (induction n)
  case 0
  then show ?case by simp
next
  case (Suc n)
  have sh: "length r < length s" if "pValue m s = Some (v, r)" for m s v r
    using parser_shorter [of m] that by blast
  have v: "pValue (Suc n) cs = pValue n cs" if "2 * length cs < n" for cs using Suc that by blast
  have e: "pElems (Suc n) cs = pElems n cs" if "2 * length cs + 1 < n" for cs using Suc that by blast
  have m: "pMembers (Suc n) cs = pMembers n cs" if "2 * length cs + 1 < n" for cs using Suc that by blast
  have "pValue (Suc (Suc n)) s = pValue (Suc n) s" if "2 * length s < Suc n" for s
    unfolding pValue.simps(2) [of "Suc n" s] pValue.simps(2) [of n s]
    by (intro valueStep_cong e m) (use that in linarith)+
  moreover have "pElems (Suc (Suc n)) s = pElems (Suc n) s" if "2 * length s + 1 < Suc n" for s
    unfolding pElems.simps(2) [of "Suc n" s] pElems.simps(2) [of n s]
    by (intro elemsStep_cong v e) (use that sh in \<open>linarith | blast\<close>)+
  moreover have "pMembers (Suc (Suc n)) s = pMembers (Suc n) s" if "2 * length s + 1 < Suc n" for s
    unfolding pMembers.simps(2) [of "Suc n" s] pMembers.simps(2) [of n s]
    by (intro membersStep_cong v m) (use that sh in \<open>linarith | blast\<close>)+
  ultimately show ?case by blast
qed

lemma fuel_irrelevant:
  assumes "2 * length s < n"
  shows "pValue (n + k) s = pValue n s"
proof (induction k)
  case 0
  then show ?case by simp
next
  case (Suc k)
  with assms fuel_enough [of "n + k"] show ?case by simp
qed

section \<open>Facts: what Marshal prints is read back\<close>

lemma skipWs_id: "s \<noteq> [] \<Longrightarrow> code (hd s) \<notin> {32, 9, 10, 13} \<Longrightarrow> skipWs s = s"
  by (cases s) (simp_all add: skipWs_def)

lemma eat_hit [simp]: "code c \<notin> {32, 9, 10, 13} \<Longrightarrow> eat c (c # r) = Some r"
  by (simp add: eat_def skipWs_def)

lemma eat_miss: "code d \<notin> {32, 9, 10, 13} \<Longrightarrow> d \<noteq> c \<Longrightarrow> eat c (d # r) = None"
  by (simp add: eat_def skipWs_def)

lemma lowerhex_unhex: "d < 16 \<Longrightarrow> ishex (lowerhex d) \<and> unhex (lowerhex d) = d"
  by (auto simp: lowerhex_def ishex_def unhex_def isDigit_def)

lemma pStr_escapeChar: "pStr (escapeChar c @ t) = map_option (\<lambda>(x, r). (c # x, r)) (pStr t)"
proof -
  have u: "pStr (u00 c @ t) = map_option (\<lambda>(x, r). (c # x, r)) (pStr t)" if "code c < 128"
  proof -
    have "hex4 (CHR ''0'') (CHR ''0'') (lowerhex (code c div 16)) (lowerhex (code c mod 16)) = Some (code c)"
      using lowerhex_unhex [of "code c div 16"] lowerhex_unhex [of "code c mod 16"] that
      by (simp add: hex4_def ishex_def isDigit_def unhex_def [of "CHR ''0''"] less_mult_imp_div_less)
    with that show ?thesis
      by (subst pStr.simps) (simp add: u00_def isSurrogate_def utf8_def)
  qed
  have esc: "pStr (CHR 0x5C # e # t) = map_option (\<lambda>(x, r). (y # x, r)) (pStr t)"
    if "simpleEscape e = Some y" "e \<noteq> CHR ''u''" for e y
    using that by (subst pStr.simps) simp
  consider "c = CHR 0x22" | "c = CHR 0x5C" | "code c = 10" | "code c = 13" | "code c = 9"
    | "c \<noteq> CHR 0x22" "c \<noteq> CHR 0x5C" "code c \<noteq> 10" "code c \<noteq> 13" "code c \<noteq> 9" "code c < 32 \<or> c \<in> set ''<>&''"
    | "c \<noteq> CHR 0x22" "c \<noteq> CHR 0x5C" "code c \<noteq> 10" "code c \<noteq> 13" "code c \<noteq> 9" "\<not> (code c < 32 \<or> c \<in> set ''<>&'')"
    by blast
  then show ?thesis
  proof cases
    case 3
    then have "code c = code (CHR 0x0A)" by simp
    then have "c = CHR 0x0A" by (simp only: of_char_eq_iff)
    then show ?thesis using esc [of "CHR ''n''" c] by (simp add: escapeChar_def simpleEscape_def)
  next
    case 4
    then have "code c = code (CHR 0x0D)" by simp
    then have "c = CHR 0x0D" by (simp only: of_char_eq_iff)
    then show ?thesis using esc [of "CHR ''r''" c] by (simp add: escapeChar_def simpleEscape_def)
  next
    case 5
    then have "code c = code (CHR 0x09)" by simp
    then have "c = CHR 0x09" by (simp only: of_char_eq_iff)
    then show ?thesis using esc [of "CHR ''t''" c] by (simp add: escapeChar_def simpleEscape_def)
  next
    case 6
    then have "escapeChar c = u00 c" by (auto simp: escapeChar_def)
    moreover have "code c < 128" using 6(6) by auto
    ultimately show ?thesis using u by simp
  next
    case 7
    then have "escapeChar c = [c]" by (auto simp: escapeChar_def)
    with 7 show ?thesis by (subst pStr.simps) simp
  qed (use esc [of c c] in \<open>simp_all add: escapeChar_def simpleEscape_def\<close>)
qed

lemma pStr_quote: "pStr (concat (map escapeChar s) @ CHR 0x22 # r) = Some (s, r)"
proof (induction s)
  case Nil
  then show ?case by (subst pStr.simps) simp
next
  case (Cons c s)
  then show ?case by (simp add: pStr_escapeChar)
qed

subsection \<open>Numbers\<close>

definition stopsNumber :: "string \<Rightarrow> bool" where
  "stopsNumber r \<longleftrightarrow> r = [] \<or> hd r = CHR '','' \<or> hd r = CHR '']'' \<or> hd r = CHR 0x7D \<or> hd r = CHR 0x0A"

lemma stopsNumber_parts:
  assumes "stopsNumber r"
  shows "fracPart r = Some ([], r)" "expPart r = Some ([], r)" "takeWhile isDigit r = []"
  using assms by (cases r; auto simp: stopsNumber_def fracPart_def expPart_def isDigit_def)+

lemma hd_digitStr_zero: "hd (digitStr n) = CHR ''0'' \<Longrightarrow> n = 0"
proof (induction n rule: digitStr.induct)
  case (1 n)
  show ?case
  proof (cases "n < 10")
    case True
    with "1.prems" have "code (char_of (48 + n)) = code (CHR ''0'')" by (subst (asm) digitStr.simps) simp
    with True show ?thesis by (simp add: code_digit)
  next
    case False
    with "1.prems" have "hd (digitStr (n div 10)) = CHR ''0''" by (subst (asm) digitStr.simps) simp
    with False "1.IH" show ?thesis by simp
  qed
qed

lemma intPart_digitStr: "stopsNumber r \<Longrightarrow> intPart (digitStr n @ r) = Some (digitStr n, r)"
proof -
  assume "stopsNumber r"
  then have t: "takeWhile isDigit (digitStr n @ r) = digitStr n"
    using digitStr_digits [of n] stopsNumber_parts(3) by (simp add: takeWhile_append2)
  show ?thesis
  proof (cases "hd (digitStr n) = CHR ''0''")
    case True
    then have "n = 0" by (rule hd_digitStr_zero)
    moreover have "code (char_of (48::nat)) = code (CHR ''0'')" by simp
    then have "char_of (48::nat) = CHR ''0''" by (simp only: of_char_eq_iff)
    ultimately have "digitStr n = ''0''" by (simp add: digitStr.simps)
    then show ?thesis by (simp add: intPart_def)
  next
    case False
    with t show ?thesis by (simp add: intPart_def digits1_def Let_def)
  qed
qed

lemma pNum_Itoa: "stopsNumber r \<Longrightarrow> pNum (Itoa i @ r) = Some (JNum (Itoa i), r)"
  using hd_digitStr [of "nat i"]
  by (simp add: pNum_def Itoa_def Let_def intPart_digitStr stopsNumber_parts)

lemma Itoa_Cons:
  obtains c t where "Itoa i = c # t" "code c \<notin> {32, 9, 10, 13}"
    "c \<notin> {CHR '']'', CHR 0x7B, CHR 0x7D, CHR ''['', CHR 0x22, CHR ''t'', CHR ''f'', CHR ''n''}"
proof -
  have h: "Itoa i \<noteq> []" "hd (Itoa i) = CHR ''-'' \<or> isDigit (hd (Itoa i))"
    using digitStr_digits [of "nat i"] hd_in_set [OF digitStr_ne, of "nat i"] by (auto simp: Itoa_def)
  then obtain c t where c: "Itoa i = c # t" by (cases "Itoa i") auto
  with h(2) have "c = CHR ''-'' \<or> isDigit c" by simp
  then show thesis by (intro that [OF c]) (auto simp: isDigit_def)
qed

subsection \<open>Values\<close>

text \<open>The values the repository marshals: numbers are integers.\<close>

fun jsonOk :: "json \<Rightarrow> bool" where
  "jsonOk (JNum n) = (\<exists>i. n = Itoa i)"
| "jsonOk (JArr vs) = (\<forall>v\<in>set vs. jsonOk v)"
| "jsonOk (JObj ms) = (\<forall>m\<in>set ms. jsonOk (snd m))"
| "jsonOk v = True"

fun need :: "json \<Rightarrow> nat" where
  "need (JArr vs) = Suc (length vs + sum_list (map need vs))"
| "need (JObj ms) = Suc (length ms + sum_list (map (\<lambda>m. need (snd m)) ms))"
| "need v = 1"

text \<open>The first character tells the kinds of values apart.\<close>

lemma hd_Marshal:
  "jsonOk v \<Longrightarrow> \<exists>c t. Marshal v = c # t \<and> code c \<notin> {32, 9, 10, 13} \<and> c \<noteq> CHR '']'' \<and> c \<noteq> CHR 0x7D"
proof (cases v)
  case (JNum n)
  moreover assume "jsonOk v"
  ultimately obtain i where n: "n = Itoa i" by auto
  show ?thesis by (rule Itoa_Cons [of i]) (use JNum n in auto)
qed (auto simp: fmtBool_def quote_def)

definition readsBack :: "json \<Rightarrow> bool" where
  "readsBack v \<longleftrightarrow> (\<forall>n r. need v \<le> n \<longrightarrow> stopsNumber r \<longrightarrow> pValue n (Marshal v @ r) = Some (v, r))"

lemma readsBackD: "readsBack v \<Longrightarrow> need v \<le> n \<Longrightarrow> stopsNumber r \<Longrightarrow> pValue n (Marshal v @ r) = Some (v, r)"
  by (simp add: readsBack_def)

lemma stops [simp]: "stopsNumber (CHR '','' # r)" "stopsNumber (CHR '']'' # r)" "stopsNumber (CHR 0x7D # r)" "stopsNumber []"
  by (simp_all add: stopsNumber_def)

lemma pElems_back:
  assumes "vs \<noteq> []" "\<forall>v\<in>set vs. readsBack v" "length vs + sum_list (map need vs) \<le> n"
  shows "pElems n (Join (map Marshal vs) '','' @ CHR '']'' # r) = Some (vs, r)"
  using assms
proof (induction vs arbitrary: n rule: list_nonempty_induct)
  case (single v)
  then obtain m where "n = Suc m" "need v \<le> m" by (cases n) auto
  with single show ?case by (simp add: elemsStep_def readsBackD eat_miss)
next
  case (cons v vs)
  then obtain m where m: "n = Suc m" "need v \<le> m" "length vs + sum_list (map need vs) \<le> m" by (cases n) auto
  obtain w ws where vs: "vs = w # ws" using cons.hyps by (cases vs) auto
  have "pElems m (Join (map Marshal vs) '','' @ CHR '']'' # r) = Some (vs, r)" using cons m by simp
  with m cons.prems show ?case by (simp add: vs elemsStep_def readsBackD)
qed

lemma pMembers_back:
  assumes "ms \<noteq> []" "\<forall>m\<in>set ms. readsBack (snd m)" "length ms + sum_list (map (\<lambda>m. need (snd m)) ms) \<le> n"
  shows "pMembers n (Join (map (\<lambda>(k, v). quote k @ CHR '':'' # Marshal v) ms) '','' @ CHR 0x7D # r) = Some (ms, r)"
  using assms
proof (induction ms arbitrary: n rule: list_nonempty_induct)
  case (single m)
  obtain k v where kv: "m = (k, v)" by (cases m)
  from single obtain n' where "n = Suc n'" "need v \<le> n'" by (cases n) (auto simp: kv)
  with single kv show ?case by (simp add: membersStep_def quote_def pStr_quote readsBackD eat_miss)
next
  case (cons m ms)
  obtain k v where kv: "m = (k, v)" by (cases m)
  from cons obtain n' where m: "n = Suc n'" "need v \<le> n'" "length ms + sum_list (map (\<lambda>m. need (snd m)) ms) \<le> n'"
    by (cases n) (auto simp: kv)
  obtain w ws where ms: "ms = w # ws" using cons.hyps by (cases ms) auto
  have "pMembers n' (Join (map (\<lambda>(k, v). quote k @ CHR '':'' # Marshal v) ms) '','' @ CHR 0x7D # r) = Some (ms, r)"
    using cons m by simp
  with m cons.prems kv show ?case by (simp add: ms membersStep_def quote_def pStr_quote readsBackD)
qed

lemma pValue_Marshal: "jsonOk v \<Longrightarrow> readsBack v"
proof (induction v rule: jsonOk.induct)
  case (1 x)
  then obtain i where i: "x = Itoa i" by auto
  show ?case
    unfolding readsBack_def
  proof (intro allI impI)
    fix n r
    assume "need (JNum x) \<le> n" "stopsNumber r"
    then obtain m where n: "n = Suc m" by (cases n) auto
    obtain c t where c: "Itoa i = c # t" "code c \<notin> {32, 9, 10, 13}"
      "c \<notin> {CHR '']'', CHR 0x7B, CHR 0x7D, CHR ''['', CHR 0x22, CHR ''t'', CHR ''f'', CHR ''n''}"
      by (rule Itoa_Cons)
    then have "skipWs (Itoa i @ r) = c # t @ r" by (simp add: skipWs_def)
    with c pNum_Itoa [OF \<open>stopsNumber r\<close>, of i]
    show "pValue n (Marshal (JNum x) @ r) = Some (JNum x, r)"
      by (simp add: n i valueStep_def)
  qed
next
  case (2 vs)
  then have vs: "\<forall>v\<in>set vs. readsBack v" by simp
  show ?case
    unfolding readsBack_def
  proof (intro allI impI)
    fix n r
    assume "need (JArr vs) \<le> n"
    then obtain m where m: "n = Suc m" "length vs + sum_list (map need vs) \<le> m" by (cases n) auto
    show "pValue n (Marshal (JArr vs) @ r) = Some (JArr vs, r)"
    proof (cases vs)
      case Nil
      with m show ?thesis by (simp add: valueStep_def skipWs_id)
    next
      case (Cons v ws)
      obtain c t where "Marshal v = c # t" "code c \<notin> {32, 9, 10, 13}" "c \<noteq> CHR '']''"
        using hd_Marshal [of v] "2.prems" Cons by auto
      then have "eat (CHR '']'') (Join (map Marshal vs) '','' @ CHR '']'' # r) = None"
        using Cons by (cases ws) (simp_all add: eat_miss)
      with m pElems_back [OF _ vs m(2), of r] Cons show ?thesis
        by (simp add: valueStep_def skipWs_id del: Join.simps)
    qed
  qed
next
  case (3 ms)
  then have ms: "\<forall>m\<in>set ms. readsBack (snd m)" by simp
  show ?case
    unfolding readsBack_def
  proof (intro allI impI)
    fix n r
    assume "need (JObj ms) \<le> n"
    then obtain m where m: "n = Suc m" "length ms + sum_list (map (\<lambda>m. need (snd m)) ms) \<le> m" by (cases n) auto
    show "pValue n (Marshal (JObj ms) @ r) = Some (JObj ms, r)"
    proof (cases ms)
      case Nil
      with m show ?thesis by (simp add: valueStep_def skipWs_id)
    next
      case (Cons a ws)
      then have "eat (CHR 0x7D) (Join (map (\<lambda>(k, v). quote k @ CHR '':'' # Marshal v) ms) '','' @ CHR 0x7D # r) = None"
        by (cases ws) (simp_all add: eat_miss quote_def split: prod.split)
      with m pMembers_back [OF _ ms m(2), of r] Cons show ?thesis
        by (simp add: valueStep_def skipWs_id del: Join.simps)
    qed
  qed
next
  case "4_1"
  show ?case
    unfolding readsBack_def
    by (auto simp: valueStep_def skipWs_id literal_def Suc_le_eq gr0_conv_Suc)
next
  case "4_2"
  show ?case
    unfolding readsBack_def
    by (auto simp: valueStep_def skipWs_id literal_def fmtBool_def Suc_le_eq gr0_conv_Suc)
next
  case "4_3"
  show ?case
    unfolding readsBack_def
    by (auto simp: valueStep_def skipWs_id quote_def pStr_quote Suc_le_eq gr0_conv_Suc)
qed

lemma parseJson_Marshal:
  assumes "jsonOk v" "stopsNumber r" "skipWs r = []"
  shows "parseJson (Marshal v @ r) = Some v"
proof -
  let ?n = "2 * length (Marshal v @ r) + 2"
  have "pValue (?n + need v) (Marshal v @ r) = Some (v, r)"
    by (rule readsBackD [OF pValue_Marshal [OF assms(1)]]) (use assms(2) in simp_all)
  then have "pValue ?n (Marshal v @ r) = Some (v, r)"
    using fuel_irrelevant [of "Marshal v @ r" ?n "need v"] by simp
  with assms(3) show ?thesis by (simp add: parseJson_def)
qed

lemma stops_newline [simp]: "stopsNumber (CHR 0x0A # r)" "skipWs (CHR 0x0A # r) = skipWs r" "skipWs [] = []"
  by (simp_all add: stopsNumber_def skipWs_def)

section \<open>Decoding into variables\<close>

text \<open>A decoder merges a value into the present content of a variable, or reports a type error.\<close>

type_synonym 'a decoder = "'a \<Rightarrow> json \<Rightarrow> string + 'a"

definition typeError :: "string + 'a" where
  "typeError = Inl ''json: cannot unmarshal value''"

definition decStr :: "string decoder" where
  "decStr cur v = (case v of JNull \<Rightarrow> Inr cur | JStr s \<Rightarrow> Inr s | _ \<Rightarrow> typeError)"

text \<open>A field is matched by its exact name first, then without regard to case.\<close>

definition fieldOf :: "(string \<times> 'a decoder) list \<Rightarrow> string \<Rightarrow> 'a decoder option" where
  "fieldOf fds key = (case map_of fds key of
       Some d \<Rightarrow> Some d
     | None \<Rightarrow> map_option snd (findFirst (\<lambda>f. ToLower (fst f) = ToLower key) fds))"

primrec decMembers :: "(string \<times> 'a decoder) list \<Rightarrow> 'a \<Rightarrow> (string \<times> json) list \<Rightarrow> string + 'a" where
  "decMembers fds cur [] = Inr cur"
| "decMembers fds cur (m # ms) = (case fieldOf fds (fst m) of
       None \<Rightarrow> decMembers fds cur ms
     | Some d \<Rightarrow> (case d cur (snd m) of Inl e \<Rightarrow> Inl e | Inr cur' \<Rightarrow> decMembers fds cur' ms))"

definition decStruct :: "(string \<times> 'a decoder) list \<Rightarrow> 'a decoder" where
  "decStruct fds cur v = (case v of
       JNull \<Rightarrow> Inr cur | JObj ms \<Rightarrow> decMembers fds cur ms | _ \<Rightarrow> typeError)"

text \<open>Decoding one member of a struct.\<close>

definition decField :: "('s \<Rightarrow> 'a) \<Rightarrow> ('a \<Rightarrow> 's \<Rightarrow> 's) \<Rightarrow> 'a decoder \<Rightarrow> 's decoder" where
  "decField get upd d cur v = (case d (get cur) v of Inl e \<Rightarrow> Inl e | Inr x \<Rightarrow> Inr (upd x cur))"

definition decPtr :: "'a \<Rightarrow> 'a decoder \<Rightarrow> 'a option decoder" where
  "decPtr zero d cur v = (case v of
       JNull \<Rightarrow> Inr None
     | _ \<Rightarrow> (case d (case cur of None \<Rightarrow> zero | Some x \<Rightarrow> x) v of Inl e \<Rightarrow> Inl e | Inr x \<Rightarrow> Inr (Some x)))"

text \<open>The elements of an array are merged into those the slice has.\<close>

primrec decElems :: "'a \<Rightarrow> 'a decoder \<Rightarrow> 'a list \<Rightarrow> json list \<Rightarrow> string + 'a list" where
  "decElems zero d cur [] = Inr []"
| "decElems zero d cur (v # vs) =
     (case d (case cur of [] \<Rightarrow> zero | x # _ \<Rightarrow> x) v of
        Inl e \<Rightarrow> Inl e
      | Inr x \<Rightarrow> (case decElems zero d (drop 1 cur) vs of Inl e \<Rightarrow> Inl e | Inr xs \<Rightarrow> Inr (x # xs)))"

definition decSlice :: "'a \<Rightarrow> 'a decoder \<Rightarrow> 'a list decoder" where
  "decSlice zero d cur v = (case v of
       JNull \<Rightarrow> Inr [] | JArr vs \<Rightarrow> decElems zero d cur vs | _ \<Rightarrow> typeError)"

text \<open>Numbers: a Go \<open>int\<close> takes an integer literal in range; an \<open>interface{}\<close> is kept as its text.\<close>

definition decBool :: "bool decoder" where
  "decBool cur v = (case v of JNull \<Rightarrow> Inr cur | JBool b \<Rightarrow> Inr b | _ \<Rightarrow> typeError)"

definition decInt :: "int decoder" where
  "decInt cur v = (case v of
       JNull \<Rightarrow> Inr cur
     | JNum n \<Rightarrow> (case Atoi n of None \<Rightarrow> typeError | Some i \<Rightarrow> Inr i)
     | _ \<Rightarrow> typeError)"

definition decAny :: "string decoder" where
  "decAny cur v = (case v of JNull \<Rightarrow> Inr [] | JStr s \<Rightarrow> Inr s | _ \<Rightarrow> Inr (Marshal v))"

text \<open>\<open>json.Unmarshal\<close> into a variable.\<close>

definition Unmarshal :: "'a decoder \<Rightarrow> 'a \<Rightarrow> string \<Rightarrow> string + 'a" where
  "Unmarshal d zero body = (case parseJson body of
       None \<Rightarrow> Inl ''invalid character in JSON''
     | Some v \<Rightarrow> d zero v)"

end
