(* ===== verification/PipelineCtxt.thy ===== *)
theory PipelineCtxt
  imports Nexus GoJson "HOL-Library.Multiset"
begin

text \<open>
  \<open>pkg/pipelinectxt\<close>: the context of a pipeline run, its cache of small files below \<open>.ods\<close>, how
  it is assembled from a Git checkout, and the artifacts of a run.
\<close>

section \<open>The context (context.go)\<close>

definition namespaceFile :: string where
  "namespaceFile = ''/var/run/secrets/kubernetes.io/serviceaccount/namespace''"
definition WIP :: string where "WIP = ''WIP''"
definition BaseDir :: string where "BaseDir = ''.ods''"
definition SubreposDir :: string where "SubreposDir = ''repos''"
definition SubreposPath :: string where "SubreposPath = BaseDir @ ''/'' @ SubreposDir"

record ODSContext =
  oc_Project :: string
  oc_Repository :: string
  oc_Component :: string
  oc_Namespace :: string
  oc_GitCommitSHA :: string
  oc_GitFullRef :: string
  oc_GitRef :: string
  oc_GitURL :: string
  oc_Version :: string
  oc_Environment :: string
  oc_PullRequestBase :: string
  oc_PullRequestKey :: string

definition emptyContext :: ODSContext where
  "emptyContext = \<lparr>oc_Project = [], oc_Repository = [], oc_Component = [], oc_Namespace = [],
     oc_GitCommitSHA = [], oc_GitFullRef = [], oc_GitRef = [], oc_GitURL = [], oc_Version = [],
     oc_Environment = [], oc_PullRequestBase = [], oc_PullRequestKey = []\<rparr>"

text \<open>The members kept in the cache; each is a key of the two maps in the code.\<close>

datatype ctxtField = FProject | FRepository | FComponent | FEnvironment | FVersion | FGitCommitSHA
  | FGitURL | FGitRef | FGitFullRef | FNamespace | FPRBase | FPRKey

definition cacheFields :: "ctxtField list" where
  "cacheFields = [FProject, FRepository, FComponent, FEnvironment, FVersion, FGitCommitSHA,
     FGitURL, FGitRef, FGitFullRef, FNamespace, FPRBase, FPRKey]"

fun fieldFile :: "ctxtField \<Rightarrow> string" where
  "fieldFile FProject = ''project''"
| "fieldFile FRepository = ''repository''"
| "fieldFile FComponent = ''component''"
| "fieldFile FEnvironment = ''environment''"
| "fieldFile FVersion = ''version''"
| "fieldFile FGitCommitSHA = ''git-commit-sha''"
| "fieldFile FGitURL = ''git-url''"
| "fieldFile FGitRef = ''git-ref''"
| "fieldFile FGitFullRef = ''git-full-ref''"
| "fieldFile FNamespace = ''namespace''"
| "fieldFile FPRBase = ''pr-base''"
| "fieldFile FPRKey = ''pr-key''"

fun getField :: "ctxtField \<Rightarrow> ODSContext \<Rightarrow> string" where
  "getField FProject o' = oc_Project o'"
| "getField FRepository o' = oc_Repository o'"
| "getField FComponent o' = oc_Component o'"
| "getField FEnvironment o' = oc_Environment o'"
| "getField FVersion o' = oc_Version o'"
| "getField FGitCommitSHA o' = oc_GitCommitSHA o'"
| "getField FGitURL o' = oc_GitURL o'"
| "getField FGitRef o' = oc_GitRef o'"
| "getField FGitFullRef o' = oc_GitFullRef o'"
| "getField FNamespace o' = oc_Namespace o'"
| "getField FPRBase o' = oc_PullRequestBase o'"
| "getField FPRKey o' = oc_PullRequestKey o'"

fun setField :: "ctxtField \<Rightarrow> string \<Rightarrow> ODSContext \<Rightarrow> ODSContext" where
  "setField FProject s o' = o'\<lparr>oc_Project := s\<rparr>"
| "setField FRepository s o' = o'\<lparr>oc_Repository := s\<rparr>"
| "setField FComponent s o' = o'\<lparr>oc_Component := s\<rparr>"
| "setField FEnvironment s o' = o'\<lparr>oc_Environment := s\<rparr>"
| "setField FVersion s o' = o'\<lparr>oc_Version := s\<rparr>"
| "setField FGitCommitSHA s o' = o'\<lparr>oc_GitCommitSHA := s\<rparr>"
| "setField FGitURL s o' = o'\<lparr>oc_GitURL := s\<rparr>"
| "setField FGitRef s o' = o'\<lparr>oc_GitRef := s\<rparr>"
| "setField FGitFullRef s o' = o'\<lparr>oc_GitFullRef := s\<rparr>"
| "setField FNamespace s o' = o'\<lparr>oc_Namespace := s\<rparr>"
| "setField FPRBase s o' = o'\<lparr>oc_PullRequestBase := s\<rparr>"
| "setField FPRKey s o' = o'\<lparr>oc_PullRequestKey := s\<rparr>"

definition cacheFile :: "ctxtField \<Rightarrow> string" where
  "cacheFile f = BaseDir @ ''/'' @ fieldFile f"

definition getTrimmedFileContent :: "string \<Rightarrow> string prog_w" where
  "getTrimmedFileContent filename = bindP (readFile filename) (\<lambda>content. ret (TrimSpace content))"

definition writeField :: "string \<Rightarrow> ctxtField \<Rightarrow> string \<Rightarrow> unit prog_w" where
  "writeField wsDir f content = writeFile (filepathJoin [wsDir, cacheFile f]) content"

text \<open>
  \<open>ord\<close> is the order in which Go happens to range over the map; a whole program takes one for
  every history of calls.
\<close>

type_synonym rangeOrder = "call list \<Rightarrow> ctxtField list \<Rightarrow> ctxtField list"

definition WriteCache :: "(ctxtField list \<Rightarrow> ctxtField list) \<Rightarrow> ODSContext \<Rightarrow> string \<Rightarrow> unit prog_w" where
  "WriteCache ord o' wsDir =
     (let dotODS = filepathJoin [wsDir, BaseDir]
      in bindP (gets (osStat dotODS)) (\<lambda>r.
         bindP (if IsNotExist r then wrapErr (''could not create '' @ BaseDir @ '': '') (osMkdir dotODS) else ret ()) (\<lambda>_.
         forEach (ord cacheFields) (\<lambda>f.
           wrapErr (''could not write '' @ cacheFile f @ '': '') (writeField wsDir f (getField f o'))))))"

definition ReadCache :: "(ctxtField list \<Rightarrow> ctxtField list) \<Rightarrow> ODSContext \<Rightarrow> string \<Rightarrow> ODSContext prog_w" where
  "ReadCache ord o' wsDir =
     foldP (\<lambda>c f.
        if getField f c = []
        then bindP (wrapErr (''could not read '' @ cacheFile f @ '': '')
               (getTrimmedFileContent (filepathJoin [wsDir, cacheFile f]))) (\<lambda>cached. ret (setField f cached c))
        else ret c) o' (ord cacheFields)"

definition filenameWithoutExtension :: "string \<Rightarrow> string" where
  "filenameWithoutExtension filename = TrimSuffix filename (Ext filename)"

text \<open>
  The lines a \<open>bufio.Scanner\<close> delivers: split at line feeds, a final empty piece dropped; a piece
  of 65536 bytes or more ends the scan with an error.  A trailing carriage return is white space
  and trimmed by the caller.
\<close>

definition scanLines :: "string \<Rightarrow> string list" where
  "scanLines s = (let ls = Split s [CHR 0x0A] in if last ls = [] then butlast ls else ls)"

definition lineTooLong :: "string \<Rightarrow> bool" where
  "lineTooLong l \<longleftrightarrow> 65536 \<le> length l"

lemma lineTooLong_code [code]: "lineTooLong l = (dropPow 16 (CHR 0x20 # l) \<noteq> [])"
  by (auto simp: lineTooLong_def dropPow_drop)

fun findOriginURL :: "string list \<Rightarrow> string + string" where
  "findOriginURL [] = Inl ''did not find URL in git config''"
| "findOriginURL (l # ls) =
     (if lineTooLong l then Inl ''error scanning file: bufio.Scanner: token too long''
      else let trimmedLine = TrimSpace l
           in if HasPrefix trimmedLine ''url = '' then Inr (TrimPrefix trimmedLine ''url = '')
              else findOriginURL ls)"

definition readRemoteOriginURL :: "string \<Rightarrow> string prog_w" where
  "readRemoteOriginURL gitConfigFilename =
     bindP (wrapErr ''could not open git config: '' (osOpen gitConfigFilename)) (\<lambda>_.
     bindP (wrapErr ''error scanning file: '' (readFile gitConfigFilename)) (\<lambda>content.
     liftE (findOriginURL (scanLines content))))"

text \<open>\<open>if len(member) == 0 { member = ... }\<close>.\<close>

definition ifEmpty :: "ctxtField \<Rightarrow> (ODSContext \<Rightarrow> string prog_w) \<Rightarrow> ODSContext \<Rightarrow> ODSContext prog_w" where
  "ifEmpty f m o' = (if getField f o' = [] then bindP (m o') (\<lambda>s. ret (setField f s o')) else ret o')"

text \<open>The members derived from the last two elements of the path of the remote URL.\<close>

definition assembleNames :: "string \<Rightarrow> string \<Rightarrow> ODSContext \<Rightarrow> ODSContext" where
  "assembleNames organisation repository o5 =
     (let o6 = (if oc_Project o5 = [] then o5\<lparr>oc_Project := ToLower organisation\<rparr> else o5);
          o7 = (if oc_Repository o6 = [] then o6\<lparr>oc_Repository := filenameWithoutExtension repository\<rparr> else o6);
          o8 = (if oc_Component o7 = []
                then o7\<lparr>oc_Component := TrimPrefix (oc_Repository o7) (oc_Project o7 @ ''-'')\<rparr> else o7)
      in if oc_Version o8 = [] then o8\<lparr>oc_Version := WIP\<rparr> else o8)"

definition gitRefOf :: "string \<Rightarrow> string prog_w" where
  "gitRefOf fullRef = (case SplitN 3 fullRef ''/'' of
       [a, b, c] \<Rightarrow> ret c
     | _ \<Rightarrow> failE (''cannot extract git ref from .git/HEAD: '' @ fullRef))"

definition Assemble :: "ODSContext \<Rightarrow> string \<Rightarrow> ODSContext prog_w" where
  "Assemble o0 wsDir =
     bindP (ifEmpty FNamespace (\<lambda>_. wrapErr (''could not read '' @ namespaceFile @ '': '')
              (getTrimmedFileContent namespaceFile)) o0) (\<lambda>o1.
     bindP (ifEmpty FGitFullRef (\<lambda>_. bindP (wrapErr ''could not read .git/HEAD: ''
              (getTrimmedFileContent (filepathJoin [wsDir, ''.git/HEAD'']))) (\<lambda>gitHead.
              ret (TrimPrefix gitHead ''ref: ''))) o1) (\<lambda>o2.
     bindP (ifEmpty FGitRef (\<lambda>o'. gitRefOf (oc_GitFullRef o')) o2) (\<lambda>o3.
     bindP (ifEmpty FGitURL (\<lambda>_. wrapErr ''could not get remote origin URL: ''
              (readRemoteOriginURL (filepathJoin [wsDir, ''.git/config'']))) o3) (\<lambda>o4.
     bindP (ifEmpty FGitCommitSHA (\<lambda>o'. wrapErr (''could not read .git/'' @ oc_GitFullRef o' @ '': '')
              (getTrimmedFileContent (filepathJoin [wsDir, ''.git'', oc_GitFullRef o']))) o4) (\<lambda>o5.
     bindP (wrapErr ''could not parse remote origin URL: '' (liftE (urlParse (oc_GitURL o5)))) (\<lambda>u.
     let pathParts = Split (ur_Path u) ''/''
     in bindP (liftPanic ''index out of range [-1]''
              (if 2 \<le> length pathParts
               then Some (pathParts ! (length pathParts - 2), pathParts ! (length pathParts - 1)) else None))
          (\<lambda>(organisation, repository). ret (assembleNames organisation repository o5))))))))"

definition ODSContext_Copy :: "ODSContext \<Rightarrow> ODSContext" where
  "ODSContext_Copy o' = o'"

definition WriteGitIgnore :: "string \<Rightarrow> unit prog_w" where
  "WriteGitIgnore path =
     writeFile path (''/'' @ BaseDir @ [CHR 0x0A] @ ''/.ods-cache'' @ [CHR 0x0A])"

section \<open>Artifacts (artifacts.go)\<close>

definition ArtifactsDir :: string where "ArtifactsDir = ''artifacts''"
definition ArtifactsPath :: string where "ArtifactsPath = BaseDir @ ''/'' @ ArtifactsDir"
definition PipelineRunsDir :: string where "PipelineRunsDir = ''pipeline-runs''"
definition PipelineRunsPath :: string where "PipelineRunsPath = ArtifactsPath @ ''/'' @ PipelineRunsDir"
definition ImageDigestsDir :: string where "ImageDigestsDir = ''image-digests''"
definition ImageDigestsPath :: string where "ImageDigestsPath = ArtifactsPath @ ''/'' @ ImageDigestsDir"
definition SonarAnalysisDir :: string where "SonarAnalysisDir = ''sonarqube-analysis''"
definition SonarAnalysisPath :: string where "SonarAnalysisPath = ArtifactsPath @ ''/'' @ SonarAnalysisDir"
definition AquaScansDir :: string where "AquaScansDir = ''aquasec-scans''"
definition AquaScansPath :: string where "AquaScansPath = ArtifactsPath @ ''/'' @ AquaScansDir"
definition DeploymentsDir :: string where "DeploymentsDir = ''deployments''"
definition DeploymentsPath :: string where "DeploymentsPath = ArtifactsPath @ ''/'' @ DeploymentsDir"
definition ArtifactsManifestFilename :: string where "ArtifactsManifestFilename = ''manifest.json''"

definition artifactInfoJson :: "artifactInfo \<Rightarrow> json" where
  "artifactInfoJson a = JObj [(''url'', JStr (ai_URL a)), (''directory'', JStr (ai_Directory a)),
     (''name'', JStr (ai_Name a))]"

definition artifactsManifestJson :: "artifactsManifest \<Rightarrow> json" where
  "artifactsManifestJson am = JObj [(''sourceRepository'', JStr (am_SourceRepository am)),
     (''artifacts'', JArr (map artifactInfoJson (am_Artifacts am)))]"

text \<open>A document whose value is null leaves the pointer nil and is no error.\<close>

definition ReadArtifactsManifestFromFile :: "services \<Rightarrow> string \<Rightarrow> artifactsManifest option prog_w" where
  "ReadArtifactsManifestFromFile sv filename =
     bindP (wrapErr (''could not read file '' @ filename @ '': '') (readFile filename)) (\<lambda>body.
     wrapErr ''could not unmarshal manifest: '' (liftE (sv_YamlManifest sv body)))"

definition ArtifactsManifest_Contains :: "artifactsManifest \<Rightarrow> string \<Rightarrow> string \<Rightarrow> string \<Rightarrow> bool" where
  "ArtifactsManifest_Contains am repository directory name =
     (if repository \<noteq> am_SourceRepository am then False
      else list_ex (\<lambda>a. ai_Directory a = directory \<and> ai_Name a = name) (am_Artifacts am))"

definition WriteJsonArtifact :: "json \<Rightarrow> string \<Rightarrow> string \<Rightarrow> unit prog_w" where
  "WriteJsonArtifact inp artifactsPath filename =
     bindP (wrapErr (''could not create '' @ artifactsPath @ '': '') (osMkdirAll artifactsPath)) (\<lambda>_.
     writeFile (filepathJoin [artifactsPath, filename]) (Marshal inp))"

definition CopyArtifact :: "string \<Rightarrow> string \<Rightarrow> unit prog_w" where
  "CopyArtifact sourceFile artifactsPath =
     bindP (wrapErr (''could not create '' @ artifactsPath @ '': '') (osMkdirAll artifactsPath)) (\<lambda>_.
     file_Copy sourceFile (filepathJoin [artifactsPath, Base sourceFile]))"

text \<open>The map from subdirectory to the files in it, in the order of the directory.\<close>

definition readSubdir :: "string \<Rightarrow> string \<Rightarrow> (string \<times> string list) prog_w" where
  "readSubdir artifactsDir name =
     bindP (fatal (readDir (filepathJoin [artifactsDir, name]))) (\<lambda>subitems.
     ret (name, map fst (filter (\<lambda>i. \<not> snd i) subitems)))"

definition ReadArtifactsDir :: "string \<Rightarrow> (string \<times> string list) list prog_w" where
  "ReadArtifactsDir artifactsDir =
     bindP (readDir artifactsDir) (\<lambda>items.
     mapP (readSubdir artifactsDir) (map fst (filter snd items)))"

definition ArtifactGroupBase :: "ODSContext \<Rightarrow> string" where
  "ArtifactGroupBase ctxt = nexus_ArtifactGroupBase (oc_Project ctxt) (oc_Repository ctxt) (oc_GitCommitSHA ctxt)"

definition ArtifactGroup :: "ODSContext \<Rightarrow> string \<Rightarrow> string" where
  "ArtifactGroup ctxt subdir =
     nexus_ArtifactGroup (oc_Project ctxt) (oc_Repository ctxt) (oc_GitCommitSHA ctxt) subdir"

primrec searchForAssets :: "services \<Rightarrow> string \<Rightarrow> string list \<Rightarrow> (string \<times> string list) prog_w" where
  "searchForAssets sv searchGroup [] = ret ([], [])"
| "searchForAssets sv searchGroup (r # rs) =
     bindP (nexus_Search sv r searchGroup) (\<lambda>urls.
     if urls \<noteq> [] then ret (r, urls) else searchForAssets sv searchGroup rs)"

text \<open>Where the asset of a URL goes: its path below the group, which must have a directory.\<close>

definition assetSubPath :: "string \<Rightarrow> string \<Rightarrow> string + string" where
  "assetSubPath grp s = (case urlParse s of
       Inl e \<Rightarrow> Inl e
     | Inr u \<Rightarrow> (case Split (ur_Path u) (grp @ ''/'') of
           [a, fileWithSubPath] \<Rightarrow>
             (if Contains fileWithSubPath ''/'' then Inr fileWithSubPath
              else Inl (''unexpected URL path (must contain a subfolder after the commit SHA): '' @ fileWithSubPath))
         | _ \<Rightarrow> Inl (''unexpected URL path (must contain two parts after group): '' @ ur_Path u)))"

definition downloadAsset :: "services \<Rightarrow> string \<Rightarrow> string \<Rightarrow> string \<Rightarrow> artifactInfo prog_w" where
  "downloadAsset sv grp artifactsDir s =
     bindP (liftE (assetSubPath grp s)) (\<lambda>fileWithSubPath.
     let artifactName = Base fileWithSubPath;
         artifactType = pathDir fileWithSubPath;
         artifactsSubPath = filepathJoin [artifactsDir, artifactType]
     in bindP (gets (osStat artifactsSubPath)) (\<lambda>r.
        bindP (if IsNotExist r
               then wrapErr (''failed to create directory: '' @ artifactsSubPath @ '', error: '') (osMkdirAll artifactsSubPath)
               else ret ()) (\<lambda>_.
        bindP (nexus_Download sv s (filepathJoin [artifactsDir, fileWithSubPath])) (\<lambda>_.
        ret \<lparr>ai_URL = s, ai_Directory = artifactType, ai_Name = artifactName\<rparr>))))"

definition DownloadGroup :: "services \<Rightarrow> string list \<Rightarrow> string \<Rightarrow> string \<Rightarrow> artifactsManifest prog_w" where
  "DownloadGroup sv repositories grp artifactsDir =
     bindP (searchForAssets sv (grp @ ''/*'') repositories) (\<lambda>(sourceRepo, urls).
     bindP (mapP (downloadAsset sv grp artifactsDir) urls) (\<lambda>artifacts.
     ret \<lparr>am_SourceRepository = sourceRepo, am_Artifacts = artifacts\<rparr>))"

section \<open>Facts: the cache\<close>

lemma set_cacheFields: "set cacheFields = UNIV"
  by (auto simp: cacheFields_def) (metis ctxtField.exhaust)

lemma distinct_cacheFields: "distinct cacheFields"
  by (simp add: cacheFields_def)

lemma getField_setField: "getField g (setField f s c) = (if g = f then s else getField g c)"
  by (cases f; cases g) simp_all

lemma context_eqI: "(\<And>f. getField f c = getField f d) \<Longrightarrow> c = d"
proof -
  assume a: "\<And>f. getField f c = getField f d"
  show "c = d"
    using a [of FProject] a [of FRepository] a [of FComponent] a [of FEnvironment] a [of FVersion]
      a [of FGitCommitSHA] a [of FGitURL] a [of FGitRef] a [of FGitFullRef] a [of FNamespace]
      a [of FPRBase] a [of FPRKey]
    by (cases c, cases d) simp
qed

lemma fieldFile_plain: "plainElem (fieldFile f)" "CHR ''/'' \<notin> set (fieldFile f)"
  by (cases f; simp add: plainElem_def)+

lemma fieldFile_inj: "fieldFile f = fieldFile g \<Longrightarrow> f = g"
  by (cases f; cases g) simp_all

lemma resolve_cacheFile:
  "resolve w (filepathJoin [wsDir, cacheFile f]) = resolve w wsDir @ [BaseDir, fieldFile f]"
proof -
  have "resolve w (filepathJoin [wsDir, cacheFile f]) = stepInto (resolve w wsDir) (cacheFile f)"
    by (rule resolve_Join) (simp_all add: cacheFile_def BaseDir_def HasPrefix_def)
  also have "\<dots> = resolve w wsDir @ [BaseDir, fieldFile f]"
    using stepInto_plain2 [of BaseDir "fieldFile f"] fieldFile_plain [of f]
    by (simp add: cacheFile_def BaseDir_def plainElem_def)
  finally show ?thesis .
qed

definition readField :: "string \<Rightarrow> ctxtField \<Rightarrow> world \<Rightarrow> string option" where
  "readField wsDir f w = contentAt (filepathJoin [wsDir, cacheFile f]) w"

text \<open>The cache files of one directory form a store.\<close>

interpretation cacheStore: file_store "writeField wsDir" "readField wsDir" for wsDir
proof
  fix k c w w'
  assume "writeField wsDir k c w = (Ok (), w')"
  then show "readField wsDir k w' = Some c"
    unfolding writeField_def readField_def by (rule contentAt_write_same)
next
  fix k c w w' k'
  assume wr: "writeField wsDir k c w = (Ok (), w')" and "k' \<noteq> k"
  then have "fieldFile k' \<noteq> fieldFile k" using fieldFile_inj by blast
  then show "readField wsDir k' w' = readField wsDir k' w"
    unfolding readField_def
    by (intro contentAt_write_other [OF wr [unfolded writeField_def]]) (simp_all add: resolve_cacheFile)
qed

lemma forEach_wrapErr_Ok:
  "forEach xs (\<lambda>x. wrapErr (e x) (f x)) w = (Ok (), w') \<longleftrightarrow> forEach xs f w = (Ok (), w')"
proof (induction xs arbitrary: w)
  case Nil
  then show ?case by simp
next
  case (Cons x xs)
  obtain r w1 where "f x w = (r, w1)" by (cases "f x w")
  then show ?case
    by (cases r) (simp_all add: Cons.IH bindP_def wrapErr_def [of "e x"])
qed

lemma WriteCache_stores:
  assumes "WriteCache ord c wsDir w = (Ok (), w')" "set (ord cacheFields) = UNIV"
  shows "readField wsDir f w' = Some (getField f c)"
proof -
  from assms(1) obtain w1 where
    "forEach (ord cacheFields) (\<lambda>f. wrapErr (''could not write '' @ cacheFile f @ '': '') (writeField wsDir f (getField f c))) w1 = (Ok (), w')"
    by (auto simp: WriteCache_def Let_def prog_simps elim!: bindP_OkE)
  then have "forEach (ord cacheFields) (\<lambda>f. writeField wsDir f (getField f c)) w1 = (Ok (), w')"
    by (simp add: forEach_wrapErr_Ok)
  from cacheStore.write_all [OF this] assms(2) show ?thesis by auto
qed

lemma ReadCache_loop:
  assumes "\<And>f. readField wsDir f w = Some (val f)" "distinct fs"
  shows "\<exists>c'. foldP (\<lambda>c f.
        if getField f c = []
        then bindP (wrapErr (''could not read '' @ cacheFile f @ '': '')
               (getTrimmedFileContent (filepathJoin [wsDir, cacheFile f]))) (\<lambda>cached. ret (setField f cached c))
        else ret c) c fs w = (Ok c', w) \<and>
      (\<forall>f. getField f c' = (if f \<in> set fs \<and> getField f c = [] then TrimSpace (val f) else getField f c))"
  using assms(2)
proof (induction fs arbitrary: c)
  case Nil
  then show ?case by (simp add: prog_simps)
next
  case (Cons g fs)
  have rd: "readFile (filepathJoin [wsDir, cacheFile g]) w = (Ok (val g), w)"
    using assms(1) [of g] by (simp add: readField_def readFile_contentAt)
  show ?case
  proof (cases "getField g c = []")
    case True
    from Cons.IH [of "setField g (TrimSpace (val g)) c"] Cons.prems True rd show ?thesis
      by (auto simp: getTrimmedFileContent_def wrapErr_def prog_simps bindP_def getField_setField)
  next
    case False
    from Cons.IH [of c] Cons.prems False show ?thesis
      by (auto simp: prog_simps bindP_def)
  qed
qed

section \<open>Facts: assembling and artifacts\<close>

text \<open>Reading programs leave the world alone.\<close>

interpretation same: step_relation "(=) :: world \<Rightarrow> world \<Rightarrow> bool"
  by unfold_locales auto

lemma readFile_same: "preserves (=) (readFile f)"
  unfolding preserves_def by (metis readFile_state prod.collapse)

lemma osOpen_same: "preserves (=) (osOpen f)"
  unfolding preserves_def osOpen_def by (simp split: statRes.split)

lemma getTrimmed_same: "preserves (=) (getTrimmedFileContent f)"
  unfolding getTrimmedFileContent_def by (intro same.bind readFile_same same.ret)

lemma ReadCache_same: "preserves (=) (ReadCache ord c dir)"
  unfolding ReadCache_def by (intro same.rules getTrimmed_same)

lemma readRemote_same: "preserves (=) (readRemoteOriginURL f)"
  unfolding readRemoteOriginURL_def by (intro same.bind same.wrap osOpen_same readFile_same same.liftE)

lemma ifEmpty_same: "(\<And>o'. preserves (=) (m o')) \<Longrightarrow> preserves (=) (ifEmpty f m o')"
  unfolding ifEmpty_def by (simp add: same.bind same.ret)

lemma gitRefOf_same: "preserves (=) (gitRefOf s)"
  unfolding gitRefOf_def by (auto split: list.split intro: same.ret same.fail)

lemma Assemble_same: "preserves (=) (Assemble o' wsDir)"
  unfolding Assemble_def Let_def
  by (intro same.rules ifEmpty_same getTrimmed_same readRemote_same gitRefOf_same)

lemma ifEmpty_Ok:
  "ifEmpty f m c w = (Ok d, w') \<Longrightarrow> \<exists>s. d = (if getField f c = [] then setField f s c else c)"
  by (auto simp: ifEmpty_def prog_simps elim!: bindP_OkE split: if_splits)

text \<open>\<open>keeps c d\<close>: what was set in \<open>c\<close> is the same in \<open>d\<close>.\<close>

definition keeps :: "ODSContext \<Rightarrow> ODSContext \<Rightarrow> bool" where
  "keeps c d \<longleftrightarrow> (\<forall>f. getField f c \<noteq> [] \<longrightarrow> getField f d = getField f c)"

lemma keeps_refl: "keeps c c"
  by (simp add: keeps_def)

lemma keeps_trans: "keeps c d \<Longrightarrow> keeps d e \<Longrightarrow> keeps c e"
  unfolding keeps_def by metis

lemma ifEmpty_keeps: "ifEmpty f m c w = (Ok d, w') \<Longrightarrow> keeps c d"
  using ifEmpty_Ok [of f m c w d w'] by (auto simp: keeps_def getField_setField split: if_splits)

lemma searchForAssets_result:
  assumes "searchForAssets sv g repos w = (Ok (src, urls), w')"
  shows "(urls \<noteq> [] \<and> (\<exists>h before after. repos = before @ src # after \<and> sv_SearchAssets sv h src g = Inr urls \<and>
            w_trace w' = w_trace w @ map (\<lambda>r. CSearchAssets r g) (before @ [src]))) \<or>
         (urls = [] \<and> src = [] \<and> w_trace w' = w_trace w @ map (\<lambda>r. CSearchAssets r g) repos)"
  using assms
proof (induction repos arbitrary: w)
  case Nil
  then show ?case by (simp add: prog_simps)
next
  case (Cons r rs)
  from Cons.prems obtain us w1 where
    s: "nexus_Search sv r g w = (Ok us, w1)"
    and k: "(if us \<noteq> [] then ret (r, us) else searchForAssets sv g rs) w1 = (Ok (src, urls), w')"
    by (auto elim: bindP_OkE)
  note n = nexus_Search_result [OF s]
  have us: "sv_SearchAssets sv (w_trace w) r g = Inr us" using n(2) by (auto split: sum.splits)
  have t: "w_trace w1 = w_trace w @ [CSearchAssets r g]" using n(1) by simp
  show ?case
  proof (cases "us = []")
    case True
    with k Cons.IH [of w1]
    consider "urls \<noteq> []" "\<exists>h before after. rs = before @ src # after \<and> sv_SearchAssets sv h src g = Inr urls \<and>
            w_trace w' = w_trace w1 @ map (\<lambda>r. CSearchAssets r g) (before @ [src])"
      | "urls = []" "src = []" "w_trace w' = w_trace w1 @ map (\<lambda>r. CSearchAssets r g) rs" by auto
    then show ?thesis
    proof cases
      case 1
      then obtain h before after where "rs = before @ src # after" "sv_SearchAssets sv h src g = Inr urls"
        "w_trace w' = w_trace w1 @ map (\<lambda>r. CSearchAssets r g) (before @ [src])" by blast
      with 1(1) t show ?thesis
        by (intro disjI1 conjI exI [of _ h] exI [of _ "r # before"] exI [of _ after]) simp_all
    next
      case 2
      with t show ?thesis by simp
    qed
  next
    case False
    with k us t show ?thesis
      by (intro disjI1 conjI exI [of _ "w_trace w"] exI [of _ "[]"] exI [of _ rs]) (simp_all add: prog_simps)
  qed
qed

lemma downloadAsset_result:
  assumes "downloadAsset sv grp dir s w = (Ok a, w')"
  shows "\<exists>p. assetSubPath grp s = Inr p \<and> a = \<lparr>ai_URL = s, ai_Directory = pathDir p, ai_Name = Base p\<rparr>"
proof -
  obtain p where p: "assetSubPath grp s = Inr p"
    using assms by (cases "assetSubPath grp s") (auto simp: downloadAsset_def prog_simps)
  with assms show ?thesis
    by (auto simp: downloadAsset_def Let_def prog_simps elim!: bindP_OkE)
qed

lemma mapP_Ok:
  "mapP f xs w = (Ok ys, w') \<Longrightarrow> length ys = length xs \<and> (\<forall>i<length xs. \<exists>w1 w2. f (xs ! i) w1 = (Ok (ys ! i), w2))"
proof (induction xs arbitrary: ys w w')
  case Nil
  then show ?case by (simp add: prog_simps)
next
  case (Cons x xs)
  from Cons.prems obtain y w1 where 1: "f x w = (Ok y, w1)"
    and k: "bindP (mapP f xs) (\<lambda>ys. ret (y # ys)) w1 = (Ok ys, w')" by (auto elim: bindP_OkE)
  from k obtain zs w2 where 2: "mapP f xs w1 = (Ok zs, w2)" and ys: "ys = y # zs"
    by (auto elim!: bindP_OkE simp: prog_simps)
  from Cons.IH [OF 2] 1 ys show ?case by (auto simp: nth_Cons split: nat.split)
qed

lemma ifEmpty_other: "ifEmpty f m c w = (Ok d, w') \<Longrightarrow> g \<noteq> f \<Longrightarrow> getField g d = getField g c"
  using ifEmpty_Ok [of f m c w d w'] by (auto simp: getField_setField)

lemma gitRefOf_Ok: "gitRefOf s w = (Ok r, w') \<Longrightarrow> \<exists>a b. s = a @ ''/'' @ b @ ''/'' @ r"
proof -
  assume "gitRefOf s w = (Ok r, w')"
  then obtain a b where a: "SplitN 3 s ''/'' = [a, b, r]"
    by (auto simp: gitRefOf_def prog_simps split: list.splits)
  have 3: "(3::nat) = Suc (Suc (Suc 0))" by simp
  obtain i where i: "Index s ''/'' = Some i" "a = take i s"
      "SplitN (Suc (Suc 0)) (drop (i + 1) s) ''/'' = [b, r]"
    using a unfolding 3 by (auto split: option.splits)
  obtain j where j: "Index (drop (i + 1) s) ''/'' = Some j" "b = take j (drop (i + 1) s)"
      "r = drop (j + 1) (drop (i + 1) s)"
    using i(3) by (auto split: option.splits)
  show ?thesis using Index_SomeD [OF i(1)] Index_SomeD [OF j(1)] i(2) j(2,3) by (metis length_Cons list.size(3) One_nat_def)
qed

lemma assembleNames_keeps: "keeps c (assembleNames org repo c)"
  unfolding keeps_def
proof (intro allI impI)
  fix f
  assume "getField f c \<noteq> []"
  then show "getField f (assembleNames org repo c) = getField f c"
    by (cases f) (simp_all add: assembleNames_def Let_def)
qed

lemma Assemble_stages:
  assumes "Assemble c wsDir w = (Ok d, w')"
  obtains c5 org repo where "keeps c c5" "d = assembleNames org repo c5"
    "oc_Version c5 = oc_Version c" "oc_Component c5 = oc_Component c"
    "oc_GitRef c = [] \<Longrightarrow> \<exists>a b. oc_GitFullRef c5 = a @ ''/'' @ b @ ''/'' @ oc_GitRef c5"
proof -
  obtain o1 o2 o3 o4 o5 m1 m2 m4 m5 w1 w2 w3 w4 w5 org repo where
    e1: "ifEmpty FNamespace m1 c w = (Ok o1, w1)" and e2: "ifEmpty FGitFullRef m2 o1 w1 = (Ok o2, w2)"
    and e3: "ifEmpty FGitRef (\<lambda>o'. gitRefOf (oc_GitFullRef o')) o2 w2 = (Ok o3, w3)"
    and e4: "ifEmpty FGitURL m4 o3 w3 = (Ok o4, w4)" and e5: "ifEmpty FGitCommitSHA m5 o4 w4 = (Ok o5, w5)"
    and d: "d = assembleNames org repo o5"
    using assms unfolding Assemble_def Let_def
    by (elim bindP_OkE) (auto simp: prog_simps elim!: bindP_OkE split: prod.splits)
  have k: "keeps c o5"
    by (rule keeps_trans [OF ifEmpty_keeps [OF e1]], rule keeps_trans [OF ifEmpty_keeps [OF e2]],
        rule keeps_trans [OF ifEmpty_keeps [OF e3]], rule keeps_trans [OF ifEmpty_keeps [OF e4]],
        rule ifEmpty_keeps [OF e5])
  have o: "getField g o5 = getField g c" if "g \<in> {FVersion, FComponent}" for g
    using that ifEmpty_other [OF e1, of g] ifEmpty_other [OF e2, of g] ifEmpty_other [OF e3, of g]
      ifEmpty_other [OF e4, of g] ifEmpty_other [OF e5, of g] by auto
  have r: "\<exists>a b. oc_GitFullRef o5 = a @ ''/'' @ b @ ''/'' @ oc_GitRef o5" if "oc_GitRef c = []"
  proof -
    have "oc_GitRef o2 = []"
      using that ifEmpty_other [OF e1, of FGitRef] ifEmpty_other [OF e2, of FGitRef] by simp
    with e3 have "bindP (gitRefOf (oc_GitFullRef o2)) (\<lambda>s. ret (o2\<lparr>oc_GitRef := s\<rparr>)) w2 = (Ok o3, w3)"
      by (simp add: ifEmpty_def)
    then obtain r v where "gitRefOf (oc_GitFullRef o2) w2 = (Ok r, v)" "ret (o2\<lparr>oc_GitRef := r\<rparr>) v = (Ok o3, w3)"
      by (rule bindP_OkE)
    then obtain a b where "oc_GitFullRef o3 = a @ ''/'' @ b @ ''/'' @ oc_GitRef o3"
      using gitRefOf_Ok [of "oc_GitFullRef o2" w2 r v] by (force simp: ret_def)
    then have "oc_GitFullRef o5 = a @ ''/'' @ b @ ''/'' @ oc_GitRef o5"
      using ifEmpty_other [OF e4, of FGitRef] ifEmpty_other [OF e5, of FGitRef]
        ifEmpty_other [OF e4, of FGitFullRef] ifEmpty_other [OF e5, of FGitFullRef] by simp
    then show ?thesis by blast
  qed
  show thesis using that [OF k d] o [of FVersion] o [of FComponent] r by simp
qed

section \<open>Properties\<close>

text \<open>
  C8: a context written to the cache is read back from it: the members that are empty in the
  reading context get the written values without surrounding white space, the others are kept,
  in whatever order Go ranges over the two maps.
\<close>

theorem context_cache_roundtrip:
  assumes "WriteCache ord c wsDir w = (Ok (), w')"
    and "mset (ord cacheFields) = mset cacheFields" "mset (ord' cacheFields) = mset cacheFields"
  shows "\<exists>d'. ReadCache ord' d wsDir w' = (Ok d', w') \<and>
     (\<forall>f. getField f d' = (if getField f d = [] then TrimSpace (getField f c) else getField f d))"
proof -
  have "set (ord cacheFields) = UNIV" using assms(2) set_cacheFields by (metis set_mset_mset)
  then have st: "readField wsDir f w' = Some (getField f c)" for f
    using WriteCache_stores [OF assms(1)] by blast
  have "distinct (ord' cacheFields)" "set (ord' cacheFields) = UNIV"
    using assms(3) distinct_cacheFields set_cacheFields by (metis mset_eq_imp_distinct_iff, metis set_mset_mset)
  then show ?thesis
    using ReadCache_loop [of wsDir w' "\<lambda>f. getField f c" "ord' cacheFields" d] st
    by (auto simp: ReadCache_def)
qed

definition exampleContext :: ODSContext where
  "exampleContext = \<lparr>oc_Project = ''foo'', oc_Repository = ''foo-bar'', oc_Component = ''bar'',
     oc_Namespace = ''foo-cd'', oc_GitCommitSHA = ''abcdef'', oc_GitFullRef = ''refs/heads/main'',
     oc_GitRef = ''main'', oc_GitURL = ''https://b.org/scm/foo/foo-bar.git'', oc_Version = ''1.0.0'',
     oc_Environment = ''dev'', oc_PullRequestBase = [], oc_PullRequestKey = []\<rparr>"

lemma WriteCache_example: "fst (WriteCache id exampleContext ''.'' emptyWorld) = Ok ()"
  by code_simp

lemma context_cache_witness:
  "\<exists>w' d. WriteCache id exampleContext ''.'' emptyWorld = (Ok (), w') \<and>
     ReadCache rev emptyContext ''.'' w' = (Ok d, w') \<and> oc_Repository d = ''foo-bar''"
proof -
  obtain w' where w': "WriteCache id exampleContext ''.'' emptyWorld = (Ok (), w')"
    using WriteCache_example by (metis prod.collapse)
  have "mset (id cacheFields) = mset cacheFields" "mset (rev cacheFields) = mset cacheFields" by simp_all
  from context_cache_roundtrip [where ord = id and ord' = rev, OF w' this, of emptyContext] obtain d where
    d: "ReadCache rev emptyContext ''.'' w' = (Ok d, w')"
       "getField FRepository d = (if getField FRepository emptyContext = [] then TrimSpace (getField FRepository exampleContext)
          else getField FRepository emptyContext)" by blast
  then have "oc_Repository d = ''foo-bar''"
    by (simp add: emptyContext_def exampleContext_def TrimSpace_def isSpace_def)
  with w' d show ?thesis by blast
qed

text \<open>
  C18: assembling a context only reads; it keeps every member that was set, always yields a
  version (\<open>WIP\<close> if there was none), derives a missing component from the repository by
  cutting the project, and a missing Git ref is the full ref without its first two elements.
\<close>

theorem Assemble_completes_context:
  assumes "Assemble c wsDir w = (Ok d, w')"
  shows "w' = w \<and> (\<forall>f. getField f c \<noteq> [] \<longrightarrow> getField f d = getField f c) \<and>
     oc_Version d = (if oc_Version c = [] then WIP else oc_Version c) \<and>
     (oc_Component c = [] \<longrightarrow> oc_Component d = TrimPrefix (oc_Repository d) (oc_Project d @ ''-'')) \<and>
     (oc_GitRef c = [] \<longrightarrow> (\<exists>a b. oc_GitFullRef d = a @ ''/'' @ b @ ''/'' @ oc_GitRef d))"
proof (rule Assemble_stages [OF assms])
  fix c5 org repo
  assume 5: "keeps c c5" "d = assembleNames org repo c5"
    "oc_Version c5 = oc_Version c" "oc_Component c5 = oc_Component c"
    "oc_GitRef c = [] \<Longrightarrow> \<exists>a b. oc_GitFullRef c5 = a @ ''/'' @ b @ ''/'' @ oc_GitRef c5"
  have "w' = w" using preservesD [OF Assemble_same assms] by simp
  moreover have "\<forall>f. getField f c \<noteq> [] \<longrightarrow> getField f d = getField f c"
    using keeps_trans [OF 5(1) assembleNames_keeps [of c5 org repo]] 5(2) by (simp add: keeps_def)
  moreover have "oc_Version d = (if oc_Version c = [] then WIP else oc_Version c)"
    using 5(2,3) by (simp add: assembleNames_def Let_def)
  moreover have "oc_Component c = [] \<longrightarrow> oc_Component d = TrimPrefix (oc_Repository d) (oc_Project d @ ''-'')"
    using 5(2,4) by (simp add: assembleNames_def Let_def)
  moreover have "oc_GitRef c = [] \<longrightarrow> (\<exists>a b. oc_GitFullRef d = a @ ''/'' @ b @ ''/'' @ oc_GitRef d)"
    using 5(2,5) by (simp add: assembleNames_def Let_def)
  ultimately show ?thesis by blast
qed

definition exampleBareContext :: ODSContext where
  "exampleBareContext = emptyContext\<lparr>oc_Namespace := ''foo-cd'', oc_GitFullRef := ''refs/heads/main'',
     oc_GitCommitSHA := ''abcdef'', oc_GitURL := ''https://b.org/scm/FOO/foo-bar.git''\<rparr>"

lemma Assemble_witness:
  "\<exists>d. Assemble exampleBareContext ''.'' emptyWorld = (Ok d, emptyWorld) \<and> oc_Version d = WIP \<and>
     oc_Component d = TrimPrefix (oc_Repository d) (oc_Project d @ ''-'')"
proof -
  have "(case fst (Assemble exampleBareContext ''.'' emptyWorld) of Ok d \<Rightarrow> oc_Repository d = ''foo-bar'' | _ \<Rightarrow> False)"
    by code_simp
  then obtain d w' where d: "Assemble exampleBareContext ''.'' emptyWorld = (Ok d, w')"
    by (cases "Assemble exampleBareContext ''.'' emptyWorld") (auto split: outcome.splits)
  have "oc_Version exampleBareContext = []" "oc_Component exampleBareContext = []"
    by (simp_all add: exampleBareContext_def emptyContext_def)
  with Assemble_completes_context [OF d] d show ?thesis by auto
qed

text \<open>A remote URL whose path has no slash makes the code index an element that is not there.\<close>

lemma Assemble_panics:
  "fst (Assemble (exampleContext\<lparr>oc_GitURL := ''foo''\<rparr>) ''.'' emptyWorld) = Panic ''index out of range [-1]''"
  by code_simp


definition assetServices :: services where
  "assetServices = noServices
     \<lparr>sv_SearchAssets := (\<lambda>h repo g. if repo = PermanentRepositoryDefault
        then Inr [''https://n/repository/r/foo/bar/abc/xunit-reports/a.xml''] else Inr []),
      sv_HttpGet := (\<lambda>h u. Inr ''<a/>'')\<rparr>"


end
