(* ===== verification/Repository.thy ===== *)
theory Repository
  imports PipelineCtxt
begin

text \<open>
  \<open>internal/repository\<close> and the file readers of \<open>pkg/config\<close>: finding the branch, the commit, the
  tags and the pipeline configuration of a repository.
\<close>

section \<open>Branches (branches.go)\<close>

definition releaseBranchParams :: "string \<Rightarrow> branchListParams" where
  "releaseBranchParams filterText =
     \<lparr>bl_Base = [], bl_Details = False, bl_FilterText = filterText, bl_OrderBy = [], bl_BoostMatches = True\<rparr>"

definition branchList :: "services \<Rightarrow> string \<Rightarrow> string \<Rightarrow> branchListParams \<Rightarrow> branchPage prog_w" where
  "branchList sv project repo params =
     perform (CBranchList project repo params) (\<lambda>h. sv_BranchList sv h project repo params)"

definition findReleaseBranch :: "services \<Rightarrow> string \<Rightarrow> string \<Rightarrow> string \<Rightarrow> string prog_w" where
  "findReleaseBranch sv projectKey repositorySlug version =
     (let releaseBranch = ''release/'' @ version
      in bindP (branchList sv projectKey repositorySlug (releaseBranchParams releaseBranch)) (\<lambda>branchPage.
         ret (case findFirst (\<lambda>b. br_DisplayID b = releaseBranch) (bp_Values branchPage) of
                None \<Rightarrow> []
              | Some b \<Rightarrow> br_ID b)))"

definition BestMatchingBranch :: "services \<Rightarrow> string \<Rightarrow> repository \<Rightarrow> string \<Rightarrow> string prog_w" where
  "BestMatchingBranch sv project subrepo version =
     (let configured = (if re_Branch subrepo = [] then DefaultBranch
            else if HasPrefix (re_Branch subrepo) ''refs/'' then re_Branch subrepo
            else ''refs/heads/'' @ re_Branch subrepo)
      in if version \<noteq> WIP
         then bindP (wrapErr ''could not detect release branches: ''
                (findReleaseBranch sv project (re_Name subrepo) version)) (\<lambda>releaseBranch.
              ret (if releaseBranch \<noteq> [] then releaseBranch else configured))
         else ret configured)"

definition LatestCommitForBranch :: "services \<Rightarrow> string \<Rightarrow> string \<Rightarrow> string \<Rightarrow> string prog_w" where
  "LatestCommitForBranch sv projectKey repositorySlug branch =
     bindP (branchList sv projectKey repositorySlug (releaseBranchParams branch)) (\<lambda>branchPage.
     case findFirst (\<lambda>b. br_ID b = branch) (bp_Values branchPage) of
       None \<Rightarrow> failE (''could not find branch '' @ branch)
     | Some b \<Rightarrow> ret (br_LatestCommit b))"

section \<open>Configuration (config.go, pkg/config/ods.go)\<close>

text \<open>The loop over the candidate files: the body of the first one found, or the last error.\<close>

fun getODSBody ::
  "services \<Rightarrow> string \<Rightarrow> string \<Rightarrow> string \<Rightarrow> string list \<Rightarrow> string option \<Rightarrow> (string option \<times> string option) prog_w" where
  "getODSBody sv project repo gitFullRef [] getErr = ret (None, getErr)"
| "getODSBody sv project repo gitFullRef (c # cs) getErr =
     bindP (attempt (perform (CRawGet project repo c gitFullRef)
             (\<lambda>h. sv_RawGet sv h project repo c gitFullRef))) (\<lambda>r.
     case r of
       Inr b \<Rightarrow> ret (Some b, None)
     | Inl e \<Rightarrow> getODSBody sv project repo gitFullRef cs (Some e))"

definition GetODSConfig :: "services \<Rightarrow> string \<Rightarrow> string \<Rightarrow> string \<Rightarrow> ODS prog_w" where
  "GetODSConfig sv project repo gitFullRef =
     bindP (getODSBody sv project repo gitFullRef ODSFileCandidates None) (\<lambda>(body, getErr).
     case getErr of
       Some e \<Rightarrow> failE (''could not download ODS config for repo '' @ repo @ '': '' @ e)
     | None \<Rightarrow> (case body of
           None \<Rightarrow> failE (''no ODS config located in repo '' @ repo)
         | Some b \<Rightarrow> Config_Read (sv_YamlODS sv) b))"

definition ReadFromFile :: "services \<Rightarrow> string \<Rightarrow> ODS prog_w" where
  "ReadFromFile sv filename =
     bindP (wrapErr (''could not read file '' @ filename @ '': '') (readFile filename)) (\<lambda>body.
     Config_Read (sv_YamlODS sv) body)"

primrec readCandidates :: "services \<Rightarrow> string \<Rightarrow> string list \<Rightarrow> ODS prog_w" where
  "readCandidates sv dir [] =
     failE (''no matching file in '' @ [CHR 0x27] @ dir @ [CHR 0x27] @ '', looked for: '' @ Join ODSFileCandidates '', '')"
| "readCandidates sv dir (c # cs) =
     bindP (gets (osStat (filepathJoin [dir, c]))) (\<lambda>r.
     if StatSucceeds r then ReadFromFile sv (filepathJoin [dir, c]) else readCandidates sv dir cs)"

definition ReadFromDir :: "services \<Rightarrow> string \<Rightarrow> ODS prog_w" where
  "ReadFromDir sv dir = readCandidates sv dir ODSFileCandidates"

section \<open>Tags (tags.go)\<close>

definition TagListContainsFinalVersion :: "tag list \<Rightarrow> string \<Rightarrow> bool" where
  "TagListContainsFinalVersion tags version =
     list_ex (\<lambda>t. tg_ID t = ''refs/tags/v'' @ version) tags"

text \<open>
  \<open>LatestReleaseCandidate\<close> stores the address of the loop variable.  Go 1.16 has one variable for
  all iterations, \<open>cell\<close>, so the pointer that is returned shows the element of the last iteration;
  \<open>found\<close> says that the pointer was set.
\<close>

fun latestRCLoop :: "string \<Rightarrow> tag list \<Rightarrow> tag option \<Rightarrow> bool \<Rightarrow> int \<Rightarrow> tag option \<times> int" where
  "latestRCLoop pre [] cell found highestNumber = (if found then cell else None, highestNumber)"
| "latestRCLoop pre (t # ts) cell found highestNumber =
     (if HasPrefix (tg_ID t) pre then
        (case Atoi (TrimPrefix (tg_ID t) pre) of
           None \<Rightarrow> latestRCLoop pre ts (Some t) found highestNumber
         | Some i \<Rightarrow>
             (if highestNumber < i then latestRCLoop pre ts (Some t) True i
              else latestRCLoop pre ts (Some t) found highestNumber))
      else latestRCLoop pre ts (Some t) found highestNumber)"

definition LatestReleaseCandidate :: "tag list \<Rightarrow> string \<Rightarrow> tag option \<times> int" where
  "LatestReleaseCandidate tags version =
     latestRCLoop (''refs/tags/v'' @ version @ ''-rc.'') tags None False 0"

definition CreateTag :: "services \<Rightarrow> ODSContext \<Rightarrow> string \<Rightarrow> tag prog_w" where
  "CreateTag sv ctxt name =
     (let payload = \<lparr>tc_Message = [], tc_Name = name, tc_Force = False,
                     tc_StartPoint = oc_GitCommitSHA ctxt, tc_Type = []\<rparr>
      in perform (CTagCreate (oc_Project ctxt) (oc_Repository ctxt) payload)
           (\<lambda>h. sv_TagCreate sv h (oc_Project ctxt) (oc_Repository ctxt) payload))"

section \<open>Facts\<close>

text \<open>The numbers of the release candidates of a version.\<close>

definition rcNumber :: "string \<Rightarrow> tag \<Rightarrow> int option" where
  "rcNumber version t =
     (if HasPrefix (tg_ID t) (''refs/tags/v'' @ version @ ''-rc.'')
      then Atoi (TrimPrefix (tg_ID t) (''refs/tags/v'' @ version @ ''-rc.'')) else None)"

lemma latestRCLoop_number:
  "snd (latestRCLoop (''refs/tags/v'' @ v @ ''-rc.'') ts cell found n) =
     foldl (\<lambda>m t. case rcNumber v t of None \<Rightarrow> m | Some i \<Rightarrow> max m i) n ts"
  by (induction ts arbitrary: cell found n) (auto simp: rcNumber_def max_def split: option.split)

lemma foldl_max_bounds:
  fixes n :: int
  shows "(\<forall>t\<in>set ts. \<forall>i. f t = Some i \<longrightarrow> i \<le> foldl (\<lambda>m t. case f t of None \<Rightarrow> m | Some i \<Rightarrow> max m i) n ts) \<and>
     n \<le> foldl (\<lambda>m t. case f t of None \<Rightarrow> m | Some i \<Rightarrow> max m i) n ts \<and>
     (foldl (\<lambda>m t. case f t of None \<Rightarrow> m | Some i \<Rightarrow> max m i) n ts = n \<or>
      (\<exists>t\<in>set ts. f t = Some (foldl (\<lambda>m t. case f t of None \<Rightarrow> m | Some i \<Rightarrow> max m i) n ts)))"
proof (induction ts arbitrary: n)
  case Nil
  then show ?case by simp
next
  case (Cons t ts)
  show ?case
  proof (cases "f t")
    case None
    with Cons [of n] show ?thesis by auto
  next
    case (Some i)
    with Cons [of "max n i"] show ?thesis by (auto simp: max_def split: if_splits)
  qed
qed

lemma latestRCLoop_mono: "n \<le> snd (latestRCLoop pre ts cell found n)"
proof (induction ts arbitrary: cell found n)
  case Nil
  then show ?case by simp
next
  case (Cons t ts)
  have "n \<le> snd (latestRCLoop pre ts (Some t) True i)" if "n < i" for i
    using Cons.IH [of i] that by (meson less_imp_le order_trans)
  with Cons.IH show ?case by (auto split: option.split)
qed

lemma latestRCLoop_tag:
  "fst (latestRCLoop pre ts cell found n) =
     (if found \<or> snd (latestRCLoop pre ts cell found n) \<noteq> n then (if ts = [] then cell else Some (last ts)) else None)"
proof (induction ts arbitrary: cell found n)
  case Nil
  then show ?case by simp
next
  case (Cons t ts)
  have ne: "snd (latestRCLoop pre ts (Some t) True i) \<noteq> n" if "n < i" for i
    using latestRCLoop_mono [of i pre ts "Some t" True] that by simp
  show ?case
    by (cases "ts = []") (auto simp: Cons.IH ne split: option.split)
qed

section \<open>Properties\<close>

text \<open>
  The number \<open>LatestReleaseCandidate\<close> returns is the highest of the release candidates of the
  version, or 0 when there is none.
\<close>

theorem LatestReleaseCandidate_highest_number:
  assumes "snd (LatestReleaseCandidate tags version) = n"
  shows "0 \<le> n \<and> (\<forall>t\<in>set tags. \<forall>i. rcNumber version t = Some i \<longrightarrow> i \<le> n) \<and>
     (n = 0 \<or> (\<exists>t\<in>set tags. rcNumber version t = Some n))"
  using foldl_max_bounds [of tags "rcNumber version" 0] assms
  unfolding LatestReleaseCandidate_def latestRCLoop_number by simp

definition rcTag :: "string \<Rightarrow> string \<Rightarrow> tag" where
  "rcTag name sha = \<lparr>tg_ID = ''refs/tags/'' @ name, tg_DisplayID = name, tg_Type = ''TAG'',
     tg_LatestCommit = sha, tg_LatestChangeset = sha, tg_Hash = []\<rparr>"

lemma LatestReleaseCandidate_number_witness:
  "snd (LatestReleaseCandidate [rcTag ''v1.0.0-rc.2'' ''b'', rcTag ''v1.0.0-rc.1'' ''a''] ''1.0.0'') = 2 \<and>
   (\<exists>t\<in>set [rcTag ''v1.0.0-rc.2'' ''b'', rcTag ''v1.0.0-rc.1'' ''a'']. rcNumber ''1.0.0'' t = Some 2)"
proof -
  have "snd (LatestReleaseCandidate [rcTag ''v1.0.0-rc.2'' ''b'', rcTag ''v1.0.0-rc.1'' ''a''] ''1.0.0'') = 2"
    by code_simp
  from this LatestReleaseCandidate_highest_number [OF this] show ?thesis by simp
qed

text \<open>
  The tag \<open>LatestReleaseCandidate\<close> returns is not the one with that number but the last tag of
  the list, whatever it is: with the candidates 2 and 1 listed newest first, the answer is
  number 2 together with the tag of candidate 1.
\<close>

theorem LatestReleaseCandidate_returns_last_tag:
  "fst (LatestReleaseCandidate tags version) =
     (if snd (LatestReleaseCandidate tags version) = 0 \<or> tags = [] then None else Some (last tags)) \<and>
   LatestReleaseCandidate [rcTag ''v1.0.0-rc.2'' ''b'', rcTag ''v1.0.0-rc.1'' ''a''] ''1.0.0'' =
     (Some (rcTag ''v1.0.0-rc.1'' ''a''), 2)"
proof -
  have "LatestReleaseCandidate [rcTag ''v1.0.0-rc.2'' ''b'', rcTag ''v1.0.0-rc.1'' ''a''] ''1.0.0'' =
     (Some (rcTag ''v1.0.0-rc.1'' ''a''), 2)" by code_simp
  then show ?thesis
    using latestRCLoop_tag [of "''refs/tags/v'' @ version @ ''-rc.''" tags None False 0]
    by (simp add: LatestReleaseCandidate_def)
qed

lemma getODSBody_Cons:
  "getODSBody sv p r ref (c # cs) e w =
     (case sv_RawGet sv (w_trace w) p r c ref of
        Inr b \<Rightarrow> (Ok (Some b, None), w\<lparr>w_trace := w_trace w @ [CRawGet p r c ref]\<rparr>)
      | Inl e' \<Rightarrow> getODSBody sv p r ref cs (Some e') (w\<lparr>w_trace := w_trace w @ [CRawGet p r c ref]\<rparr>))"
  by (simp add: bindP_def attempt_def perform_def prog_simps split: sum.split)

declare getODSBody.simps(2) [simp del]

lemma getODSBody_result:
  assumes "getODSBody sv p r ref ODSFileCandidates None w = (Ok (b, None), w')"
  obtains h body where "b = Some body" "sv_RawGet sv h p r ODSYAMLFile ref = Inr body \<or>
     (\<exists>h' e. sv_RawGet sv h' p r ODSYAMLFile ref = Inl e \<and> sv_RawGet sv h p r ODSYMLFile ref = Inr body)"
proof (cases "sv_RawGet sv (w_trace w) p r ODSYAMLFile ref")
  case (Inr body)
  with assms have "b = Some body" by (simp add: ODSFileCandidates_def getODSBody_Cons)
  with Inr that show thesis by blast
next
  case (Inl e)
  let ?h = "w_trace w @ [CRawGet p r ODSYAMLFile ref]"
  show thesis
  proof (cases "sv_RawGet sv ?h p r ODSYMLFile ref")
    case (Inr body)
    with assms Inl have "b = Some body" by (simp add: ODSFileCandidates_def getODSBody_Cons)
    with Inl Inr that show thesis by blast
  next
    case Inl2: (Inl e')
    with assms Inl show thesis by (simp add: ODSFileCandidates_def getODSBody_Cons prog_simps)
  qed
qed

text \<open>
  C20: a configuration obtained from a repository comes from \<open>ods.yaml\<close>, or from \<open>ods.yml\<close> if the
  first could not be fetched, and all its environments are valid.
\<close>

theorem GetODSConfig_valid:
  assumes "GetODSConfig sv project repo fullRef w = (Ok cfg, w')"
  shows "(\<exists>h body. sv_YamlODS sv body = Inr (Some cfg) \<and>
        (sv_RawGet sv h project repo ODSYAMLFile fullRef = Inr body \<or>
         (\<exists>h' e. sv_RawGet sv h' project repo ODSYAMLFile fullRef = Inl e \<and>
            sv_RawGet sv h project repo ODSYMLFile fullRef = Inr body))) \<and>
     (\<forall>e\<in>set (od_Environments cfg). validEnvironment e)"
proof -
  from assms obtain x w1 where g0: "getODSBody sv project repo fullRef ODSFileCandidates None w = (Ok x, w1)"
    and k0: "(\<lambda>(body, getErr). case getErr of
       Some e \<Rightarrow> failE (''could not download ODS config for repo '' @ repo @ '': '' @ e)
     | None \<Rightarrow> (case body of
           None \<Rightarrow> failE (''no ODS config located in repo '' @ repo)
         | Some b \<Rightarrow> Config_Read (sv_YamlODS sv) b)) x w1 = (Ok cfg, w')"
    unfolding GetODSConfig_def by (rule bindP_OkE)
  obtain bd er where x: "x = (bd, er)" by (cases x)
  note g = g0 [unfolded x] and k = k0 [unfolded x, simplified]
  have "er = None" using k by (cases er) (simp_all add: prog_simps)
  note gN = g [unfolded this]
  obtain h body where b: "bd = Some body" "sv_RawGet sv h project repo ODSYAMLFile fullRef = Inr body \<or>
     (\<exists>h' e. sv_RawGet sv h' project repo ODSYAMLFile fullRef = Inl e \<and> sv_RawGet sv h project repo ODSYMLFile fullRef = Inr body)"
    by (rule getODSBody_result [OF gN])
  with k \<open>er = None\<close> have "Config_Read (sv_YamlODS sv) body w1 = (Ok cfg, w')" by simp
  then have "sv_YamlODS sv body = Inr (Some cfg) \<and> (\<forall>e\<in>set (od_Environments cfg). validEnvironment e)"
    by (simp add: Config_Read_Ok)
  with b show ?thesis by blast
qed

definition exampleEnvironment :: environment where
  "exampleEnvironment = \<lparr>en_Name = ''foo-qa'', en_Stage = QAStage, en_APIServer = [], en_APICredentialsSecret = [],
     en_RegistryHost = [], en_RegistryTLSVerify = None, en_Namespace = ''foo-qa'', en_Config = [], en_APIToken = []\<rparr>"

definition exampleODS :: ODS where
  "exampleODS = \<lparr>od_Repositories = [], od_Environments = [exampleEnvironment],
     od_BranchToEnvironmentMapping = [\<lparr>be_Branch = ''release/*'', be_Environment = ''foo-qa''\<rparr>],
     od_Pipeline = \<lparr>sp_Tasks = [], sp_Finally = []\<rparr>, od_Version = ''1.0.0''\<rparr>"

definition repoServices :: services where
  "repoServices = noServices
     \<lparr>sv_RawGet := (\<lambda>h p r c ref. if c = ODSYMLFile then Inr ''yaml'' else Inl ''404''),
      sv_YamlODS := (\<lambda>b. Inr (Some exampleODS))\<rparr>"

lemma GetODSConfig_witness:
  "\<exists>w'. GetODSConfig repoServices ''foo'' ''foo-bar'' ''refs/heads/main'' emptyWorld = (Ok exampleODS, w') \<and>
     (\<forall>e\<in>set (od_Environments exampleODS). validEnvironment e)"
proof -
  have "ODS_Validate exampleODS = Inr ()" by code_simp
  then have "\<exists>w'. GetODSConfig repoServices ''foo'' ''foo-bar'' ''refs/heads/main'' emptyWorld = (Ok exampleODS, w')"
    by (simp add: GetODSConfig_def ODSFileCandidates_def getODSBody_Cons repoServices_def bindP_def
        prog_simps Config_Read_def ODSYMLFile_def ODSYAMLFile_def)
  then obtain w' where "GetODSConfig repoServices ''foo'' ''foo-bar'' ''refs/heads/main'' emptyWorld = (Ok exampleODS, w')" ..
  with GetODSConfig_valid [OF this] show ?thesis by blast
qed

end
