(* ===== verification/Sha1.thy ===== *)
theory Sha1
  imports GoStrings "HOL-Library.Word"
begin

text \<open>
  Go's \<open>crypto/sha1\<close> (FIPS 180-1), used to shorten names: padding to 64-byte blocks, the
  eighty-round compression on 32-bit words with wrapping addition, and the hexadecimal text
  that \<open>fmt.Sprintf("%x", h.Sum(nil))\<close> prints.
\<close>

unbundle bit_operations_syntax

type_synonym u32 = "32 word"

definition rotl32 :: "nat \<Rightarrow> u32 \<Rightarrow> u32" where
  "rotl32 n x = push_bit n x OR drop_bit (32 - n) x"

section \<open>Padding and blocks\<close>

definition bigEndian64 :: "64 word \<Rightarrow> nat list" where
  "bigEndian64 n = map (\<lambda>i. unat (drop_bit (8 * (7 - i)) n AND 255)) [0..<8]"

definition padZeros :: "nat \<Rightarrow> nat" where
  "padZeros len = (119 - len mod 64) mod 64"

definition sha1_pad :: "nat list \<Rightarrow> nat list" where
  "sha1_pad bs = bs @ [128] @ replicate (padZeros (length bs)) 0 @ bigEndian64 (8 * word_of_nat (length bs))"

fun chunks :: "nat \<Rightarrow> 'a list \<Rightarrow> 'a list list" where
  "chunks k xs = (if k = 0 \<or> xs = [] then [] else take k xs # chunks k (drop k xs))"

declare chunks.simps [simp del]

definition be32 :: "nat list \<Rightarrow> u32" where
  "be32 bs = foldl (\<lambda>acc b. acc * 256 + word_of_nat b) 0 bs"

lemma sha1_pad_length: "length (sha1_pad bs) mod 64 = 0"
proof -
  define q r where "q = length bs div 64" and "r = length bs mod 64"
  then have len: "length bs = 64 * q + r" and r: "r < 64" by simp_all
  have pad: "padZeros (length bs) = (if r \<le> 55 then 55 - r else 119 - r)"
  proof (cases "r \<le> 55")
    case True
    then have "119 - r = 64 + (55 - r)" by simp
    then show ?thesis using True by (simp add: padZeros_def r_def [symmetric] del: add_diff_assoc)
  next
    case False
    then show ?thesis by (simp add: padZeros_def r_def [symmetric])
  qed
  have "length (sha1_pad bs) = (if r \<le> 55 then 64 * (q + 1) else 64 * (q + 2))"
    using r by (simp add: sha1_pad_def bigEndian64_def pad) (simp add: len)
  then show ?thesis by simp
qed

section \<open>Compression\<close>

text \<open>The message schedule, newest word first.\<close>

definition expand :: "u32 list \<Rightarrow> u32 list" where
  "expand ws = rotl32 1 (ws ! 2 XOR ws ! 7 XOR ws ! 13 XOR ws ! 15) # ws"

definition sha1_schedule :: "nat list \<Rightarrow> u32 list" where
  "sha1_schedule block =
     rev (foldl (\<lambda>ws _. expand ws) (rev (map be32 (chunks 4 block))) [0..<64])"

definition sha1_f :: "nat \<Rightarrow> u32 \<Rightarrow> u32 \<Rightarrow> u32 \<Rightarrow> u32" where
  "sha1_f t b c d =
     (if t < 20 then (b AND c) OR (NOT b AND d)
      else if t < 40 then b XOR c XOR d
      else if t < 60 then (b AND c) OR (b AND d) OR (c AND d)
      else b XOR c XOR d)"

definition sha1_k :: "nat \<Rightarrow> u32" where
  "sha1_k t = (if t < 20 then 0x5A827999 else if t < 40 then 0x6ED9EBA1
     else if t < 60 then 0x8F1BBCDC else 0xCA62C1D6)"

type_synonym sha1_state = "u32 \<times> u32 \<times> u32 \<times> u32 \<times> u32"

fun sha1_round :: "sha1_state \<Rightarrow> nat \<times> u32 \<Rightarrow> sha1_state" where
  "sha1_round (a, b, c, d, e) (t, w) =
     (rotl32 5 a + sha1_f t b c d + e + sha1_k t + w, a, rotl32 30 b, c, d)"

fun sha1_block :: "sha1_state \<Rightarrow> nat list \<Rightarrow> sha1_state" where
  "sha1_block (h0, h1, h2, h3, h4) block =
     (case foldl sha1_round (h0, h1, h2, h3, h4) (zip [0..<80] (sha1_schedule block)) of
        (a, b, c, d, e) \<Rightarrow> (h0 + a, h1 + b, h2 + c, h3 + d, h4 + e))"

definition sha1_init :: sha1_state where
  "sha1_init = (0x67452301, 0xEFCDAB89, 0x98BADCFE, 0x10325476, 0xC3D2E1F0)"

definition sha1_words :: "nat list \<Rightarrow> sha1_state" where
  "sha1_words bs = foldl sha1_block sha1_init (chunks 64 (sha1_pad bs))"

section \<open>Hexadecimal text\<close>

definition hexDigit :: "nat \<Rightarrow> char" where
  "hexDigit d = char_of (if d < 10 then 48 + d else 87 + d)"

definition hex32 :: "u32 \<Rightarrow> string" where
  "hex32 w = map (\<lambda>i. hexDigit (unat (drop_bit (4 * (7 - i)) w AND 15))) [0..<8]"

fun hexState :: "sha1_state \<Rightarrow> string" where
  "hexState (a, b, c, d, e) = hex32 a @ hex32 b @ hex32 c @ hex32 d @ hex32 e"

definition sha1_hex :: "string \<Rightarrow> string" where
  "sha1_hex s = hexState (sha1_words (map code s))"

definition isHex :: "char \<Rightarrow> bool" where
  "isHex c \<longleftrightarrow> isDigit c \<or> (97 \<le> code c \<and> code c \<le> 102)"

lemma isHex_hexDigit: "d < 16 \<Longrightarrow> isHex (hexDigit d)"
  by (simp add: isHex_def hexDigit_def isDigit_def)

lemma nibble_less: "unat (w AND 15 :: u32) < 16"
proof -
  have "unat (w AND 15) \<le> unat (15 :: u32)"
    by (rule word_and_le1 [THEN word_le_nat_alt [THEN iffD1]])
  then show ?thesis by simp
qed

lemma hex32_isHex: "c \<in> set (hex32 w) \<Longrightarrow> isHex c"
  by (auto simp: hex32_def intro!: isHex_hexDigit nibble_less)

lemma length_hex32 [simp]: "length (hex32 w) = 8"
  by (simp add: hex32_def)

lemma length_sha1_hex [simp]: "length (sha1_hex s) = 40"
  unfolding sha1_hex_def by (cases "sha1_words (map code s)") simp

lemma sha1_hex_isHex: "c \<in> set (sha1_hex s) \<Longrightarrow> isHex c"
  unfolding sha1_hex_def by (cases "sha1_words (map code s)") (auto intro: hex32_isHex)

end
