(* ===== verification/Pipeline.thy ===== *)
theory Pipeline
  imports World Sha1 "HOL-Library.Multiset"
begin

text \<open>
  \<open>internal/manager/pipeline.go\<close> and \<open>pvc.go\<close>: the names and labels of pipelines, the
  assembled Tekton pipeline and pipeline run, the order of runs, and the workspace volume.
\<close>

section \<open>Data\<close>

record pipelineInfo =
  pi_Name :: string
  pi_Project :: string
  pi_Component :: string
  pi_Repository :: string
  pi_Stage :: string
  pi_Environment :: string
  pi_Version :: string
  pi_GitRef :: string
  pi_GitFullRef :: string
  pi_GitSHA :: string
  pi_RepoBase :: string
  pi_GitURI :: string
  pi_Namespace :: string
  pi_TriggerEvent :: string
  pi_Comment :: string
  pi_PullRequestKey :: int
  pi_PullRequestBase :: string

record pipelineConfig = pipelineInfo +
  pc_PVC :: string
  pc_Tasks :: "pipelineTask list"
  pc_Finally :: "pipelineTask list"

definition labelPrefix :: string where "labelPrefix = ''pipeline.opendevstack.org/''"
definition repositoryLabel :: string where "repositoryLabel = labelPrefix @ ''repository''"
definition gitRefLabel :: string where "gitRefLabel = labelPrefix @ ''git-ref''"
definition stageLabel :: string where "stageLabel = labelPrefix @ ''stage''"
definition tektonAPIVersion :: string where "tektonAPIVersion = ''tekton.dev/v1beta1''"
definition sharedWorkspaceName :: string where "sharedWorkspaceName = ''shared-workspace''"

section \<open>Names and labels\<close>

text \<open>\<open>None\<close> is the run-time panic of the slice expression \<open>s[0 : max-suffixLength-1]\<close>.\<close>

definition fitStringToMaxLength :: "string \<Rightarrow> int \<Rightarrow> string option" where
  "fitStringToMaxLength s maxLen =
     (if int (length s) \<le> maxLen then Some s
      else let suffixLength = 7; cut = maxLen - suffixLength - 1
           in if cut < 0 then None
              else Some (take (nat cut) s @ ''-'' @ take (nat suffixLength) (sha1_hex s)))"

text \<open>The characters the regular expression \<open>[^-a-zA-Z0-9]+\<close> leaves.\<close>

definition safeChar :: "char \<Rightarrow> bool" where
  "safeChar c \<longleftrightarrow> c = CHR ''-'' \<or> isLowerC c \<or> isUpper c \<or> isDigit c"

definition makeValidLabelValue :: "string \<Rightarrow> string \<Rightarrow> int \<Rightarrow> string option" where
  "makeValidLabelValue pre branch maxLength =
     map_option ToLower
       (fitStringToMaxLength (pre @ filter safeChar (ReplaceAll branch ''/'' ''-'')) maxLength)"

definition makePipelineName :: "string \<Rightarrow> string \<Rightarrow> string option" where
  "makePipelineName component branch = makeValidLabelValue (component @ ''-'') branch 55"

definition makePVCName :: "string \<Rightarrow> string option" where
  "makePVCName component = fitStringToMaxLength (''ods-workspace-'' @ ToLower component) 63"

definition pipelineLabels :: "'a pipelineConfig_scheme \<Rightarrow> labels option" where
  "pipelineLabels data =
     map_option (\<lambda>ref. [(repositoryLabel, pi_Repository data), (gitRefLabel, ref),
                        (stageLabel, pi_Stage data)])
       (makeValidLabelValue [] (pi_GitRef data) 63)"

lemma fit_short: "int (length s) \<le> maxLen \<Longrightarrow> fitStringToMaxLength s maxLen = Some s"
  by (simp add: fitStringToMaxLength_def)

lemma fit_long:
  "maxLen < int (length s) \<Longrightarrow> 8 \<le> maxLen \<Longrightarrow>
     fitStringToMaxLength s maxLen = Some (take (nat (maxLen - 8)) s @ ''-'' @ take 7 (sha1_hex s))"
  by (simp add: fitStringToMaxLength_def Let_def)

lemma fit_None_iff: "fitStringToMaxLength s maxLen = None \<longleftrightarrow> maxLen < int (length s) \<and> maxLen < 8"
  by (auto simp: fitStringToMaxLength_def Let_def)

lemma fit_length:
  assumes "fitStringToMaxLength s maxLen = Some r"
  shows "int (length r) = min (int (length s)) maxLen"
proof (cases "int (length s) \<le> maxLen")
  case True
  with assms show ?thesis by (simp add: fit_short)
next
  case False
  with assms have "8 \<le> maxLen" by (metis fit_None_iff not_le option.distinct(1))
  with False assms show ?thesis by (auto simp: fit_long)
qed

lemma isHex_safe: "isHex c \<Longrightarrow> safeChar c"
  by (auto simp: isHex_def safeChar_def isLowerC_def)

lemma fit_chars:
  assumes "fitStringToMaxLength s maxLen = Some r" and "c \<in> set r"
  shows "c \<in> set s \<or> c = CHR ''-'' \<or> isHex c"
  using assms
  by (auto simp: fitStringToMaxLength_def Let_def split: if_splits
      dest!: in_set_takeD intro: sha1_hex_isHex)

lemma label_defined: "8 \<le> maxLen \<Longrightarrow> \<exists>r. makeValidLabelValue p b maxLen = Some r"
  by (cases "makeValidLabelValue p b maxLen") (auto simp: makeValidLabelValue_def fit_None_iff)

lemma label_length: "makeValidLabelValue p b maxLen = Some r \<Longrightarrow> int (length r) \<le> maxLen"
  by (auto simp: makeValidLabelValue_def dest: fit_length)

lemma safe_toLower: "safeChar c \<Longrightarrow> toLowerC c = CHR ''-'' \<or> isLowerC (toLowerC c) \<or> isDigit (toLowerC c)"
  by (auto simp: safeChar_def isLowerC_def isDigit_def isUpper_def toLowerC_def)

text \<open>Every character of a label value comes from the prefix, or is a lower-case letter, a digit or a dash.\<close>

lemma label_chars:
  assumes "makeValidLabelValue p b maxLen = Some r" and "c \<in> set r"
  shows "c \<in> set (ToLower p) \<or> c = CHR ''-'' \<or> isLowerC c \<or> isDigit c"
proof -
  from assms obtain q where q: "fitStringToMaxLength (p @ filter safeChar (ReplaceAll b ''/'' ''-'')) maxLen = Some q"
    and "r = ToLower q" by (auto simp: makeValidLabelValue_def)
  with assms(2) obtain d where d: "d \<in> set q" "c = toLowerC d" by (auto simp: ToLower_def)
  from fit_chars [OF q d(1)] have "d \<in> set p \<or> safeChar d"
    using isHex_safe by (auto simp: safeChar_def)
  then show ?thesis
  proof
    assume "d \<in> set p"
    with d(2) show ?thesis by (simp add: ToLower_def)
  next
    assume "safeChar d"
    from safe_toLower [OF this] d(2) show ?thesis by blast
  qed
qed

lemma pipelineName_defined [simp]: "\<exists>n. makePipelineName c b = Some n"
  by (simp add: makePipelineName_def label_defined)

lemma PVCName_defined [simp]: "\<exists>n. makePVCName c = Some n"
  by (cases "makePVCName c") (auto simp: makePVCName_def fit_None_iff)

lemma pipelineLabels_defined: "\<exists>l. pipelineLabels d = Some l"
  using label_defined [of 63 "[]" "pi_GitRef d"] by (auto simp: pipelineLabels_def)

section \<open>Assembling the pipeline\<close>

definition tektonStringParam :: "string \<Rightarrow> string \<Rightarrow> string \<times> string" where
  "tektonStringParam name val = (name, val)"

definition tektonStringParamSpec :: "string \<Rightarrow> string \<Rightarrow> paramSpec" where
  "tektonStringParamSpec name defaultVal =
     \<lparr>ps_Name = name, ps_Type = ''string'', ps_Default = defaultVal\<rparr>"

definition tektonDefaultWorkspaceBindings :: "(string \<times> string) list" where
  "tektonDefaultWorkspaceBindings = [(''source'', sharedWorkspaceName)]"

definition odsStartTask :: "string \<Rightarrow> string \<Rightarrow> pipelineTask" where
  "odsStartTask taskKind taskSuffix =
     \<lparr>pt_Name = ''ods-start'', pt_TaskRef = Some (taskKind, ''ods-start'' @ taskSuffix),
      pt_RunAfter = [], pt_Workspaces = tektonDefaultWorkspaceBindings,
      pt_Params =
        [tektonStringParam ''url'' ''$(params.git-repo-url)'',
         tektonStringParam ''git-full-ref'' ''$(params.git-full-ref)'',
         tektonStringParam ''project'' ''$(params.project)'',
         tektonStringParam ''pr-key'' ''$(params.pr-key)'',
         tektonStringParam ''pr-base'' ''$(params.pr-base)'',
         tektonStringParam ''pipeline-run-name'' ''$(context.pipelineRun.name)'',
         tektonStringParam ''environment'' ''$(params.environment)'',
         tektonStringParam ''version'' ''$(params.version)''],
      pt_Rest = []\<rparr>"

definition odsFinishTask :: "string \<Rightarrow> string \<Rightarrow> pipelineTask" where
  "odsFinishTask taskKind taskSuffix =
     \<lparr>pt_Name = ''ods-finish'', pt_TaskRef = Some (taskKind, ''ods-finish'' @ taskSuffix),
      pt_RunAfter = [], pt_Workspaces = tektonDefaultWorkspaceBindings,
      pt_Params =
        [tektonStringParam ''pipeline-run-name'' ''$(context.pipelineRun.name)'',
         tektonStringParam ''aggregate-tasks-status'' ''$(tasks.status)''],
      pt_Rest = []\<rparr>"

definition assemblePipeline ::
  "'a pipelineConfig_scheme \<Rightarrow> string \<Rightarrow> string \<Rightarrow> pipeline option" where
  "assemblePipeline cfg taskKind taskSuffix =
     (let tasks = odsStartTask taskKind taskSuffix #
            (case pc_Tasks cfg of
               [] \<Rightarrow> []
             | t # ts \<Rightarrow> t\<lparr>pt_RunAfter := pt_RunAfter t @ [''ods-start'']\<rparr> # ts);
          finallyTasks = pc_Finally cfg @ [odsFinishTask taskKind taskSuffix]
      in map_option (\<lambda>ls.
          \<lparr>pl_Name = pi_Name cfg, pl_Labels = ls, pl_ResourceVersion = [],
           pl_APIVersion = tektonAPIVersion, pl_Kind = ''Pipeline'', pl_Description = ''ODS'',
           pl_Params =
             [tektonStringParamSpec ''repository'' (pi_Repository cfg),
              tektonStringParamSpec ''project'' (pi_Project cfg),
              tektonStringParamSpec ''component'' (pi_Component cfg),
              tektonStringParamSpec ''git-repo-url'' (pi_GitURI cfg),
              tektonStringParamSpec ''git-full-ref'' (pi_GitFullRef cfg),
              tektonStringParamSpec ''pr-key'' (Itoa (pi_PullRequestKey cfg)),
              tektonStringParamSpec ''pr-base'' (pi_PullRequestBase cfg),
              tektonStringParamSpec ''environment'' (pi_Environment cfg),
              tektonStringParamSpec ''version'' (pi_Version cfg)],
           pl_Tasks = tasks, pl_Workspaces = [sharedWorkspaceName], pl_Finally = finallyTasks\<rparr>)
        (pipelineLabels cfg))"

lemma assemblePipeline_defined: "\<exists>p. assemblePipeline cfg k s = Some p"
  using pipelineLabels_defined [of cfg] by (auto simp: assemblePipeline_def Let_def)

definition newPipelineRun :: "'a pipelineConfig_scheme \<Rightarrow> labels \<Rightarrow> bool \<Rightarrow> pipelineRun" where
  "newPipelineRun pData ls needQueueing =
     \<lparr>pr_Name = [], pr_GenerateName = pi_Name pData @ ''-'', pr_Labels = ls,
      pr_CreationTimestamp = 0, pr_ResourceVersion = [], pr_APIVersion = tektonAPIVersion,
      pr_Kind = ''PipelineRun'', pr_PipelineRef = pi_Name pData, pr_ServiceAccountName = ''pipeline'',
      pr_Workspaces = [(sharedWorkspaceName, pc_PVC pData)],
      pr_SpecStatus = (if needQueueing then PipelineRunSpecStatusPending else []),
      pr_Status = []\<rparr>"

definition createPipelineRun ::
  "services \<Rightarrow> 'a pipelineConfig_scheme \<Rightarrow> bool \<Rightarrow> pipelineRun prog_w" where
  "createPipelineRun sv pData needQueueing =
     bindP (liftPanic ''slice bounds out of range'' (pipelineLabels pData)) (\<lambda>ls.
     let pr = newPipelineRun pData ls needQueueing
     in perform (CCreatePipelineRun pr) (\<lambda>h. sv_CreatePipelineRun sv h pr))"

definition listPipelineRuns :: "services \<Rightarrow> string \<Rightarrow> pipelineRun list prog_w" where
  "listPipelineRuns sv repository =
     (let labelMap = [(repositoryLabel, repository)]
      in perform (CListPipelineRuns labelMap) (\<lambda>h. sv_ListPipelineRuns sv h labelMap))"

section \<open>Runs in order\<close>

definition pipelineRunIsProgressing :: "runMethods \<Rightarrow> pipelineRun \<Rightarrow> bool" where
  "pipelineRunIsProgressing tk pr \<longleftrightarrow>
     \<not> (tk_IsDone tk pr \<or> tk_IsPending tk pr \<or> tk_IsCancelled tk pr \<or> tk_IsTimedOut tk pr)"

text \<open>
  \<open>sort.Slice\<close> leaves the order of runs with equal time stamps open, so every operation that
  sorts takes the sorting function as an argument; this is its contract.
\<close>

abbreviation notOlder :: "pipelineRun \<Rightarrow> pipelineRun \<Rightarrow> bool" where
  "notOlder a b \<equiv> pr_CreationTimestamp b \<le> pr_CreationTimestamp a"

locale desc_sorter =
  fixes srt :: "pipelineRun list \<Rightarrow> pipelineRun list"
  assumes perm: "mset (srt xs) = mset xs"
    and desc: "sorted_wrt notOlder (srt xs)"
begin

lemma set_srt [simp]: "set (srt xs) = set xs"
  using perm by (metis set_mset_mset)

lemma length_srt [simp]: "length (srt xs) = length xs"
  using perm by (metis size_mset)

lemma srt_Nil_iff [simp]: "srt xs = [] \<longleftrightarrow> xs = []"
  by (metis length_0_conv length_srt)

lemma distinct_srt: "distinct (map f (srt xs)) \<longleftrightarrow> distinct (map f xs)"
  by (metis mset_eq_imp_distinct_iff mset_map perm)

text \<open>The last run is an oldest one.\<close>

lemma last_oldest:
  assumes "xs \<noteq> []" and "x \<in> set xs"
  shows "pr_CreationTimestamp (last (srt xs)) \<le> pr_CreationTimestamp x"
proof -
  from assms have "srt xs \<noteq> []" and x: "x \<in> set (srt xs)" by simp_all
  then have eq: "srt xs = butlast (srt xs) @ [last (srt xs)]" by simp
  with desc [of xs] have "\<forall>y\<in>set (butlast (srt xs)). notOlder y (last (srt xs))"
    by (metis list.set_intros(1) sorted_wrt_append)
  moreover from x eq have "x \<in> set (butlast (srt xs)) \<or> x = last (srt xs)"
    by (metis append_Nil2 insert_iff list.set(2) rotate1.simps(2) set_rotate1)
  ultimately show ?thesis by auto
qed

end

text \<open>A stable insertion sort, what Go does on short slices.\<close>

fun insertDesc :: "pipelineRun \<Rightarrow> pipelineRun list \<Rightarrow> pipelineRun list" where
  "insertDesc x [] = [x]"
| "insertDesc x (y # ys) =
     (if pr_CreationTimestamp y \<le> pr_CreationTimestamp x then x # y # ys else y # insertDesc x ys)"

definition sortPipelineRunsDescending :: "pipelineRun list \<Rightarrow> pipelineRun list" where
  "sortPipelineRunsDescending xs = foldr insertDesc xs []"

lemma mset_insertDesc: "mset (insertDesc x ys) = add_mset x (mset ys)"
  by (induction ys) auto

lemma set_insertDesc: "set (insertDesc x ys) = insert x (set ys)"
  by (metis mset_insertDesc set_mset_add_mset_insert set_mset_mset)

lemma sorted_insertDesc: "sorted_wrt notOlder ys \<Longrightarrow> sorted_wrt notOlder (insertDesc x ys)"
  by (induction ys) (auto simp: set_insertDesc)

interpretation runSort: desc_sorter sortPipelineRunsDescending
proof
  fix xs
  show "mset (sortPipelineRunsDescending xs) = mset xs"
    by (induction xs) (auto simp: sortPipelineRunsDescending_def mset_insertDesc)
  show "sorted_wrt notOlder (sortPipelineRunsDescending xs)"
    by (induction xs) (auto simp: sortPipelineRunsDescending_def sorted_insertDesc)
qed

section \<open>The workspace volume (pvc.go)\<close>

record storageConfig =
  st_Provisioner :: string
  st_ClassName :: string
  st_Size :: string

definition storageProvisionerAnnotation :: string where
  "storageProvisionerAnnotation = ''volume.beta.kubernetes.io/storage-provisioner''"

definition pvcProtectionFinalizer :: string where
  "pvcProtectionFinalizer = ''kubernetes.io/pvc-protection''"

definition newPVC :: "storageConfig \<Rightarrow> 'a pipelineConfig_scheme \<Rightarrow> pvc" where
  "newPVC cfg pData =
     \<lparr>vc_Name = pc_PVC pData, vc_Labels = [(repositoryLabel, pi_Repository pData)],
      vc_Finalizers = [pvcProtectionFinalizer],
      vc_Annotations = (if st_Provisioner cfg \<noteq> []
         then [(storageProvisionerAnnotation, st_Provisioner cfg)] else []),
      vc_AccessModes = [''ReadWriteOnce''], vc_StorageRequest = st_Size cfg,
      vc_StorageClassName = st_ClassName cfg, vc_VolumeMode = ''Filesystem''\<rparr>"

text \<open>\<open>resource.MustParse\<close> panics on a size that is not a Kubernetes quantity.\<close>

definition createPVCIfRequired ::
  "services \<Rightarrow> storageConfig \<Rightarrow> 'a pipelineConfig_scheme \<Rightarrow> unit prog_w" where
  "createPVCIfRequired sv cfg pData =
     bindP (query (CGetPVC (pc_PVC pData)) (\<lambda>h. sv_GetPVC sv h (pc_PVC pData))) (\<lambda>r.
     case r of
       Inr v \<Rightarrow> ret ()
     | Inl (isNotFound, e) \<Rightarrow>
         (if \<not> isNotFound
          then failE (''could not determine if '' @ pc_PVC pData @ '' already exists: '' @ e)
          else if \<not> sv_QuantityValid sv (st_Size cfg) then panicP ''cannot parse quantity''
          else let v = newPVC cfg pData
               in bindP (perform (CCreatePVC v) (\<lambda>h. sv_CreatePVC sv h v)) (\<lambda>_. ret ())))"

text \<open>A concrete configuration, used by the examples.\<close>

definition examplePipelineConfig :: pipelineConfig where
  "examplePipelineConfig =
     \<lparr>pi_Name = ''foo-main'', pi_Project = ''p'', pi_Component = ''foo'', pi_Repository = ''p-foo'',
      pi_Stage = DevStage, pi_Environment = [], pi_Version = ''WIP'', pi_GitRef = ''main'',
      pi_GitFullRef = ''refs/heads/main'', pi_GitSHA = ''abc'', pi_RepoBase = ''https://b/scm'',
      pi_GitURI = ''https://b/scm/p/p-foo.git'', pi_Namespace = ''p-cd'',
      pi_TriggerEvent = ''repo:refs_changed'', pi_Comment = [], pi_PullRequestKey = 0,
      pi_PullRequestBase = [], pc_PVC = ''ods-workspace-foo'', pc_Tasks = [], pc_Finally = []\<rparr>"

section \<open>Properties\<close>


text \<open>
  Every label value of a pipeline is defined, the label of the Git ref has at most 63
  characters, all of them dashes, lower-case letters or digits, and the repository and the stage
  are labelled verbatim.
\<close>

theorem pipelineLabels_valid:
  "\<exists>ls. pipelineLabels data = Some ls \<and>
     lookupS ls repositoryLabel = pi_Repository data \<and> lookupS ls stageLabel = pi_Stage data \<and>
     length (lookupS ls gitRefLabel) \<le> 63 \<and>
     set (lookupS ls gitRefLabel) \<subseteq> {c. c = CHR ''-'' \<or> isLowerC c \<or> isDigit c}"
proof -
  obtain r where r: "makeValidLabelValue [] (pi_GitRef data) 63 = Some r"
    using label_defined [of 63] by auto
  have "set r \<subseteq> {c. c = CHR ''-'' \<or> isLowerC c \<or> isDigit c}"
    using label_chars [OF r] by auto
  with label_length [OF r] r show ?thesis
    by (simp add: pipelineLabels_def lookupS_def repositoryLabel_def gitRefLabel_def stageLabel_def labelPrefix_def)
qed

text \<open>
  An assembled pipeline runs the start task first and the finish task last among the final
  tasks; the configured tasks are kept in order, the first of them made to wait for the start
  task; the repository, stage and version reach the object unchanged.
\<close>

theorem assemblePipeline_structure:
  "\<exists>p. assemblePipeline cfg taskKind taskSuffix = Some p \<and>
     pl_Tasks p = odsStartTask taskKind taskSuffix #
       map (\<lambda>i. if i = 0 then (pc_Tasks cfg ! 0)\<lparr>pt_RunAfter := pt_RunAfter (pc_Tasks cfg ! 0) @ [''ods-start'']\<rparr>
               else pc_Tasks cfg ! i) [0..<length (pc_Tasks cfg)] \<and>
     pl_Finally p = pc_Finally cfg @ [odsFinishTask taskKind taskSuffix] \<and>
     pl_Name p = pi_Name cfg \<and> pl_Labels p = the (pipelineLabels cfg) \<and>
     \<lparr>ps_Name = ''version'', ps_Type = ''string'', ps_Default = pi_Version cfg\<rparr> \<in> set (pl_Params p) \<and>
     \<lparr>ps_Name = ''pr-key'', ps_Type = ''string'', ps_Default = Itoa (pi_PullRequestKey cfg)\<rparr> \<in> set (pl_Params p)"
proof -
  obtain ls where ls: "pipelineLabels cfg = Some ls" using pipelineLabels_defined by blast
  have "(case ts of [] \<Rightarrow> [] | t # ts' \<Rightarrow> t\<lparr>pt_RunAfter := pt_RunAfter t @ [''ods-start'']\<rparr> # ts') =
      map (\<lambda>i. if i = 0 then (ts ! 0)\<lparr>pt_RunAfter := pt_RunAfter (ts ! 0) @ [''ods-start'']\<rparr> else ts ! i)
        [0..<length ts]" for ts :: "pipelineTask list"
    by (cases ts) (auto intro!: nth_equalityI simp: nth_Cons' simp del: upt_Suc)
  with ls show ?thesis
    by (simp add: assemblePipeline_def Let_def tektonStringParamSpec_def)
qed

text \<open>
  A volume is created exactly when the lookup says that it does not exist; it then carries
  the name, the repository label, the class and the size of the configuration; a failing lookup
  creates nothing.
\<close>

theorem createPVCIfRequired_creates_iff_missing:
  "sv_QuantityValid sv (st_Size cfg) \<Longrightarrow>
   \<exists>r w'. createPVCIfRequired sv cfg pData w = (r, w') \<and>
     w_trace w' = w_trace w @ CGetPVC (pc_PVC pData) #
       (case sv_GetPVC sv (w_trace w) (pc_PVC pData) of
          Inl (True, e) \<Rightarrow> [CCreatePVC (newPVC cfg pData)] | _ \<Rightarrow> []) \<and>
     (r = Ok () \<longleftrightarrow> (case sv_GetPVC sv (w_trace w) (pc_PVC pData) of
          Inr v \<Rightarrow> True
        | Inl (notFound, e) \<Rightarrow> notFound \<and>
            (\<exists>v. sv_CreatePVC sv (w_trace w @ [CGetPVC (pc_PVC pData)]) (newPVC cfg pData) = Inr v)))"
  by (auto simp: createPVCIfRequired_def bindP_def query_def perform_def prog_simps Let_def
      split: sum.split prod.split)

lemma createPVCIfRequired_witness:
  "\<exists>r w'. createPVCIfRequired (noServices\<lparr>sv_QuantityValid := (\<lambda>s. s = ''2Gi''),
         sv_GetPVC := (\<lambda>h n. Inl (True, ''not found''))\<rparr>)
       \<lparr>st_Provisioner = [], st_ClassName = [], st_Size = ''2Gi''\<rparr> examplePipelineConfig emptyWorld = (r, w') \<and>
     w_trace w' = [CGetPVC ''ods-workspace-foo'', CCreatePVC (newPVC
       \<lparr>st_Provisioner = [], st_ClassName = [], st_Size = ''2Gi''\<rparr> examplePipelineConfig)]"
proof -
  let ?sv = "noServices\<lparr>sv_QuantityValid := (\<lambda>s. s = ''2Gi''), sv_GetPVC := (\<lambda>h n. Inl (True, ''not found''))\<rparr>"
  let ?cfg = "\<lparr>st_Provisioner = [], st_ClassName = [], st_Size = ''2Gi''\<rparr>"
  have "sv_QuantityValid ?sv (st_Size ?cfg)" by simp
  from createPVCIfRequired_creates_iff_missing [OF this, of examplePipelineConfig emptyWorld]
  show ?thesis by (auto simp: emptyWorld_def examplePipelineConfig_def)
qed

end
