(* ===== verification/Schedule.thy ===== *)
theory Schedule
  imports Pipeline
begin

text \<open>
  \<open>internal/manager/schedule.go\<close>: the scheduler turns a triggered pipeline configuration into
  a Tekton pipeline and a run of it, pending when another run of the repository is pending or
  in progress; and the mapping from branches to environments.
\<close>

record scheduler =
  sc_TaskKind :: string
  sc_TaskSuffix :: string
  sc_StorageConfig :: storageConfig

definition needsQueueing :: "runMethods \<Rightarrow> pipelineRun list \<Rightarrow> bool" where
  "needsQueueing tk runs \<longleftrightarrow>
     list_ex (\<lambda>pr. pr_SpecStatus pr = PipelineRunSpecStatusPending \<or> pipelineRunIsProgressing tk pr) runs"

text \<open>\<open>if err != nil { log; return false }\<close>.\<close>

definition orFalse :: "('w, 'a) prog \<Rightarrow> ('a \<Rightarrow> ('w, bool) prog) \<Rightarrow> ('w, bool) prog" where
  "orFalse m k = bindP (attempt m) (\<lambda>r. case r of Inl e \<Rightarrow> ret False | Inr x \<Rightarrow> k x)"

definition createOrUpdatePipeline :: "services \<Rightarrow> string \<Rightarrow> pipeline \<Rightarrow> pipeline prog_w" where
  "createOrUpdatePipeline sv name newPipeline =
     bindP (attempt (perform (CGetPipeline name) (\<lambda>h. sv_GetPipeline sv h name))) (\<lambda>r.
     case r of
       Inl e \<Rightarrow> perform (CCreatePipeline newPipeline) (\<lambda>h. sv_CreatePipeline sv h newPipeline)
     | Inr existingPipeline \<Rightarrow>
         (let p = newPipeline\<lparr>pl_ResourceVersion := pl_ResourceVersion existingPipeline\<rparr>
          in perform (CUpdatePipeline p) (\<lambda>h. sv_UpdatePipeline sv h p)))"

definition schedule ::
  "services \<Rightarrow> runMethods \<Rightarrow> scheduler \<Rightarrow> 'a pipelineConfig_scheme \<Rightarrow> bool prog_w" where
  "schedule sv tk s pData =
     bindP (liftPanic ''slice bounds out of range''
              (assemblePipeline pData (sc_TaskKind s) (sc_TaskSuffix s))) (\<lambda>newPipeline.
     orFalse (createOrUpdatePipeline sv (pi_Name pData) newPipeline) (\<lambda>_.
     orFalse (createPVCIfRequired sv (sc_StorageConfig s) pData) (\<lambda>_.
     orFalse (listPipelineRuns sv (pi_Repository pData)) (\<lambda>pipelineRuns.
     let needQueueing = needsQueueing tk pipelineRuns
     in orFalse (createPipelineRun sv pData needQueueing) (\<lambda>_. ret needQueueing)))))"

text \<open>
  \<open>Run\<close>: the configurations read from the channel, in order, until the context is done; the
  repositories sent on \<open>PendingRunRepos\<close>.
\<close>

primrec Scheduler_Run ::
  "services \<Rightarrow> runMethods \<Rightarrow> scheduler \<Rightarrow> pipelineConfig list \<Rightarrow> string list prog_w" where
  "Scheduler_Run sv tk s [] = ret []"
| "Scheduler_Run sv tk s (pData # rest) =
     bindP (schedule sv tk s pData) (\<lambda>needQueueing.
     bindP (Scheduler_Run sv tk s rest) (\<lambda>sent.
     ret (if needQueueing then pi_Repository pData # sent else sent)))"

section \<open>Branches and environments\<close>

definition mappingBranchMatch :: "string \<Rightarrow> string \<Rightarrow> bool" where
  "mappingBranchMatch mappingBranch testBranch \<longleftrightarrow>
     (if mappingBranch = testBranch then True
      else if HasSuffix mappingBranch ''*''
      then HasPrefix testBranch (TrimSuffix mappingBranch ''*'')
      else False)"

fun selectEnvironmentFromMapping :: "branchToEnvironmentMapping list \<Rightarrow> string \<Rightarrow> string" where
  "selectEnvironmentFromMapping [] branch = []"
| "selectEnvironmentFromMapping (bem # bems) branch =
     (if mappingBranchMatch (be_Branch bem) branch then be_Environment bem
      else selectEnvironmentFromMapping bems branch)"

section \<open>Facts\<close>

lemma needsQueueing_iff:
  "needsQueueing tk runs \<longleftrightarrow>
     (\<exists>pr\<in>set runs. pr_SpecStatus pr = PipelineRunSpecStatusPending \<or> pipelineRunIsProgressing tk pr)"
  by (simp add: needsQueueing_def list_ex_iff)

lemma mappingBranchMatch_iff:
  "mappingBranchMatch m b \<longleftrightarrow> m = b \<or> (\<exists>p r. m = p @ ''*'' \<and> b = p @ r)"
  by (auto simp: mappingBranchMatch_def HasPrefix_def prefix_def elim: HasSuffixE)

lemma selectEnvironment_findFirst:
  "selectEnvironmentFromMapping bems b =
     (case findFirst (\<lambda>bem. mappingBranchMatch (be_Branch bem) b) bems of
        None \<Rightarrow> [] | Some bem \<Rightarrow> be_Environment bem)"
  by (induction bems) auto

subsection \<open>The calls of the scheduler\<close>

lemma orFalse_cases:
  assumes "orFalse m k w = (Ok b, w'')"
  obtains (failed) e where "m w = (Err e, w'')" "\<not> b"
  | (ok) x w' where "m w = (Ok x, w')" "k x w' = (Ok b, w'')"
  using assms
  by (auto simp: orFalse_def bindP_def attempt_def prog_simps split: prod.splits outcome.splits sum.splits)

definition isRunCreation :: "call \<Rightarrow> bool" where
  "isRunCreation c = (case c of CCreatePipelineRun pr \<Rightarrow> True | _ \<Rightarrow> False)"

definition quiet :: "call list \<Rightarrow> bool" where
  "quiet cs \<longleftrightarrow> (\<forall>c\<in>set cs. \<not> isRunCreation c)"

lemma quiet_simps [simp]:
  "quiet []" "quiet (c # cs) \<longleftrightarrow> \<not> isRunCreation c \<and> quiet cs" "quiet (cs @ ds) \<longleftrightarrow> quiet cs \<and> quiet ds"
  by (auto simp: quiet_def)

lemma createOrUpdatePipeline_adds:
  "createOrUpdatePipeline sv n p w = (r, w') \<Longrightarrow> \<exists>cs. adds w cs w' \<and> quiet cs"
  unfolding createOrUpdatePipeline_def
  by (auto simp: bindP_def attempt_def perform_def adds_def Let_def isRunCreation_def
      split: sum.splits prod.splits outcome.splits)

lemma createPVCIfRequired_adds:
  "createPVCIfRequired sv cfg p w = (r, w') \<Longrightarrow> \<exists>cs. adds w cs w' \<and> quiet cs"
  unfolding createPVCIfRequired_def
  by (auto simp: bindP_def query_def perform_def adds_def Let_def isRunCreation_def prog_simps
      split: sum.splits prod.splits outcome.splits if_splits)

lemma listPipelineRuns_result:
  assumes "listPipelineRuns sv repo w = (r, w')"
  shows "adds w [CListPipelineRuns [(repositoryLabel, repo)]] w'"
    and "r = Ok runs \<Longrightarrow> sv_ListPipelineRuns sv (w_trace w) [(repositoryLabel, repo)] = Inr runs"
  using perform_result [OF assms [unfolded listPipelineRuns_def Let_def]] by auto

lemma createPipelineRun_result:
  assumes "createPipelineRun sv pData q w = (r, w')"
  shows "\<exists>ls. pipelineLabels pData = Some ls \<and> adds w [CCreatePipelineRun (newPipelineRun pData ls q)] w'"
proof -
  obtain ls where ls: "pipelineLabels pData = Some ls" using pipelineLabels_defined by blast
  with assms have "perform (CCreatePipelineRun (newPipelineRun pData ls q))
      (\<lambda>h. sv_CreatePipelineRun sv h (newPipelineRun pData ls q)) w = (r, w')"
    by (simp add: createPipelineRun_def Let_def)
  with ls show ?thesis by (blast dest: perform_result)
qed

text \<open>
  What a call of \<open>schedule\<close> that returns does: either it creates no run and returns false, or
  its last two calls list the runs of the repository and create one, pending exactly when
  queueing is needed.
\<close>

lemma schedule_cases:
  assumes "schedule sv tk s pData w = (Ok b, w')"
  shows "(\<not> b \<and> (\<exists>cs. adds w cs w' \<and> quiet cs)) \<or>
     (\<exists>cs ls runs. adds w (cs @ [CListPipelineRuns [(repositoryLabel, pi_Repository pData)],
            CCreatePipelineRun (newPipelineRun pData ls (needsQueueing tk runs))]) w' \<and>
        quiet cs \<and> pipelineLabels pData = Some ls \<and>
        sv_ListPipelineRuns sv (w_trace w @ cs) [(repositoryLabel, pi_Repository pData)] = Inr runs \<and>
        (b \<longrightarrow> needsQueueing tk runs))"
    (is "?failed \<or> ?created")
proof -
  let ?l = "CListPipelineRuns [(repositoryLabel, pi_Repository pData)]"
  obtain p where p: "assemblePipeline pData (sc_TaskKind s) (sc_TaskSuffix s) = Some p"
    using assemblePipeline_defined by blast
  have "orFalse (createOrUpdatePipeline sv (pi_Name pData) p) (\<lambda>_.
     orFalse (createPVCIfRequired sv (sc_StorageConfig s) pData) (\<lambda>_.
     orFalse (listPipelineRuns sv (pi_Repository pData)) (\<lambda>pipelineRuns.
     orFalse (createPipelineRun sv pData (needsQueueing tk pipelineRuns))
       (\<lambda>_. ret (needsQueueing tk pipelineRuns))))) w = (Ok b, w')"
    using assms p by (simp add: schedule_def Let_def)
  then show ?thesis
  proof (cases rule: orFalse_cases)
    case (failed e)
    then show ?thesis using createOrUpdatePipeline_adds by blast
  next
    case (ok p' w1)
    obtain c1 where c1: "adds w c1 w1" "quiet c1"
      using createOrUpdatePipeline_adds [OF ok(1)] by blast
    from ok(2) show ?thesis
    proof (cases rule: orFalse_cases)
      case (failed e)
      then obtain c2 where "adds w1 c2 w'" "quiet c2" using createPVCIfRequired_adds by blast
      with c1 failed(2) show ?thesis by (intro disjI1) (auto intro!: exI [of _ "c1 @ c2"] adds_trans)
    next
      case (ok u w2)
      then obtain c2 where c2: "adds w1 c2 w2" "quiet c2" using createPVCIfRequired_adds by blast
      have c12: "adds w (c1 @ c2) w2" "quiet (c1 @ c2)" using c1 c2 by (auto intro: adds_trans)
      from ok(2) show ?thesis
      proof (cases rule: orFalse_cases)
        case (failed e)
        have "adds w ((c1 @ c2) @ [?l]) w'"
          using c12(1) listPipelineRuns_result(1) [OF failed(1)] by (rule adds_trans)
        moreover have "quiet ((c1 @ c2) @ [?l])" using c12(2) by (simp add: isRunCreation_def)
        ultimately show ?thesis using failed(2) by blast
      next
        case (ok runs w3)
        note lst = listPipelineRuns_result [OF ok(1)]
        have nq: "b \<longrightarrow> needsQueueing tk runs" and
          "\<exists>r. createPipelineRun sv pData (needsQueueing tk runs) w3 = (r, w')"
          using ok(2) by (auto elim!: orFalse_cases simp: prog_simps)
        then obtain ls where ls: "pipelineLabels pData = Some ls"
          "adds w3 [CCreatePipelineRun (newPipelineRun pData ls (needsQueueing tk runs))] w'"
          using createPipelineRun_result by blast
        have "adds w ((c1 @ c2) @ [?l] @ [CCreatePipelineRun (newPipelineRun pData ls (needsQueueing tk runs))]) w'"
          using adds_trans [OF c12(1) adds_trans [OF lst(1) ls(2)]] by simp
        moreover have "sv_ListPipelineRuns sv (w_trace w @ c1 @ c2)
            [(repositoryLabel, pi_Repository pData)] = Inr runs"
          using lst(2) [OF HOL.refl] adds_trace [OF c12(1)] by simp
        ultimately show ?thesis using c12(2) ls(1) nq
          by (intro disjI2 exI [of _ "c1 @ c2"] exI [of _ ls] exI [of _ runs]) simp
      qed
    qed
  qed
qed

section \<open>Properties\<close>

text \<open>
  C5: a call of \<open>schedule\<close> that returns creates at most one pipeline run; the run belongs to the
  triggered repository and pipeline, and it is created pending exactly when the runs listed just
  before contain a pending or a progressing one; \<open>true\<close> is returned only with a pending run.
\<close>

theorem schedule_run_pending_iff_busy:
  assumes "schedule sv tk s pData w = (Ok b, w')"
  shows "\<exists>cs. w_trace w' = w_trace w @ cs \<and> length (filter isRunCreation cs) \<le> 1 \<and>
     (\<forall>pr. CCreatePipelineRun pr \<in> set cs \<longrightarrow>
        lookupS (pr_Labels pr) repositoryLabel = pi_Repository pData \<and>
        pr_PipelineRef pr = pi_Name pData \<and>
        (\<exists>h runs. sv_ListPipelineRuns sv h [(repositoryLabel, pi_Repository pData)] = Inr runs \<and>
           pr_SpecStatus pr =
             (if \<exists>q\<in>set runs. pr_SpecStatus q = PipelineRunSpecStatusPending \<or> pipelineRunIsProgressing tk q
              then PipelineRunSpecStatusPending else []))) \<and>
     (b \<longrightarrow> (\<exists>pr. CCreatePipelineRun pr \<in> set cs \<and> pr_SpecStatus pr = PipelineRunSpecStatusPending))"
  using schedule_cases [OF assms]
proof (elim disjE conjE exE)
  fix cs
  assume "\<not> b" "adds w cs w'" "quiet cs"
  then show ?thesis
    by (intro exI [of _ cs]) (auto simp: adds_trace quiet_def isRunCreation_def filter_empty_conv)
next
  fix cs ls runs
  let ?r = "newPipelineRun pData ls (needsQueueing tk runs)"
  let ?cs = "cs @ [CListPipelineRuns [(repositoryLabel, pi_Repository pData)], CCreatePipelineRun ?r]"
  assume a: "adds w ?cs w'" "quiet cs" "pipelineLabels pData = Some ls" "b \<longrightarrow> needsQueueing tk runs"
    and l: "sv_ListPipelineRuns sv (w_trace w @ cs) [(repositoryLabel, pi_Repository pData)] = Inr runs"
  have only: "CCreatePipelineRun pr \<in> set ?cs \<longleftrightarrow> pr = ?r" for pr
    using a(2) by (auto simp: quiet_def isRunCreation_def)
  have one: "length (filter isRunCreation ?cs) = 1"
    using a(2) by (simp add: quiet_def isRunCreation_def filter_empty_conv)
  have "lookupS ls repositoryLabel = pi_Repository pData"
    using a(3) by (auto simp: pipelineLabels_def lookupS_def)
  then have "lookupS (pr_Labels ?r) repositoryLabel = pi_Repository pData \<and> pr_PipelineRef ?r = pi_Name pData \<and>
     pr_SpecStatus ?r = (if \<exists>q\<in>set runs. pr_SpecStatus q = PipelineRunSpecStatusPending \<or> pipelineRunIsProgressing tk q
              then PipelineRunSpecStatusPending else [])"
    by (simp add: newPipelineRun_def needsQueueing_iff)
  with l have run: "lookupS (pr_Labels ?r) repositoryLabel = pi_Repository pData \<and> pr_PipelineRef ?r = pi_Name pData \<and>
     (\<exists>h runs. sv_ListPipelineRuns sv h [(repositoryLabel, pi_Repository pData)] = Inr runs \<and>
        pr_SpecStatus ?r = (if \<exists>q\<in>set runs. pr_SpecStatus q = PipelineRunSpecStatusPending \<or> pipelineRunIsProgressing tk q
              then PipelineRunSpecStatusPending else []))"
    by blast
  have "b \<longrightarrow> pr_SpecStatus ?r = PipelineRunSpecStatusPending"
    using a(4) by (simp add: newPipelineRun_def)
  with run show ?thesis
    by (intro exI [of _ ?cs]) (simp only: only one adds_trace [OF a(1)] le_refl simp_thms)
qed

text \<open>An environment in which the pipeline exists, the volume exists and one run is pending.\<close>

definition busyServices :: "pipelineRun list \<Rightarrow> services" where
  "busyServices runs = noServices
     \<lparr>sv_QuantityValid := (\<lambda>s. True),
      sv_CreatePipeline := (\<lambda>h p. Inr p),
      sv_GetPVC := (\<lambda>h n. Inr (newPVC \<lparr>st_Provisioner = [], st_ClassName = [], st_Size = ''2Gi''\<rparr> examplePipelineConfig)),
      sv_ListPipelineRuns := (\<lambda>h ls. Inr runs),
      sv_CreatePipelineRun := (\<lambda>h r. Inr r),
      sv_UpdatePipelineRun := (\<lambda>h r. Inr r),
      sv_DeletePipeline := (\<lambda>h n. Inr ()),
      sv_DeletePipelineRun := (\<lambda>h n. Inr ())\<rparr>"

definition exampleScheduler :: scheduler where
  "exampleScheduler = \<lparr>sc_TaskKind = ''ClusterTask'', sc_TaskSuffix = [],
     sc_StorageConfig = \<lparr>st_Provisioner = [], st_ClassName = [], st_Size = ''2Gi''\<rparr>\<rparr>"

definition examplePendingRun :: pipelineRun where
  "examplePendingRun = exampleRun ''foo-1'' [(repositoryLabel, ''p-foo'')] 5 PipelineRunSpecStatusPending []"

lemma schedule_busy:
  "\<exists>w'. schedule (busyServices [examplePendingRun]) exampleMethods exampleScheduler examplePipelineConfig emptyWorld = (Ok True, w')"
proof -
  obtain np where "assemblePipeline examplePipelineConfig (sc_TaskKind exampleScheduler) (sc_TaskSuffix exampleScheduler) = Some np"
    using assemblePipeline_defined by blast
  moreover obtain ls where "pipelineLabels examplePipelineConfig = Some ls" using pipelineLabels_defined by blast
  moreover have "needsQueueing exampleMethods [examplePendingRun]"
    by (simp add: needsQueueing_iff examplePendingRun_def exampleRun_def)
  ultimately show ?thesis
    by (simp add: schedule_def orFalse_def createOrUpdatePipeline_def createPVCIfRequired_def listPipelineRuns_def
        createPipelineRun_def Let_def busyServices_def noServices_def perform_def query_def attempt_def
        bindP_def prog_simps)
qed

lemma schedule_run_pending_witness:
  "\<exists>cs pr. w_trace (snd (schedule (busyServices [examplePendingRun]) exampleMethods exampleScheduler
       examplePipelineConfig emptyWorld)) = cs \<and> length (filter isRunCreation cs) \<le> 1 \<and>
     CCreatePipelineRun pr \<in> set cs \<and> pr_SpecStatus pr = PipelineRunSpecStatusPending"
proof -
  obtain w' where w': "schedule (busyServices [examplePendingRun]) exampleMethods exampleScheduler
      examplePipelineConfig emptyWorld = (Ok True, w')" using schedule_busy by blast
  have "w_trace emptyWorld = []" by (simp add: emptyWorld_def)
  with schedule_run_pending_iff_busy [OF w'] show ?thesis by (auto simp: w')
qed

text \<open>
  \<open>schedule\<close> returns whatever the cluster answers, provided the configured volume size is a
  quantity (it is checked by \<open>MustParse\<close>, the only operation that can panic).
\<close>

theorem schedule_returns:
  assumes "sv_QuantityValid sv (st_Size (sc_StorageConfig s))"
  shows "\<exists>b w'. schedule sv tk s pData w = (Ok b, w')"
proof -
  have orf: "\<exists>b w'. orFalse m k w = (Ok b, w')"
    if "\<exists>w'. (\<exists>x. m w = (Ok x, w')) \<or> (\<exists>e. m w = (Err e, w'))" "\<And>x w. \<exists>b w'. k x w = (Ok b, w')"
    for m :: "'z prog_w" and k w
    using that by (auto simp: orFalse_def attempt_def bindP_def prog_simps)
  have p: "\<exists>w'. (\<exists>x. perform c f w = (Ok x, w')) \<or> (\<exists>e. perform c f w = (Err e, w'))"
    for c and f :: "call list \<Rightarrow> string + 'y" and w
    by (simp add: perform_def split: sum.split)
  have c: "\<exists>w'. (\<exists>x. createOrUpdatePipeline sv n q w = (Ok x, w')) \<or> (\<exists>e. createOrUpdatePipeline sv n q w = (Err e, w'))" for n q w
    by (auto simp: createOrUpdatePipeline_def bindP_def attempt_def perform_def Let_def split: sum.split)
  have v: "\<exists>w'. (\<exists>x. createPVCIfRequired sv (sc_StorageConfig s) pData w = (Ok x, w')) \<or>
      (\<exists>e. createPVCIfRequired sv (sc_StorageConfig s) pData w = (Err e, w'))" for w
    using assms by (auto simp: createPVCIfRequired_def bindP_def query_def perform_def prog_simps Let_def
        split: sum.split)
  obtain np where "assemblePipeline pData (sc_TaskKind s) (sc_TaskSuffix s) = Some np"
    using assemblePipeline_defined by blast
  moreover obtain ls where "pipelineLabels pData = Some ls" using pipelineLabels_defined by blast
  ultimately show ?thesis
    unfolding schedule_def Let_def listPipelineRuns_def createPipelineRun_def
    by (simp, intro orf [OF c] orf [OF v] orf [OF p]) (simp add: ret_def)
qed

lemma schedule_returns_witness:
  "\<exists>b w'. schedule (busyServices []) exampleMethods exampleScheduler examplePipelineConfig emptyWorld = (Ok b, w')"
  by (rule schedule_returns) (simp add: busyServices_def)

text \<open>
  The environment of a branch is that of the first entry of the mapping whose branch is the
  branch itself or a pattern \<open>p*\<close> with \<open>p\<close> a prefix of it; there is none without such an entry.
\<close>

theorem selectEnvironment_first_match:
  "selectEnvironmentFromMapping bems b =
     (case findFirst (\<lambda>m. be_Branch m = b \<or> (\<exists>p r. be_Branch m = p @ ''*'' \<and> b = p @ r)) bems of
        None \<Rightarrow> [] | Some m \<Rightarrow> be_Environment m)"
  by (simp add: selectEnvironment_findFirst mappingBranchMatch_iff)

end
