(* ===== verification/Receive.thy ===== *)
theory Receive
  imports Repository Schedule
begin

text \<open>
  \<open>internal/manager/receive.go\<close>, \<open>validate.go\<close> and \<open>bitbucket.go\<close>: the HTTP handler that turns a
  Bitbucket webhook request into a pipeline configuration for the scheduler.
\<close>

section \<open>The request (bitbucket.go)\<close>

record reqRepository =
  rq_ProjectKey :: string
  rq_Slug :: string

record reqChange =
  ch_Type :: string
  ch_Ref_ID :: string
  ch_Ref_DisplayID :: string
  ch_Ref_Type :: string
  ch_FromHash :: string
  ch_ToHash :: string

record reqFromRef =
  fr_Repository :: reqRepository
  fr_ID :: string
  fr_DisplayID :: string
  fr_LatestCommit :: string

text \<open>\<open>PullRequest\<close> and \<open>Comment\<close> are pointers to structs with one member each.\<close>

record requestBitbucket =
  rb_EventKey :: string
  rb_Repository :: reqRepository
  rb_Changes :: "reqChange list"
  rb_PullRequest :: "reqFromRef option"
  rb_Comment :: "string option"

definition zeroRepository :: reqRepository where
  "zeroRepository = \<lparr>rq_ProjectKey = [], rq_Slug = []\<rparr>"

definition zeroChange :: reqChange where
  "zeroChange = \<lparr>ch_Type = [], ch_Ref_ID = [], ch_Ref_DisplayID = [], ch_Ref_Type = [],
     ch_FromHash = [], ch_ToHash = []\<rparr>"

definition zeroFromRef :: reqFromRef where
  "zeroFromRef = \<lparr>fr_Repository = zeroRepository, fr_ID = [], fr_DisplayID = [], fr_LatestCommit = []\<rparr>"

definition zeroRequest :: requestBitbucket where
  "zeroRequest = \<lparr>rb_EventKey = [], rb_Repository = zeroRepository, rb_Changes = [],
     rb_PullRequest = None, rb_Comment = None\<rparr>"

subsection \<open>Decoding the body\<close>

definition decRepository :: "reqRepository decoder" where
  "decRepository = decStruct
     [(''project'', decStruct [(''key'', decField rq_ProjectKey (\<lambda>s r. r\<lparr>rq_ProjectKey := s\<rparr>) decStr)]),
      (''slug'', decField rq_Slug (\<lambda>s r. r\<lparr>rq_Slug := s\<rparr>) decStr)]"

definition decChange :: "reqChange decoder" where
  "decChange = decStruct
     [(''type'', decField ch_Type (\<lambda>s r. r\<lparr>ch_Type := s\<rparr>) decStr),
      (''ref'', decStruct
         [(''id'', decField ch_Ref_ID (\<lambda>s r. r\<lparr>ch_Ref_ID := s\<rparr>) decStr),
          (''displayId'', decField ch_Ref_DisplayID (\<lambda>s r. r\<lparr>ch_Ref_DisplayID := s\<rparr>) decStr),
          (''type'', decField ch_Ref_Type (\<lambda>s r. r\<lparr>ch_Ref_Type := s\<rparr>) decStr)]),
      (''fromHash'', decField ch_FromHash (\<lambda>s r. r\<lparr>ch_FromHash := s\<rparr>) decStr),
      (''toHash'', decField ch_ToHash (\<lambda>s r. r\<lparr>ch_ToHash := s\<rparr>) decStr)]"

definition decFromRef :: "reqFromRef decoder" where
  "decFromRef = decStruct
     [(''repository'', decField fr_Repository (\<lambda>x r. r\<lparr>fr_Repository := x\<rparr>) decRepository),
      (''id'', decField fr_ID (\<lambda>s r. r\<lparr>fr_ID := s\<rparr>) decStr),
      (''displayId'', decField fr_DisplayID (\<lambda>s r. r\<lparr>fr_DisplayID := s\<rparr>) decStr),
      (''latestCommit'', decField fr_LatestCommit (\<lambda>s r. r\<lparr>fr_LatestCommit := s\<rparr>) decStr)]"

definition decRequest :: "requestBitbucket decoder" where
  "decRequest = decStruct
     [(''eventKey'', decField rb_EventKey (\<lambda>s r. r\<lparr>rb_EventKey := s\<rparr>) decStr),
      (''repository'', decField rb_Repository (\<lambda>x r. r\<lparr>rb_Repository := x\<rparr>) decRepository),
      (''changes'', decField rb_Changes (\<lambda>x r. r\<lparr>rb_Changes := x\<rparr>) (decSlice zeroChange decChange)),
      (''pullRequest'', decField rb_PullRequest (\<lambda>x r. r\<lparr>rb_PullRequest := x\<rparr>)
         (decPtr zeroFromRef (decStruct [(''fromRef'', decFromRef)]))),
      (''comment'', decField rb_Comment (\<lambda>x r. r\<lparr>rb_Comment := x\<rparr>)
         (decPtr [] (decStruct [(''text'', decStr)])))]"

text \<open>
  \<open>json.Unmarshal(body, &req)\<close> where \<open>req\<close> is a pointer: the value null sets the pointer to nil.
\<close>

definition unmarshalRequest :: "string \<Rightarrow> string + requestBitbucket option" where
  "unmarshalRequest body = (case parseJson body of
       None \<Rightarrow> Inl ''invalid character in JSON''
     | Some v \<Rightarrow> decPtr zeroRequest decRequest (Some zeroRequest) v)"

subsection \<open>Questions to Bitbucket\<close>

definition getCommitSHA :: "services \<Rightarrow> string \<Rightarrow> string \<Rightarrow> string \<Rightarrow> string prog_w" where
  "getCommitSHA sv project repo gitFullRef =
     (let params = \<lparr>cl_Since = [], cl_Until = gitFullRef\<rparr>
      in bindP (wrapErr ''could not get commit list: ''
           (perform (CCommitList project repo params) (\<lambda>h. sv_CommitList sv h project repo params))) (\<lambda>commitList.
         bindP (liftPanic ''index out of range [0] with length 0''
           (case cp_Values commitList of [] \<Rightarrow> None | c # cs \<Rightarrow> Some c)) (\<lambda>c. ret (cm_ID c))))"

record prInfo =
  pf_ID :: int
  pf_Base :: string

definition extractPullRequestInfo :: "services \<Rightarrow> string \<Rightarrow> string \<Rightarrow> string \<Rightarrow> prInfo prog_w" where
  "extractPullRequestInfo sv projectKey repositorySlug gitCommit =
     bindP (perform (CCommitPullRequestList projectKey repositorySlug gitCommit)
              (\<lambda>h. sv_CommitPullRequestList sv h projectKey repositorySlug gitCommit)) (\<lambda>prPage.
     ret (case findFirst pq_Open (pp_Values prPage) of
            None \<Rightarrow> \<lparr>pf_ID = 0, pf_Base = []\<rparr>
          | Some v \<Rightarrow> \<lparr>pf_ID = pq_ID v, pf_Base = rf_ID (pq_ToRef v)\<rparr>))"

text \<open>The characters the expression \<open>[\s\-\_]\<close> matches.\<close>

definition skipChar :: "char \<Rightarrow> bool" where
  "skipChar c \<longleftrightarrow> code c \<in> {9, 10, 12, 13, 32} \<or> c = CHR ''-'' \<or> c = CHR ''_''"

definition isCiSkipInCommitMessage :: "string \<Rightarrow> bool" where
  "isCiSkipInCommitMessage message =
     (let messageLines = Split message [CHR 0x0A];
          subject = filter (\<lambda>c. \<not> skipChar c) (ToLower (hd messageLines))
      in Contains subject ''[ciskip]'' \<or> Contains subject ''[skipci]'' \<or> Contains subject ''***noci***'')"

definition shouldSkip :: "services \<Rightarrow> string \<Rightarrow> string \<Rightarrow> string \<Rightarrow> bool prog_w" where
  "shouldSkip sv projectKey repositorySlug gitCommit =
     bindP (attempt (perform (CCommitGet projectKey repositorySlug gitCommit)
              (\<lambda>h. sv_CommitGet sv h projectKey repositorySlug gitCommit))) (\<lambda>r.
     case r of Inl e \<Rightarrow> ret False | Inr c \<Rightarrow> ret (isCiSkipInCommitMessage (cm_Message c)))"

definition GetRepoNames :: "services \<Rightarrow> string \<Rightarrow> string list prog_w" where
  "GetRepoNames sv projectKey =
     bindP (perform (CRepoList projectKey) (\<lambda>h. sv_RepoList sv h projectKey)) (\<lambda>rl.
     ret (map rp_Name (rg_Values rl)))"

section \<open>Validation (validate.go)\<close>

definition signatureHeader :: string where "signatureHeader = ''X-Hub-Signature''"

type_synonym headers = "(string \<times> string list) list"

text \<open>\<open>http.CanonicalHeaderKey\<close>: unchanged if a byte is not allowed in a header name.\<close>

definition headerNameChar :: "char \<Rightarrow> bool" where
  "headerNameChar c \<longleftrightarrow> isAlnum c \<or> c \<in> set (''!#$%&*+-.^_|~'' @ [CHR 0x27, CHR 0x60])"

definition toUpperC :: "char \<Rightarrow> char" where
  "toUpperC c = (if isLowerC c then char_of (code c - 32) else c)"

fun canonicalChars :: "bool \<Rightarrow> string \<Rightarrow> string" where
  "canonicalChars upper [] = []"
| "canonicalChars upper (c # cs) =
     (if upper then toUpperC c else toLowerC c) # canonicalChars (c = CHR ''-'') cs"

definition CanonicalHeaderKey :: "string \<Rightarrow> string" where
  "CanonicalHeaderKey k = (if list_all headerNameChar k then canonicalChars True k else k)"

text \<open>The list of headers is in the order in which Go happens to range over the map.\<close>

definition canonicalHeader :: "headers \<Rightarrow> headers" where
  "canonicalHeader h = foldl (\<lambda>c (k, v). AList.update (CanonicalHeaderKey k) v c) [] h"

definition headerGet :: "headers \<Rightarrow> string \<Rightarrow> string" where
  "headerGet h k = (case map_of h (CanonicalHeaderKey k) of Some (v # vs) \<Rightarrow> v | _ \<Rightarrow> [])"

text \<open>The signature check is third-party code (\<open>github.ValidateSignature\<close>) and a parameter.\<close>

type_synonym signatureCheck = "string \<Rightarrow> string \<Rightarrow> string \<Rightarrow> string + unit"

definition validatePayload :: "signatureCheck \<Rightarrow> headers \<Rightarrow> string \<Rightarrow> string \<Rightarrow> string + unit" where
  "validatePayload check h payload secretToken =
     (let signature = headerGet (canonicalHeader h) signatureHeader
      in if signature = [] then Inl (''no '' @ signatureHeader @ '' set'')
         else if secretToken = [] then Inl ''refuse to validate with empty secret''
         else check signature payload secretToken)"

section \<open>The handler (receive.go)\<close>

definition allowedChangeRefType :: string where "allowedChangeRefType = ''BRANCH''"

record receiver =
  rc_WebhookSecret :: string
  rc_Namespace :: string
  rc_Project :: string
  rc_RepoBase :: string

text \<open>A request: its headers, and its body or the error of reading it.\<close>

record httpRequest =
  hq_Headers :: headers
  hq_Body :: "string + string"

text \<open>A response, and the configuration sent to the scheduler before it, if any.\<close>

record handled =
  hd_Status :: int
  hd_Body :: string
  hd_Sent :: "pipelineConfig option"

definition httpError :: "int \<Rightarrow> string \<Rightarrow> handled prog_w" where
  "httpError status msg = ret \<lparr>hd_Status = status, hd_Body = msg @ [CHR 0x0A], hd_Sent = None\<rparr>"

definition determineProject :: "string \<Rightarrow> string \<Rightarrow> string" where
  "determineProject serverProject projectParam =
     (if ToLower projectParam \<noteq> [] then ToLower projectParam else ToLower serverProject)"

text \<open>What the two kinds of events say: repository, refs, project, commit and comment.\<close>

record eventData =
  ev_repo :: string
  ev_gitRef :: string
  ev_gitFullRef :: string
  ev_projectParam :: string
  ev_commitSHA :: string
  ev_commentText :: string

definition readEvent :: "requestBitbucket \<Rightarrow> ((int \<times> string) + eventData) prog_w" where
  "readEvent req =
     (if rb_EventKey req = ''repo:refs_changed'' then
        bindP (liftPanic ''index out of range [0] with length 0''
                 (case rb_Changes req of [] \<Rightarrow> None | c # cs \<Rightarrow> Some c)) (\<lambda>change.
        if ch_Ref_Type change \<noteq> allowedChangeRefType
        then ret (Inl (418, ''Skipping change ref type '' @ ch_Ref_Type change @ '', only '' @
                  allowedChangeRefType @ '' is supported''))
        else ret (Inr \<lparr>ev_repo = ToLower (rq_Slug (rb_Repository req)),
                 ev_gitRef = ToLower (ch_Ref_DisplayID change), ev_gitFullRef = ch_Ref_ID change,
                 ev_projectParam = rq_ProjectKey (rb_Repository req), ev_commitSHA = ch_ToHash change,
                 ev_commentText = []\<rparr>))
      else if HasPrefix (rb_EventKey req) ''pr:'' then
        bindP (liftPanic ''nil pointer dereference'' (rb_PullRequest req)) (\<lambda>fromRef.
        ret (Inr \<lparr>ev_repo = ToLower (rq_Slug (fr_Repository fromRef)),
                 ev_gitRef = ToLower (fr_DisplayID fromRef), ev_gitFullRef = fr_ID fromRef,
                 ev_projectParam = rq_ProjectKey (fr_Repository fromRef),
                 ev_commitSHA = fr_LatestCommit fromRef,
                 ev_commentText = (case rb_Comment req of None \<Rightarrow> [] | Some t \<Rightarrow> t)\<rparr>))
      else ret (Inl (400, ''Unsupported event key: '' @ rb_EventKey req)))"

text \<open>\<open>if err != nil { http.Error(w, msg, status); return }\<close>.\<close>

definition orRespond :: "int \<Rightarrow> (string \<Rightarrow> string) \<Rightarrow> 'a prog_w \<Rightarrow> ('a \<Rightarrow> handled prog_w) \<Rightarrow> handled prog_w" where
  "orRespond status msg m k = bindP (attempt m) (\<lambda>r. case r of Inl e \<Rightarrow> httpError status (msg e) | Inr x \<Rightarrow> k x)"

definition pipelineInfoJson :: "'a pipelineInfo_scheme \<Rightarrow> json" where
  "pipelineInfoJson i = JObj
     [(''name'', JStr (pi_Name i)), (''project'', JStr (pi_Project i)), (''component'', JStr (pi_Component i)),
      (''repository'', JStr (pi_Repository i)), (''stage'', JStr (pi_Stage i)),
      (''environment'', JStr (pi_Environment i)), (''version'', JStr (pi_Version i)),
      (''gitRef'', JStr (pi_GitRef i)), (''gitFullRef'', JStr (pi_GitFullRef i)), (''gitSha'', JStr (pi_GitSHA i)),
      (''repoBase'', JStr (pi_RepoBase i)), (''gitURI'', JStr (pi_GitURI i)), (''namespace'', JStr (pi_Namespace i)),
      (''trigger-event'', JStr (pi_TriggerEvent i)), (''comment'', JStr (pi_Comment i)),
      (''prKey'', JNum (Itoa (pi_PullRequestKey i))), (''prBase'', JStr (pi_PullRequestBase i))]"

text \<open>The stage of the pipeline: that of its environment, or development.\<close>

definition stageOfEnvironment :: "ODS \<Rightarrow> string \<Rightarrow> string + string" where
  "stageOfEnvironment cfg env =
     (if env \<noteq> [] then (case ODS_Environment cfg env of Inl e \<Rightarrow> Inl e | Inr e \<Rightarrow> Inr (en_Stage e))
      else Inr DevStage)"

text \<open>The configuration of the run, from what was gathered.\<close>

definition configOf ::
  "receiver \<Rightarrow> string \<Rightarrow> eventData \<Rightarrow> string \<times> string \<Rightarrow> string \<Rightarrow> prInfo \<Rightarrow> ODS \<Rightarrow> string \<Rightarrow> pipelineConfig" where
  "configOf s eventKey ev names commitSHA pr odsConfig stage =
     (let repo = ev_repo ev;
          project = determineProject (rc_Project s) (ev_projectParam ev)
      in \<lparr>pi_Name = fst names, pi_Project = project, pi_Component = TrimPrefix repo (project @ ''-''),
          pi_Repository = repo, pi_Stage = stage,
          pi_Environment = selectEnvironmentFromMapping (od_BranchToEnvironmentMapping odsConfig) (ev_gitRef ev),
          pi_Version = od_Version odsConfig,
          pi_GitRef = ev_gitRef ev, pi_GitFullRef = ev_gitFullRef ev, pi_GitSHA = commitSHA,
          pi_RepoBase = rc_RepoBase s,
          pi_GitURI = rc_RepoBase s @ ''/'' @ project @ ''/'' @ repo @ ''.git'',
          pi_Namespace = rc_Namespace s, pi_TriggerEvent = eventKey,
          pi_Comment = ev_commentText ev, pi_PullRequestKey = pf_ID pr, pi_PullRequestBase = pf_Base pr,
          pc_PVC = snd names, pc_Tasks = sp_Tasks (od_Pipeline odsConfig),
          pc_Finally = sp_Finally (od_Pipeline odsConfig)\<rparr>)"

text \<open>Sending the configuration, then answering with the pipeline information as JSON.\<close>

definition accepted :: "pipelineConfig \<Rightarrow> handled" where
  "accepted cfg = \<lparr>hd_Status = 200, hd_Body = Marshal (pipelineInfoJson cfg) @ [CHR 0x0A], hd_Sent = Some cfg\<rparr>"

definition trigger :: "services \<Rightarrow> receiver \<Rightarrow> string \<Rightarrow> eventData \<Rightarrow> handled prog_w" where
  "trigger sv s eventKey ev =
     (let repo = ev_repo ev;
          project = determineProject (rc_Project s) (ev_projectParam ev);
          component = TrimPrefix repo (project @ ''-'')
      in bindP (liftPanic ''slice bounds out of range'' (makePipelineName component (ev_gitRef ev))) (\<lambda>name.
         orRespond 500 (\<lambda>_. ''could not get commit SHA'')
           (if ev_commitSHA ev = [] then getCommitSHA sv project repo (ev_gitFullRef ev)
            else ret (ev_commitSHA ev)) (\<lambda>commitSHA.
         bindP (shouldSkip sv project repo commitSHA) (\<lambda>skip.
         if skip then httpError 418 ''Commit should be skipped''
         else orRespond 500 (\<lambda>_. ''Could not extract PR info'') (extractPullRequestInfo sv project repo commitSHA) (\<lambda>pr.
         orRespond 500 (\<lambda>_. ''could not download ODS config for repo '' @ repo)
           (GetODSConfig sv project repo (ev_gitFullRef ev)) (\<lambda>odsConfig.
         orRespond 500 (\<lambda>e. ''environment misconfiguration: '' @ e)
           (liftE (stageOfEnvironment odsConfig
              (selectEnvironmentFromMapping (od_BranchToEnvironmentMapping odsConfig) (ev_gitRef ev)))) (\<lambda>stage.
         bindP (liftPanic ''slice bounds out of range'' (makePVCName component)) (\<lambda>pvcName.
         ret (accepted (configOf s eventKey ev (name, pvcName) commitSHA pr odsConfig stage))))))))))"

definition Handle :: "services \<Rightarrow> signatureCheck \<Rightarrow> receiver \<Rightarrow> httpRequest \<Rightarrow> handled prog_w" where
  "Handle sv check s r =
     (case hq_Body r of
        Inl e \<Rightarrow> httpError 500 ''could not read body''
      | Inr body \<Rightarrow>
          (case validatePayload check (hq_Headers r) body (rc_WebhookSecret s) of
             Inl e \<Rightarrow> httpError 400 ''failed to validate incoming request''
           | Inr _ \<Rightarrow>
               (case unmarshalRequest body of
                  Inl e \<Rightarrow> httpError 400 (''cannot parse JSON: '' @ e)
                | Inr None \<Rightarrow> panicP ''nil pointer dereference''
                | Inr (Some req) \<Rightarrow>
                    bindP (readEvent req) (\<lambda>ev. case ev of
                      Inl (status, msg) \<Rightarrow> httpError status msg
                    | Inr d \<Rightarrow> trigger sv s (rb_EventKey req) d))))"

section \<open>Facts\<close>

lemma orRespond_SentE:
  assumes "orRespond st msg m k w = (Ok h, w')" "hd_Sent h = Some cfg"
  obtains x w1 where "m w = (Ok x, w1)" "k x w1 = (Ok h, w')"
  using assms
  by (auto simp: orRespond_def bindP_def attempt_def httpError_def prog_simps
      split: prod.splits outcome.splits sum.splits)

lemma httpError_Sent: "httpError st msg w = (Ok h, w') \<Longrightarrow> hd_Sent h = None \<and> hd_Status h = st"
  by (auto simp: httpError_def prog_simps)

lemma shouldSkip_result:
  "shouldSkip sv p r sha w = (Ok b, w') \<Longrightarrow>
     b = (case sv_CommitGet sv (w_trace w) p r sha of Inl e \<Rightarrow> False | Inr c \<Rightarrow> isCiSkipInCommitMessage (cm_Message c))"
  by (auto simp: shouldSkip_def bindP_def attempt_def perform_def prog_simps split: sum.splits)

lemma configOf_simps [simp]:
  "pi_Project (configOf s k ev n sha pr ods st) = determineProject (rc_Project s) (ev_projectParam ev)"
  "pi_Repository (configOf s k ev n sha pr ods st) = ev_repo ev"
  "pi_RepoBase (configOf s k ev n sha pr ods st) = rc_RepoBase s"
  "pi_Namespace (configOf s k ev n sha pr ods st) = rc_Namespace s"
  "pi_GitURI (configOf s k ev n sha pr ods st) =
     rc_RepoBase s @ ''/'' @ determineProject (rc_Project s) (ev_projectParam ev) @ ''/'' @ ev_repo ev @ ''.git''"
  "pi_GitSHA (configOf s k ev n sha pr ods st) = sha"
  "pi_GitRef (configOf s k ev n sha pr ods st) = ev_gitRef ev"
  "pi_GitFullRef (configOf s k ev n sha pr ods st) = ev_gitFullRef ev"
  "pi_Environment (configOf s k ev n sha pr ods st) =
     selectEnvironmentFromMapping (od_BranchToEnvironmentMapping ods) (ev_gitRef ev)"
  "pi_Stage (configOf s k ev n sha pr ods st) = st"
  "pi_Version (configOf s k ev n sha pr ods st) = od_Version ods"
  "pc_Tasks (configOf s k ev n sha pr ods st) = sp_Tasks (od_Pipeline ods)"
  "pc_Finally (configOf s k ev n sha pr ods st) = sp_Finally (od_Pipeline ods)"
  by (simp_all add: configOf_def Let_def)

text \<open>What is known of a configuration that the handler sends.\<close>

lemma trigger_Sent:
  assumes "trigger sv s k ev w = (Ok h, w')" "hd_Sent h = Some cfg"
  obtains name pvcName sha pr ods stage h' w1 w2 where
    "cfg = configOf s k ev (name, pvcName) sha pr ods stage" "h = accepted cfg"
    "case sv_CommitGet sv h' (pi_Project cfg) (pi_Repository cfg) sha of
        Inl e \<Rightarrow> True | Inr c \<Rightarrow> \<not> isCiSkipInCommitMessage (cm_Message c)"
    "GetODSConfig sv (pi_Project cfg) (pi_Repository cfg) (pi_GitFullRef cfg) w1 = (Ok ods, w2)"
    "stageOfEnvironment ods (pi_Environment cfg) = Inr stage"
proof -
  define project where "project = determineProject (rc_Project s) (ev_projectParam ev)"
  define component where "component = TrimPrefix (ev_repo ev) (project @ ''-'')"
  obtain name where name: "makePipelineName component (ev_gitRef ev) = Some name" using pipelineName_defined by blast
  obtain pvcName where pvc: "makePVCName component = Some pvcName" using PVCName_defined by blast
  note a = assms(1) [unfolded trigger_def Let_def, folded project_def, folded component_def,
      unfolded name pvc liftPanic_simps bind_ret]
  from a obtain sha w1 b w2 pr w3 ods w4 stage w5 where
    sk: "shouldSkip sv project (ev_repo ev) sha w1 = (Ok False, w2)"
    and g: "GetODSConfig sv project (ev_repo ev) (ev_gitFullRef ev) w3 = (Ok ods, w4)"
    and st: "liftE (stageOfEnvironment ods
              (selectEnvironmentFromMapping (od_BranchToEnvironmentMapping ods) (ev_gitRef ev))) w4 = (Ok stage, w5)"
    and r: "ret (accepted (configOf s k ev (name, pvcName) sha pr ods stage)) w5 = (Ok h, w')"
    by (elim orRespond_SentE [OF _ assms(2)] bindP_OkE)
      (auto split: if_splits dest: httpError_Sent simp: assms(2) elim!: orRespond_SentE [OF _ assms(2)])
  have h: "h = accepted (configOf s k ev (name, pvcName) sha pr ods stage)"
    using r by (simp add: prog_simps)
  with assms(2) have c: "cfg = configOf s k ev (name, pvcName) sha pr ods stage" by (simp add: accepted_def)
  have "stageOfEnvironment ods (pi_Environment cfg) = Inr stage"
    using st by (cases "stageOfEnvironment ods (pi_Environment cfg)") (simp_all add: c prog_simps)
  moreover have "case sv_CommitGet sv (w_trace w1) (pi_Project cfg) (pi_Repository cfg) sha of
        Inl e \<Rightarrow> True | Inr c \<Rightarrow> \<not> isCiSkipInCommitMessage (cm_Message c)"
    using shouldSkip_result [OF sk] by (auto simp: c project_def split: sum.split)
  ultimately show thesis using that [OF c] h g c by (simp add: project_def)
qed

lemma Handle_Sent:
  assumes "Handle sv check s r w = (Ok h, w')" "hd_Sent h = Some cfg"
  obtains body req ev w1 where "hq_Body r = Inr body"
    "validatePayload check (hq_Headers r) body (rc_WebhookSecret s) = Inr ()"
    "unmarshalRequest body = Inr (Some req)" "trigger sv s (rb_EventKey req) ev w1 = (Ok h, w')"
  using assms httpError_Sent
  by (auto simp: Handle_def prog_simps elim!: bindP_OkE split: sum.splits option.splits)

lemma validatePayload_ok:
  "validatePayload check hs body secret = Inr () \<longleftrightarrow>
     headerGet (canonicalHeader hs) signatureHeader \<noteq> [] \<and> secret \<noteq> [] \<and>
     check (headerGet (canonicalHeader hs) signatureHeader) body secret = Inr ()"
  by (simp add: validatePayload_def Let_def)

subsection \<open>Answers\<close>

text \<open>Every answer has one of four statuses, and 200 exactly with a configuration sent.\<close>

definition properAnswer :: "handled \<Rightarrow> bool" where
  "properAnswer h \<longleftrightarrow> hd_Status h \<in> {200, 400, 418, 500} \<and> (hd_Status h = 200 \<longleftrightarrow> hd_Sent h \<noteq> None)"

definition answersProperly :: "handled prog_w \<Rightarrow> bool" where
  "answersProperly m \<longleftrightarrow> (\<forall>w h w'. m w = (Ok h, w') \<longrightarrow> properAnswer h)"

lemma answers_httpError: "st \<in> {400, 418, 500} \<Longrightarrow> answersProperly (httpError st msg)"
  by (auto simp: answersProperly_def properAnswer_def httpError_def prog_simps)

lemma answers_bind: "(\<And>x. answersProperly (k x)) \<Longrightarrow> answersProperly (bindP m k)"
  unfolding answersProperly_def by (blast elim: bindP_OkE)

lemma answers_orRespond: "st = 500 \<Longrightarrow> (\<And>x. answersProperly (k x)) \<Longrightarrow> answersProperly (orRespond st msg m k)"
  unfolding orRespond_def by (intro answers_bind) (auto split: sum.split intro: answers_httpError)

lemma answers_accepted: "answersProperly (ret (accepted cfg))"
  by (auto simp: answersProperly_def properAnswer_def accepted_def prog_simps)

lemma answers_panic: "answersProperly (panicP e)"
  by (simp add: answersProperly_def prog_simps)

lemma trigger_answers: "answersProperly (trigger sv s k ev)"
  unfolding trigger_def Let_def
  by (intro answers_bind answers_orRespond HOL.refl) (auto intro!: answers_httpError answers_bind answers_orRespond answers_accepted)

lemma readEvent_status:
  "readEvent req w = (Ok (Inl (st, msg)), w') \<Longrightarrow> st \<in> {400, 418}"
  by (auto simp: readEvent_def prog_simps elim!: bindP_OkE split: if_splits)

lemma Handle_answers: "answersProperly (Handle sv check s r)"
  unfolding answersProperly_def
proof (intro allI impI)
  fix w h w'
  assume a: "Handle sv check s r w = (Ok h, w')"
  have e: "properAnswer h" if "httpError st msg v = (Ok h, w')" "st \<in> {400, 418, 500}" for st msg v
    using that answers_httpError unfolding answersProperly_def by blast
  have t: "properAnswer h" if "trigger sv s k ev v = (Ok h, w')" for k ev v
    using that trigger_answers unfolding answersProperly_def by blast
  from a show "properAnswer h"
    unfolding Handle_def
    by (auto simp: prog_simps split: sum.splits option.splits elim!: bindP_OkE
        dest!: readEvent_status intro: t e)
qed

subsection \<open>Questions\<close>

text \<open>The handler asks Bitbucket and does nothing else.\<close>

definition bitbucketRead :: "call \<Rightarrow> bool" where
  "bitbucketRead c = (case c of
       CCommitList _ _ _ \<Rightarrow> True | CCommitGet _ _ _ \<Rightarrow> True
     | CCommitPullRequestList _ _ _ \<Rightarrow> True | CRawGet _ _ _ _ \<Rightarrow> True | _ \<Rightarrow> False)"

definition asks :: "world \<Rightarrow> world \<Rightarrow> bool" where
  "asks w w' \<longleftrightarrow> (\<exists>cs. adds w cs w' \<and> list_all bitbucketRead cs)"

interpretation ask: step_relation asks
proof
  show "asks w w" for w unfolding asks_def by (intro exI [of _ "[]"]) simp
  show "asks w w' \<Longrightarrow> asks w' w'' \<Longrightarrow> asks w w''" for w w' w''
    unfolding asks_def by (metis adds_trans list_all_append)
qed

lemma ask_perform: "bitbucketRead c \<Longrightarrow> preserves asks (perform c f)"
  unfolding preserves_def asks_def
  by (intro allI exI [of _ "[c]"]) (auto simp: perform_def adds_def split: sum.split)

lemma ask_orRespond: "preserves asks m \<Longrightarrow> (\<And>x. preserves asks (k x)) \<Longrightarrow> preserves asks (orRespond st msg m k)"
  unfolding orRespond_def httpError_def by (intro ask.rules)

lemma ask_getODSBody: "preserves asks (getODSBody sv p r ref cs e)"
proof (induction cs arbitrary: e)
  case Nil
  then show ?case by (simp add: ask.ret)
next
  case (Cons c cs)
  then show ?case
    unfolding getODSBody.simps by (intro ask.rules ask_perform) (simp add: bitbucketRead_def)
qed

lemma ask_Config_Read: "preserves asks (Config_Read dec b)"
  unfolding Config_Read_def by (intro ask.rules)

lemma ask_GetODSConfig: "preserves asks (GetODSConfig sv p r ref)"
  unfolding GetODSConfig_def by (intro ask.rules ask_getODSBody ask_Config_Read)

lemma ask_trigger: "preserves asks (trigger sv s k ev)"
  unfolding trigger_def Let_def getCommitSHA_def shouldSkip_def extractPullRequestInfo_def httpError_def
  by (intro ask.rules ask_orRespond ask_perform ask_GetODSConfig) (simp_all add: bitbucketRead_def)

lemma ask_Handle: "preserves asks (Handle sv check s r)"
  unfolding Handle_def httpError_def readEvent_def
  by (intro ask.rules ask_trigger)

text \<open>
  What a configuration that was sent owes to its request: a body signed with the non-empty secret;
  the namespace and the base of the repository URI are those of the receiver.
\<close>

definition authenticated :: "signatureCheck \<Rightarrow> receiver \<Rightarrow> httpRequest \<Rightarrow> pipelineConfig \<Rightarrow> bool" where
  "authenticated check s r cfg \<longleftrightarrow>
     (\<exists>body. hq_Body r = Inr body \<and> rc_WebhookSecret s \<noteq> [] \<and>
       headerGet (canonicalHeader (hq_Headers r)) signatureHeader \<noteq> [] \<and>
       check (headerGet (canonicalHeader (hq_Headers r)) signatureHeader) body (rc_WebhookSecret s) = Inr () \<and>
       pi_Namespace cfg = rc_Namespace s \<and>
       pi_GitURI cfg = rc_RepoBase s @ ''/'' @ pi_Project cfg @ ''/'' @ pi_Repository cfg @ ''.git'')"

lemma Handle_authenticated:
  assumes "Handle sv check s r w = (Ok h, w')" "hd_Sent h = Some cfg"
  shows "authenticated check s r cfg"
proof -
  obtain body req ev w1 where 1: "hq_Body r = Inr body"
    "validatePayload check (hq_Headers r) body (rc_WebhookSecret s) = Inr ()"
    "unmarshalRequest body = Inr (Some req)" "trigger sv s (rb_EventKey req) ev w1 = (Ok h, w')"
    by (rule Handle_Sent [OF assms])
  have "\<exists>name pvcName sha pr ods stage. cfg = configOf s (rb_EventKey req) ev (name, pvcName) sha pr ods stage"
    by (rule trigger_Sent [OF 1(4) assms(2)]) blast
  with 1(1,2) show ?thesis by (auto simp: validatePayload_ok authenticated_def)
qed

section \<open>Properties\<close>

text \<open>
  C1: the handler sends a configuration only for a request whose body carries a signature valid
  under the non-empty webhook secret; the repository URI is built from the configured base, so
  it never comes from the request.
\<close>

theorem Handle_sends_only_authenticated:
  assumes "Handle sv check s r w = (Ok h, w')" "hd_Sent h = Some cfg"
  shows "\<exists>body. hq_Body r = Inr body \<and> rc_WebhookSecret s \<noteq> [] \<and>
     headerGet (canonicalHeader (hq_Headers r)) signatureHeader \<noteq> [] \<and>
     check (headerGet (canonicalHeader (hq_Headers r)) signatureHeader) body (rc_WebhookSecret s) = Inr () \<and>
     pi_Namespace cfg = rc_Namespace s \<and>
     pi_GitURI cfg = rc_RepoBase s @ ''/'' @ pi_Project cfg @ ''/'' @ pi_Repository cfg @ ''.git''"
  using Handle_authenticated [OF assms] unfolding authenticated_def .

definition exampleReceiver :: receiver where
  "exampleReceiver = \<lparr>rc_WebhookSecret = ''s3cr3t'', rc_Namespace = ''foo-cd'', rc_Project = ''foo'',
     rc_RepoBase = ''https://b.org/scm''\<rparr>"

definition examplePush :: json where
  "examplePush = JObj
     [(''eventKey'', JStr ''repo:refs_changed''),
      (''repository'', JObj [(''slug'', JStr ''foo-bar''), (''project'', JObj [(''key'', JStr ''FOO'')])]),
      (''changes'', JArr [JObj [(''ref'', JObj [(''id'', JStr ''refs/heads/release/1''),
         (''displayId'', JStr ''release/1''), (''type'', JStr ''BRANCH'')]), (''toHash'', JStr ''abcdef'')]])]"

definition exampleRequest :: httpRequest where
  "exampleRequest = \<lparr>hq_Headers = [(''x-hub-signature'', [''sha256=00''])], hq_Body = Inr (Marshal examplePush)\<rparr>"

definition exampleCommit :: commit where
  "exampleCommit = \<lparr>cm_ID = ''abcdef'', cm_DisplayID = ''abc'', cm_Author = \<lparr>pe_Name = [], pe_EmailAddress = []\<rparr>,
     cm_AuthorTimestamp = 0, cm_Committer = \<lparr>pe_Name = [], pe_EmailAddress = []\<rparr>, cm_CommitterTimestamp = 0,
     cm_Message = ''feat: x'', cm_Parents = []\<rparr>"

definition receiveServices :: services where
  "receiveServices = repoServices
     \<lparr>sv_CommitGet := (\<lambda>h p r c. Inr exampleCommit),
      sv_CommitPullRequestList := (\<lambda>h p r c. Inr \<lparr>pp_Size = 0, pp_Limit = 25, pp_IsLastPage = True,
         pp_Values = [], pp_Start = 0\<rparr>)\<rparr>"

lemma unmarshal_examplePush:
  "unmarshalRequest (Marshal examplePush) = Inr (Some \<lparr>rb_EventKey = ''repo:refs_changed'',
     rb_Repository = \<lparr>rq_ProjectKey = ''FOO'', rq_Slug = ''foo-bar''\<rparr>,
     rb_Changes = [\<lparr>ch_Type = [], ch_Ref_ID = ''refs/heads/release/1'', ch_Ref_DisplayID = ''release/1'',
        ch_Ref_Type = ''BRANCH'', ch_FromHash = [], ch_ToHash = ''abcdef''\<rparr>],
     rb_PullRequest = None, rb_Comment = None\<rparr>)"
proof -
  have "parseJson (Marshal examplePush) = Some examplePush"
    using parseJson_Marshal [of examplePush "[]"] by (simp add: examplePush_def)
  then show ?thesis
    by (simp add: unmarshalRequest_def examplePush_def decPtr_def decRequest_def decStruct_def decField_def
        fieldOf_def decStr_def decRepository_def decSlice_def decChange_def zeroRequest_def zeroRepository_def
        zeroChange_def)
qed

lemma Handle_example_runs:
  "(case fst (Handle receiveServices (\<lambda>sig body secret. Inr ()) exampleReceiver exampleRequest emptyWorld) of
      Ok h \<Rightarrow> (case hd_Sent h of Some cfg \<Rightarrow> pi_Environment cfg = ''foo-qa'' | None \<Rightarrow> False)
    | _ \<Rightarrow> False)"
  by code_simp

lemma Handle_example:
  obtains h w' cfg where
    "Handle receiveServices (\<lambda>sig body secret. Inr ()) exampleReceiver exampleRequest emptyWorld = (Ok h, w')"
    "hd_Sent h = Some cfg" "pi_Environment cfg = ''foo-qa''"
  using Handle_example_runs
  by (cases "Handle receiveServices (\<lambda>sig body secret. Inr ()) exampleReceiver exampleRequest emptyWorld")
    (auto split: outcome.splits option.splits)

lemma Handle_authenticated_witness:
  "\<exists>h w' cfg. Handle receiveServices (\<lambda>sig body secret. Inr ()) exampleReceiver exampleRequest emptyWorld = (Ok h, w') \<and>
     hd_Sent h = Some cfg \<and>
     pi_GitURI cfg = ''https://b.org/scm'' @ ''/'' @ pi_Project cfg @ ''/'' @ pi_Repository cfg @ ''.git''"
proof (rule Handle_example)
  fix h w' cfg
  assume "Handle receiveServices (\<lambda>sig body secret. Inr ()) exampleReceiver exampleRequest emptyWorld = (Ok h, w')"
    and "hd_Sent h = Some cfg"
  from this Handle_sends_only_authenticated [OF this] show ?thesis
    by (auto simp: exampleReceiver_def)
qed

text \<open>
  C16: a request that is handled is answered with status 200, 400, 418 or 500, and with 200
  exactly when a configuration was sent to the scheduler; whatever happens, the handler only
  reads from Bitbucket.
\<close>

theorem Handle_answer_and_effects:
  "(\<forall>h w'. Handle sv check s r w = (Ok h, w') \<longrightarrow>
      hd_Status h \<in> {200, 400, 418, 500} \<and> (hd_Status h = 200 \<longleftrightarrow> hd_Sent h \<noteq> None)) \<and>
   (\<exists>cs. snd (Handle sv check s r w) = w\<lparr>w_trace := w_trace w @ cs\<rparr> \<and> list_all bitbucketRead cs)"
proof -
  have "asks w (snd (Handle sv check s r w))"
    using ask_Handle by (auto simp: preserves_def)
  moreover have "\<forall>h w'. Handle sv check s r w = (Ok h, w') \<longrightarrow> properAnswer h"
    using Handle_answers unfolding answersProperly_def by blast
  ultimately show ?thesis unfolding asks_def adds_def properAnswer_def by blast
qed

lemma Handle_answer_witness:
  "\<exists>h w'. Handle receiveServices (\<lambda>sig body secret. Inr ()) exampleReceiver exampleRequest emptyWorld = (Ok h, w') \<and>
     hd_Status h = 200"
proof (rule Handle_example)
  fix h w' cfg
  assume "Handle receiveServices (\<lambda>sig body secret. Inr ()) exampleReceiver exampleRequest emptyWorld = (Ok h, w')"
    and "hd_Sent h = Some cfg"
  with Handle_answer_and_effects [of receiveServices "\<lambda>sig body secret. Inr ()" exampleReceiver exampleRequest emptyWorld]
  show ?thesis by auto
qed

text \<open>
  C11: the stage and the environment of a triggered run come from the configuration of the
  repository at the triggered ref: the environment mapped to the branch, its stage, and the
  development stage without an environment; a commit that asks to be skipped triggers nothing;
  and the answer is the JSON text of the pipeline information that was sent.
\<close>

theorem Handle_config_follows_repository:
  assumes "Handle sv check s r w = (Ok h, w')" "hd_Sent h = Some cfg"
  shows "parseJson (hd_Body h) = Some (pipelineInfoJson cfg) \<and>
     (\<exists>h'. case sv_CommitGet sv h' (pi_Project cfg) (pi_Repository cfg) (pi_GitSHA cfg) of
        Inl e \<Rightarrow> True | Inr c \<Rightarrow> \<not> isCiSkipInCommitMessage (cm_Message c)) \<and>
     (\<exists>ods w1 w2. GetODSConfig sv (pi_Project cfg) (pi_Repository cfg) (pi_GitFullRef cfg) w1 = (Ok ods, w2) \<and>
        pi_Environment cfg = selectEnvironmentFromMapping (od_BranchToEnvironmentMapping ods) (pi_GitRef cfg) \<and>
        (if pi_Environment cfg = [] then pi_Stage cfg = DevStage
         else \<exists>e. ODS_Environment ods (pi_Environment cfg) = Inr e \<and> pi_Stage cfg = en_Stage e) \<and>
        pc_Tasks cfg = sp_Tasks (od_Pipeline ods) \<and> pi_Version cfg = od_Version ods)"
proof -
  have "\<exists>(req :: requestBitbucket) ev w1. trigger sv s (rb_EventKey req) ev w1 = (Ok h, w')"
    by (rule Handle_Sent [OF assms]) blast
  then obtain req :: requestBitbucket and ev w1 where 1: "trigger sv s (rb_EventKey req) ev w1 = (Ok h, w')" by blast
  obtain name pvcName sha pr ods stage h' w2 w3 where
    c: "cfg = configOf s (rb_EventKey req) ev (name, pvcName) sha pr ods stage" and a: "h = accepted cfg"
    and sk: "case sv_CommitGet sv h' (pi_Project cfg) (pi_Repository cfg) sha of
        Inl e \<Rightarrow> True | Inr c \<Rightarrow> \<not> isCiSkipInCommitMessage (cm_Message c)"
    and g: "GetODSConfig sv (pi_Project cfg) (pi_Repository cfg) (pi_GitFullRef cfg) w2 = (Ok ods, w3)"
    and st: "stageOfEnvironment ods (pi_Environment cfg) = Inr stage"
    by (rule trigger_Sent [OF 1 assms(2)])
  have "jsonOk (pipelineInfoJson cfg)" by (auto simp: pipelineInfoJson_def)
  then have "parseJson (hd_Body h) = Some (pipelineInfoJson cfg)"
    by (simp add: a accepted_def parseJson_Marshal)
  moreover have "if pi_Environment cfg = [] then pi_Stage cfg = DevStage
         else \<exists>e. ODS_Environment ods (pi_Environment cfg) = Inr e \<and> pi_Stage cfg = en_Stage e"
    using st c by (auto simp: stageOfEnvironment_def split: if_splits sum.splits)
  ultimately show ?thesis using sk g c
    by (intro conjI exI [of _ h'] exI [of _ ods] exI [of _ w2] exI [of _ w3]) simp_all
qed

lemma Handle_config_witness:
  "\<exists>h w' cfg. Handle receiveServices (\<lambda>sig body secret. Inr ()) exampleReceiver exampleRequest emptyWorld = (Ok h, w') \<and>
     hd_Sent h = Some cfg \<and> pi_Environment cfg = ''foo-qa'' \<and> parseJson (hd_Body h) = Some (pipelineInfoJson cfg)"
proof (rule Handle_example)
  fix h w' cfg
  assume "Handle receiveServices (\<lambda>sig body secret. Inr ()) exampleReceiver exampleRequest emptyWorld = (Ok h, w')"
    and "hd_Sent h = Some cfg" and "pi_Environment cfg = ''foo-qa''"
  with Handle_config_follows_repository [OF this(1,2)] show ?thesis by blast
qed

text \<open>The markers the documentation of Bitbucket integrations lists.\<close>

definition ciSkipMarkers :: "string list" where
  "ciSkipMarkers = [''[ci skip]'', ''[ciskip]'', ''[ci-skip]'', ''[ci_skip]'',
     ''[skip ci]'', ''[skipci]'', ''[skip-ci]'', ''[skip_ci]'',
     ''***no_ci***'', ''***no ci***'', ''***noci***'', ''***no-ci***'']"

lemma marker_stripped:
  "m \<in> set ciSkipMarkers \<Longrightarrow>
     filter (\<lambda>c. \<not> skipChar c) m \<in> {''[ciskip]'', ''[skipci]'', ''***noci***''} \<and> CHR 0x0A \<notin> set m"
  unfolding ciSkipMarkers_def by (simp only: list.set insert_iff empty_iff) (elim disjE; simp add: skipChar_def)

text \<open>
  A commit is skipped whenever its subject line contains one of the documented markers, in
  upper or lower case.
\<close>

theorem ci_skip_markers_recognised:
  assumes "ToLower marker \<in> set ciSkipMarkers" and "CHR 0x0A \<notin> set a"
  shows "isCiSkipInCommitMessage (a @ marker @ b)"
proof -
  let ?strip = "filter (\<lambda>c. \<not> skipChar c)"
  have nl: "CHR 0x0A \<notin> set marker"
  proof
    assume "CHR 0x0A \<in> set marker"
    then have "toLowerC (CHR 0x0A) \<in> set (ToLower marker)" by (simp add: ToLower_def)
    with marker_stripped [OF assms(1)] show False by (simp add: toLowerC_def isUpper_def)
  qed
  have tw: "takeWhile (\<lambda>x. x \<noteq> CHR 0x0A) (xs @ ys) = xs @ takeWhile (\<lambda>x. x \<noteq> CHR 0x0A) ys"
    if "CHR 0x0A \<notin> set xs" for xs ys :: string
    by (rule takeWhile_append2) (use that in auto)
  have "hd (Split (a @ marker @ b) [CHR 0x0A]) = a @ marker @ takeWhile (\<lambda>x. x \<noteq> CHR 0x0A) b"
    unfolding Split_char hd_split1 tw [OF assms(2)] tw [OF nl] ..
  then have "?strip (ToLower (hd (Split (a @ marker @ b) [CHR 0x0A]))) =
      ?strip (ToLower a) @ ?strip (ToLower marker) @ ?strip (ToLower (takeWhile (\<lambda>x. x \<noteq> CHR 0x0A) b))"
    by simp
  then have "Contains (?strip (ToLower (hd (Split (a @ marker @ b) [CHR 0x0A])))) (?strip (ToLower marker))"
    unfolding Contains_iff by blast
  with marker_stripped [OF assms(1)] show ?thesis
    unfolding isCiSkipInCommitMessage_def Let_def by (metis empty_iff insert_iff)
qed

lemma ci_skip_witness: "isCiSkipInCommitMessage (''fix: typo '' @ ''[skip-ci]'' @ [CHR 0x0A] @ ''body'')"
  by (rule ci_skip_markers_recognised [of "''[skip-ci]''" "''fix: typo ''" "[CHR 0x0A] @ ''body''"])
    (simp_all add: ToLower_def ciSkipMarkers_def toLowerC_def isUpper_def)

text \<open>A request whose body is the JSON text null, correctly signed, panics.\<close>

lemma Handle_null_panics:
  "fst (Handle receiveServices (\<lambda>sig body secret. Inr ()) exampleReceiver
     (exampleRequest\<lparr>hq_Body := Inr ''null''\<rparr>) emptyWorld) = Panic ''nil pointer dereference''"
  by code_simp

end
