(* ===== verification/Watch.thy ===== *)
theory Watch
  imports Schedule
begin

text \<open>
  \<open>internal/manager/watch.go\<close>: the watcher keeps the set of repositories with pending runs and,
  on every timer tick, starts the oldest pending run of each active queue in which nothing
  is running.
\<close>

section \<open>Advancing one queue\<close>

text \<open>The loop over the listed runs: whether one is in progress, and the pending ones in order.\<close>

fun classifyRuns :: "runMethods \<Rightarrow> pipelineRun list \<Rightarrow> bool \<Rightarrow> pipelineRun list \<Rightarrow> bool \<times> pipelineRun list" where
  "classifyRuns tk [] foundRunning pendingPrs = (foundRunning, pendingPrs)"
| "classifyRuns tk (pr # prs) foundRunning pendingPrs =
     (if tk_IsPending tk pr then classifyRuns tk prs foundRunning (pendingPrs @ [pr])
      else if pipelineRunIsProgressing tk pr then classifyRuns tk prs True pendingPrs
      else classifyRuns tk prs foundRunning pendingPrs)"

text \<open>The run to start, if any, and the number of runs left in the queue.\<close>

definition advanceDecision ::
  "(pipelineRun list \<Rightarrow> pipelineRun list) \<Rightarrow> runMethods \<Rightarrow> pipelineRun list \<Rightarrow> pipelineRun option \<times> nat" where
  "advanceDecision srt tk items =
     (let (foundRunning, pendingPrs) = classifyRuns tk items False []
      in if \<not> foundRunning \<and> pendingPrs \<noteq> []
         then let ordered = srt pendingPrs
              in (Some (last ordered), length (butlast ordered))
         else (None, length pendingPrs))"

definition advanceQueue ::
  "services \<Rightarrow> (pipelineRun list \<Rightarrow> pipelineRun list) \<Rightarrow> runMethods \<Rightarrow> string \<Rightarrow> (nat \<times> string option) prog_w" where
  "advanceQueue sv srt tk queue =
     bindP (attempt (listPipelineRuns sv queue)) (\<lambda>r.
     case r of
       Inl e \<Rightarrow> ret (0, Some (''could not retrieve existing pipeline runs: '' @ e))
     | Inr items \<Rightarrow>
         (if items = [] then ret (0, None)
          else case advanceDecision srt tk items of
              (None, remaining) \<Rightarrow> ret (remaining, None)
            | (Some oldestPR, remaining) \<Rightarrow>
                (let upd = oldestPR\<lparr>pr_SpecStatus := []\<rparr>
                 in bindP (attempt (perform (CUpdatePipelineRun upd)
                             (\<lambda>h. sv_UpdatePipelineRun sv h upd))) (\<lambda>u.
                    case u of
                      Inl e \<Rightarrow> ret (remaining, Some (''could not update pipeline run '' @
                                 pr_Name oldestPR @ '': '' @ e))
                    | Inr _ \<Rightarrow> ret (remaining, None)))))"

section \<open>The loop of the watcher\<close>

text \<open>
  \<open>Queues\<close> is a map from repository to flag; \<open>armed\<close> says that the current timer will fire.
  The timer is started by \<open>Run\<close>, replaced by a fresh one after an iteration that leaves an
  active queue, and stopped otherwise.
\<close>

record watcher =
  wt_Queues :: "(string \<times> bool) list"
  wt_armed :: bool

text \<open>
  A tick carries the order in which Go happens to iterate over the map.
\<close>

datatype watchEvent = PendingRun string | TimerFired "string list \<Rightarrow> string list"

definition hasActiveQueue :: "(string \<times> bool) list \<Rightarrow> bool" where
  "hasActiveQueue qs \<longleftrightarrow> list_ex snd qs"

definition activeQueues :: "(string \<times> bool) list \<Rightarrow> string list" where
  "activeQueues qs = map fst (filter snd qs)"

definition advanceActive ::
  "services \<Rightarrow> (pipelineRun list \<Rightarrow> pipelineRun list) \<Rightarrow> runMethods \<Rightarrow> (string \<times> bool) list \<Rightarrow> string \<Rightarrow>
     (string \<times> bool) list prog_w" where
  "advanceActive sv srt tk qs q =
     bindP (advanceQueue sv srt tk q) (\<lambda>(remaining, err).
     ret (if remaining = 0 then AList.update q False qs else qs))"

definition watchStep ::
  "services \<Rightarrow> (pipelineRun list \<Rightarrow> pipelineRun list) \<Rightarrow> runMethods \<Rightarrow> watcher \<Rightarrow> watchEvent \<Rightarrow> watcher prog_w" where
  "watchStep sv srt tk wt ev =
     bindP (case ev of
              PendingRun r \<Rightarrow> ret (AList.update r True (wt_Queues wt))
            | TimerFired ord \<Rightarrow> foldP (advanceActive sv srt tk) (wt_Queues wt) (ord (activeQueues (wt_Queues wt))))
       (\<lambda>qs. ret (wt\<lparr>wt_Queues := qs, wt_armed := hasActiveQueue qs\<rparr>))"

primrec Watcher_Run ::
  "services \<Rightarrow> (pipelineRun list \<Rightarrow> pipelineRun list) \<Rightarrow> runMethods \<Rightarrow> watcher \<Rightarrow> watchEvent list \<Rightarrow> watcher prog_w" where
  "Watcher_Run sv srt tk wt [] = ret wt"
| "Watcher_Run sv srt tk wt (ev # evs) =
     bindP (watchStep sv srt tk wt ev) (\<lambda>wt'. Watcher_Run sv srt tk wt' evs)"

text \<open>The state in which \<open>serve\<close> starts the watcher.\<close>

definition watcherStart :: watcher where
  "watcherStart = \<lparr>wt_Queues = [], wt_armed = True\<rparr>"

section \<open>Facts about one queue\<close>

lemma classifyRuns_eq:
  "classifyRuns tk prs fr ps =
     (fr \<or> (\<exists>pr\<in>set prs. \<not> tk_IsPending tk pr \<and> pipelineRunIsProgressing tk pr),
      ps @ filter (tk_IsPending tk) prs)"
  by (induction tk prs fr ps rule: classifyRuns.induct) auto

lemma progressing_not_pending: "pipelineRunIsProgressing tk pr \<Longrightarrow> \<not> tk_IsPending tk pr"
  by (simp add: pipelineRunIsProgressing_def)

lemma classify_items:
  "classifyRuns tk items False [] =
     ((\<exists>pr\<in>set items. pipelineRunIsProgressing tk pr), filter (tk_IsPending tk) items)"
  using progressing_not_pending by (auto simp: classifyRuns_eq)

text \<open>
  The decision in the words of the documentation: a run is started only if none is in
  progress; it is an oldest pending one; the rest stays queued.
\<close>

lemma advanceDecision_Some:
  assumes "desc_sorter srt" and "advanceDecision srt tk items = (Some pr, n)"
  shows "pr \<in> set items" "tk_IsPending tk pr"
    "\<forall>q\<in>set items. tk_IsPending tk q \<longrightarrow> pr_CreationTimestamp pr \<le> pr_CreationTimestamp q"
    "\<forall>q\<in>set items. \<not> pipelineRunIsProgressing tk q"
    "Suc n = length (filter (tk_IsPending tk) items)"
proof -
  note ds = assms(1)
  let ?P = "filter (tk_IsPending tk) items"
  from assms(2) have none: "\<forall>q\<in>set items. \<not> pipelineRunIsProgressing tk q" and ne: "?P \<noteq> []"
    and pr: "pr = last (srt ?P)" and n: "n = length (butlast (srt ?P))"
    by (auto simp: advanceDecision_def classify_items Let_def split: if_splits)
  show "\<forall>q\<in>set items. \<not> pipelineRunIsProgressing tk q" by (fact none)
  have "srt ?P \<noteq> []" using ne desc_sorter.srt_Nil_iff [OF ds] by simp
  then have "pr \<in> set (srt ?P)" using pr by simp
  then have mem: "pr \<in> set ?P" using desc_sorter.set_srt [OF ds] by simp
  then show "pr \<in> set items" "tk_IsPending tk pr" by auto
  show "\<forall>q\<in>set items. tk_IsPending tk q \<longrightarrow> pr_CreationTimestamp pr \<le> pr_CreationTimestamp q"
    using desc_sorter.last_oldest [OF ds ne] pr by auto
  show "Suc n = length ?P"
    using n \<open>srt ?P \<noteq> []\<close> desc_sorter.length_srt [OF ds, of ?P] by (cases "srt ?P") auto
qed

lemma advanceDecision_None:
  "advanceDecision srt tk items = (None, n) \<Longrightarrow>
     n = length (filter (tk_IsPending tk) items) \<and>
     ((\<exists>q\<in>set items. pipelineRunIsProgressing tk q) \<or> (\<forall>q\<in>set items. \<not> tk_IsPending tk q))"
  by (auto simp: advanceDecision_def classify_items Let_def filter_empty_conv split: if_splits)

lemma advanceDecision_Some_iff:
  "(\<exists>pr n. advanceDecision srt tk items = (Some pr, n)) \<longleftrightarrow>
     (\<forall>q\<in>set items. \<not> pipelineRunIsProgressing tk q) \<and> (\<exists>q\<in>set items. tk_IsPending tk q)"
  by (auto simp: advanceDecision_def classify_items Let_def filter_empty_conv)

text \<open>\<open>advanceQueue\<close> always returns; its calls and its result follow from the decision.\<close>

lemma advanceQueue_list_fails:
  "sv_ListPipelineRuns sv (w_trace w) [(repositoryLabel, q)] = Inl e \<Longrightarrow>
     \<exists>w'. advanceQueue sv srt tk q w = (Ok (0, Some (''could not retrieve existing pipeline runs: '' @ e)), w')
        \<and> adds w [CListPipelineRuns [(repositoryLabel, q)]] w'"
  by (simp add: advanceQueue_def listPipelineRuns_def Let_def attempt_def perform_def adds_def
      bindP_def prog_simps)

lemma advanceQueue_result:
  assumes "sv_ListPipelineRuns sv (w_trace w) [(repositoryLabel, q)] = Inr items"
  shows "\<exists>err w'. advanceQueue sv srt tk q w = (Ok (snd (advanceDecision srt tk items), err), w') \<and>
     adds w (CListPipelineRuns [(repositoryLabel, q)] #
       (case fst (advanceDecision srt tk items) of
          None \<Rightarrow> [] | Some pr \<Rightarrow> [CUpdatePipelineRun (pr\<lparr>pr_SpecStatus := []\<rparr>)])) w' \<and>
     (fst (advanceDecision srt tk items) = None \<longrightarrow> err = None)"
proof (cases "items = []")
  case True
  with assms show ?thesis
    by (simp add: advanceQueue_def listPipelineRuns_def Let_def attempt_def perform_def adds_def
        bindP_def prog_simps advanceDecision_def)
next
  case False
  obtain d n where d: "advanceDecision srt tk items = (d, n)" by (cases "advanceDecision srt tk items")
  show ?thesis
  proof (cases d)
    case None
    with assms False d show ?thesis
      by (simp add: advanceQueue_def listPipelineRuns_def Let_def attempt_def perform_def adds_def
          bindP_def prog_simps)
  next
    case (Some pr)
    with assms False d show ?thesis
      by (simp add: advanceQueue_def listPipelineRuns_def Let_def attempt_def perform_def adds_def
          bindP_def prog_simps split: sum.split)
  qed
qed

lemma advanceQueue_returns: "\<exists>n err w'. advanceQueue sv srt tk q w = (Ok (n, err), w')"
proof (cases "sv_ListPipelineRuns sv (w_trace w) [(repositoryLabel, q)]")
  case (Inl e)
  from advanceQueue_list_fails [OF this, of srt tk] show ?thesis by blast
next
  case (Inr items)
  from advanceQueue_result [OF this, of srt tk] show ?thesis by blast
qed

section \<open>Facts about the loop\<close>

lemma advanceActive_returns:
  "\<exists>qs' w'. advanceActive sv srt tk qs q w = (Ok qs', w') \<and> (qs' = qs \<or> qs' = AList.update q False qs)"
proof -
  obtain n err w' where "advanceQueue sv srt tk q w = (Ok (n, err), w')"
    using advanceQueue_returns by blast
  then show ?thesis by (simp add: advanceActive_def prog_simps)
qed

lemma foldP_advance_returns:
  "\<exists>qs' w'. foldP (advanceActive sv srt tk) qs xs w = (Ok qs', w') \<and>
     (distinct (map fst qs) \<longrightarrow> distinct (map fst qs')) \<and>
     (\<forall>k. k \<notin> set xs \<longrightarrow> map_of qs' k = map_of qs k)"
proof (induction xs arbitrary: qs w)
  case Nil
  then show ?case by (simp add: prog_simps)
next
  case (Cons x xs)
  obtain qs1 w1 where 1: "advanceActive sv srt tk qs x w = (Ok qs1, w1)"
    "qs1 = qs \<or> qs1 = AList.update x False qs"
    using advanceActive_returns by blast
  obtain qs2 w2 where 2: "foldP (advanceActive sv srt tk) qs1 xs w1 = (Ok qs2, w2)"
    "distinct (map fst qs1) \<longrightarrow> distinct (map fst qs2)"
    "\<forall>k. k \<notin> set xs \<longrightarrow> map_of qs2 k = map_of qs1 k"
    using Cons.IH by blast
  from 1(2) have "distinct (map fst qs) \<longrightarrow> distinct (map fst qs1)" by (auto simp: distinct_update)
  with 1 2 show ?case by (auto simp: update_conv')
qed

lemma watchStep_returns: "\<exists>wt' w'. watchStep sv srt tk wt ev w = (Ok wt', w')"
proof (cases ev)
  case (PendingRun r)
  then show ?thesis by (simp add: watchStep_def prog_simps)
next
  case (TimerFired ord)
  from foldP_advance_returns [of sv srt tk "wt_Queues wt" "ord (activeQueues (wt_Queues wt))" w]
  obtain qs' w' where "foldP (advanceActive sv srt tk) (wt_Queues wt) (ord (activeQueues (wt_Queues wt))) w = (Ok qs', w')"
    by blast
  with TimerFired show ?thesis by (simp add: watchStep_def prog_simps)
qed

text \<open>
  The invariant of the loop: repositories are listed once, and the timer is armed whenever a
  queue is active, so an active queue is always looked at again.
\<close>

definition watchInv :: "watcher \<Rightarrow> bool" where
  "watchInv wt \<longleftrightarrow> distinct (map fst (wt_Queues wt)) \<and> (hasActiveQueue (wt_Queues wt) \<longrightarrow> wt_armed wt)"

lemma watchInv_start: "watchInv watcherStart"
  by (simp add: watchInv_def watcherStart_def hasActiveQueue_def)

lemma watchInv_step:
  assumes "watchInv wt" and "watchStep sv srt tk wt ev w = (Ok wt', w')"
  shows "watchInv wt'"
proof (cases ev)
  case (PendingRun r)
  with assms show ?thesis
    by (auto simp: watchStep_def prog_simps watchInv_def distinct_update)
next
  case (TimerFired ord)
  from foldP_advance_returns [of sv srt tk "wt_Queues wt" "ord (activeQueues (wt_Queues wt))" w]
  obtain qs' w1 where f: "foldP (advanceActive sv srt tk) (wt_Queues wt) (ord (activeQueues (wt_Queues wt))) w = (Ok qs', w1)"
    and d: "distinct (map fst (wt_Queues wt)) \<longrightarrow> distinct (map fst qs')"
    by blast
  with TimerFired assms show ?thesis
    by (auto simp: watchStep_def prog_simps watchInv_def)
qed

lemma Watcher_Run_inv:
  "watchInv wt \<Longrightarrow> \<exists>wt' w'. Watcher_Run sv srt tk wt evs w = (Ok wt', w') \<and> watchInv wt'"
proof (induction evs arbitrary: wt w)
  case Nil
  then show ?case by (simp add: prog_simps)
next
  case (Cons ev evs)
  obtain wt1 w1 where 1: "watchStep sv srt tk wt ev w = (Ok wt1, w1)"
    using watchStep_returns by blast
  from Cons.IH [OF watchInv_step [OF Cons.prems 1], of w1] 1 show ?case by simp
qed

text \<open>\<open>activeQueues\<close> lists each repository of an active queue once.\<close>

lemma activeQueues_iff:
  "distinct (map fst qs) \<Longrightarrow> q \<in> set (activeQueues qs) \<longleftrightarrow> map_of qs q = Some True"
  by (auto simp: activeQueues_def map_of_eq_Some_iff) force

section \<open>Properties\<close>

text \<open>
  C6: when the runs of a queue can be listed, \<open>advanceQueue\<close> starts a run exactly if none is in
  progress and one is pending; the run it starts is a pending one that no pending run precedes in
  time, it is started by clearing its spec status, and the number returned is that of the runs
  left pending.
\<close>

theorem advanceQueue_starts_oldest_pending:
  assumes "desc_sorter srt" and "sv_ListPipelineRuns sv (w_trace w) [(repositoryLabel, q)] = Inr items"
  shows "\<exists>n err w'. advanceQueue sv srt tk q w = (Ok (n, err), w') \<and>
     (if (\<exists>r\<in>set items. tk_IsPending tk r) \<and> (\<forall>r\<in>set items. \<not> pipelineRunIsProgressing tk r)
      then \<exists>pr\<in>set items. tk_IsPending tk pr \<and>
          (\<forall>r\<in>set items. tk_IsPending tk r \<longrightarrow> pr_CreationTimestamp pr \<le> pr_CreationTimestamp r) \<and>
          w_trace w' = w_trace w @ [CListPipelineRuns [(repositoryLabel, q)],
            CUpdatePipelineRun (pr\<lparr>pr_SpecStatus := []\<rparr>)] \<and>
          n = length (filter (tk_IsPending tk) items) - 1
      else w_trace w' = w_trace w @ [CListPipelineRuns [(repositoryLabel, q)]] \<and> err = None \<and>
          n = length (filter (tk_IsPending tk) items))"
proof -
  let ?d = "advanceDecision srt tk items"
  obtain err w' where r: "advanceQueue sv srt tk q w = (Ok (snd ?d, err), w')"
    "adds w (CListPipelineRuns [(repositoryLabel, q)] #
       (case fst ?d of None \<Rightarrow> [] | Some pr \<Rightarrow> [CUpdatePipelineRun (pr\<lparr>pr_SpecStatus := []\<rparr>)])) w'"
    "fst ?d = None \<longrightarrow> err = None"
    using advanceQueue_result [OF assms(2), of srt tk] by (elim exE conjE)
  show ?thesis
  proof (cases "fst ?d")
    case None
    then have d: "?d = (None, snd ?d)" by (metis prod.collapse)
    have "\<not> ((\<exists>r\<in>set items. tk_IsPending tk r) \<and> (\<forall>r\<in>set items. \<not> pipelineRunIsProgressing tk r))"
      using advanceDecision_None [OF d] by blast
    with r None advanceDecision_None [OF d] show ?thesis by (auto simp: adds_trace)
  next
    case (Some pr)
    then have d: "?d = (Some pr, snd ?d)" by (metis prod.collapse)
    note f = advanceDecision_Some [OF assms(1) d]
    have "(\<exists>r\<in>set items. tk_IsPending tk r) \<and> (\<forall>r\<in>set items. \<not> pipelineRunIsProgressing tk r)"
      using f by blast
    moreover have "snd ?d = length (filter (tk_IsPending tk) items) - 1" using f(5) by simp
    ultimately show ?thesis using r Some f(1-3)
      by (intro exI [of _ "snd ?d"] exI [of _ err] exI [of _ w']) (auto simp: adds_trace)
  qed
qed

lemma advanceQueue_witness:
  "\<exists>n err w'. advanceQueue (busyServices [examplePendingRun]) sortPipelineRunsDescending exampleMethods
       ''p-foo'' emptyWorld = (Ok (n, err), w') \<and> n = 0 \<and>
     w_trace w' = [CListPipelineRuns [(repositoryLabel, ''p-foo'')],
       CUpdatePipelineRun (examplePendingRun\<lparr>pr_SpecStatus := []\<rparr>)]"
proof -
  have l: "sv_ListPipelineRuns (busyServices [examplePendingRun]) (w_trace emptyWorld)
      [(repositoryLabel, ''p-foo'')] = Inr [examplePendingRun]"
    by (simp add: busyServices_def)
  have p: "tk_IsPending exampleMethods examplePendingRun" "\<not> pipelineRunIsProgressing exampleMethods examplePendingRun"
    by (simp_all add: exampleMethods_def examplePendingRun_def exampleRun_def pipelineRunIsProgressing_def)
  have "w_trace emptyWorld = []" by (simp add: emptyWorld_def)
  with advanceQueue_starts_oldest_pending [OF runSort.desc_sorter_axioms l, of exampleMethods] p
  show ?thesis by auto
qed


text \<open>
  A failing list request deactivates its queue: after a tick in which the runs of the only
  active queue could not be listed the watcher has no active queue and no timer, although
  nothing is known about the pending runs of the repository.
\<close>

theorem watch_list_error_deactivates:
  assumes "sv_ListPipelineRuns sv (w_trace w) [(repositoryLabel, q)] = Inl e"
  shows "\<exists>wt w'. watchStep sv srt tk \<lparr>wt_Queues = [(q, True)], wt_armed = True\<rparr> (TimerFired id) w = (Ok wt, w') \<and>
     activeQueues (wt_Queues wt) = [] \<and> \<not> wt_armed wt"
proof -
  obtain w1 where "advanceQueue sv srt tk q w =
      (Ok (0, Some (''could not retrieve existing pipeline runs: '' @ e)), w1)"
    using advanceQueue_list_fails [OF assms] by blast
  then show ?thesis
    by (simp add: watchStep_def activeQueues_def advanceActive_def prog_simps hasActiveQueue_def)
qed

lemma watch_list_error_witness:
  "\<exists>wt w'. watchStep noServices sortPipelineRunsDescending exampleMethods
       \<lparr>wt_Queues = [(''p-foo'', True)], wt_armed = True\<rparr> (TimerFired id) emptyWorld = (Ok wt, w') \<and>
     activeQueues (wt_Queues wt) = [] \<and> \<not> wt_armed wt"
  by (rule watch_list_error_deactivates [of _ _ _ "''unavailable''"]) (simp add: noServices_def)

end
