(* ===== verification/Prune.thy ===== *)
theory Prune
  imports Watch
begin

text \<open>
  \<open>internal/manager/prune.go\<close>: which runs and pipelines of a repository are deleted.  Runs are
  put into one bucket per stage; in a bucket a run is protected when it is newer than the
  cutoff or when fewer than \<open>MaxKeepRuns\<close> runs are protected already; an unprotected run is
  deleted by itself, or with its whole pipeline when no protected run of the bucket belongs
  to that pipeline.
\<close>

section \<open>Data\<close>

definition tektonPipelineLabel :: string where "tektonPipelineLabel = ''tekton.dev/pipeline''"

record prunableResources =
  px_pipelineRuns :: "string list"
  px_pipelines :: "string list"

text \<open>\<open>pu_upcomingPrune\<close> is the map of the struct; \<open>pu_timers\<close> the calls of \<open>time.AfterFunc\<close>.\<close>

record pruner =
  pu_MinKeepHours :: int
  pu_MaxKeepRuns :: int
  pu_upcomingPrune :: "(string \<times> int) list"
  pu_timers :: "(int \<times> string) list"

definition pruneDelay :: int where "pruneDelay = 60 * second"

section \<open>Finding prunable resources\<close>

fun uniqueLoop :: "string list \<Rightarrow> string list \<Rightarrow> string list" where
  "uniqueLoop [] acc = acc"
| "uniqueLoop (entry # es) acc =
     (if entry \<in> set acc then uniqueLoop es acc else uniqueLoop es (acc @ [entry]))"

definition unique :: "string list \<Rightarrow> string list" where
  "unique xs = uniqueLoop xs []"

definition pipelineIsProtected :: "string \<Rightarrow> pipelineRun list \<Rightarrow> bool" where
  "pipelineIsProtected pipelineName protected \<longleftrightarrow>
     list_ex (\<lambda>pr. lookupS (pr_Labels pr) tektonPipelineLabel = pipelineName) protected"

text \<open>Go's \<open>int\<close> and \<open>time.Duration\<close> are 64 bits wide: products wrap around.\<close>

definition wrap64 :: "int \<Rightarrow> int" where
  "wrap64 i = sint (word_of_int i :: 64 word)"

definition pruneCutoff :: "int \<Rightarrow> int \<Rightarrow> int" where
  "pruneCutoff now minKeepHours = now + wrap64 (wrap64 (minKeepHours * -1) * hour)"

fun splitProtected ::
  "int \<Rightarrow> int \<Rightarrow> pipelineRun list \<Rightarrow> pipelineRun list \<Rightarrow> pipelineRun list \<Rightarrow> pipelineRun list \<times> pipelineRun list" where
  "splitProtected cutoff maxKeep [] protectedRuns prunableRuns = (protectedRuns, prunableRuns)"
| "splitProtected cutoff maxKeep (p # ps) protectedRuns prunableRuns =
     (if cutoff < pr_CreationTimestamp p \<or> int (length protectedRuns) < maxKeep
      then splitProtected cutoff maxKeep ps (protectedRuns @ [p]) prunableRuns
      else splitProtected cutoff maxKeep ps protectedRuns (prunableRuns @ [p]))"

definition pipelineOf :: "pipelineRun \<Rightarrow> string" where
  "pipelineOf pr = lookupS (pr_Labels pr) tektonPipelineLabel"

definition findPrunableResources ::
  "(pipelineRun list \<Rightarrow> pipelineRun list) \<Rightarrow> int \<Rightarrow> int \<Rightarrow> int \<Rightarrow> pipelineRun list \<Rightarrow> prunableResources" where
  "findPrunableResources srt now minKeepHours maxKeepRuns pipelineRuns =
     (let cutoff = pruneCutoff now minKeepHours;
          (protectedRuns, prunableRuns) = splitProtected cutoff maxKeepRuns (srt pipelineRuns) [] [];
          runs = map pr_Name (filter (\<lambda>r. pipelineIsProtected (pipelineOf r) protectedRuns) prunableRuns);
          pipelines = map pipelineOf (filter (\<lambda>r. \<not> pipelineIsProtected (pipelineOf r) protectedRuns) prunableRuns)
      in \<lparr>px_pipelineRuns = unique runs, px_pipelines = unique pipelines\<rparr>)"

section \<open>Pruning a repository\<close>

type_synonym buckets = "(string \<times> pipelineRun list) list"

definition addToBucket :: "buckets \<Rightarrow> pipelineRun \<Rightarrow> buckets" where
  "addToBucket m pr =
     (let stage = lookupS (pr_Labels pr) stageLabel
      in AList.update stage ((case map_of m stage of None \<Rightarrow> [] | Some prs \<Rightarrow> prs) @ [pr]) m)"

definition categorizePipelineRunsByStage :: "pipelineRun list \<Rightarrow> buckets" where
  "categorizePipelineRunsByStage pipelineRuns =
     foldl addToBucket [(DevStage, []), (QAStage, []), (ProdStage, [])] pipelineRuns"

definition ignoreError :: "('w, 'a) prog \<Rightarrow> ('w, unit) prog" where
  "ignoreError m = bindP (attempt m) (\<lambda>_. ret ())"

definition prunePipeline :: "services \<Rightarrow> string \<Rightarrow> unit prog_w" where
  "prunePipeline sv name = perform (CDeletePipeline name) (\<lambda>h. sv_DeletePipeline sv h name)"

definition pruneRun :: "services \<Rightarrow> string \<Rightarrow> unit prog_w" where
  "pruneRun sv name = perform (CDeletePipelineRun name) (\<lambda>h. sv_DeletePipelineRun sv h name)"

definition pruneBucket ::
  "services \<Rightarrow> (pipelineRun list \<Rightarrow> pipelineRun list) \<Rightarrow> pruner \<Rightarrow> string \<times> pipelineRun list \<Rightarrow> unit prog_w" where
  "pruneBucket sv srt p = (\<lambda>(stage, prs).
     bindP (gets w_now) (\<lambda>now.
     let prunable = findPrunableResources srt now (pu_MinKeepHours p) (pu_MaxKeepRuns p) prs
     in bindP (forEach (px_pipelines prunable) (\<lambda>name. ignoreError (prunePipeline sv name))) (\<lambda>_.
        forEach (px_pipelineRuns prunable) (\<lambda>name. ignoreError (pruneRun sv name)))))"

definition prune ::
  "services \<Rightarrow> (pipelineRun list \<Rightarrow> pipelineRun list) \<Rightarrow> pruner \<Rightarrow> string \<Rightarrow> unit prog_w" where
  "prune sv srt p repository =
     bindP (listPipelineRuns sv repository) (\<lambda>pipelineRuns.
     forEach (categorizePipelineRunsByStage pipelineRuns) (pruneBucket sv srt p))"

text \<open>One receive of the loop in \<open>run\<close>: plan a prune unless one is planned in the future.\<close>

definition pruneTrigger :: "int \<Rightarrow> int \<Rightarrow> pruner \<Rightarrow> string \<Rightarrow> pruner" where
  "pruneTrigger delay now p repo =
     (if (case map_of (pu_upcomingPrune p) repo of None \<Rightarrow> False | Some t \<Rightarrow> now < t) then p
      else p\<lparr>pu_upcomingPrune := AList.update repo (now + delay) (pu_upcomingPrune p),
             pu_timers := pu_timers p @ [(now + delay, repo)]\<rparr>)"

primrec pruner_run :: "int \<Rightarrow> pruner \<Rightarrow> (int \<times> string) list \<Rightarrow> pruner" where
  "pruner_run delay p [] = p"
| "pruner_run delay p (ev # evs) = pruner_run delay (pruneTrigger delay (fst ev) p (snd ev)) evs"

section \<open>Facts: helpers\<close>

lemma uniqueLoop_props:
  "distinct acc \<Longrightarrow> distinct (uniqueLoop xs acc) \<and> set (uniqueLoop xs acc) = set acc \<union> set xs"
  by (induction xs acc rule: uniqueLoop.induct) auto

lemma unique_distinct: "distinct (unique xs)"
  and set_unique [simp]: "set (unique xs) = set xs"
  using uniqueLoop_props [of "[]" xs] by (auto simp: unique_def)

lemma pipelineIsProtected_iff:
  "pipelineIsProtected n prs \<longleftrightarrow> (\<exists>pr\<in>set prs. pipelineOf pr = n)"
  by (simp add: pipelineIsProtected_def list_ex_iff pipelineOf_def)

lemma wrap64_id: "- (2 ^ 63) \<le> i \<Longrightarrow> i < 2 ^ 63 \<Longrightarrow> wrap64 i = i"
  unfolding wrap64_def by (simp add: int_word_sint)

text \<open>The cutoff is the requested number of hours ago as long as the product fits 64 bits.\<close>

lemma pruneCutoff_exact: "0 \<le> h \<Longrightarrow> h \<le> 2562047 \<Longrightarrow> pruneCutoff now h = now - h * hour"
  by (simp add: pruneCutoff_def hour_def second_def wrap64_id)

section \<open>Facts: protected and prunable\<close>

lemma splitProtected_mono:
  "splitProtected c m ps prot prun = (prot', prun') \<Longrightarrow>
     (\<exists>a. prot' = prot @ a) \<and> (\<exists>b. prun' = prun @ b) \<and>
     mset prot' + mset prun' = mset prot + mset prun + mset ps"
proof (induction c m ps prot prun arbitrary: prot' prun' rule: splitProtected.induct)
  case (1 c m prot prun)
  then show ?case by simp
next
  case (2 c m p ps prot prun)
  show ?case
  proof (cases "c < pr_CreationTimestamp p \<or> int (length prot) < m")
    case True
    with 2 have "(\<exists>a. prot' = (prot @ [p]) @ a) \<and> (\<exists>b. prun' = prun @ b) \<and>
      mset prot' + mset prun' = mset (prot @ [p]) + mset prun + mset ps" by simp
    then show ?thesis by auto
  next
    case False
    with 2 have "(\<exists>a. prot' = prot @ a) \<and> (\<exists>b. prun' = (prun @ [p]) @ b) \<and>
      mset prot' + mset prun' = mset prot + mset (prun @ [p]) + mset ps" by simp
    then show ?thesis by auto
  qed
qed

text \<open>Once a run is not protected in a list sorted newest first, no later one is.\<close>

lemma splitProtected_all_old:
  "\<forall>p\<in>set ps. pr_CreationTimestamp p \<le> c \<Longrightarrow> m \<le> int (length prot) \<Longrightarrow>
     splitProtected c m ps prot prun = (prot, prun @ ps)"
  by (induction ps arbitrary: prun) auto

lemma splitProtected_cut:
  assumes "sorted_wrt notOlder ps"
  shows "\<exists>k. splitProtected c m ps prot prun = (prot @ take k ps, prun @ drop k ps) \<and>
     (\<forall>p\<in>set (drop k ps). pr_CreationTimestamp p \<le> c) \<and>
     (drop k ps \<noteq> [] \<longrightarrow> m \<le> int (length prot + k) \<and> k \<le> length ps) \<and>
     (\<forall>i<k. i < length ps \<longrightarrow> c < pr_CreationTimestamp (ps ! i) \<or> int (length prot + i) < m)"
  using assms
proof (induction ps arbitrary: prot)
  case Nil
  then show ?case by simp
next
  case (Cons p ps)
  show ?case
  proof (cases "c < pr_CreationTimestamp p \<or> int (length prot) < m")
    case True
    from Cons.IH [of "prot @ [p]"] Cons.prems obtain k where
      k: "splitProtected c m ps (prot @ [p]) prun = ((prot @ [p]) @ take k ps, prun @ drop k ps)"
         "\<forall>p\<in>set (drop k ps). pr_CreationTimestamp p \<le> c"
         "drop k ps \<noteq> [] \<longrightarrow> m \<le> int (length (prot @ [p]) + k) \<and> k \<le> length ps"
         "\<forall>i<k. i < length ps \<longrightarrow> c < pr_CreationTimestamp (ps ! i) \<or> int (length (prot @ [p]) + i) < m"
      by auto
    have "\<forall>i<Suc k. i < length (p # ps) \<longrightarrow> c < pr_CreationTimestamp ((p # ps) ! i) \<or> int (length prot + i) < m"
    proof (intro allI impI)
      fix i assume "i < Suc k" "i < length (p # ps)"
      with k(4) True show "c < pr_CreationTimestamp ((p # ps) ! i) \<or> int (length prot + i) < m"
        by (cases i) auto
    qed
    with True k(1-3) show ?thesis by (intro exI [of _ "Suc k"]) auto
  next
    case False
    with Cons.prems have old: "\<forall>q\<in>set (p # ps). pr_CreationTimestamp q \<le> c" by auto
    with False splitProtected_all_old [of "p # ps" c m prot prun]
    have "splitProtected c m (p # ps) prot prun = (prot, prun @ p # ps)" by simp
    with old False show ?thesis by (intro exI [of _ 0]) auto
  qed
qed

text \<open>
  The two sets a bucket is divided into.  The protected runs are the \<open>k\<close> newest; every run
  newer than the cutoff is one of them; if something is prunable, at least \<open>maxKeep\<close> are.
\<close>

definition protectedOf :: "(pipelineRun list \<Rightarrow> pipelineRun list) \<Rightarrow> int \<Rightarrow> int \<Rightarrow> int \<Rightarrow> pipelineRun list \<Rightarrow> pipelineRun list" where
  "protectedOf srt now h m runs = fst (splitProtected (pruneCutoff now h) m (srt runs) [] [])"

definition prunableOf :: "(pipelineRun list \<Rightarrow> pipelineRun list) \<Rightarrow> int \<Rightarrow> int \<Rightarrow> int \<Rightarrow> pipelineRun list \<Rightarrow> pipelineRun list" where
  "prunableOf srt now h m runs = snd (splitProtected (pruneCutoff now h) m (srt runs) [] [])"

lemma bucket_split:
  assumes "desc_sorter srt"
  obtains k where "protectedOf srt now h m runs = take k (srt runs)"
    "prunableOf srt now h m runs = drop k (srt runs)"
    "\<forall>p\<in>set (drop k (srt runs)). pr_CreationTimestamp p \<le> pruneCutoff now h"
    "drop k (srt runs) \<noteq> [] \<longrightarrow> m \<le> int k \<and> k \<le> length runs"
    "\<forall>i<k. i < length runs \<longrightarrow> pruneCutoff now h < pr_CreationTimestamp (srt runs ! i) \<or> int i < m"
proof -
  from splitProtected_cut [OF desc_sorter.desc [OF assms], of "pruneCutoff now h" m runs "[]" "[]"]
  obtain k where "splitProtected (pruneCutoff now h) m (srt runs) [] [] = ([] @ take k (srt runs), [] @ drop k (srt runs))"
    "\<forall>p\<in>set (drop k (srt runs)). pr_CreationTimestamp p \<le> pruneCutoff now h"
    "drop k (srt runs) \<noteq> [] \<longrightarrow> m \<le> int (length ([]::pipelineRun list) + k) \<and> k \<le> length (srt runs)"
    "\<forall>i<k. i < length (srt runs) \<longrightarrow> pruneCutoff now h < pr_CreationTimestamp (srt runs ! i) \<or>
       int (length ([]::pipelineRun list) + i) < m"
    by blast
  with that [of k] show thesis
    using desc_sorter.length_srt [OF assms, of runs] by (simp add: protectedOf_def prunableOf_def)
qed

lemma protected_or_prunable:
  "desc_sorter srt \<Longrightarrow> set (protectedOf srt now h m runs) \<union> set (prunableOf srt now h m runs) = set runs"
  by (rule bucket_split [of srt now h m runs])
    (simp_all add: desc_sorter.set_srt flip: set_append)

lemma newer_is_protected:
  assumes "desc_sorter srt" "r \<in> set runs" "pruneCutoff now h < pr_CreationTimestamp r"
  shows "r \<in> set (protectedOf srt now h m runs) \<and> r \<notin> set (prunableOf srt now h m runs)"
proof -
  have "\<forall>p\<in>set (prunableOf srt now h m runs). pr_CreationTimestamp p \<le> pruneCutoff now h"
    using bucket_split [OF assms(1)] by metis
  with assms(3) have "r \<notin> set (prunableOf srt now h m runs)" by auto
  with protected_or_prunable [OF assms(1), of now h m runs] assms(2) show ?thesis by auto
qed

lemma protected_count:
  assumes "desc_sorter srt"
  shows "int (length (protectedOf srt now h m runs)) \<ge> min m (int (length runs))"
proof -
  obtain k where "protectedOf srt now h m runs = take k (srt runs)"
    "drop k (srt runs) \<noteq> [] \<longrightarrow> m \<le> int k \<and> k \<le> length runs"
    using bucket_split [OF assms] by metis
  then show ?thesis
    using desc_sorter.length_srt [OF assms, of runs] by (cases "drop k (srt runs) = []") auto
qed

lemma protected_newer_than_prunable:
  assumes "desc_sorter srt" "r \<in> set (protectedOf srt now h m runs)" "q \<in> set (prunableOf srt now h m runs)"
  shows "pr_CreationTimestamp q \<le> pr_CreationTimestamp r"
proof -
  obtain k where "protectedOf srt now h m runs = take k (srt runs)"
    "prunableOf srt now h m runs = drop k (srt runs)"
    using bucket_split [OF assms(1)] by metis
  moreover have "sorted_wrt notOlder (take k (srt runs) @ drop k (srt runs))"
    using desc_sorter.desc [OF assms(1), of runs] by simp
  ultimately show ?thesis using assms(2,3) unfolding sorted_wrt_append by simp
qed

lemma findPrunable_eq:
  "findPrunableResources srt now h m runs =
     \<lparr>px_pipelineRuns = unique (map pr_Name (filter (\<lambda>r. pipelineIsProtected (pipelineOf r) (protectedOf srt now h m runs))
        (prunableOf srt now h m runs))),
      px_pipelines = unique (map pipelineOf (filter (\<lambda>r. \<not> pipelineIsProtected (pipelineOf r) (protectedOf srt now h m runs))
        (prunableOf srt now h m runs)))\<rparr>"
  by (simp add: findPrunableResources_def protectedOf_def prunableOf_def split: prod.split)

lemma prunable_runs_iff:
  "n \<in> set (px_pipelineRuns (findPrunableResources srt now h m runs)) \<longleftrightarrow>
     (\<exists>r\<in>set (prunableOf srt now h m runs). pr_Name r = n \<and>
        (\<exists>q\<in>set (protectedOf srt now h m runs). pipelineOf q = pipelineOf r))"
  by (auto simp: findPrunable_eq pipelineIsProtected_iff)

lemma prunable_pipelines_iff:
  "n \<in> set (px_pipelines (findPrunableResources srt now h m runs)) \<longleftrightarrow>
     (\<exists>r\<in>set (prunableOf srt now h m runs). pipelineOf r = n) \<and>
     (\<forall>q\<in>set (protectedOf srt now h m runs). pipelineOf q \<noteq> n)"
  by (auto simp: findPrunable_eq pipelineIsProtected_iff)

text \<open>
  The reference the pruner is compared with: it classifies each run of the list, newest first, by
  its position and its age alone, and a pipeline by whether a run of it is kept.
\<close>

definition firstOccurrences :: "'a list \<Rightarrow> 'a list" where
  "firstOccurrences xs = rev (remdups (rev xs))"

definition surplusAt :: "int \<Rightarrow> int \<Rightarrow> nat \<times> pipelineRun \<Rightarrow> bool" where
  "surplusAt cutoff maxKeep = (\<lambda>(i, r). pr_CreationTimestamp r \<le> cutoff \<and> maxKeep \<le> int i)"

definition prunableReference :: "int \<Rightarrow> int \<Rightarrow> pipelineRun list \<Rightarrow> prunableResources" where
  "prunableReference cutoff maxKeep newestFirst =
     (let indexed = enumerate 0 newestFirst;
          kept = pipelineOf ` snd ` set (filter (\<lambda>x. \<not> surplusAt cutoff maxKeep x) indexed);
          surplus = map snd (filter (surplusAt cutoff maxKeep) indexed)
      in \<lparr>px_pipelineRuns = firstOccurrences (map pr_Name (filter (\<lambda>r. pipelineOf r \<in> kept) surplus)),
          px_pipelines = firstOccurrences (filter (\<lambda>n. n \<notin> kept) (map pipelineOf surplus))\<rparr>)"

lemma uniqueLoop_remdups:
  "distinct acc \<Longrightarrow> uniqueLoop xs acc = rev (remdups (rev xs @ rev acc))"
proof (induction xs acc rule: uniqueLoop.induct)
  case (1 acc)
  then show ?case by (simp add: distinct_remdups_id)
next
  case (2 e es acc)
  have "remdups (rev es @ rev acc) = remdups (rev es @ e # rev acc)" if "e \<in> set acc"
    using remdups_append2 [of "rev es" "e # rev acc"] remdups_append2 [of "rev es" "rev acc"] that by simp
  with 2 show ?case by auto
qed

lemma unique_firstOccurrences: "unique xs = firstOccurrences xs"
  by (simp add: unique_def firstOccurrences_def uniqueLoop_remdups)

lemma split_by_position:
  assumes "desc_sorter srt"
  shows "protectedOf srt now h m runs = map snd (filter (\<lambda>x. \<not> surplusAt (pruneCutoff now h) m x) (enumerate 0 (srt runs)))"
    and "prunableOf srt now h m runs = map snd (filter (surplusAt (pruneCutoff now h) m) (enumerate 0 (srt runs)))"
proof -
  let ?S = "surplusAt (pruneCutoff now h) m" and ?xs = "srt runs"
  obtain k where k: "protectedOf srt now h m runs = take k ?xs" "prunableOf srt now h m runs = drop k ?xs"
    "\<forall>p\<in>set (drop k ?xs). pr_CreationTimestamp p \<le> pruneCutoff now h"
    "drop k ?xs \<noteq> [] \<longrightarrow> m \<le> int k \<and> k \<le> length runs"
    "\<forall>i<k. i < length runs \<longrightarrow> pruneCutoff now h < pr_CreationTimestamp (?xs ! i) \<or> int i < m"
    using bucket_split [OF assms] by metis
  have len: "length ?xs = length runs" by (rule desc_sorter.length_srt [OF assms])
  have front: "\<not> ?S x" if "x \<in> set (enumerate 0 (take k ?xs))" for x
    using that k(5) len by (auto simp: in_set_enumerate_eq surplusAt_def)
  have rear: "?S x" if "x \<in> set (enumerate (length (take k ?xs)) (drop k ?xs))" for x
  proof -
    from that obtain i where i: "i < length (drop k ?xs)" "x = (length (take k ?xs) + i, drop k ?xs ! i)"
      by (auto simp: in_set_enumerate_eq enumerate_eq_zip set_zip)
    then have "drop k ?xs \<noteq> []" by auto
    with k(4) len have "length (take k ?xs) = k" "m \<le> int k" by auto
    moreover have "drop k ?xs ! i \<in> set (drop k ?xs)" using i(1) by (rule nth_mem)
    ultimately show ?thesis using i(2) k(3) by (simp add: surplusAt_def)
  qed
  have "enumerate 0 ?xs = enumerate 0 (take k ?xs) @ enumerate (length (take k ?xs)) (drop k ?xs)"
    using enumerate_append_eq [of 0 "take k ?xs" "drop k ?xs"] by simp
  then have "filter (\<lambda>x. \<not> ?S x) (enumerate 0 ?xs) = enumerate 0 (take k ?xs)"
    and "filter ?S (enumerate 0 ?xs) = enumerate (length (take k ?xs)) (drop k ?xs)"
    using front rear by (simp_all add: filter_empty_conv)
  with k(1,2) show "protectedOf srt now h m runs = map snd (filter (\<lambda>x. \<not> ?S x) (enumerate 0 ?xs))"
    and "prunableOf srt now h m runs = map snd (filter ?S (enumerate 0 ?xs))" by simp_all
qed

section \<open>Facts: buckets and deletions\<close>

definition bucket :: "buckets \<Rightarrow> string \<Rightarrow> pipelineRun list" where
  "bucket m stage = (case map_of m stage of None \<Rightarrow> [] | Some prs \<Rightarrow> prs)"

lemma bucket_add:
  "bucket (addToBucket m pr) stage =
     (if lookupS (pr_Labels pr) stageLabel = stage then bucket m stage @ [pr] else bucket m stage)"
  by (simp add: bucket_def addToBucket_def Let_def update_conv')

lemma bucket_foldl:
  "bucket (foldl addToBucket m runs) stage =
     bucket m stage @ filter (\<lambda>pr. lookupS (pr_Labels pr) stageLabel = stage) runs"
  by (induction runs arbitrary: m) (auto simp: bucket_add)

lemma distinct_foldl_bucket:
  "distinct (map fst m) \<Longrightarrow> distinct (map fst (foldl addToBucket m runs))"
  by (induction runs arbitrary: m) (auto simp: addToBucket_def Let_def distinct_update)

lemma categorize_distinct: "distinct (map fst (categorizePipelineRunsByStage runs))"
  unfolding categorizePipelineRunsByStage_def
  by (rule distinct_foldl_bucket) (simp add: DevStage_def QAStage_def ProdStage_def)

text \<open>Each bucket holds the runs labelled with its stage, in the order listed.\<close>

lemma categorize_bucket:
  "bucket (categorizePipelineRunsByStage runs) stage =
     filter (\<lambda>pr. lookupS (pr_Labels pr) stageLabel = stage) runs"
  unfolding categorizePipelineRunsByStage_def
  by (simp add: bucket_foldl) (simp add: bucket_def)

lemma categorize_mem:
  "(stage, prs) \<in> set (categorizePipelineRunsByStage runs) \<Longrightarrow>
     prs = filter (\<lambda>pr. lookupS (pr_Labels pr) stageLabel = stage) runs"
  using categorize_bucket [of runs stage] categorize_distinct [of runs]
  by (simp add: bucket_def)

lemma categorize_complete:
  assumes "r \<in> set runs"
  shows "(lookupS (pr_Labels r) stageLabel,
     filter (\<lambda>pr. lookupS (pr_Labels pr) stageLabel = lookupS (pr_Labels r) stageLabel) runs)
       \<in> set (categorizePipelineRunsByStage runs)"
proof -
  let ?s = "lookupS (pr_Labels r) stageLabel"
  have "r \<in> set (bucket (categorizePipelineRunsByStage runs) ?s)"
    using assms by (simp add: categorize_bucket)
  then have "map_of (categorizePipelineRunsByStage runs) ?s =
      Some (bucket (categorizePipelineRunsByStage runs) ?s)"
    by (cases "map_of (categorizePipelineRunsByStage runs) ?s") (simp_all add: bucket_def)
  then show ?thesis by (metis categorize_bucket map_of_SomeD)
qed

lemma ignoreError_perform:
  "ignoreError (perform c f) w = (Ok (), w\<lparr>w_trace := w_trace w @ [c]\<rparr>)"
  by (simp add: ignoreError_def bindP_def attempt_def perform_def prog_simps split: sum.split)

lemma forEach_deletions:
  "(\<And>x. \<exists>f :: call list \<Rightarrow> string + unit. del x = ignoreError (perform (c x) f)) \<Longrightarrow>
     forEach xs del w = (Ok (), w\<lparr>w_trace := w_trace w @ map c xs\<rparr>)"
proof (induction xs arbitrary: w)
  case Nil
  then show ?case by (simp add: prog_simps)
next
  case (Cons x xs)
  obtain f :: "call list \<Rightarrow> string + unit" where "del x = ignoreError (perform (c x) f)"
    using Cons.prems [of x] ..
  then have "del x w = (Ok (), w\<lparr>w_trace := w_trace w @ [c x]\<rparr>)" by (simp add: ignoreError_perform)
  with Cons show ?case by simp
qed

text \<open>The deletions of one bucket, whatever the cluster answers.\<close>

definition bucketDeletions ::
  "(pipelineRun list \<Rightarrow> pipelineRun list) \<Rightarrow> pruner \<Rightarrow> int \<Rightarrow> pipelineRun list \<Rightarrow> call list" where
  "bucketDeletions srt p now prs =
     (let x = findPrunableResources srt now (pu_MinKeepHours p) (pu_MaxKeepRuns p) prs
      in map CDeletePipeline (px_pipelines x) @ map CDeletePipelineRun (px_pipelineRuns x))"

lemma pruneBucket_calls:
  "pruneBucket sv srt p (stage, prs) w =
     (Ok (), w\<lparr>w_trace := w_trace w @ bucketDeletions srt p (w_now w) prs\<rparr>)"
proof -
  let ?x = "findPrunableResources srt (w_now w) (pu_MinKeepHours p) (pu_MaxKeepRuns p) prs"
  have a: "forEach (px_pipelines ?x) (\<lambda>name. ignoreError (prunePipeline sv name)) w' =
      (Ok (), w'\<lparr>w_trace := w_trace w' @ map CDeletePipeline (px_pipelines ?x)\<rparr>)" for w'
    by (rule forEach_deletions) (auto simp: prunePipeline_def)
  have b: "forEach (px_pipelineRuns ?x) (\<lambda>name. ignoreError (pruneRun sv name)) w' =
      (Ok (), w'\<lparr>w_trace := w_trace w' @ map CDeletePipelineRun (px_pipelineRuns ?x)\<rparr>)" for w'
    by (rule forEach_deletions) (auto simp: pruneRun_def)
  show ?thesis
    by (simp add: pruneBucket_def prog_simps bindP_def [of "\<lambda>w. (Ok (w_now w), w)"] a b
        bucketDeletions_def Let_def)
qed

lemma forEach_buckets:
  "forEach bs (pruneBucket sv srt p) w =
     (Ok (), w\<lparr>w_trace := w_trace w @ concat (map (\<lambda>b. bucketDeletions srt p (w_now w) (snd b)) bs)\<rparr>)"
proof (induction bs arbitrary: w)
  case Nil
  then show ?case by (simp add: prog_simps)
next
  case (Cons b bs)
  obtain s prs where "b = (s, prs)" by (cases b)
  with Cons show ?case by (simp add: bindP_Ok [OF pruneBucket_calls])
qed

definition pruneDeletions ::
  "(pipelineRun list \<Rightarrow> pipelineRun list) \<Rightarrow> pruner \<Rightarrow> int \<Rightarrow> pipelineRun list \<Rightarrow> call list" where
  "pruneDeletions srt p now runs =
     concat (map (\<lambda>b. bucketDeletions srt p now (snd b)) (categorizePipelineRunsByStage runs))"

lemma prune_calls:
  assumes "sv_ListPipelineRuns sv (w_trace w) [(repositoryLabel, repo)] = Inr runs"
  shows "prune sv srt p repo w = (Ok (), w\<lparr>w_trace := w_trace w @
      CListPipelineRuns [(repositoryLabel, repo)] # pruneDeletions srt p (w_now w) runs\<rparr>)"
proof -
  have "listPipelineRuns sv repo w =
      (Ok runs, w\<lparr>w_trace := w_trace w @ [CListPipelineRuns [(repositoryLabel, repo)]]\<rparr>)"
    using assms by (simp add: listPipelineRuns_def Let_def perform_def)
  then show ?thesis by (simp add: prune_def forEach_buckets pruneDeletions_def)
qed

text \<open>What is deleted, stage by stage.\<close>

definition stageOf :: "pipelineRun \<Rightarrow> string" where
  "stageOf r = lookupS (pr_Labels r) stageLabel"

definition stageRuns :: "string \<Rightarrow> pipelineRun list \<Rightarrow> pipelineRun list" where
  "stageRuns s runs = filter (\<lambda>r. stageOf r = s) runs"

lemma protectedOf_subset: "desc_sorter srt \<Longrightarrow> set (protectedOf srt now h m runs) \<subseteq> set runs"
  using protected_or_prunable [of srt now h m runs] by auto

lemma prunableOf_subset: "desc_sorter srt \<Longrightarrow> set (prunableOf srt now h m runs) \<subseteq> set runs"
  using protected_or_prunable [of srt now h m runs] by auto

lemma pruneDeletions_iff:
  assumes "desc_sorter srt"
  shows "c \<in> set (pruneDeletions srt p now runs) \<longleftrightarrow> (\<exists>s. c \<in> set (bucketDeletions srt p now (stageRuns s runs)))"
proof
  assume "c \<in> set (pruneDeletions srt p now runs)"
  then obtain s prs where "(s, prs) \<in> set (categorizePipelineRunsByStage runs)"
    "c \<in> set (bucketDeletions srt p now prs)" by (auto simp: pruneDeletions_def)
  then show "\<exists>s. c \<in> set (bucketDeletions srt p now (stageRuns s runs))"
    using categorize_mem unfolding stageRuns_def stageOf_def by blast
next
  assume "\<exists>s. c \<in> set (bucketDeletions srt p now (stageRuns s runs))"
  then obtain s where c: "c \<in> set (bucketDeletions srt p now (stageRuns s runs))" ..
  have "stageRuns s runs \<noteq> []"
  proof
    assume "stageRuns s runs = []"
    then have "prunableOf srt now (pu_MinKeepHours p) (pu_MaxKeepRuns p) (stageRuns s runs) = []"
      using prunableOf_subset [OF assms, of now _ _ "stageRuns s runs"] by simp
    with c show False by (simp add: bucketDeletions_def Let_def findPrunable_eq unique_def)
  qed
  then obtain r where "r \<in> set runs" "stageOf r = s" by (auto simp: stageRuns_def filter_empty_conv)
  then have "(s, stageRuns s runs) \<in> set (categorizePipelineRunsByStage runs)"
    using categorize_complete [of r runs] by (simp add: stageRuns_def stageOf_def)
  with c show "c \<in> set (pruneDeletions srt p now runs)" by (force simp: pruneDeletions_def)
qed

lemma deletions_run_iff:
  assumes "desc_sorter srt"
  shows "CDeletePipelineRun n \<in> set (pruneDeletions srt p now runs) \<longleftrightarrow>
     (\<exists>s. n \<in> set (px_pipelineRuns (findPrunableResources srt now (pu_MinKeepHours p) (pu_MaxKeepRuns p) (stageRuns s runs))))"
  unfolding pruneDeletions_iff [OF assms] by (auto simp: bucketDeletions_def Let_def)

lemma deletions_pipeline_iff:
  assumes "desc_sorter srt"
  shows "CDeletePipeline n \<in> set (pruneDeletions srt p now runs) \<longleftrightarrow>
     (\<exists>s. n \<in> set (px_pipelines (findPrunableResources srt now (pu_MinKeepHours p) (pu_MaxKeepRuns p) (stageRuns s runs))))"
  unfolding pruneDeletions_iff [OF assms] by (auto simp: bucketDeletions_def Let_def)

text \<open>A run survives when neither it nor its pipeline is deleted.\<close>

definition survives :: "call list \<Rightarrow> pipelineRun \<Rightarrow> bool" where
  "survives cs r \<longleftrightarrow> CDeletePipelineRun (pr_Name r) \<notin> set cs \<and> CDeletePipeline (pipelineOf r) \<notin> set cs"

lemma survives_list [simp]: "survives (CListPipelineRuns l # cs) = survives cs"
  by (rule ext) (simp add: survives_def)

text \<open>Names are unique, and the runs of one pipeline belong to one stage.\<close>

definition consistentRuns :: "pipelineRun list \<Rightarrow> bool" where
  "consistentRuns runs \<longleftrightarrow> distinct (map pr_Name runs) \<and>
     (\<forall>r\<in>set runs. \<forall>q\<in>set runs. pipelineOf r = pipelineOf q \<longrightarrow> stageOf r = stageOf q)"

lemma consistent_nameD:
  "consistentRuns runs \<Longrightarrow> r \<in> set runs \<Longrightarrow> q \<in> set runs \<Longrightarrow> pr_Name r = pr_Name q \<Longrightarrow> r = q"
  unfolding consistentRuns_def distinct_map by (blast dest: inj_onD)

lemma consistent_stageD:
  "consistentRuns runs \<Longrightarrow> r \<in> set runs \<Longrightarrow> q \<in> set runs \<Longrightarrow> pipelineOf r = pipelineOf q \<Longrightarrow> stageOf r = stageOf q"
  unfolding consistentRuns_def by blast

lemma stageRuns_iff [simp]: "r \<in> set (stageRuns s runs) \<longleftrightarrow> r \<in> set runs \<and> stageOf r = s"
  by (auto simp: stageRuns_def)

lemma protected_disjoint:
  assumes "desc_sorter srt" "distinct (map pr_Name runs)"
    "r \<in> set (protectedOf srt now h m runs)"
  shows "r \<notin> set (prunableOf srt now h m runs)"
proof -
  obtain k where k: "protectedOf srt now h m runs = take k (srt runs)" "prunableOf srt now h m runs = drop k (srt runs)"
    using bucket_split [OF assms(1)] by metis
  have "distinct (take k (srt runs) @ drop k (srt runs))"
    using desc_sorter.distinct_srt [OF assms(1), of pr_Name runs] assms(2) by (simp add: distinct_map)
  then have "set (take k (srt runs)) \<inter> set (drop k (srt runs)) = {}" by (simp only: distinct_append)
  with k assms(3) show ?thesis by auto
qed

text \<open>The protected runs of a stage survive.\<close>

lemma protected_survives:
  assumes ds: "desc_sorter srt" and ok: "consistentRuns runs"
    and r: "r \<in> set (protectedOf srt now (pu_MinKeepHours p) (pu_MaxKeepRuns p) (stageRuns s runs))"
  shows "survives (pruneDeletions srt p now runs) r"
proof -
  let ?h = "pu_MinKeepHours p" and ?m = "pu_MaxKeepRuns p"
  have mem: "r \<in> set runs" "stageOf r = s"
    using subsetD [OF protectedOf_subset [OF ds] r] by simp_all
  have prunD: "q \<in> set runs \<and> stageOf q = t" if "q \<in> set (prunableOf srt now ?h ?m (stageRuns t runs))" for q t
    using subsetD [OF prunableOf_subset [OF ds] that] by simp
  have "distinct (map pr_Name runs)" using ok unfolding consistentRuns_def by (rule conjunct1)
  then have "distinct (map pr_Name (stageRuns s runs))"
    by (simp add: stageRuns_def distinct_map_filter)
  from protected_disjoint [OF ds this r] have nr: "r \<notin> set (prunableOf srt now ?h ?m (stageRuns s runs))" .
  have "CDeletePipelineRun (pr_Name r) \<notin> set (pruneDeletions srt p now runs)"
  proof
    assume "CDeletePipelineRun (pr_Name r) \<in> set (pruneDeletions srt p now runs)"
    then obtain t q where q: "q \<in> set (prunableOf srt now ?h ?m (stageRuns t runs))" "pr_Name q = pr_Name r"
      unfolding deletions_run_iff [OF ds] prunable_runs_iff by blast
    from consistent_nameD [OF ok _ mem(1) q(2)] prunD [OF q(1)] have "q = r" by simp
    with q(1) prunD [OF q(1)] mem nr show False by simp
  qed
  moreover have "CDeletePipeline (pipelineOf r) \<notin> set (pruneDeletions srt p now runs)"
  proof
    assume "CDeletePipeline (pipelineOf r) \<in> set (pruneDeletions srt p now runs)"
    then obtain t q where q: "q \<in> set (prunableOf srt now ?h ?m (stageRuns t runs))" "pipelineOf q = pipelineOf r"
      and noprot: "\<forall>q\<in>set (protectedOf srt now ?h ?m (stageRuns t runs)). pipelineOf q \<noteq> pipelineOf r"
      unfolding deletions_pipeline_iff [OF ds] prunable_pipelines_iff by blast
    have "t = s" using consistent_stageD [OF ok _ mem(1) q(2)] prunD [OF q(1)] mem(2) by simp
    with noprot r show False by blast
  qed
  ultimately show ?thesis by (simp add: survives_def)
qed

text \<open>A run is not protected when it is old and enough runs of its stage are newer.\<close>

lemma old_surplus_prunable:
  assumes ds: "desc_sorter srt" and r: "r \<in> set runs" "pr_CreationTimestamp r \<le> pruneCutoff now h"
    and newer: "m \<le> int (length (filter (\<lambda>q. pr_CreationTimestamp r < pr_CreationTimestamp q) runs))"
  shows "r \<in> set (prunableOf srt now h m runs)"
proof -
  obtain k where k: "protectedOf srt now h m runs = take k (srt runs)" "prunableOf srt now h m runs = drop k (srt runs)"
    "\<forall>i<k. i < length runs \<longrightarrow> pruneCutoff now h < pr_CreationTimestamp (srt runs ! i) \<or> int i < m"
    using bucket_split [OF ds] by metis
  from r(1) obtain i where i: "i < length (srt runs)" "srt runs ! i = r"
    using desc_sorter.set_srt [OF ds] by (metis in_set_conv_nth)
  let ?N = "\<lambda>q. pr_CreationTimestamp r < pr_CreationTimestamp q"
  have "filter ?N (drop i (srt runs)) = []"
  proof -
    have "sorted_wrt notOlder (drop i (srt runs))"
      using desc_sorter.desc [OF ds, of runs] by (metis append_take_drop_id sorted_wrt_append)
    moreover have "drop i (srt runs) = r # drop (Suc i) (srt runs)" using i by (metis Cons_nth_drop_Suc)
    ultimately show ?thesis by (auto simp: filter_empty_conv)
  qed
  then have "filter ?N (srt runs) = filter ?N (take i (srt runs))"
    by (metis append_Nil2 append_take_drop_id filter_append)
  then have "length (filter ?N (srt runs)) \<le> i"
    by (metis length_filter_le length_take min.bounded_iff)
  moreover have "mset (filter ?N (srt runs)) = mset (filter ?N runs)"
    using desc_sorter.perm [OF ds, of runs] by simp
  ultimately have "m \<le> int i" using newer by (metis mset_eq_length of_nat_le_iff order_trans)
  with k(3) i r(2) desc_sorter.length_srt [OF ds, of runs] have "\<not> i < k" by force
  then have "srt runs ! i = drop k (srt runs) ! (i - k)" using i by simp
  then have "r \<in> set (drop k (srt runs))" using i \<open>\<not> i < k\<close> by (metis diff_less_mono length_drop not_le nth_mem)
  with k(2) show ?thesis by simp
qed

section \<open>Facts: planning\<close>

text \<open>
  The plan is consistent: the remembered time of a repository is that of its last timer, and
  two timers of one repository are at least \<open>delay\<close> apart.
\<close>

definition timesOf :: "string \<Rightarrow> (int \<times> string) list \<Rightarrow> int list" where
  "timesOf repo ts = map fst (filter (\<lambda>t. snd t = repo) ts)"

definition planInv :: "int \<Rightarrow> pruner \<Rightarrow> bool" where
  "planInv delay p \<longleftrightarrow>
     (\<forall>repo. map_of (pu_upcomingPrune p) repo =
          (if timesOf repo (pu_timers p) = [] then None else Some (last (timesOf repo (pu_timers p)))) \<and>
        sorted_wrt (\<lambda>a b. a + delay \<le> b) (timesOf repo (pu_timers p)))"

lemma timesOf_snoc: "timesOf repo (ts @ [(t, r)]) = timesOf repo ts @ (if r = repo then [t] else [])"
  by (simp add: timesOf_def)

lemma spaced_snoc:
  assumes "sorted_wrt (\<lambda>a b. a + d \<le> (b::int)) xs" "0 \<le> d" "xs \<noteq> [] \<Longrightarrow> last xs + d \<le> y"
  shows "sorted_wrt (\<lambda>a b. a + d \<le> b) (xs @ [y])"
proof -
  have "a + d \<le> y" if "a \<in> set xs" for a
  proof -
    from that have ne: "xs \<noteq> []" by auto
    then have "xs = butlast xs @ [last xs]" by simp
    with assms(1) have "\<forall>b\<in>set (butlast xs). b + d \<le> last xs"
      by (metis list.set_intros(1) sorted_wrt_append)
    moreover have "a \<in> set (butlast xs) \<or> a = last xs"
      using that \<open>xs = butlast xs @ [last xs]\<close> by (metis in_set_butlastD list.set_cases set_ConsD append_Nil Un_iff set_append)
    ultimately have "a \<le> last xs" using assms(2) by auto
    with assms(3) [OF ne] show ?thesis by simp
  qed
  with assms(1) show ?thesis by (simp add: sorted_wrt_append)
qed

lemma pruneTrigger_inv:
  assumes "planInv delay p" "0 \<le> delay"
  shows "planInv delay (pruneTrigger delay now p repo)"
proof (cases "case map_of (pu_upcomingPrune p) repo of None \<Rightarrow> False | Some t \<Rightarrow> now < t")
  case True
  with assms show ?thesis by (simp add: pruneTrigger_def)
next
  case False
  have old: "sorted_wrt (\<lambda>a b. a + delay \<le> b) (timesOf repo (pu_timers p))"
    "timesOf repo (pu_timers p) \<noteq> [] \<Longrightarrow> last (timesOf repo (pu_timers p)) + delay \<le> now + delay"
    using assms(1) False by (auto simp: planInv_def split: option.splits dest!: spec [of _ repo])
  have eqs: "pu_timers (pruneTrigger delay now p repo) = pu_timers p @ [(now + delay, repo)]"
    "pu_upcomingPrune (pruneTrigger delay now p repo) = AList.update repo (now + delay) (pu_upcomingPrune p)"
    using False by (simp_all add: pruneTrigger_def split: option.splits)
  from spaced_snoc [OF old(1) assms(2) old(2)] assms(1) show ?thesis
    by (auto simp: planInv_def eqs timesOf_snoc update_conv')
qed

lemma pruner_run_inv: "planInv delay p \<Longrightarrow> 0 \<le> delay \<Longrightarrow> planInv delay (pruner_run delay p evs)"
  by (induction evs arbitrary: p) (auto intro: pruneTrigger_inv)

lemma pruner_run_snoc: "pruner_run delay p (evs @ [ev]) = pruneTrigger delay (fst ev) (pruner_run delay p evs) (snd ev)"
  by (induction evs arbitrary: p) auto

text \<open>Every trigger is answered by a timer that fires after it and at most \<open>delay\<close> later.\<close>

definition answered :: "int \<Rightarrow> pruner \<Rightarrow> int \<times> string \<Rightarrow> bool" where
  "answered delay p ev \<longleftrightarrow> (\<exists>t. (t, snd ev) \<in> set (pu_timers p) \<and> fst ev < t \<and> t \<le> fst ev + delay)"

lemma answered_mono: "answered delay p ev \<Longrightarrow> answered delay (pruneTrigger delay now p repo) ev"
  by (auto simp: answered_def pruneTrigger_def)

lemma timersOf_last:
  "timesOf repo ts \<noteq> [] \<Longrightarrow> (last (timesOf repo ts), repo) \<in> set ts"
proof -
  assume "timesOf repo ts \<noteq> []"
  then have "last (timesOf repo ts) \<in> set (timesOf repo ts)" by simp
  then show ?thesis by (auto simp: timesOf_def)
qed

lemma pruner_run_answers:
  assumes "0 < delay" "planInv delay p" "\<forall>t\<in>set (pu_timers p). \<forall>ev\<in>set evs. fst t \<le> fst ev + delay"
    and "sorted_wrt (\<le>) (map fst evs)"
  shows "(\<forall>ev\<in>set evs. answered delay (pruner_run delay p evs) ev) \<and>
     (\<forall>t\<in>set (pu_timers (pruner_run delay p evs)).
        (evs = [] \<longrightarrow> t \<in> set (pu_timers p)) \<and> (evs \<noteq> [] \<longrightarrow> fst t \<le> fst (last evs) + delay))"
  using assms(3,4)
proof (induction evs rule: rev_induct)
  case Nil
  then show ?case by simp
next
  case (snoc ev evs)
  let ?p = "pruner_run delay p evs"
  have srt: "sorted_wrt (\<le>) (map fst evs)" "\<forall>e\<in>set evs. fst e \<le> fst ev"
    using snoc.prems(2) by (simp_all add: sorted_wrt_append)
  have IH: "\<forall>e\<in>set evs. answered delay ?p e"
    "\<forall>t\<in>set (pu_timers ?p). (evs = [] \<longrightarrow> t \<in> set (pu_timers p)) \<and> (evs \<noteq> [] \<longrightarrow> fst t \<le> fst (last evs) + delay)"
    using snoc.IH snoc.prems(1) srt(1) by auto
  have bound: "fst t \<le> fst ev + delay" if "t \<in> set (pu_timers ?p)" for t
  proof (cases "evs = []")
    case True
    with IH(2) that snoc.prems(1) show ?thesis by auto
  next
    case False
    then have "fst (last evs) \<le> fst ev" using srt(2) by simp
    with IH(2) that False show ?thesis by fastforce
  qed
  have inv: "planInv delay ?p" using assms(1,2) by (simp add: pruner_run_inv)
  have "answered delay (pruneTrigger delay (fst ev) ?p (snd ev)) ev"
  proof (cases "case map_of (pu_upcomingPrune ?p) (snd ev) of None \<Rightarrow> False | Some t \<Rightarrow> fst ev < t")
    case True
    then obtain t where t: "map_of (pu_upcomingPrune ?p) (snd ev) = Some t" "fst ev < t"
      by (auto split: option.splits)
    have "map_of (pu_upcomingPrune ?p) (snd ev) =
        (if timesOf (snd ev) (pu_timers ?p) = [] then None else Some (last (timesOf (snd ev) (pu_timers ?p))))"
      using inv unfolding planInv_def by blast
    with t(1) have "(t, snd ev) \<in> set (pu_timers ?p)"
      using timersOf_last [of "snd ev" "pu_timers ?p"] by (auto split: if_splits)
    with t bound [of "(t, snd ev)"] show ?thesis
      unfolding answered_def by (auto simp: pruneTrigger_def)
  next
    case False
    then show ?thesis using assms(1) by (auto simp: answered_def pruneTrigger_def)
  qed
  moreover have "fst t \<le> fst ev + delay" if "t \<in> set (pu_timers (pruneTrigger delay (fst ev) ?p (snd ev)))" for t
    using that bound [of t] by (auto simp: pruneTrigger_def split: if_splits)
  ultimately show ?case using IH(1) answered_mono by (auto simp: pruner_run_snoc)
qed

section \<open>Properties\<close>

text \<open>The state \<open>run\<close> starts with.\<close>

definition prunerStart :: "int \<Rightarrow> int \<Rightarrow> pruner" where
  "prunerStart minKeepHours maxKeepRuns =
     \<lparr>pu_MinKeepHours = minKeepHours, pu_MaxKeepRuns = maxKeepRuns, pu_upcomingPrune = [], pu_timers = []\<rparr>"



text \<open>
  C13: a run older than \<open>MinKeepHours\<close> that is preceded by \<open>MaxKeepRuns\<close> newer runs of its stage does
  not survive a prune.
\<close>

theorem prune_removes_old_runs:
  assumes "desc_sorter srt"
    and "sv_ListPipelineRuns sv (w_trace w) [(repositoryLabel, repo)] = Inr runs"
    and "0 \<le> pu_MinKeepHours p" and "pu_MinKeepHours p \<le> 2562047"
    and "r \<in> set runs" and "pr_CreationTimestamp r \<le> w_now w - pu_MinKeepHours p * hour"
    and "pu_MaxKeepRuns p \<le> int (length (filter
           (\<lambda>q. stageOf q = stageOf r \<and> pr_CreationTimestamp r < pr_CreationTimestamp q) runs))"
  shows "\<not> survives (drop (length (w_trace w)) (w_trace (snd (prune sv srt p repo w)))) r"
proof -
  let ?h = "pu_MinKeepHours p" and ?m = "pu_MaxKeepRuns p" and ?R = "stageRuns (stageOf r) runs"
  have "filter (\<lambda>q. pr_CreationTimestamp r < pr_CreationTimestamp q) ?R =
      filter (\<lambda>q. stageOf q = stageOf r \<and> pr_CreationTimestamp r < pr_CreationTimestamp q) runs"
    by (simp add: stageRuns_def conj_commute)
  then have "r \<in> set (prunableOf srt (w_now w) ?h ?m ?R)"
    using old_surplus_prunable [OF assms(1), of r ?R "w_now w" ?h ?m] assms(3-7) by (simp add: pruneCutoff_exact)
  then have "pr_Name r \<in> set (px_pipelineRuns (findPrunableResources srt (w_now w) ?h ?m ?R)) \<or>
     pipelineOf r \<in> set (px_pipelines (findPrunableResources srt (w_now w) ?h ?m ?R))"
    unfolding prunable_runs_iff prunable_pipelines_iff by blast
  then show ?thesis
    unfolding prune_calls [OF assms(2)]
    by (auto simp: survives_def deletions_run_iff [OF assms(1)] deletions_pipeline_iff [OF assms(1)])
qed

text \<open>
  C21: whatever triggers arrive, two prunes planned for one repository are at least one delay
  apart, and for triggers arriving in order each is followed by a prune within one delay.
\<close>

theorem pruner_plans_once_per_delay:
  "sorted_wrt (\<lambda>a b. a + pruneDelay \<le> b) (timesOf repo (pu_timers (pruner_run pruneDelay (prunerStart h m) evs))) \<and>
   (sorted_wrt (\<le>) (map fst evs) \<longrightarrow>
     (\<forall>(now, r)\<in>set evs. \<exists>t. (t, r) \<in> set (pu_timers (pruner_run pruneDelay (prunerStart h m) evs)) \<and>
        now < t \<and> t \<le> now + pruneDelay))"
proof -
  have d: "0 < pruneDelay" by (simp add: pruneDelay_def second_def)
  have start: "planInv pruneDelay (prunerStart h m)"
    by (simp add: planInv_def prunerStart_def timesOf_def)
  then have "planInv pruneDelay (pruner_run pruneDelay (prunerStart h m) evs)"
    using d by (simp add: pruner_run_inv)
  then have "sorted_wrt (\<lambda>a b. a + pruneDelay \<le> b) (timesOf repo (pu_timers (pruner_run pruneDelay (prunerStart h m) evs)))"
    unfolding planInv_def by blast
  moreover have "sorted_wrt (\<le>) (map fst evs) \<Longrightarrow>
      \<forall>ev\<in>set evs. answered pruneDelay (pruner_run pruneDelay (prunerStart h m) evs) ev"
    using pruner_run_answers [OF d start, of evs] by (simp add: prunerStart_def)
  ultimately show ?thesis unfolding answered_def by force
qed

text \<open>
  C14: the loops of \<open>findPrunableResources\<close> compute the reference: a run is surplus when it is older
  than the cutoff and \<open>MaxKeepRuns\<close> runs precede it, newest first; a pipeline all of whose runs are
  surplus is pruned once as a whole, the other surplus runs are pruned by name.
\<close>

theorem findPrunableResources_equals_reference:
  assumes "desc_sorter srt" and "0 \<le> h" and "h \<le> 2562047"
  shows "findPrunableResources srt now h m runs = prunableReference (now - h * hour) m (srt runs)"
proof -
  have "pipelineIsProtected n (protectedOf srt now h m runs) \<longleftrightarrow> n \<in> pipelineOf ` set (protectedOf srt now h m runs)" for n
    by (auto simp: pipelineIsProtected_iff)
  then show ?thesis
    unfolding findPrunable_eq split_by_position [OF assms(1)] pruneCutoff_exact [OF assms(2,3)]
    by (simp add: prunableReference_def Let_def unique_firstOccurrences filter_map comp_def)
qed

subsection \<open>Examples\<close>

definition exampleRuns :: "pipelineRun list" where
  "exampleRuns =
     [exampleRun ''b-1'' [(stageLabel, DevStage), (tektonPipelineLabel, ''b'')] (9 * hour) [] ''Succeeded'',
      exampleRun ''a-1'' [(stageLabel, DevStage), (tektonPipelineLabel, ''a'')] (1 * hour) [] ''Succeeded'',
      exampleRun ''a-2'' [(stageLabel, QAStage), (tektonPipelineLabel, ''a'')] (9 * hour) [] ''Succeeded'']"

definition exampleNow :: world where
  "exampleNow = emptyWorld\<lparr>w_now := 10 * hour\<rparr>"



lemma prune_removes_old_witness:
  "\<not> survives (drop (length (w_trace exampleNow)) (w_trace (snd (prune (busyServices exampleRuns)
       sortPipelineRunsDescending (prunerStart 2 1) ''p-foo'' exampleNow)))) (exampleRuns ! 1)"
  by (rule prune_removes_old_runs [OF runSort.desc_sorter_axioms, where runs = exampleRuns])
    (simp_all add: busyServices_def prunerStart_def exampleRuns_def exampleNow_def stageOf_def lookupS_def
      exampleRun_def hour_def second_def stageLabel_def tektonPipelineLabel_def labelPrefix_def DevStage_def QAStage_def)

lemma findPrunableResources_reference_witness:
  "findPrunableResources sortPipelineRunsDescending (10 * hour) 2 1 (take 2 exampleRuns) =
     \<lparr>px_pipelineRuns = [], px_pipelines = [''a'']\<rparr>"
proof -
  have "findPrunableResources sortPipelineRunsDescending (10 * hour) 2 1 (take 2 exampleRuns) =
      prunableReference (10 * hour - 2 * hour) 1 (sortPipelineRunsDescending (take 2 exampleRuns))"
    by (rule findPrunableResources_equals_reference [OF runSort.desc_sorter_axioms]) simp_all
  moreover have "prunableReference (10 * hour - 2 * hour) 1 (sortPipelineRunsDescending (take 2 exampleRuns)) =
      \<lparr>px_pipelineRuns = [], px_pipelines = [''a'']\<rparr>" by code_simp
  ultimately show ?thesis by simp
qed

lemma pruner_plans_witness:
  "\<exists>t. (t, ''r'') \<in> set (pu_timers (pruner_run pruneDelay (prunerStart 48 20) [(5, ''r'')])) \<and> 5 < t \<and> t \<le> 5 + pruneDelay"
  using pruner_plans_once_per_delay [of "''r''" 48 20 "[(5, ''r'')]"] by simp

text \<open>
  The buckets of \<open>prune\<close> are looked at one by one, so a pipeline whose old runs fill one stage
  is deleted although a run of it in another stage is younger than \<open>MinKeepHours\<close>.
\<close>

theorem prune_deletes_pipeline_of_recent_run:
  "CDeletePipeline (pipelineOf (exampleRuns ! 2)) \<in>
     set (w_trace (snd (prune (busyServices exampleRuns) sortPipelineRunsDescending (prunerStart 2 1) ''p-foo'' exampleNow))) \<and>
   exampleRuns ! 2 \<in> set exampleRuns \<and>
   w_now exampleNow - 2 * hour < pr_CreationTimestamp (exampleRuns ! 2)"
proof -
  have l: "sv_ListPipelineRuns (busyServices exampleRuns) (w_trace exampleNow) [(repositoryLabel, ''p-foo'')] = Inr exampleRuns"
    by (simp add: busyServices_def)
  have dev: "stageRuns DevStage exampleRuns = [exampleRuns ! 0, exampleRuns ! 1]"
    by (simp add: exampleRuns_def stageRuns_def stageOf_def lookupS_def exampleRun_def stageLabel_def
        tektonPipelineLabel_def labelPrefix_def DevStage_def QAStage_def)
  have "pipelineOf (exampleRuns ! 2) \<in> set (px_pipelines (findPrunableResources sortPipelineRunsDescending
      (w_now exampleNow) 2 1 (stageRuns DevStage exampleRuns)))"
    unfolding dev
    by (simp add: findPrunableResources_def pruneCutoff_exact exampleRuns_def exampleRun_def exampleNow_def
        sortPipelineRunsDescending_def hour_def second_def pipelineIsProtected_def pipelineOf_def lookupS_def
        stageLabel_def tektonPipelineLabel_def labelPrefix_def unique_def)
  then have "CDeletePipeline (pipelineOf (exampleRuns ! 2)) \<in>
      set (pruneDeletions sortPipelineRunsDescending (prunerStart 2 1) (w_now exampleNow) exampleRuns)"
    unfolding deletions_pipeline_iff [OF runSort.desc_sorter_axioms]
    by (intro exI [of _ DevStage]) (simp add: prunerStart_def)
  then have "CDeletePipeline (pipelineOf (exampleRuns ! 2)) \<in>
     set (w_trace (snd (prune (busyServices exampleRuns) sortPipelineRunsDescending (prunerStart 2 1) ''p-foo'' exampleNow)))"
    by (simp add: prune_calls [OF l])
  moreover have "w_now exampleNow - 2 * hour < pr_CreationTimestamp (exampleRuns ! 2)"
    by (simp add: exampleNow_def exampleRuns_def exampleRun_def hour_def second_def)
  ultimately show ?thesis by (simp add: exampleRuns_def)
qed

end
