(* ===== verification/ArtifactDownload.thy ===== *)
theory ArtifactDownload
  imports Repository
begin

text \<open>
  \<open>cmd/artifact-download/main.go\<close>, the program with which users download the artifacts of a version,
  and \<open>internal/installation\<close>, which finds the services of an installation in its namespace.
\<close>

section \<open>The installation (internal/installation)\<close>

definition BitbucketConfigMapName :: string where "BitbucketConfigMapName = ''ods-bitbucket''"
definition BitbucketSecretName :: string where "BitbucketSecretName = ''ods-bitbucket-auth''"
definition BitbucketSecretAPITokenKey :: string where "BitbucketSecretAPITokenKey = ''password''"
definition BitbucketConfigMapURLKey :: string where "BitbucketConfigMapURLKey = ''url''"
definition NexusConfigMapName :: string where "NexusConfigMapName = ''ods-nexus''"
definition NexusSecretName :: string where "NexusSecretName = ''ods-nexus-auth''"
definition NexusSecretUsernameKey :: string where "NexusSecretUsernameKey = ''username''"
definition NexusSecretPasswordKey :: string where "NexusSecretPasswordKey = ''password''"
definition NexusConfigMapURLKey :: string where "NexusConfigMapURLKey = ''url''"
definition NexusConfigMapTemporaryRepositoryKey :: string where "NexusConfigMapTemporaryRepositoryKey = ''temporaryRepository''"
definition NexusConfigMapPermanentRepositoryKey :: string where "NexusConfigMapPermanentRepositoryKey = ''permanentRepository''"

record nexusRepositories =
  nr_Temporary :: string
  nr_Permanent :: string

record bitbucketConfig =
  bc_APIToken :: string
  bc_BaseURL :: string

definition getSecretOf :: "services \<Rightarrow> string \<Rightarrow> string \<Rightarrow> labels prog_w" where
  "getSecretOf sv namespace name = perform (CGetSecret namespace name) (\<lambda>h. sv_GetSecret sv h namespace name)"

definition getConfigMapOf :: "services \<Rightarrow> string \<Rightarrow> string \<Rightarrow> labels prog_w" where
  "getConfigMapOf sv namespace name = perform (CGetConfigMap namespace name) (\<lambda>h. sv_GetConfigMap sv h namespace name)"

definition NewBitbucketClientConfig :: "services \<Rightarrow> string \<Rightarrow> bitbucketConfig prog_w" where
  "NewBitbucketClientConfig sv namespace =
     bindP (wrapErr ''could not get Bitbucket secret: '' (getSecretOf sv namespace BitbucketSecretName)) (\<lambda>bitbucketSecret.
     bindP (wrapErr ''could not get Bitbucket config: '' (getConfigMapOf sv namespace BitbucketConfigMapName)) (\<lambda>bitbucketConfigMap.
     ret \<lparr>bc_APIToken = lookupS bitbucketSecret BitbucketSecretAPITokenKey,
          bc_BaseURL = lookupS bitbucketConfigMap BitbucketConfigMapURLKey\<rparr>))"

definition NewNexusClientConfig :: "services \<Rightarrow> string \<Rightarrow> nexusConfig prog_w" where
  "NewNexusClientConfig sv namespace =
     bindP (wrapErr ''could not get Nexus secret: '' (getSecretOf sv namespace NexusSecretName)) (\<lambda>nexusSecret.
     bindP (wrapErr ''could not get Nexus config: '' (getConfigMapOf sv namespace NexusConfigMapName)) (\<lambda>nexusConfigMap.
     ret \<lparr>nx_Username = lookupS nexusSecret NexusSecretUsernameKey, nx_Password = lookupS nexusSecret NexusSecretPasswordKey,
          nx_BaseURL = lookupS nexusConfigMap NexusConfigMapURLKey\<rparr>))"

definition GetNexusRepositories :: "services \<Rightarrow> string \<Rightarrow> nexusRepositories prog_w" where
  "GetNexusRepositories sv namespace =
     bindP (wrapErr ''could not get Nexus config: '' (getConfigMapOf sv namespace NexusConfigMapName)) (\<lambda>nexusConfigMap.
     ret \<lparr>nr_Temporary = lookupS nexusConfigMap NexusConfigMapTemporaryRepositoryKey,
          nr_Permanent = lookupS nexusConfigMap NexusConfigMapPermanentRepositoryKey\<rparr>)"

section \<open>The program\<close>

record downloadOptions =
  ad_kubeconfig :: string
  ad_namespace :: string
  ad_project :: string
  ad_repository :: string
  ad_version :: bool
  ad_tag :: string
  ad_outputDirectory :: string
  ad_debug :: bool

text \<open>\<open>os.UserHomeDir\<close> fails when the variable HOME is empty.\<close>

definition kubeconfigDefault :: "(string \<Rightarrow> string) \<Rightarrow> string + string" where
  "kubeconfigDefault getenv =
     (if getenv ''HOME'' = [] then Inl ([CHR 0x24] @ ''HOME is not defined'')
      else Inr (filepathJoin [getenv ''HOME'', ''.kube'', ''config'']))"

definition downloadDefaults :: "(string \<Rightarrow> string) \<Rightarrow> string \<Rightarrow> downloadOptions" where
  "downloadDefaults getenv kcDefault =
     \<lparr>ad_kubeconfig = kcDefault, ad_namespace = [], ad_project = [], ad_repository = [], ad_version = False, ad_tag = [],
      ad_outputDirectory = ''artifacts-out'', ad_debug = (getenv ''DEBUG'' = ''true'')\<rparr>"

definition downloadArtifacts :: "services \<Rightarrow> downloadOptions \<Rightarrow> nexusRepositories \<Rightarrow> ODSContext \<Rightarrow> unit prog_w" where
  "downloadArtifacts sv opts nr ctxt =
     (let artifactsDir = filepathJoin [ad_outputDirectory opts, ad_tag opts, oc_Repository ctxt]
      in bindP (gets (osStat artifactsDir)) (\<lambda>r.
         if StatSucceeds r then failE (''output directory '' @ artifactsDir @ '' already exists'')
         else bindP (DownloadGroup sv [nr_Permanent nr, nr_Temporary nr] (ArtifactGroupBase ctxt) artifactsDir) (\<lambda>_. ret ())))"

definition tagGet :: "services \<Rightarrow> string \<Rightarrow> string \<Rightarrow> string \<Rightarrow> tag prog_w" where
  "tagGet sv project repo name = perform (CTagGet project repo name) (\<lambda>h. sv_TagGet sv h project repo name)"

definition getODSContext :: "services \<Rightarrow> downloadOptions \<Rightarrow> string \<Rightarrow> ODSContext prog_w" where
  "getODSContext sv opts workingDir =
     (let ctxt = emptyContext\<lparr>oc_Namespace := ad_namespace opts\<rparr>
      in if ad_tag opts = WIP then Assemble ctxt workingDir
         else bindP (tagGet sv (ad_project opts) (ad_repository opts) (ad_tag opts)) (\<lambda>t.
              ret (ctxt\<lparr>oc_Project := ad_project opts, oc_Repository := ad_repository opts, oc_GitCommitSHA := tg_LatestCommit t\<rparr>)))"

definition download_getODSConfig :: "services \<Rightarrow> downloadOptions \<Rightarrow> string \<Rightarrow> ODS prog_w" where
  "download_getODSConfig sv opts workingDir =
     (if ad_tag opts = WIP then ReadFromDir sv workingDir
      else GetODSConfig sv (ad_project opts) (ad_repository opts) (ad_tag opts))"

definition getSubrepoODSContext :: "services \<Rightarrow> downloadOptions \<Rightarrow> ODSContext \<Rightarrow> repository \<Rightarrow> ODSContext prog_w" where
  "getSubrepoODSContext sv opts ctxt subrepo =
     (let subrepoCtxt = (ODSContext_Copy ctxt)\<lparr>oc_Repository := re_Name subrepo\<rparr>
      in bindP (if ad_tag opts = WIP
                then bindP (BestMatchingBranch sv (oc_Project subrepoCtxt) subrepo WIP) (\<lambda>br.
                     LatestCommitForBranch sv (oc_Project subrepoCtxt) (re_Name subrepo) br)
                else bindP (tagGet sv (oc_Project subrepoCtxt) (oc_Repository subrepoCtxt) (ad_tag opts)) (\<lambda>t. ret (tg_LatestCommit t)))
           (\<lambda>sha. ret (subrepoCtxt\<lparr>oc_GitCommitSHA := sha\<rparr>)))"

definition downloadSubrepo :: "services \<Rightarrow> downloadOptions \<Rightarrow> nexusRepositories \<Rightarrow> ODSContext \<Rightarrow> repository \<Rightarrow> unit prog_w" where
  "downloadSubrepo sv opts nr ctxt subrepo =
     bindP (getSubrepoODSContext sv opts ctxt subrepo) (downloadArtifacts sv opts nr)"

definition download_run :: "services \<Rightarrow> downloadOptions \<Rightarrow> nexusRepositories \<Rightarrow> string \<Rightarrow> unit prog_w" where
  "download_run sv opts nr workingDir =
     bindP (getODSContext sv opts workingDir) (\<lambda>ctxt.
     bindP (downloadArtifacts sv opts nr ctxt) (\<lambda>_.
     bindP (download_getODSConfig sv opts workingDir) (\<lambda>odsConfig.
     forEach (od_Repositories odsConfig) (downloadSubrepo sv opts nr ctxt))))"

definition validateFlags :: "downloadOptions \<Rightarrow> string option" where
  "validateFlags opts =
     (if ad_kubeconfig opts = [] then Some ''-kubeconfig is required''
      else if ad_namespace opts = [] then Some ''-namespace is required''
      else if ad_tag opts = [] then Some ''-tag is required''
      else if ad_tag opts \<noteq> WIP \<and> ad_project opts = [] then Some ''-project is required when version is not WIP''
      else if ad_tag opts \<noteq> WIP \<and> ad_repository opts = [] then Some ''-repository is required when version is not WIP''
      else None)"

text \<open>\<open>logUsageAndExit\<close> ends the process with status 2.\<close>

definition Download_main :: "services \<Rightarrow> downloadOptions \<Rightarrow> unit prog_w" where
  "Download_main sv opts =
     (if ad_version opts then bindP (record_call (CPrint ''0.3.0'')) (\<lambda>_. exitP 0)
      else case validateFlags opts of
        Some msg \<Rightarrow> exitP 2
      | None \<Rightarrow>
          bindP (fatal (liftE (sv_KubeNew sv (ad_kubeconfig opts)))) (\<lambda>_.
          bindP (fatal (NewNexusClientConfig sv (ad_namespace opts))) (\<lambda>ncc.
          bindP (fatal (liftE (sv_NexusNew sv (nx_BaseURL ncc) (nx_Username ncc) (nx_Password ncc)))) (\<lambda>_.
          bindP (fatal (GetNexusRepositories sv (ad_namespace opts))) (\<lambda>nr.
          bindP (fatal (NewBitbucketClientConfig sv (ad_namespace opts))) (\<lambda>bcc.
          fatal (download_run sv opts nr ''.'')))))))"

section \<open>Facts\<close>

text \<open>The calls that decide what is downloaded: tags asked for and groups searched.\<close>

definition deciding :: "call \<Rightarrow> bool" where
  "deciding c = (case c of CTagGet _ _ _ \<Rightarrow> True | CSearchAssets _ _ \<Rightarrow> True | _ \<Rightarrow> False)"

abbreviation decides :: "world \<Rightarrow> call list \<Rightarrow> world \<Rightarrow> bool" where
  "decides \<equiv> emits deciding"

abbreviation undecided :: "world \<Rightarrow> world \<Rightarrow> bool" where
  "undecided \<equiv> silent deciding"

lemma un_downloadAsset: "preserves undecided (downloadAsset sv g d s)"
  unfolding downloadAsset_def Let_def nexus_Download_def
  by (intro si.rules si_perform si_files [OF osMkdirAll_fo] si_files [OF osCreate_fo] si_files [OF writeFile_fo])
    (simp add: deciding_def)

lemma un_GetODSConfig: "preserves undecided (GetODSConfig sv p r ref)"
proof -
  have "preserves undecided (getODSBody sv p r ref cs e)" for cs e
  proof (induction cs arbitrary: e)
    case (Cons c cs)
    then show ?case unfolding getODSBody.simps by (intro si.rules si_perform) (simp add: deciding_def)
  qed (simp add: si.ret)
  then show ?thesis unfolding GetODSConfig_def Config_Read_def by (intro si.rules)
qed

text \<open>
  What is asked of Bitbucket and Nexus to download one repository at a tag: the commit of the tag,
  then the group of that commit in the permanent and, unless it has assets there, the temporary
  repository.
\<close>

definition pinned :: "services \<Rightarrow> downloadOptions \<Rightarrow> nexusRepositories \<Rightarrow> string \<Rightarrow> call list \<Rightarrow> bool" where
  "pinned sv opts nr repo calls \<longleftrightarrow> (\<exists>h t rs.
     sv_TagGet sv h (ad_project opts) repo (ad_tag opts) = Inr t \<and>
     rs \<in> {[nr_Permanent nr], [nr_Permanent nr, nr_Temporary nr]} \<and>
     calls = CTagGet (ad_project opts) repo (ad_tag opts) #
       map (\<lambda>r. CSearchAssets r (''/'' @ ad_project opts @ ''/'' @ repo @ ''/'' @ tg_LatestCommit t @ ''/*'')) rs)"

lemma downloadArtifacts_decides:
  assumes "downloadArtifacts sv opts nr ctxt w = (Ok u, w')"
  shows "\<exists>rs. rs \<in> {[nr_Permanent nr], [nr_Permanent nr, nr_Temporary nr]} \<and>
     decides w (map (\<lambda>r. CSearchAssets r (ArtifactGroupBase ctxt @ ''/*'')) rs) w'"
proof -
  let ?g = "ArtifactGroupBase ctxt" and ?d = "filepathJoin [ad_outputDirectory opts, ad_tag opts, oc_Repository ctxt]"
  from assms obtain m where "DownloadGroup sv [nr_Permanent nr, nr_Temporary nr] ?g ?d w = (Ok m, w')"
    unfolding downloadArtifacts_def Let_def gets_def
    by (auto simp: bindP_def [of "\<lambda>w. (Ok _, w)"] failE_def ret_def elim!: bindP_OkE split: if_splits)
  then obtain src urls w1 where s: "searchForAssets sv (?g @ ''/*'') [nr_Permanent nr, nr_Temporary nr] w = (Ok (src, urls), w1)"
    and d: "bindP (mapP (downloadAsset sv ?g ?d) urls) (\<lambda>artifacts.
       ret \<lparr>am_SourceRepository = src, am_Artifacts = artifacts\<rparr>) w1 = (Ok m, w')"
    unfolding DownloadGroup_def by (auto elim!: bindP_OkE)
  have "preserves undecided (bindP (mapP (downloadAsset sv ?g ?d) urls) (\<lambda>artifacts.
       ret \<lparr>am_SourceRepository = src, am_Artifacts = artifacts\<rparr>))"
    by (intro si.rules un_downloadAsset)
  from preservesD [OF this d] have 2: "decides w1 [] w'" by (simp add: silent_def)
  from searchForAssets_result [OF s] obtain rs where
    rs: "rs \<in> {[nr_Permanent nr], [nr_Permanent nr, nr_Temporary nr]}"
    and t: "w_trace w1 = w_trace w @ map (\<lambda>r. CSearchAssets r (?g @ ''/*'')) rs"
  proof -
    assume k: "\<And>rs. rs \<in> {[nr_Permanent nr], [nr_Permanent nr, nr_Temporary nr]} \<Longrightarrow>
      w_trace w1 = w_trace w @ map (\<lambda>r. CSearchAssets r (?g @ ''/*'')) rs \<Longrightarrow> thesis"
    from searchForAssets_result [OF s] consider
      (found) before after where "[nr_Permanent nr, nr_Temporary nr] = before @ src # after"
        "w_trace w1 = w_trace w @ map (\<lambda>r. CSearchAssets r (?g @ ''/*'')) (before @ [src])"
      | (none) "w_trace w1 = w_trace w @ map (\<lambda>r. CSearchAssets r (?g @ ''/*'')) [nr_Permanent nr, nr_Temporary nr]" by blast
    then show thesis
    proof cases
      case found
      moreover from found(1) have "before @ [src] \<in> {[nr_Permanent nr], [nr_Permanent nr, nr_Temporary nr]}"
        by (auto simp: Cons_eq_append_conv)
      ultimately show ?thesis using k by blast
    qed (use k in blast)
  qed
  have "filter deciding (map (\<lambda>r. CSearchAssets r (?g @ ''/*'')) rs) = map (\<lambda>r. CSearchAssets r (?g @ ''/*'')) rs"
    by (induction rs) (simp_all add: deciding_def)
  with t have "decides w (map (\<lambda>r. CSearchAssets r (?g @ ''/*'')) rs) w1" by (auto simp: emits_def)
  from emits_trans [OF this 2] rs show ?thesis by auto
qed

lemma tagGet_decides:
  assumes "tagGet sv p r n w = (Ok t, w')"
  shows "decides w [CTagGet p r n] w' \<and> sv_TagGet sv (w_trace w) p r n = Inr t"
  using perform_result [OF assms [unfolded tagGet_def]] emits_adds [of w "[CTagGet p r n]" w' deciding] by (auto simp: deciding_def)

lemma pinned_download:
  assumes "ad_tag opts \<noteq> WIP" "sv_TagGet sv h (ad_project opts) repo (ad_tag opts) = Inr t"
    and "decides w [CTagGet (ad_project opts) repo (ad_tag opts)] w1"
    and "downloadArtifacts sv opts nr c w1 = (Ok u, w')"
    and "oc_Project c = ad_project opts" "oc_Repository c = repo" "oc_GitCommitSHA c = tg_LatestCommit t"
  shows "\<exists>seg. decides w seg w' \<and> pinned sv opts nr repo seg"
proof -
  from downloadArtifacts_decides [OF assms(4)] obtain rs where
    rs: "rs \<in> {[nr_Permanent nr], [nr_Permanent nr, nr_Temporary nr]}"
    and d: "decides w1 (map (\<lambda>r. CSearchAssets r (ArtifactGroupBase c @ ''/*'')) rs) w'" by blast
  have "ArtifactGroupBase c @ ''/*'' = ''/'' @ ad_project opts @ ''/'' @ repo @ ''/'' @ tg_LatestCommit t @ ''/*''"
    using assms(5-7) by (simp add: ArtifactGroupBase_def nexus_ArtifactGroupBase_def)
  with emits_trans [OF assms(3) d] rs assms(2) show ?thesis unfolding pinned_def by (simp only: append_Cons append_Nil) blast
qed

lemma downloadSubrepos_pinned:
  assumes "ad_tag opts \<noteq> WIP" "oc_Project ctxt = ad_project opts"
    and "forEach rs (downloadSubrepo sv opts nr ctxt) w = (Ok u, w')"
  shows "\<exists>segs. decides w (concat segs) w' \<and> list_all2 (pinned sv opts nr) (map re_Name rs) segs"
  using assms(3)
proof (induction rs arbitrary: w)
  case Nil
  then show ?case by (auto simp: ret_def emits_refl intro!: exI [of _ "[]"])
next
  case (Cons r rs)
  from Cons.prems obtain v w2 where 1: "downloadSubrepo sv opts nr ctxt r w = (Ok v, w2)"
    and 2: "forEach rs (downloadSubrepo sv opts nr ctxt) w2 = (Ok u, w')" by (auto elim: bindP_OkE)
  from 1 obtain c w1 where c: "getSubrepoODSContext sv opts ctxt r w = (Ok c, w1)"
    and d: "downloadArtifacts sv opts nr c w1 = (Ok v, w2)" unfolding downloadSubrepo_def by (rule bindP_OkE)
  from c assms(1,2) obtain t where t: "tagGet sv (ad_project opts) (re_Name r) (ad_tag opts) w = (Ok t, w1)"
    and "c = ctxt\<lparr>oc_Repository := re_Name r, oc_GitCommitSHA := tg_LatestCommit t\<rparr>"
    unfolding getSubrepoODSContext_def Let_def ODSContext_Copy_def by (auto simp: ret_def elim!: bindP_OkE)
  with assms(2) tagGet_decides [OF t] pinned_download [OF assms(1) _ _ d] obtain seg where
    "decides w seg w2" "pinned sv opts nr (re_Name r) seg" by fastforce
  moreover from Cons.IH [OF 2] obtain segs where "decides w2 (concat segs) w'" "list_all2 (pinned sv opts nr) (map re_Name rs) segs" by blast
  ultimately show ?case using emits_trans by (intro exI [of _ "seg # segs"]) fastforce
qed

section \<open>Properties\<close>


text \<open>A repository with one subrepository, both tagged; nothing in Nexus.\<close>

definition taggedServices :: services where
  "taggedServices = noServices\<lparr>
     sv_TagGet := (\<lambda>h p r n. Inr (rcTag n (if r = ''main'' then ''m1'' else ''s1''))),
     sv_SearchAssets := (\<lambda>h r g. Inr []),
     sv_RawGet := (\<lambda>h p r f ref. Inr ''config''),
     sv_YamlODS := (\<lambda>b. Inr (Some (exampleODS\<lparr>od_Repositories := [\<lparr>re_Name = ''sub'', re_URL = [], re_Branch = []\<rparr>]\<rparr>)))\<rparr>"

definition taggedDownload :: downloadOptions where
  "taggedDownload = (downloadDefaults (\<lambda>v. []) ''kc'')\<lparr>ad_project := ''p'', ad_repository := ''main'', ad_tag := ''v1''\<rparr>"

definition twoRepositories :: nexusRepositories where
  "twoRepositories = \<lparr>nr_Temporary = ''temp'', nr_Permanent = ''perm''\<rparr>"


end
