(* ===== verification/PipelineManager.thy ===== *)
theory PipelineManager
  imports Receive Prune ArtifactDownload
begin

text \<open>
  \<open>cmd/pipeline-manager/main.go\<close>: reading the configuration from the environment, putting receiver,
  scheduler, pruner and watcher together, and the traffic between them.  The three channels of
  \<open>serve\<close> are queues; receiver, scheduler and watcher take turns, one handler call at a time (what
  happens between the requests of one call is the subject of theory QueueSystem).
\<close>

section \<open>Configuration\<close>

definition namespaceSuffix :: string where "namespaceSuffix = ''-cd''"
definition repoBaseEnvVar :: string where "repoBaseEnvVar = ''REPO_BASE''"
definition tokenEnvVar :: string where "tokenEnvVar = ''ACCESS_TOKEN''"
definition webhookSecretEnvVar :: string where "webhookSecretEnvVar = ''WEBHOOK_SECRET''"
definition pruneMinKeepHoursDefault :: int where "pruneMinKeepHoursDefault = 48"
definition pruneMaxKeepRunsDefault :: int where "pruneMaxKeepRunsDefault = 20"
definition initialWatchWait :: int where "initialWatchWait = 10 * second"
definition channelBufferSize :: nat where "channelBufferSize = 5"

definition readStringFromEnvVar :: "string \<Rightarrow> string \<Rightarrow> string prog_w" where
  "readStringFromEnvVar envVar fallback = bindP (gets w_getenv) (\<lambda>getenv.
     ret (if getenv envVar = [] then fallback else getenv envVar))"

definition readIntFromEnvVar :: "string \<Rightarrow> int \<Rightarrow> int prog_w" where
  "readIntFromEnvVar envVar fallback = bindP (gets w_getenv) (\<lambda>getenv.
     if getenv envVar = [] then ret fallback
     else case Atoi (getenv envVar) of
         None \<Rightarrow> failE (''could not read value of '' @ envVar @ '': strconv.Atoi: '' @ getenv envVar)
       | Some i \<Rightarrow> ret i)"

text \<open>A variable that must be set.\<close>

definition requireEnvVar :: "string \<Rightarrow> string prog_w" where
  "requireEnvVar envVar = bindP (gets w_getenv) (\<lambda>getenv.
     if getenv envVar = [] then failE (envVar @ '' must be set'') else ret (getenv envVar))"

definition getFileContent :: "string \<Rightarrow> string prog_w" where
  "getFileContent filename = readFile filename"

record pipelineManager =
  pm_Scheduler :: scheduler
  pm_Pruner :: pruner
  pm_Watcher :: watcher
  pm_Receiver :: receiver
  pm_Bitbucket :: bitbucketConfig

text \<open>
  \<open>serve\<close> up to the first request.  \<open>tektonNew\<close> is the constructor of the Tekton clientset, third-party
  code that may fail; both client constructors of the repository refuse an empty namespace.
\<close>

definition newClient :: "string + unit \<Rightarrow> string \<Rightarrow> unit prog_w" where
  "newClient connected namespace =
     bindP (liftE connected) (\<lambda>_. if namespace = [] then failE ''namespace is required'' else ret ())"

definition serve :: "services \<Rightarrow> string + unit \<Rightarrow> pipelineManager prog_w" where
  "serve sv tektonNew =
     bindP (requireEnvVar repoBaseEnvVar) (\<lambda>repoBase.
     bindP (requireEnvVar tokenEnvVar) (\<lambda>token.
     bindP (requireEnvVar webhookSecretEnvVar) (\<lambda>webhookSecret.
     bindP (readStringFromEnvVar ''ODS_TASK_KIND'' ''Task'') (\<lambda>taskKind.
     bindP (readStringFromEnvVar ''ODS_TASK_SUFFIX'' []) (\<lambda>taskSuffix.
     bindP (readStringFromEnvVar ''ODS_STORAGE_PROVISIONER'' []) (\<lambda>storageProvisioner.
     bindP (readStringFromEnvVar ''ODS_STORAGE_CLASS_NAME'' ''standard'') (\<lambda>storageClassName.
     bindP (readStringFromEnvVar ''ODS_STORAGE_SIZE'' ''2Gi'') (\<lambda>storageSize.
     bindP (readIntFromEnvVar ''ODS_PRUNE_MIN_KEEP_HOURS'' pruneMinKeepHoursDefault) (\<lambda>minKeepHours.
     bindP (readIntFromEnvVar ''ODS_PRUNE_MAX_KEEP_RUNS'' pruneMaxKeepRunsDefault) (\<lambda>maxKeepRuns.
     bindP (getFileContent namespaceFile) (\<lambda>namespace.
     let project = TrimSuffix namespace namespaceSuffix
     in bindP (newClient (sv_KubeNew sv []) namespace) (\<lambda>_.
        bindP (newClient tektonNew namespace) (\<lambda>_.
        ret \<lparr>pm_Scheduler = \<lparr>sc_TaskKind = taskKind, sc_TaskSuffix = taskSuffix,
                sc_StorageConfig = \<lparr>st_Provisioner = storageProvisioner, st_ClassName = storageClassName, st_Size = storageSize\<rparr>\<rparr>,
             pm_Pruner = prunerStart minKeepHours maxKeepRuns,
             pm_Watcher = watcherStart,
             pm_Receiver = \<lparr>rc_WebhookSecret = webhookSecret, rc_Namespace = namespace, rc_Project = project, rc_RepoBase = repoBase\<rparr>,
             pm_Bitbucket = \<lparr>bc_APIToken = token, bc_BaseURL = TrimSuffix repoBase ''/scm''\<rparr>\<rparr>)))))))))))))"

section \<open>Requests\<close>

definition health :: "handled prog_w" where
  "health = ret \<lparr>hd_Status = 200, hd_Body = CHR 0x7B # quote ''health'' @ '':'' @ quote ''ok'' @ [CHR 0x7D], hd_Sent = None\<rparr>"

text \<open>The two patterns of the mux are exact paths; the path is clean (others are redirected before).\<close>

definition muxHandle :: "services \<Rightarrow> signatureCheck \<Rightarrow> pipelineManager \<Rightarrow> string \<Rightarrow> httpRequest \<Rightarrow> handled prog_w" where
  "muxHandle sv check m path r =
     (if path = ''/health'' then health
      else if path = ''/bitbucket'' then Handle sv check (pm_Receiver m) r
      else httpError 404 ''404 page not found'')"

section \<open>The running manager\<close>

text \<open>
  \<open>ms_Triggered\<close> and \<open>ms_Pending\<close> are the channels from receiver to scheduler and from scheduler to
  watcher; \<open>ms_Boot\<close> the repositories still to be sent to the watcher after booting.
  \<open>ms_Received\<close> records the requests.
\<close>

record managerState =
  ms_Triggered :: "pipelineConfig list"
  ms_Pending :: "string list"
  ms_Watcher :: watcher
  ms_Boot :: "string list"
  ms_Received :: "httpRequest list"

definition bootRepos :: "services \<Rightarrow> string \<Rightarrow> string list prog_w" where
  "bootRepos sv project = bindP (attempt (GetRepoNames sv project)) (\<lambda>r.
     ret (case r of Inl e \<Rightarrow> [] | Inr repos \<Rightarrow> repos))"

definition managerStart :: "pipelineManager \<Rightarrow> managerState" where
  "managerStart m = \<lparr>ms_Triggered = [], ms_Pending = [], ms_Watcher = pm_Watcher m, ms_Boot = [], ms_Received = []\<rparr>"

text \<open>
  A channel with a full buffer blocks its sender: the step is not possible.  A handler that
  panics ends its connection only; a panic of scheduler or watcher ends the process.
\<close>

inductive managerStep ::
  "services \<Rightarrow> signatureCheck \<Rightarrow> (pipelineRun list \<Rightarrow> pipelineRun list) \<Rightarrow> runMethods \<Rightarrow> pipelineManager \<Rightarrow>
     managerState \<times> world \<Rightarrow> managerState \<times> world \<Rightarrow> bool"
  for sv check srt tk m where
  request: "muxHandle sv check m path r w = (Ok h, w') \<Longrightarrow>
     (hd_Sent h \<noteq> None \<longrightarrow> length (ms_Triggered st) < channelBufferSize) \<Longrightarrow>
     managerStep sv check srt tk m (st, w)
       (st\<lparr>ms_Triggered := ms_Triggered st @ (case hd_Sent h of None \<Rightarrow> [] | Some cfg \<Rightarrow> [cfg]), ms_Received := r # ms_Received st\<rparr>, w')"
| requestPanics: "muxHandle sv check m path r w = (Panic e, w') \<Longrightarrow>
     managerStep sv check srt tk m (st, w) (st\<lparr>ms_Received := r # ms_Received st\<rparr>, w')"
| schedules: "ms_Triggered st = cfg # rest \<Longrightarrow> schedule sv tk (pm_Scheduler m) cfg w = (Ok q, w') \<Longrightarrow>
     (q \<longrightarrow> length (ms_Pending st) < channelBufferSize) \<Longrightarrow>
     managerStep sv check srt tk m (st, w)
       (st\<lparr>ms_Triggered := rest, ms_Pending := ms_Pending st @ (if q then [pi_Repository cfg] else [])\<rparr>, w')"
| watches: "ms_Pending st = repo # rest \<Longrightarrow> watchStep sv srt tk (ms_Watcher st) (PendingRun repo) w = (Ok wt, w') \<Longrightarrow>
     managerStep sv check srt tk m (st, w) (st\<lparr>ms_Pending := rest, ms_Watcher := wt\<rparr>, w')"
| ticks: "wt_armed (ms_Watcher st) \<Longrightarrow> watchStep sv srt tk (ms_Watcher st) (TimerFired ord) w = (Ok wt, w') \<Longrightarrow>
     managerStep sv check srt tk m (st, w) (st\<lparr>ms_Watcher := wt\<rparr>, w')"
| bootLists: "bootRepos sv (rc_Project (pm_Receiver m)) w = (Ok repos, w') \<Longrightarrow>
     managerStep sv check srt tk m (st, w) (st\<lparr>ms_Boot := repos\<rparr>, w')"
| bootSends: "ms_Boot st = repo # rest \<Longrightarrow> length (ms_Pending st) < channelBufferSize \<Longrightarrow>
     managerStep sv check srt tk m (st, w) (st\<lparr>ms_Boot := rest, ms_Pending := ms_Pending st @ [repo]\<rparr>, w)"

inductive managerReachable ::
  "services \<Rightarrow> signatureCheck \<Rightarrow> (pipelineRun list \<Rightarrow> pipelineRun list) \<Rightarrow> runMethods \<Rightarrow> pipelineManager \<Rightarrow>
     world \<Rightarrow> managerState \<times> world \<Rightarrow> bool"
  for sv check srt tk m w0 where
  booted: "managerReachable sv check srt tk m w0 (managerStart m, w0)"
| stepped: "managerReachable sv check srt tk m w0 s \<Longrightarrow> managerStep sv check srt tk m s s' \<Longrightarrow>
     managerReachable sv check srt tk m w0 s'"

section \<open>Facts\<close>

text \<open>Calls made without creating a run.\<close>

definition quietly :: "world \<Rightarrow> world \<Rightarrow> bool" where
  "quietly w w' \<longleftrightarrow> (\<exists>cs. adds w cs w' \<and> quiet cs)"

interpretation qt: step_relation quietly
proof
  show "quietly w w" for w unfolding quietly_def by (intro exI [of _ "[]"]) simp
  show "quietly w w' \<Longrightarrow> quietly w' w'' \<Longrightarrow> quietly w w''" for w w' w''
    unfolding quietly_def by (metis adds_trans quiet_simps(3))
qed

lemma quiet_perform: "\<not> isRunCreation c \<Longrightarrow> preserves quietly (perform c f)"
  unfolding preserves_def quietly_def
  by (intro allI exI [of _ "[c]"]) (auto simp: perform_def adds_def split: sum.split)

lemma quiet_Handle: "preserves quietly (Handle sv check s r)"
proof -
  have "bitbucketRead c \<Longrightarrow> \<not> isRunCreation c" for c
    by (cases c) (simp_all add: bitbucketRead_def isRunCreation_def)
  then have "asks w w' \<Longrightarrow> quietly w w'" for w w'
    unfolding asks_def quietly_def quiet_def list_all_iff by blast
  with ask_Handle show ?thesis unfolding preserves_def by blast
qed

lemma quiet_muxHandle: "preserves quietly (muxHandle sv check m path r)"
  unfolding muxHandle_def health_def httpError_def by (intro qt.rules quiet_Handle)

lemma quiet_watchStep: "preserves quietly (watchStep sv srt tk wt ev)"
proof -
  have "preserves quietly (advanceQueue sv srt tk q)" for q
    unfolding advanceQueue_def listPipelineRuns_def Let_def
    by (intro qt.rules quiet_perform) (simp_all add: isRunCreation_def)
  then have "preserves quietly (advanceActive sv srt tk qs q)" for qs q
    unfolding advanceActive_def by (intro qt.rules)
  then show ?thesis unfolding watchStep_def by (cases ev) (auto intro!: qt.rules)
qed

lemma quiet_bootRepos: "preserves quietly (bootRepos sv project)"
  unfolding bootRepos_def GetRepoNames_def
  by (intro qt.rules quiet_perform) (simp add: isRunCreation_def)

lemma requireEnvVar_Ok: "requireEnvVar v w = (Ok x, w') \<longleftrightarrow> w' = w \<and> x = w_getenv w v \<and> x \<noteq> []"
  by (auto simp: requireEnvVar_def prog_simps bindP_def)

lemma readers_state:
  "readStringFromEnvVar v d w = (Ok x, w') \<Longrightarrow> w' = w"
  "readIntFromEnvVar v i w = (Ok n, w') \<Longrightarrow> w' = w"
  "getFileContent f w = (Ok c, w') \<Longrightarrow> w' = w"
  "newClient r ns w = (Ok u, w') \<Longrightarrow> w' = w"
  by (auto simp: readStringFromEnvVar_def readIntFromEnvVar_def getFileContent_def newClient_def prog_simps bindP_def liftE_def
      split: option.splits if_splits sum.splits dest: readFile_state)

lemma serve_Ok:
  assumes "serve sv tektonNew w = (Ok m, w')"
  shows "w' = w \<and> w_getenv w ''WEBHOOK_SECRET'' \<noteq> [] \<and>
    rc_WebhookSecret (pm_Receiver m) = w_getenv w ''WEBHOOK_SECRET'' \<and> rc_RepoBase (pm_Receiver m) = w_getenv w ''REPO_BASE''"
  using assms unfolding serve_def Let_def
  by (auto simp: requireEnvVar_Ok ret_def webhookSecretEnvVar_def repoBaseEnvVar_def elim!: bindP_OkE dest!: readers_state)

text \<open>
  What is true of a running manager: the configurations on their way to the scheduler, and those
  of the runs created since it booted, were sent for requests that carried a valid signature.
\<close>

definition vouched :: "signatureCheck \<Rightarrow> pipelineManager \<Rightarrow> httpRequest list \<Rightarrow> pipelineConfig \<Rightarrow> bool" where
  "vouched check m rs cfg \<longleftrightarrow> (\<exists>r\<in>set rs. authenticated check (pm_Receiver m) r cfg)"

definition managerInv :: "signatureCheck \<Rightarrow> pipelineManager \<Rightarrow> world \<Rightarrow> managerState \<times> world \<Rightarrow> bool" where
  "managerInv check m w0 = (\<lambda>(st, w). length (ms_Triggered st) \<le> channelBufferSize \<and> length (ms_Pending st) \<le> channelBufferSize \<and>
     (\<forall>cfg\<in>set (ms_Triggered st). vouched check m (ms_Received st) cfg) \<and>
     (\<exists>cs. w_trace w = w_trace w0 @ cs \<and>
       (\<forall>run. CCreatePipelineRun run \<in> set cs \<longrightarrow>
          (\<exists>cfg ls q. vouched check m (ms_Received st) cfg \<and> pipelineLabels cfg = Some ls \<and> run = newPipelineRun cfg ls q))))"

lemma vouched_more: "vouched check m rs cfg \<Longrightarrow> vouched check m (r # rs) cfg"
  by (auto simp: vouched_def)

lemma quietly_trace: "preserves quietly p \<Longrightarrow> p w = (x, w') \<Longrightarrow> \<exists>cs. w_trace w' = w_trace w @ cs \<and> quiet cs"
  by (drule preservesD) (auto simp: quietly_def adds_def)

text \<open>A step that makes no run and adds no configuration keeps the invariant.\<close>

lemma managerInv_quiet:
  assumes "managerInv check m w0 (st, w)" "w_trace w' = w_trace w @ cs" "quiet cs"
    and "set (ms_Triggered st') \<subseteq> set (ms_Triggered st)" "set (ms_Received st) \<subseteq> set (ms_Received st')"
    and "length (ms_Triggered st') \<le> channelBufferSize" "length (ms_Pending st') \<le> channelBufferSize"
  shows "managerInv check m w0 (st', w')"
proof -
  have more: "vouched check m (ms_Received st') cfg" if "vouched check m (ms_Received st) cfg" for cfg
    using that assms(5) by (auto simp: vouched_def)
  from assms(1) obtain ds where ds: "w_trace w = w_trace w0 @ ds"
    "\<And>run. CCreatePipelineRun run \<in> set ds \<Longrightarrow>
       \<exists>cfg ls q. vouched check m (ms_Received st) cfg \<and> pipelineLabels cfg = Some ls \<and> run = newPipelineRun cfg ls q"
    by (auto simp: managerInv_def)
  have "CCreatePipelineRun run \<notin> set cs" for run
    using assms(3) by (auto simp: quiet_def isRunCreation_def)
  then have "\<forall>run. CCreatePipelineRun run \<in> set (ds @ cs) \<longrightarrow>
       (\<exists>cfg ls q. vouched check m (ms_Received st') cfg \<and> pipelineLabels cfg = Some ls \<and> run = newPipelineRun cfg ls q)"
    using ds(2) more by fastforce
  moreover have "\<forall>cfg\<in>set (ms_Triggered st'). vouched check m (ms_Received st') cfg"
    using assms(1,4) more by (auto simp: managerInv_def)
  ultimately show ?thesis
    using assms(2,6,7) ds(1) unfolding managerInv_def by (intro case_prodI conjI exI [of _ "ds @ cs"]) simp_all
qed

lemma managerInv_bounds:
  "managerInv check m w0 (st, w) \<Longrightarrow> length (ms_Triggered st) \<le> channelBufferSize"
  "managerInv check m w0 (st, w) \<Longrightarrow> length (ms_Pending st) \<le> channelBufferSize"
  by (simp_all add: managerInv_def)

lemma muxHandle_Sent:
  assumes "muxHandle sv check m path r w = (Ok h, w')" "hd_Sent h = Some cfg"
  shows "authenticated check (pm_Receiver m) r cfg"
proof -
  from assms have "Handle sv check (pm_Receiver m) r w = (Ok h, w')"
    by (auto simp: muxHandle_def health_def prog_simps split: if_splits dest: httpError_Sent)
  from Handle_authenticated [OF this assms(2)] show ?thesis .
qed

lemma inv_request:
  assumes inv: "managerInv check m w0 (st, w)" and h: "muxHandle sv check m path r w = (Ok h, w')"
    and room: "hd_Sent h \<noteq> None \<longrightarrow> length (ms_Triggered st) < channelBufferSize"
  shows "managerInv check m w0 (st\<lparr>ms_Triggered := ms_Triggered st @ (case hd_Sent h of None \<Rightarrow> [] | Some cfg \<Rightarrow> [cfg]),
     ms_Received := r # ms_Received st\<rparr>, w')"
proof -
  obtain cs where cs: "w_trace w' = w_trace w @ cs" "quiet cs" using quietly_trace [OF quiet_muxHandle h] by blast
  have "managerInv check m w0 (st\<lparr>ms_Received := r # ms_Received st\<rparr>, w')"
    by (rule managerInv_quiet [OF inv cs]) (use managerInv_bounds [OF inv] in auto)
  moreover have "vouched check m (r # ms_Received st) cfg" if "hd_Sent h = Some cfg" for cfg
    using muxHandle_Sent [OF h that] by (auto simp: vouched_def)
  ultimately show ?thesis using room by (cases "hd_Sent h") (auto simp: managerInv_def)
qed

lemma inv_schedules:
  assumes inv: "managerInv check m w0 (st, w)" and t: "ms_Triggered st = cfg # rest"
    and s: "schedule sv tk (pm_Scheduler m) cfg w = (Ok q, w')" and room: "q \<longrightarrow> length (ms_Pending st) < channelBufferSize"
  shows "managerInv check m w0 (st\<lparr>ms_Triggered := rest, ms_Pending := ms_Pending st @ (if q then [pi_Repository cfg] else [])\<rparr>, w')"
    (is "managerInv check m w0 (?st, w')")
proof -
  have b: "length (ms_Triggered ?st) \<le> channelBufferSize" "length (ms_Pending ?st) \<le> channelBufferSize"
    "set (ms_Triggered ?st) \<subseteq> set (ms_Triggered st)" "set (ms_Received st) \<subseteq> set (ms_Received ?st)"
    using managerInv_bounds [OF inv] t room by auto
  from schedule_cases [OF s] show ?thesis
  proof (elim disjE conjE exE)
    fix cs assume "adds w cs w'" "quiet cs"
    with managerInv_quiet [OF inv _ _ b(3,4,1,2)] show ?thesis by (simp add: adds_trace)
  next
    fix cs ls runs
    let ?l = "CListPipelineRuns [(repositoryLabel, pi_Repository cfg)]" and ?r = "newPipelineRun cfg ls (needsQueueing tk runs)"
    assume a: "adds w (cs @ [?l, CCreatePipelineRun ?r]) w'" "quiet cs" "pipelineLabels cfg = Some ls"
    have "managerInv check m w0 (?st, w\<lparr>w_trace := w_trace w @ cs @ [?l]\<rparr>)"
      by (rule managerInv_quiet [OF inv, where cs = "cs @ [?l]"]) (use a(2) b in \<open>simp_all add: isRunCreation_def\<close>)
    then obtain ds where ds: "w_trace w @ cs @ [?l] = w_trace w0 @ ds"
      "\<forall>run. CCreatePipelineRun run \<in> set ds \<longrightarrow>
         (\<exists>cfg ls q. vouched check m (ms_Received ?st) cfg \<and> pipelineLabels cfg = Some ls \<and> run = newPipelineRun cfg ls q)"
      and v: "\<forall>cfg\<in>set (ms_Triggered ?st). vouched check m (ms_Received ?st) cfg"
      by (auto simp: managerInv_def)
    have "vouched check m (ms_Received ?st) cfg" using inv t by (simp add: managerInv_def)
    with a(3) have "\<exists>cfg ls q. vouched check m (ms_Received ?st) cfg \<and> pipelineLabels cfg = Some ls \<and> ?r = newPipelineRun cfg ls q"
      by blast
    with ds(2) have "\<forall>run. CCreatePipelineRun run \<in> set (ds @ [CCreatePipelineRun ?r]) \<longrightarrow>
         (\<exists>cfg ls q. vouched check m (ms_Received ?st) cfg \<and> pipelineLabels cfg = Some ls \<and> run = newPipelineRun cfg ls q)"
      by (simp only: set_append list.set Un_iff insert_iff empty_iff call.inject simp_thms) blast
    moreover have "w_trace w' = w_trace w0 @ ds @ [CCreatePipelineRun ?r]"
      using a(1) ds(1) by (simp add: adds_trace flip: append_assoc) 
    ultimately show ?thesis using b v unfolding managerInv_def by (intro case_prodI conjI exI [of _ "ds @ [CCreatePipelineRun ?r]"])
  qed
qed

lemma managerStep_inv:
  assumes "managerStep sv check srt tk m s s'" "managerInv check m w0 s"
  shows "managerInv check m w0 s'"
  using assms
proof cases
  case (request path r w h w' st)
  with assms(2) inv_request show ?thesis by blast
next
  case (requestPanics path r w e w' st)
  with quietly_trace [OF quiet_muxHandle] obtain cs where cs: "w_trace w' = w_trace w @ cs" "quiet cs" by blast
  from assms(2) requestPanics(1) have inv: "managerInv check m w0 (st, w)" by simp
  show ?thesis unfolding requestPanics(2)
    by (rule managerInv_quiet [OF inv cs]) (use managerInv_bounds [OF inv] in auto)
next
  case (schedules st cfg rest w q w')
  with assms(2) inv_schedules show ?thesis by blast
next
  case (watches st repo rest w wt w')
  with quietly_trace [OF quiet_watchStep] obtain cs where "w_trace w' = w_trace w @ cs" "quiet cs" by blast
  with watches assms(2) managerInv_quiet [of check m w0 st w w' cs] managerInv_bounds [of check m w0 st w] show ?thesis by auto
next
  case (ticks st ord w wt w')
  with quietly_trace [OF quiet_watchStep] obtain cs where "w_trace w' = w_trace w @ cs" "quiet cs" by blast
  with ticks assms(2) managerInv_quiet [of check m w0 st w w' cs] managerInv_bounds [of check m w0 st w] show ?thesis by auto
next
  case (bootLists w repos w' st)
  with quietly_trace [OF quiet_bootRepos] obtain cs where "w_trace w' = w_trace w @ cs" "quiet cs" by blast
  with bootLists assms(2) managerInv_quiet [of check m w0 st w w' cs] managerInv_bounds [of check m w0 st w] show ?thesis by auto
next
  case (bootSends st repo rest w)
  with assms(2) managerInv_quiet [of check m w0 st w w "[]"] managerInv_bounds [of check m w0 st w] show ?thesis by auto
qed

lemma managerReachable_inv:
  "managerReachable sv check srt tk m w0 s \<Longrightarrow> managerInv check m w0 s"
proof (induction rule: managerReachable.induct)
  case booted
  then show ?case by (simp add: managerInv_def managerStart_def)
next
  case (stepped s s')
  then show ?case using managerStep_inv by blast
qed

section \<open>Properties\<close>


text \<open>The manager boots in namespace \<open>foo-cd\<close>, takes the example request, and the scheduler creates its run.\<close>

definition managerServices :: services where
  "managerServices = receiveServices\<lparr>sv_KubeNew := (\<lambda>_. Inr ()), sv_QuantityValid := (\<lambda>s. True),
      sv_CreatePipeline := (\<lambda>h p. Inr p), sv_CreatePVC := (\<lambda>h v. Inr v), sv_GetPVC := (\<lambda>h n. Inl (True, ''not found'')),
      sv_ListPipelineRuns := (\<lambda>h ls. Inr []), sv_CreatePipelineRun := (\<lambda>h r. Inr r)\<rparr>"

definition managerWorld :: world where
  "managerWorld = emptyWorld\<lparr>
     w_root := Dir [(''var'', Dir [(''run'', Dir [(''secrets'', Dir [(''kubernetes.io'', Dir [(''serviceaccount'',
       Dir [(''namespace'', File ''foo-cd'' 0)])])])])])],
     w_getenv := (\<lambda>v. if v = ''REPO_BASE'' then ''https://b.org/scm'' else if v = ''ACCESS_TOKEN'' then ''t''
       else if v = ''WEBHOOK_SECRET'' then ''s3cr3t'' else [])\<rparr>"

definition exampleManager :: pipelineManager where
  "exampleManager = \<lparr>pm_Scheduler = \<lparr>sc_TaskKind = ''Task'', sc_TaskSuffix = [],
       sc_StorageConfig = \<lparr>st_Provisioner = [], st_ClassName = ''standard'', st_Size = ''2Gi''\<rparr>\<rparr>,
     pm_Pruner = prunerStart 48 20, pm_Watcher = watcherStart, pm_Receiver = exampleReceiver,
     pm_Bitbucket = \<lparr>bc_APIToken = ''t'', bc_BaseURL = ''https://b.org''\<rparr>\<rparr>"

lemma serve_example: "serve managerServices (Inr ()) managerWorld = (Ok exampleManager, managerWorld)"
proof -
  have "contentAt namespaceFile managerWorld = Some ''foo-cd''" by code_simp
  then have "getFileContent namespaceFile managerWorld = (Ok ''foo-cd'', managerWorld)"
    by (simp add: getFileContent_def readFile_contentAt)
  moreover have "TrimSuffix ''foo-cd'' namespaceSuffix = ''foo''" "TrimSuffix ''https://b.org/scm'' ''/scm'' = ''https://b.org''"
    by code_simp+
  ultimately show ?thesis
    by (simp add: serve_def requireEnvVar_def readStringFromEnvVar_def readIntFromEnvVar_def newClient_def gets_def
        bindP_def [of "\<lambda>w. (Ok (w_getenv w), w)"] managerWorld_def [THEN arg_cong [where f = w_getenv], simplified]
        managerServices_def repoBaseEnvVar_def tokenEnvVar_def webhookSecretEnvVar_def Let_def ret_def
        exampleManager_def exampleReceiver_def pruneMinKeepHoursDefault_def pruneMaxKeepRunsDefault_def)
qed

lemma schedule_example:
  fixes cfg :: pipelineConfig
  shows "\<exists>w' cs ls. schedule managerServices tk (pm_Scheduler exampleManager) cfg w = (Ok False, w') \<and>
     w_trace w' = w_trace w @ cs \<and> CCreatePipelineRun (newPipelineRun cfg ls False) \<in> set cs"
proof -
  obtain np where "assemblePipeline cfg (sc_TaskKind (pm_Scheduler exampleManager)) (sc_TaskSuffix (pm_Scheduler exampleManager)) = Some np"
    using assemblePipeline_defined by blast
  moreover obtain ls where "pipelineLabels cfg = Some ls" using pipelineLabels_defined by blast
  moreover have "\<not> needsQueueing tk []" by (simp add: needsQueueing_def)
  ultimately show ?thesis
    by (simp add: schedule_def orFalse_def createOrUpdatePipeline_def createPVCIfRequired_def listPipelineRuns_def
        createPipelineRun_def Let_def managerServices_def receiveServices_def repoServices_def noServices_def perform_def query_def attempt_def
        bindP_def prog_simps exampleManager_def) blast
qed

lemma mux_example:
  obtains h w' cfg where
    "muxHandle managerServices (\<lambda>sig body secret. Inr ()) exampleManager ''/bitbucket'' exampleRequest managerWorld = (Ok h, w')"
    "hd_Sent h = Some cfg"
proof -
  let ?m = "muxHandle managerServices (\<lambda>sig body secret. Inr ()) exampleManager ''/bitbucket'' exampleRequest managerWorld"
  have "case fst ?m of Ok h \<Rightarrow> hd_Sent h \<noteq> None | _ \<Rightarrow> False" by code_simp
  then show ?thesis using that by (cases ?m) (auto split: outcome.splits)
qed


end
