(* ===== verification/QueueSystem.thy ===== *)
theory QueueSystem
  imports Watch
begin

text \<open>
  Scheduler and watcher against one cluster.  Each of the two goroutines first lists the runs of a
  repository and then acts on what it saw; in between, the other goroutine, Tekton and users act
  too.  The cluster keeps the runs, gives every version of a run a fresh resource version and
  refuses updates of a version that is no longer the stored one.
\<close>

section \<open>Steps\<close>

record system =
  sy_Runs :: "pipelineRun list"
  sy_Issued :: "(string \<times> string) set"
  sy_Scheduler :: "(pipelineConfig \<times> pipelineRun list) option"
  sy_Watcher :: "(string \<times> pipelineRun list) option"

definition runKey :: "pipelineRun \<Rightarrow> string \<times> string" where
  "runKey r = (pr_Name r, pr_ResourceVersion r)"

definition runsOf :: "string \<Rightarrow> pipelineRun list \<Rightarrow> pipelineRun list" where
  "runsOf repo = filter (\<lambda>r. map_of (pr_Labels r) repositoryLabel = Some repo)"

text \<open>
  What others may do: delete runs, and store new versions of runs.  They do not relabel runs, do
  not create or suspend runs of the pipeline manager, and a run that is not in progress does not
  start by itself.
\<close>

definition outsideChange :: "runMethods \<Rightarrow> (string \<times> string) set \<Rightarrow> pipelineRun list \<Rightarrow> pipelineRun list \<Rightarrow> bool" where
  "outsideChange tk issued rs rs' \<longleftrightarrow> distinct (map pr_Name rs') \<and>
     (\<forall>r'\<in>set rs'. r' \<in> set rs \<or>
        (\<exists>r\<in>set rs. pr_Name r' = pr_Name r \<and> pr_Labels r' = pr_Labels r \<and> runKey r' \<notin> issued \<and>
           \<not> tk_IsPending tk r' \<and> (pipelineRunIsProgressing tk r' \<longrightarrow> pipelineRunIsProgressing tk r)))"

inductive systemStep ::
  "runMethods \<Rightarrow> (pipelineRun list \<Rightarrow> pipelineRun list) \<Rightarrow> system \<Rightarrow> system \<Rightarrow> bool"
  for tk srt where
  schedulerLists: "sy_Scheduler s = None \<Longrightarrow> mset items = mset (runsOf (pi_Repository p) (sy_Runs s)) \<Longrightarrow>
     systemStep tk srt s (s\<lparr>sy_Scheduler := Some (p, items)\<rparr>)"
| schedulerCreates: "sy_Scheduler s = Some (p, items) \<Longrightarrow> pipelineLabels p = Some ls \<Longrightarrow>
     name \<notin> pr_Name ` set (sy_Runs s) \<Longrightarrow> (name, version) \<notin> sy_Issued s \<Longrightarrow>
     r = (newPipelineRun p ls (needsQueueing tk items))\<lparr>pr_Name := name, pr_ResourceVersion := version, pr_CreationTimestamp := t\<rparr> \<Longrightarrow>
     systemStep tk srt s (s\<lparr>sy_Runs := sy_Runs s @ [r], sy_Issued := insert (name, version) (sy_Issued s), sy_Scheduler := None\<rparr>)"
| schedulerFails: "systemStep tk srt s (s\<lparr>sy_Scheduler := None\<rparr>)"
| watcherLists: "sy_Watcher s = None \<Longrightarrow> mset items = mset (runsOf q (sy_Runs s)) \<Longrightarrow>
     systemStep tk srt s (s\<lparr>sy_Watcher := Some (q, items)\<rparr>)"
| watcherStarts: "sy_Watcher s = Some (q, items) \<Longrightarrow> advanceDecision srt tk items = (Some pr, n) \<Longrightarrow>
     sy_Runs s = before @ stored # after \<Longrightarrow> runKey stored = runKey pr \<Longrightarrow> (pr_Name pr, version) \<notin> sy_Issued s \<Longrightarrow>
     systemStep tk srt s (s\<lparr>sy_Runs := before @ pr\<lparr>pr_SpecStatus := [], pr_ResourceVersion := version\<rparr> # after,
       sy_Issued := insert (pr_Name pr, version) (sy_Issued s), sy_Watcher := None\<rparr>)"
| watcherWaits: "systemStep tk srt s (s\<lparr>sy_Watcher := None\<rparr>)"
| others: "outsideChange tk (sy_Issued s) (sy_Runs s) rs \<Longrightarrow>
     systemStep tk srt s (s\<lparr>sy_Runs := rs, sy_Issued := sy_Issued s \<union> runKey ` set rs\<rparr>)"

definition emptySystem :: system where
  "emptySystem = \<lparr>sy_Runs = [], sy_Issued = {}, sy_Scheduler = None, sy_Watcher = None\<rparr>"

inductive reachable :: "runMethods \<Rightarrow> (pipelineRun list \<Rightarrow> pipelineRun list) \<Rightarrow> system \<Rightarrow> bool"
  for tk srt where
  start: "reachable tk srt emptySystem"
| step: "reachable tk srt s \<Longrightarrow> systemStep tk srt s s' \<Longrightarrow> reachable tk srt s'"

section \<open>The invariant\<close>

definition progressingRuns :: "runMethods \<Rightarrow> string \<Rightarrow> system \<Rightarrow> pipelineRun list" where
  "progressingRuns tk q s = filter (pipelineRunIsProgressing tk) (runsOf q (sy_Runs s))"

definition busy :: "runMethods \<Rightarrow> string \<Rightarrow> system \<Rightarrow> bool" where
  "busy tk q s \<longleftrightarrow> (\<exists>r\<in>set (runsOf q (sy_Runs s)). tk_IsPending tk r \<or> pipelineRunIsProgressing tk r)"

text \<open>
  Runs are stored once and their versions were issued; at most one run of a repository is in
  progress; if the scheduler saw a repository that is not busy, it is not busy; what the watcher
  saw is either outdated or still stored, and if it decided to start a run that is still stored,
  then no run is in progress.
\<close>

definition queueInv :: "runMethods \<Rightarrow> (pipelineRun list \<Rightarrow> pipelineRun list) \<Rightarrow> system \<Rightarrow> bool" where
  "queueInv tk srt s \<longleftrightarrow>
     distinct (map pr_Name (sy_Runs s)) \<and> runKey ` set (sy_Runs s) \<subseteq> sy_Issued s \<and>
     (\<forall>q. length (progressingRuns tk q s) \<le> 1) \<and>
     (\<forall>p items. sy_Scheduler s = Some (p, items) \<and> \<not> needsQueueing tk items \<longrightarrow> \<not> busy tk (pi_Repository p) s) \<and>
     (\<forall>q items. sy_Watcher s = Some (q, items) \<longrightarrow>
        (\<forall>i\<in>set items. runKey i \<in> sy_Issued s \<and> map_of (pr_Labels i) repositoryLabel = Some q \<and>
           (\<forall>r\<in>set (sy_Runs s). runKey r = runKey i \<longrightarrow> r = i)) \<and>
        (\<forall>pr n. advanceDecision srt tk items = (Some pr, n) \<and> pr \<in> set (sy_Runs s) \<longrightarrow> progressingRuns tk q s = []))"

lemma runsOf_simps [simp]:
  "runsOf q [] = []"
  "runsOf q (rs @ rs') = runsOf q rs @ runsOf q rs'"
  "runsOf q (r # rs) = (if map_of (pr_Labels r) repositoryLabel = Some q then r # runsOf q rs else runsOf q rs)"
  "set (runsOf q rs) = {r \<in> set rs. map_of (pr_Labels r) repositoryLabel = Some q}"
  by (auto simp: runsOf_def)

lemma needsQueueing_busy:
  assumes "pendingLaw tk" and "mset items = mset (runsOf q (sy_Runs s))"
  shows "needsQueueing tk items \<longleftrightarrow> busy tk q s"
  using mset_eq_setD [OF assms(2)] assms(1) by (auto simp: needsQueueing_def busy_def list_ex_iff pendingLaw_def)

lemma idle_progressing: "\<not> busy tk q s \<Longrightarrow> progressingRuns tk q s = []"
  by (auto simp: busy_def progressingRuns_def filter_empty_conv)

lemma at_most_one:
  assumes "distinct xs" "\<And>x y. x \<in> set xs \<Longrightarrow> y \<in> set xs \<Longrightarrow> x = y"
  shows "length xs \<le> 1"
proof (cases xs)
  case (Cons x ys)
  have "ys = []"
  proof (rule ccontr)
    assume "ys \<noteq> []"
    then have "hd ys \<in> set ys" by simp
    with assms(2) [of x "hd ys"] Cons have "x \<in> set ys" by simp
    with assms(1) Cons show False by simp
  qed
  with Cons show ?thesis by simp
qed simp

lemma at_most_oneD: "length xs \<le> 1 \<Longrightarrow> x \<in> set xs \<Longrightarrow> y \<in> set xs \<Longrightarrow> x = y"
  by (cases xs) auto

lemma progressingRuns_set:
  "r \<in> set (progressingRuns tk q s) \<longleftrightarrow>
     r \<in> set (sy_Runs s) \<and> map_of (pr_Labels r) repositoryLabel = Some q \<and> pipelineRunIsProgressing tk r"
  by (auto simp: progressingRuns_def)

lemma same_name: "distinct (map pr_Name rs) \<Longrightarrow> r \<in> set rs \<Longrightarrow> r' \<in> set rs \<Longrightarrow> pr_Name r = pr_Name r' \<Longrightarrow> r = r'"
  by (auto simp: distinct_map inj_on_def)

lemma progressing_le_1I:
  assumes "distinct (map pr_Name (sy_Runs s))"
    and "\<And>x y. x \<in> set (progressingRuns tk q s) \<Longrightarrow> y \<in> set (progressingRuns tk q s) \<Longrightarrow> pr_Name x = pr_Name y"
  shows "length (progressingRuns tk q s) \<le> 1"
proof (rule at_most_one)
  show "distinct (progressingRuns tk q s)"
    using assms(1) by (simp add: progressingRuns_def runsOf_def distinct_map)
  show "x = y" if "x \<in> set (progressingRuns tk q s)" "y \<in> set (progressingRuns tk q s)" for x y
    using same_name [OF assms(1)] assms(2) [OF that] that by (auto simp: progressingRuns_set)
qed

text \<open>The step of others: whoever is in progress or pending afterwards was before.\<close>

lemma outsideChange_busy:
  assumes "outsideChange tk I (sy_Runs s) rs" and "map_of (pr_Labels r') repositoryLabel = Some q" and "r' \<in> set rs"
  shows "pipelineRunIsProgressing tk r' \<Longrightarrow> \<exists>r\<in>set (progressingRuns tk q s). pr_Name r = pr_Name r'"
    and "tk_IsPending tk r' \<Longrightarrow> r' \<in> set (sy_Runs s)"
  using assms unfolding outsideChange_def by (force simp: progressingRuns_set)+

lemma queueInv_start: "queueInv tk srt emptySystem"
  by (simp add: queueInv_def emptySystem_def progressingRuns_def)

lemmas queueInv_D = queueInv_def [THEN iffD1, THEN conjunct1]
  queueInv_def [THEN iffD1, THEN conjunct2, THEN conjunct1]
  queueInv_def [THEN iffD1, THEN conjunct2, THEN conjunct2, THEN conjunct1, THEN spec]

lemma inv_scheduler: "queueInv tk srt s \<Longrightarrow> sy_Scheduler s = Some (p, items) \<Longrightarrow> \<not> needsQueueing tk items \<Longrightarrow> \<not> busy tk (pi_Repository p) s"
  by (simp add: queueInv_def)

lemma inv_watcher:
  assumes "queueInv tk srt s" "sy_Watcher s = Some (q, items)"
  shows "i \<in> set items \<Longrightarrow> runKey i \<in> sy_Issued s \<and> map_of (pr_Labels i) repositoryLabel = Some q"
    and "i \<in> set items \<Longrightarrow> r \<in> set (sy_Runs s) \<Longrightarrow> runKey r = runKey i \<Longrightarrow> r = i"
    and "advanceDecision srt tk items = (Some pr, n) \<Longrightarrow> pr \<in> set (sy_Runs s) \<Longrightarrow> progressingRuns tk q s = []"
  using assms by (auto simp: queueInv_def)

lemma inv_schedulerLists:
  assumes "pendingLaw tk" "queueInv tk srt s" "mset items = mset (runsOf (pi_Repository p) (sy_Runs s))"
  shows "queueInv tk srt (s\<lparr>sy_Scheduler := Some (p, items)\<rparr>)"
  using assms(2) needsQueueing_busy [OF assms(1,3)]
  by (auto simp: queueInv_def busy_def progressingRuns_def)

lemma inv_idleSteps:
  assumes "queueInv tk srt s"
  shows "queueInv tk srt (s\<lparr>sy_Scheduler := None\<rparr>)" and "queueInv tk srt (s\<lparr>sy_Watcher := None\<rparr>)"
  using assms by (auto simp: queueInv_def busy_def progressingRuns_def)

lemma inv_watcherLists:
  assumes "desc_sorter srt" "queueInv tk srt s" "mset items = mset (runsOf q (sy_Runs s))"
  shows "queueInv tk srt (s\<lparr>sy_Watcher := Some (q, items)\<rparr>)"
proof -
  from mset_eq_setD [OF assms(3)] have set: "set items = {r \<in> set (sy_Runs s). map_of (pr_Labels r) repositoryLabel = Some q}" by simp
  have "progressingRuns tk q s = []" if "advanceDecision srt tk items = (Some pr, n)" for pr n
    using advanceDecision_Some(4) [OF assms(1) that] set by (auto simp: progressingRuns_def filter_empty_conv)
  moreover have "r = i" if "i \<in> set items" "r \<in> set (sy_Runs s)" "runKey r = runKey i" for i r
    using same_name [OF queueInv_D(1) [OF assms(2)]] that set by (auto simp: runKey_def)
  ultimately show ?thesis using assms(2) set by (auto simp: queueInv_def busy_def progressingRuns_def)
qed

lemma inv_schedulerCreates:
  assumes law: "pendingLaw tk" and sorter: "desc_sorter srt" and inv: "queueInv tk srt s"
    and sch: "sy_Scheduler s = Some (p, items)" and ls: "pipelineLabels p = Some ls"
    and name: "name \<notin> pr_Name ` set (sy_Runs s)" "(name, version) \<notin> sy_Issued s"
    and r: "r = (newPipelineRun p ls (needsQueueing tk items))\<lparr>pr_Name := name, pr_ResourceVersion := version, pr_CreationTimestamp := t\<rparr>"
  shows "queueInv tk srt (s\<lparr>sy_Runs := sy_Runs s @ [r], sy_Issued := insert (name, version) (sy_Issued s), sy_Scheduler := None\<rparr>)"
proof -
  let ?s = "s\<lparr>sy_Runs := sy_Runs s @ [r], sy_Issued := insert (name, version) (sy_Issued s), sy_Scheduler := None\<rparr>"
  have lab: "map_of (pr_Labels r) repositoryLabel = Some (pi_Repository p)"
    using ls by (auto simp: r newPipelineRun_def pipelineLabels_def)
  have key: "runKey r = (name, version)" "pr_Name r = name" by (simp_all add: runKey_def r)
  have new: "progressingRuns tk q ?s = progressingRuns tk q s @ (if q = pi_Repository p \<and> pipelineRunIsProgressing tk r then [r] else [])" for q
    using lab by (auto simp: progressingRuns_def)
  have idle: "\<not> busy tk (pi_Repository p) s" if "pipelineRunIsProgressing tk r"
  proof -
    from that law have "\<not> needsQueueing tk items"
      by (auto simp: r newPipelineRun_def pendingLaw_def pipelineRunIsProgressing_def split: if_splits)
    with inv_scheduler [OF inv sch] show ?thesis .
  qed
  have one: "length (progressingRuns tk q ?s) \<le> 1" for q
    using new [of q] idle idle_progressing [of tk q s] queueInv_D(3) [OF inv, of q] by (auto split: if_splits)
  have watch: "progressingRuns tk q ?s = []" if w: "sy_Watcher s = Some (q, xs)"
    and d: "advanceDecision srt tk xs = (Some pr, n)" and m: "pr \<in> set (sy_Runs ?s)" for q xs pr n
  proof -
    note f = advanceDecision_Some [OF sorter d]
    from inv_watcher(1) [OF inv w f(1)] name(2) key have "pr \<noteq> r" by auto
    with m have st: "pr \<in> set (sy_Runs s)" by simp
    with inv_watcher(1) [OF inv w f(1)] f(2) have "busy tk q s" by (auto simp: busy_def)
    with idle inv_watcher(3) [OF inv w d st] new [of q] show ?thesis by auto
  qed
  have keys: "x = i" if "sy_Watcher s = Some (q, xs)" "i \<in> set xs" "x \<in> set (sy_Runs ?s)" "runKey x = runKey i" for q xs i x
    using inv_watcher(1,2) [OF inv that(1,2)] that key name(2) by auto
  show ?thesis unfolding queueInv_def
  proof (intro conjI allI impI ballI)
    show "distinct (map pr_Name (sy_Runs ?s))" using queueInv_D(1) [OF inv] name(1) key by simp
    show "runKey ` set (sy_Runs ?s) \<subseteq> sy_Issued ?s" using queueInv_D(2) [OF inv] key by auto
    show "length (progressingRuns tk q ?s) \<le> 1" for q by (rule one)
  qed (use inv_watcher(1) [OF inv] keys watch in \<open>auto\<close>)
qed

lemma watcherStarts_stored:
  assumes "desc_sorter srt" "queueInv tk srt s" "sy_Watcher s = Some (q, items)" "advanceDecision srt tk items = (Some pr, n)"
    and "sy_Runs s = before @ stored # after" "runKey stored = runKey pr"
  shows "stored = pr" "tk_IsPending tk pr" "map_of (pr_Labels pr) repositoryLabel = Some q" "progressingRuns tk q s = []"
proof -
  note f = advanceDecision_Some [OF assms(1,4)]
  show eq: "stored = pr" using inv_watcher(2) [OF assms(2,3) f(1)] assms(5,6) by auto
  show "tk_IsPending tk pr" by (rule f(2))
  show "map_of (pr_Labels pr) repositoryLabel = Some q" using inv_watcher(1) [OF assms(2,3) f(1)] by simp
  show "progressingRuns tk q s = []" using inv_watcher(3) [OF assms(2-4)] assms(5) eq by simp
qed

lemma inv_watcherStarts:
  assumes law: "pendingLaw tk" and sorter: "desc_sorter srt" and inv: "queueInv tk srt s"
    and w: "sy_Watcher s = Some (q, items)" and d: "advanceDecision srt tk items = (Some pr, n)"
    and runs: "sy_Runs s = before @ stored # after" and key: "runKey stored = runKey pr"
    and fresh: "(pr_Name pr, version) \<notin> sy_Issued s"
  shows "queueInv tk srt (s\<lparr>sy_Runs := before @ pr\<lparr>pr_SpecStatus := [], pr_ResourceVersion := version\<rparr> # after,
       sy_Issued := insert (pr_Name pr, version) (sy_Issued s), sy_Watcher := None\<rparr>)"
proof -
  let ?r = "pr\<lparr>pr_SpecStatus := [], pr_ResourceVersion := version\<rparr>"
  let ?s = "s\<lparr>sy_Runs := before @ ?r # after, sy_Issued := insert (pr_Name pr, version) (sy_Issued s), sy_Watcher := None\<rparr>"
  note st = watcherStarts_stored [OF sorter inv w d runs key]
  have old: "sy_Runs s = before @ pr # after" using runs st(1) by simp
  have np: "\<not> pipelineRunIsProgressing tk pr" using st(2) by (simp add: pipelineRunIsProgressing_def)
  have mem: "x \<in> set (progressingRuns tk q' ?s) \<Longrightarrow> x \<in> set (progressingRuns tk q' s) \<or> x = ?r \<and> q' = q" for x q'
    using old st(3) by (auto simp: progressingRuns_set)
  have names: "distinct (map pr_Name (sy_Runs ?s))" using queueInv_D(1) [OF inv] old by simp
  have one: "length (progressingRuns tk q' ?s) \<le> 1" for q'
  proof (rule progressing_le_1I [OF names])
    fix x y assume "x \<in> set (progressingRuns tk q' ?s)" "y \<in> set (progressingRuns tk q' ?s)"
    with mem [of x q'] mem [of y q'] st(4) at_most_oneD [OF queueInv_D(3) [OF inv, of q'], of x y]
    show "pr_Name x = pr_Name y" by auto
  qed
  have sch: "\<not> busy tk (pi_Repository p) ?s" if "sy_Scheduler s = Some (p, xs)" "\<not> needsQueueing tk xs" for p xs
  proof -
    from inv_scheduler [OF inv that] have nb: "\<not> busy tk (pi_Repository p) s" .
    with st(2,3) old have "pi_Repository p \<noteq> q" by (auto simp: busy_def)
    with nb old st(3) show ?thesis by (auto simp: busy_def)
  qed
  show ?thesis unfolding queueInv_def
  proof (intro conjI allI impI ballI)
    show "distinct (map pr_Name (sy_Runs ?s))" by (rule names)
    show "runKey ` set (sy_Runs ?s) \<subseteq> sy_Issued ?s" using queueInv_D(2) [OF inv] old by (auto simp: runKey_def)
    show "length (progressingRuns tk q' ?s) \<le> 1" for q' by (rule one)
  qed (use sch in \<open>auto\<close>)
qed

lemma inv_others:
  assumes law: "pendingLaw tk" and sorter: "desc_sorter srt" and inv: "queueInv tk srt s"
    and out: "outsideChange tk (sy_Issued s) (sy_Runs s) rs"
  shows "queueInv tk srt (s\<lparr>sy_Runs := rs, sy_Issued := sy_Issued s \<union> runKey ` set rs\<rparr>)"
proof -
  let ?s = "s\<lparr>sy_Runs := rs, sy_Issued := sy_Issued s \<union> runKey ` set rs\<rparr>"
  have names: "distinct (map pr_Name rs)" using out by (simp add: outsideChange_def)
  have earlier: "\<exists>r\<in>set (progressingRuns tk q s). pr_Name r = pr_Name x" if "x \<in> set (progressingRuns tk q ?s)" for x q
    using outsideChange_busy(1) [OF out, of x q] that by (auto simp: progressingRuns_set)
  have none: "progressingRuns tk q s = [] \<Longrightarrow> progressingRuns tk q ?s = []" for q
    using earlier [of "hd (progressingRuns tk q ?s)" q] by (cases "progressingRuns tk q ?s") auto
  have one: "length (progressingRuns tk q ?s) \<le> 1" for q
  proof (rule progressing_le_1I)
    fix x y assume "x \<in> set (progressingRuns tk q ?s)" "y \<in> set (progressingRuns tk q ?s)"
    then obtain a b where "a \<in> set (progressingRuns tk q s)" "pr_Name a = pr_Name x"
      "b \<in> set (progressingRuns tk q s)" "pr_Name b = pr_Name y" using earlier by metis
    with at_most_oneD [OF queueInv_D(3) [OF inv, of q], of a b] show "pr_Name x = pr_Name y" by simp
  qed (simp add: names)
  have notbusy: "\<not> busy tk q ?s" if "\<not> busy tk q s" for q
    using that none [OF idle_progressing [OF that]] outsideChange_busy(2) [OF out]
    by (auto simp: busy_def progressingRuns_def filter_empty_conv)
  have old: "x \<in> set (sy_Runs s)" if "x \<in> set rs" "runKey x \<in> sy_Issued s" for x
    using out that by (auto simp: outsideChange_def)
  have keys: "x = i" if "sy_Watcher s = Some (q, xs)" "i \<in> set xs" "x \<in> set rs" "runKey x = runKey i" for q xs i x
    using inv_watcher(1,2) [OF inv that(1,2)] old [OF that(3)] that(4) by auto
  have watch: "progressingRuns tk q ?s = []" if w: "sy_Watcher s = Some (q, xs)"
    and d: "advanceDecision srt tk xs = (Some pr, n)" and m: "pr \<in> set rs" for q xs pr n
    using none inv_watcher(3) [OF inv w d] old [OF m] inv_watcher(1) [OF inv w advanceDecision_Some(1) [OF sorter d]] by blast
  show ?thesis unfolding queueInv_def
  proof (intro conjI allI impI ballI)
    show "distinct (map pr_Name (sy_Runs ?s))" using names by simp
    show "length (progressingRuns tk q ?s) \<le> 1" for q by (rule one)
    show "\<not> busy tk (pi_Repository p) ?s" if "sy_Scheduler ?s = Some (p, xs) \<and> \<not> needsQueueing tk xs" for p xs
      using that inv_scheduler [OF inv] notbusy by auto
  qed (use inv_watcher(1) [OF inv] keys watch in \<open>auto\<close>)
qed

lemma inv_step:
  assumes "pendingLaw tk" "desc_sorter srt" "systemStep tk srt s s'" "queueInv tk srt s"
  shows "queueInv tk srt s'"
  using assms(3,4)
proof cases
  case (schedulerLists items p)
  with inv_schedulerLists [OF assms(1,4)] show ?thesis by blast
next
  case (schedulerCreates p items ls name version r t)
  with inv_schedulerCreates [OF assms(1,2,4)] show ?thesis by blast
next
  case schedulerFails
  with inv_idleSteps(1) [OF assms(4)] show ?thesis by blast
next
  case (watcherLists items q)
  with inv_watcherLists [OF assms(2,4)] show ?thesis by blast
next
  case (watcherStarts q items pr n before stored after version)
  with inv_watcherStarts [OF assms(1,2,4)] show ?thesis by blast
next
  case watcherWaits
  with inv_idleSteps(2) [OF assms(4)] show ?thesis by blast
next
  case (others rs)
  with inv_others [OF assms(1,2,4)] show ?thesis by blast
qed

lemma reachable_inv:
  assumes "pendingLaw tk" "desc_sorter srt" "reachable tk srt s"
  shows "queueInv tk srt s"
  using assms(3) by induction (auto intro: queueInv_start inv_step [OF assms(1,2)])

section \<open>Refinement\<close>

text \<open>
  What a user of the pipeline manager relies on: per repository, a queue of waiting runs and a
  flag whether a run is in progress.
\<close>

record queue =
  qu_running :: bool
  qu_waiting :: "string set"

text \<open>
  A new run starts at once only if nothing runs and nothing waits; a waiting run starts only
  if nothing runs; runs end and waiting runs are withdrawn at any time.
\<close>

inductive queueStep :: "queue \<Rightarrow> queue \<Rightarrow> bool" where
  arrive: "n \<notin> qu_waiting q \<Longrightarrow> queueStep q (q\<lparr>qu_waiting := insert n (qu_waiting q)\<rparr>)"
| arriveIdle: "\<not> qu_running q \<Longrightarrow> qu_waiting q = {} \<Longrightarrow> queueStep q (q\<lparr>qu_running := b\<rparr>)"
| advance: "\<not> qu_running q \<Longrightarrow> n \<in> qu_waiting q \<Longrightarrow> queueStep q \<lparr>qu_running = b, qu_waiting = qu_waiting q - {n}\<rparr>"
| leave: "(b \<longrightarrow> qu_running q) \<Longrightarrow> W \<subseteq> qu_waiting q \<Longrightarrow> queueStep q \<lparr>qu_running = b, qu_waiting = W\<rparr>"

definition absQueue :: "runMethods \<Rightarrow> string \<Rightarrow> system \<Rightarrow> queue" where
  "absQueue tk repo s =
     \<lparr>qu_running = (progressingRuns tk repo s \<noteq> []),
      qu_waiting = pr_Name ` {r \<in> set (runsOf repo (sy_Runs s)). tk_IsPending tk r}\<rparr>"

lemma queueStep_same: "queueStep q q"
proof -
  have "\<lparr>qu_running = qu_running q, qu_waiting = qu_waiting q\<rparr> = q" by simp
  with queueStep.leave [of "qu_running q" q "qu_waiting q"] show ?thesis by simp
qed

lemma absQueue_frame:
  "absQueue tk q (s\<lparr>sy_Scheduler := x\<rparr>) = absQueue tk q s"
  "absQueue tk q (s\<lparr>sy_Watcher := y\<rparr>) = absQueue tk q s"
  "progressingRuns tk q (s\<lparr>sy_Scheduler := x\<rparr>) = progressingRuns tk q s"
  by (simp_all add: absQueue_def progressingRuns_def)

lemma waiting_iff:
  "n \<in> qu_waiting (absQueue tk q s) \<longleftrightarrow>
     (\<exists>r\<in>set (sy_Runs s). map_of (pr_Labels r) repositoryLabel = Some q \<and> tk_IsPending tk r \<and> pr_Name r = n)"
  by (auto simp: absQueue_def)

lemma refines_creates:
  assumes law: "pendingLaw tk" and inv: "queueInv tk srt s" and sch: "sy_Scheduler s = Some (p, items)"
    and ls: "pipelineLabels p = Some ls" and name: "name \<notin> pr_Name ` set (sy_Runs s)"
    and r: "r = (newPipelineRun p ls (needsQueueing tk items))\<lparr>pr_Name := name, pr_ResourceVersion := version, pr_CreationTimestamp := t\<rparr>"
    and s': "sy_Runs s' = sy_Runs s @ [r]"
  shows "queueStep (absQueue tk q s) (absQueue tk q s')"
proof -
  have lab: "map_of (pr_Labels r) repositoryLabel = Some (pi_Repository p)"
    using ls by (auto simp: r newPipelineRun_def pipelineLabels_def)
  have nam: "pr_Name r = name" by (simp add: r)
  have pend: "tk_IsPending tk r \<longleftrightarrow> needsQueueing tk items"
    using law by (simp add: pendingLaw_def r newPipelineRun_def PipelineRunSpecStatusPending_def)
  have prog: "progressingRuns tk q s' = progressingRuns tk q s @ (if q = pi_Repository p \<and> pipelineRunIsProgressing tk r then [r] else [])"
    using lab s' by (auto simp: progressingRuns_def)
  have wait: "qu_waiting (absQueue tk q s') = qu_waiting (absQueue tk q s) \<union> (if q = pi_Repository p \<and> tk_IsPending tk r then {name} else {})"
    using lab s' nam unfolding set_eq_iff Un_iff waiting_iff by auto
  show ?thesis
  proof (cases "q = pi_Repository p")
    case False
    with prog wait have "absQueue tk q s' = absQueue tk q s" by (simp add: absQueue_def)
    then show ?thesis by (simp add: queueStep_same)
  next
    case True
    show ?thesis
    proof (cases "needsQueueing tk items")
      case True
      then have "\<not> pipelineRunIsProgressing tk r" using pend by (simp add: pipelineRunIsProgressing_def)
      with True pend prog wait \<open>q = _\<close>
      have "absQueue tk q s' = (absQueue tk q s)\<lparr>qu_waiting := insert name (qu_waiting (absQueue tk q s))\<rparr>"
        by (simp add: absQueue_def)
      moreover have "name \<notin> qu_waiting (absQueue tk q s)" using name by (auto simp: absQueue_def)
      ultimately show ?thesis using queueStep.arrive by simp
    next
      case False
      from inv_scheduler [OF inv sch False] have nb: "\<not> busy tk q s" using \<open>q = _\<close> by simp
      then have "qu_waiting (absQueue tk q s) = {}" "\<not> qu_running (absQueue tk q s)"
        using idle_progressing [OF nb] by (auto simp: absQueue_def busy_def)
      moreover have "absQueue tk q s' = (absQueue tk q s)\<lparr>qu_running := pipelineRunIsProgressing tk r\<rparr>"
        using False pend prog wait \<open>q = _\<close> idle_progressing [OF nb] by (simp add: absQueue_def)
      ultimately show ?thesis using queueStep.arriveIdle by simp
    qed
  qed
qed

lemma refines_starts:
  assumes law: "pendingLaw tk" and sorter: "desc_sorter srt" and inv: "queueInv tk srt s"
    and w: "sy_Watcher s = Some (q0, items)" and d: "advanceDecision srt tk items = (Some pr, n)"
    and runs: "sy_Runs s = before @ stored # after" and key: "runKey stored = runKey pr"
    and s': "sy_Runs s' = before @ pr\<lparr>pr_SpecStatus := [], pr_ResourceVersion := version\<rparr> # after"
  shows "queueStep (absQueue tk q s) (absQueue tk q s')"
proof -
  let ?r = "pr\<lparr>pr_SpecStatus := [], pr_ResourceVersion := version\<rparr>"
  note st = watcherStarts_stored [OF sorter inv w d runs key]
  have old: "sy_Runs s = before @ pr # after" using runs st(1) by simp
  have np: "\<not> tk_IsPending tk ?r" using law by (simp add: pendingLaw_def PipelineRunSpecStatusPending_def)
  show ?thesis
  proof (cases "q = q0")
    case False
    with old s' st(3) have "absQueue tk q s' = absQueue tk q s" by (simp add: absQueue_def progressingRuns_def)
    then show ?thesis by (simp add: queueStep_same)
  next
    case True
    from queueInv_D(1) [OF inv] old have uniq: "pr_Name x \<noteq> pr_Name pr" if "x \<in> set before \<union> set after" for x
      using that by (auto simp: image_iff)
    have "pr_Name pr \<in> qu_waiting (absQueue tk q s)" using old st(2,3) True by (auto simp: waiting_iff)
    moreover have "\<not> qu_running (absQueue tk q s)" using st(4) True by (simp add: absQueue_def)
    moreover have "qu_waiting (absQueue tk q s') = qu_waiting (absQueue tk q s) - {pr_Name pr}"
    proof (rule set_eqI)
      fix m
      show "m \<in> qu_waiting (absQueue tk q s') \<longleftrightarrow> m \<in> qu_waiting (absQueue tk q s) - {pr_Name pr}"
        unfolding waiting_iff Diff_iff singleton_iff old s' using np st(2,3) True uniq by auto
    qed
    ultimately show ?thesis
      using queueStep.advance [of "absQueue tk q s" "pr_Name pr" "progressingRuns tk q s' \<noteq> []"]
      by (simp add: absQueue_def)
  qed
qed

lemma refines_others:
  assumes out: "outsideChange tk (sy_Issued s) (sy_Runs s) rs" and s': "sy_Runs s' = rs"
  shows "queueStep (absQueue tk q s) (absQueue tk q s')"
proof -
  have "qu_running (absQueue tk q s') \<longrightarrow> qu_running (absQueue tk q s)"
  proof
    assume "qu_running (absQueue tk q s')"
    then obtain x where "x \<in> set (progressingRuns tk q s')" by (cases "progressingRuns tk q s'") (auto simp: absQueue_def)
    with outsideChange_busy(1) [OF out, of x q] s' show "qu_running (absQueue tk q s)"
      by (auto simp: progressingRuns_set absQueue_def)
  qed
  moreover have "qu_waiting (absQueue tk q s') \<subseteq> qu_waiting (absQueue tk q s)"
    using outsideChange_busy(2) [OF out] s' unfolding subset_iff waiting_iff by blast
  ultimately have "queueStep (absQueue tk q s) \<lparr>qu_running = qu_running (absQueue tk q s'), qu_waiting = qu_waiting (absQueue tk q s')\<rparr>"
    by (rule queueStep.leave)
  then show ?thesis by (simp add: absQueue_def)
qed

section \<open>Properties\<close>


text \<open>
  C3: scheduler and watcher implement a queue per repository: every step of the system is, seen
  through the runs in progress and the pending runs, a step of the queue, so a new run starts at
  once only if nothing is running or waiting, and a waiting run starts only if nothing runs.
\<close>

theorem system_refines_queue:
  assumes "pendingLaw tk" and "desc_sorter srt" and "reachable tk srt s" and "systemStep tk srt s s'"
  shows "queueStep (absQueue tk repo s) (absQueue tk repo s')"
  using assms(4)
proof cases
  case (schedulerCreates p items ls name version r t)
  with refines_creates [OF assms(1) reachable_inv [OF assms(1-3)]] show ?thesis by simp
next
  case (watcherStarts q items pr n before stored after version)
  with refines_starts [OF assms(1,2) reachable_inv [OF assms(1-3)]] show ?thesis by simp
next
  case (others rs)
  with refines_others show ?thesis by simp
qed (simp_all add: absQueue_frame queueStep_same)

text \<open>The first run of a repository.\<close>

definition firstRun :: pipelineRun where
  "firstRun = (newPipelineRun examplePipelineConfig [(repositoryLabel, ''p-foo''), (gitRefLabel, ''main''), (stageLabel, DevStage)] False)
     \<lparr>pr_Name := ''run-1'', pr_ResourceVersion := ''1'', pr_CreationTimestamp := 0\<rparr>"

definition listedSystem :: system where
  "listedSystem = emptySystem\<lparr>sy_Scheduler := Some (examplePipelineConfig, [])\<rparr>"

definition oneRunSystem :: system where
  "oneRunSystem = listedSystem\<lparr>sy_Runs := [firstRun], sy_Issued := {(''run-1'', ''1'')}, sy_Scheduler := None\<rparr>"

lemma listedSystem_reachable: "reachable tk srt listedSystem"
  unfolding listedSystem_def
  by (rule reachable.step [OF reachable.start schedulerLists]) (simp_all add: emptySystem_def)

lemma oneRunSystem_step: "systemStep tk srt listedSystem oneRunSystem"
proof -
  have "pipelineLabels examplePipelineConfig = Some [(repositoryLabel, ''p-foo''), (gitRefLabel, ''main''), (stageLabel, DevStage)]"
    by code_simp
  then have "systemStep tk srt listedSystem (listedSystem\<lparr>sy_Runs := sy_Runs listedSystem @ [firstRun],
      sy_Issued := insert (''run-1'', ''1'') (sy_Issued listedSystem), sy_Scheduler := None\<rparr>)"
    by (rule schedulerCreates [where p = examplePipelineConfig and items = "[]" and t = 0, rotated])
      (simp_all add: listedSystem_def emptySystem_def firstRun_def needsQueueing_def)
  then show ?thesis by (simp add: oneRunSystem_def listedSystem_def emptySystem_def)
qed


lemma system_refines_witness:
  "queueStep (absQueue exampleMethods ''p-foo'' listedSystem) (absQueue exampleMethods ''p-foo'' oneRunSystem) \<and>
   \<not> qu_running (absQueue exampleMethods ''p-foo'' listedSystem) \<and> qu_running (absQueue exampleMethods ''p-foo'' oneRunSystem)"
proof (intro conjI)
  show "queueStep (absQueue exampleMethods ''p-foo'' listedSystem) (absQueue exampleMethods ''p-foo'' oneRunSystem)"
    by (rule system_refines_queue [OF exampleMethods_pending runSort.desc_sorter_axioms listedSystem_reachable oneRunSystem_step])
  show "\<not> qu_running (absQueue exampleMethods ''p-foo'' listedSystem)"
    by (simp add: absQueue_def progressingRuns_def listedSystem_def emptySystem_def)
  have "pipelineRunIsProgressing exampleMethods firstRun" by code_simp
  moreover have "runsOf ''p-foo'' (sy_Runs oneRunSystem) = [firstRun]"
    by (simp add: oneRunSystem_def firstRun_def newPipelineRun_def)
  ultimately show "qu_running (absQueue exampleMethods ''p-foo'' oneRunSystem)"
    by (simp add: absQueue_def progressingRuns_def)
qed

end
