(* ===== verification/Cache.thy ===== *)
theory Cache
  imports Paths
begin

text \<open>
  \<open>cmd/start/directory.go\<close> and \<open>cmd/start/cache.go\<close>: emptying the checkout directory while sparing
  the cache, and cleaning the cache.  A file system value of Go (\<open>os.DirFS\<close>, \<open>fs.Sub\<close>) is the
  directory it is rooted at.  The walk of \<open>fs.WalkDir\<close> is written out over the file tree.
\<close>

unbundle bit_operations_syntax

section \<open>Walking a directory (directory.go)\<close>

type_synonym removeFunc = "string \<Rightarrow> bool \<Rightarrow> unit prog_w"
type_synonym walkDecider = "string \<Rightarrow> bool \<Rightarrow> nat"

definition skipDir :: nat where "skipDir = 1"
definition remove :: nat where "remove = 2"
definition enterDir :: nat where "enterDir = 4"

definition removeFileOrDir :: removeFunc where
  "removeFileOrDir path isDir =
     wrapErr ((if isDir then ''could not remove directory '' else ''could not remove file '') @ path @ '': '')
       (osRemoveAll path)"

text \<open>The file a name of the file system rooted at \<open>dir\<close> stands for.\<close>

definition fsFull :: "string \<Rightarrow> string \<Rightarrow> string" where
  "fsFull dir name = dir @ ''/'' @ name"

text \<open>
  \<open>fs.WalkDir\<close>.  The callback gets the path, whether it is a directory, and the error of reading
  it, if any; its result \<open>True\<close> stands for \<open>fs.SkipDir\<close>.  The first argument bounds the depth of
  the walk; the callers take the size of the file tree.
\<close>

primrec walkEntries :: "('e \<Rightarrow> bool prog_w) \<Rightarrow> 'e list \<Rightarrow> bool prog_w" where
  "walkEntries visit [] = ret False"
| "walkEntries visit (e # es) = bindP (visit e) (\<lambda>skip. if skip then ret False else walkEntries visit es)"

primrec walkDir ::
  "nat \<Rightarrow> string \<Rightarrow> (string \<Rightarrow> bool \<Rightarrow> string option \<Rightarrow> bool prog_w) \<Rightarrow> string \<Rightarrow> bool \<Rightarrow> bool prog_w" where
  "walkDir 0 dir fn name isDir = panicP ''walk too deep''"
| "walkDir (Suc n) dir fn name isDir =
     bindP (fn name isDir None) (\<lambda>skip.
     if skip then ret (\<not> isDir)
     else if \<not> isDir then ret False
     else bindP (attempt (readDir (fsFull dir name))) (\<lambda>r.
        case r of
          Inl e \<Rightarrow> fn name isDir (Some e)
        | Inr entries \<Rightarrow> walkEntries (\<lambda>(d, dIsDir). walkDir n dir fn (filepathJoin [name, d]) dIsDir) entries))"

definition WalkDir :: "string \<Rightarrow> (string \<Rightarrow> bool \<Rightarrow> string option \<Rightarrow> bool prog_w) \<Rightarrow> unit prog_w" where
  "WalkDir dir fn =
     bindP (gets (\<lambda>w. (osStat (fsFull dir ''.'') w, size (w_root w)))) (\<lambda>(r, depth).
     bindP (case r of
              StatOk n \<Rightarrow> walkDir (Suc depth) dir fn ''.'' (isDirNode n)
            | NotExist \<Rightarrow> fn ''.'' False (Some ''file does not exist'')
            | StatErr e \<Rightarrow> fn ''.'' False (Some e)) (\<lambda>_. ret ()))"

text \<open>The callback of \<open>deleteDirRecursiveWithSkip\<close>.\<close>

definition removalVisit :: "walkDecider \<Rightarrow> removeFunc \<Rightarrow> string \<Rightarrow> bool \<Rightarrow> string option \<Rightarrow> bool prog_w" where
  "removalVisit decide fnRemove path isDir err =
     (case err of
        Some e \<Rightarrow> failE (''could not read files in '' @ path @ '': '' @ e)
      | None \<Rightarrow>
          (let flags = decide path isDir in
           if isDir then
             (if path = ''.'' then ret False
              else if flags AND skipDir \<noteq> 0 then ret True
              else bindP (if flags AND remove \<noteq> 0 then fnRemove path True else ret ()) (\<lambda>_.
                   ret (flags AND enterDir = 0)))
           else bindP (if flags AND remove \<noteq> 0 then fnRemove path False else ret ()) (\<lambda>_. ret False)))"

definition deleteDirRecursiveWithSkip :: "string \<Rightarrow> walkDecider \<Rightarrow> removeFunc \<Rightarrow> unit prog_w" where
  "deleteDirRecursiveWithSkip root decide fnRemove = WalkDir root (removalVisit decide fnRemove)"

section \<open>The checkout directory and the cache (cache.go)\<close>

definition odsCacheDirName :: string where "odsCacheDirName = ''.ods-cache''"
definition odsCacheDependenciesDirName :: string where "odsCacheDependenciesDirName = ''deps''"
definition odsCacheBuildOutputDirName :: string where "odsCacheBuildOutputDirName = ''build-task''"
definition odsCacheLastUsedTimestamp :: string where "odsCacheLastUsedTimestamp = ''.ods-last-used-stamp''"

record fileSystemBase =
  fsb_filesystem :: string
  fsb_base :: string

definition withBaseFileRemover :: "string \<Rightarrow> removeFunc \<Rightarrow> removeFunc" where
  "withBaseFileRemover base removeFunc path isDir = removeFunc (filepathJoin [base, path]) isDir"

definition spareCache :: walkDecider where
  "spareCache path isDir = (if path = filepathJoin [''.'', odsCacheDirName] then skipDir else remove)"

definition deleteDirectoryContentsSpareCache :: "fileSystemBase \<Rightarrow> removeFunc \<Rightarrow> unit prog_w" where
  "deleteDirectoryContentsSpareCache fsb fnRemove =
     deleteDirRecursiveWithSkip (fsb_filesystem fsb) spareCache (withBaseFileRemover (fsb_base fsb) fnRemove)"

text \<open>
  Build outputs lie two levels below \<open>build-task\<close>.  The clock is in nanoseconds, a day has 24
  hours (the containers run in UTC).  Directories carry no modification time in the model;
  \<open>dirTime\<close> is the one of a directory that bears the name of the stamp.
\<close>

definition day :: int where "day = 24 * 60 * 60 * 1000000000"

definition modTime :: "int \<Rightarrow> node \<Rightarrow> int" where
  "modTime dirTime n = (case n of File c t \<Rightarrow> t | Dir es \<Rightarrow> dirTime)"

definition pathLevel :: "string \<Rightarrow> nat" where
  "pathLevel p = length (filter (\<lambda>c. c = CHR ''/'') p)"

text \<open>
  The body of the loop over the entries of one directory; \<open>enter\<close> is the recursive call.
\<close>

definition cleanEntry ::
  "string \<Rightarrow> int \<Rightarrow> int \<Rightarrow> removeFunc \<Rightarrow> bool \<Rightarrow> (string \<Rightarrow> int prog_w) \<Rightarrow> string \<Rightarrow> int \<Rightarrow> string \<times> bool \<Rightarrow> int prog_w" where
  "cleanEntry root dirTime keepTimestamp fnRemove mayEnter enter parentDir count f =
     (let path = filepathJoin [parentDir, fst f];
          clean = bindP (fnRemove path (snd f)) (\<lambda>_. ret (count + 1))
      in if \<not> snd f then clean
         else bindP (gets (osStat (fsFull root (filepathJoin [path, odsCacheLastUsedTimestamp])))) (\<lambda>r.
           case r of
             NotExist \<Rightarrow>
               (if mayEnter
                then bindP (wrapErr (''could not enter directory '' @ path @ '': '') (enter path)) (\<lambda>enterCount.
                     ret (count + 1 + enterCount))
                else clean)
           | StatErr e \<Rightarrow> panicP ''nil pointer dereference''
           | StatOk n \<Rightarrow> (if modTime dirTime n < keepTimestamp then clean else ret (count + 1))))"

primrec cleanupNotRecentlyUsedMaxLevel ::
  "nat \<Rightarrow> string \<Rightarrow> int \<Rightarrow> int \<Rightarrow> removeFunc \<Rightarrow> nat \<Rightarrow> string \<Rightarrow> int prog_w" where
  "cleanupNotRecentlyUsedMaxLevel 0 root dirTime keepTimestamp fnRemove maxLevel parentDir = panicP ''too deep''"
| "cleanupNotRecentlyUsedMaxLevel (Suc n) root dirTime keepTimestamp fnRemove maxLevel parentDir =
     bindP (gets (osStat (fsFull root parentDir))) (\<lambda>r.
     if IsNotExist r then ret 0
     else bindP (wrapErr (''could not read files in '' @ parentDir @ '': '') (readDir (fsFull root parentDir))) (\<lambda>dirEntries.
       foldP (cleanEntry root dirTime keepTimestamp fnRemove (pathLevel parentDir < maxLevel)
                (cleanupNotRecentlyUsedMaxLevel n root dirTime keepTimestamp fnRemove maxLevel) parentDir)
             0 dirEntries))"

definition cleanupNotRecentlyUsed :: "string \<Rightarrow> int \<Rightarrow> int \<Rightarrow> removeFunc \<Rightarrow> string \<Rightarrow> int prog_w" where
  "cleanupNotRecentlyUsed root dirTime keepTimestamp fnRemove parentDir =
     cleanupNotRecentlyUsedMaxLevel 2 root dirTime keepTimestamp fnRemove 1 parentDir"

definition dependencyDecider :: walkDecider where
  "dependencyDecider path isDir =
     (let cacheDependenciesPath = filepathJoin [''.'', odsCacheDependenciesDirName]
      in if \<not> HasPrefix path cacheDependenciesPath then 0
         else if path = cacheDependenciesPath then enterDir
         else if isDir then skipDir else remove)"

definition cleanCache :: "int \<Rightarrow> fileSystemBase \<Rightarrow> removeFunc \<Rightarrow> int \<Rightarrow> unit prog_w" where
  "cleanCache dirTime fsb fnRemove expirationDays =
     bindP (gets (osStat (fsFull (fsb_filesystem fsb) odsCacheDirName))) (\<lambda>r.
     if IsNotExist r then ret ()
     else
       (let fsCache = fsFull (fsb_filesystem fsb) odsCacheDirName;
            fnRemoveWithBase = withBaseFileRemover (filepathJoin [fsb_base fsb, odsCacheDirName]) fnRemove
        in bindP (deleteDirRecursiveWithSkip fsCache dependencyDecider fnRemoveWithBase) (\<lambda>_.
           bindP (gets (\<lambda>w. w_now w - expirationDays * day)) (\<lambda>keepTimestamp.
           bindP (cleanupNotRecentlyUsed fsCache dirTime keepTimestamp fnRemoveWithBase odsCacheBuildOutputDirName) (\<lambda>_.
           ret ())))))"

section \<open>Facts: emptying the checkout directory\<close>

lemma cacheDir_legal: "legalName odsCacheDirName"
  by (simp add: legalName_def plainElem_def odsCacheDirName_def)

lemma visit_child:
  assumes "legalName d"
  shows "walkDir (Suc k) dir (removalVisit spareCache rm) (filepathJoin [''.'', d]) isD =
    (if d = odsCacheDirName then ret False else bindP (rm d isD) (\<lambda>_. ret False))"
proof -
  have nd: "d \<noteq> ''.''" using assms by (auto simp: legalName_def plainElem_def)
  show ?thesis
    unfolding walkDir.simps Join_dot [OF assms]
    using nd by (simp add: removalVisit_def spareCache_def Join_dot [OF cacheDir_legal, unfolded odsCacheDirName_def] skipDir_def remove_def
        enterDir_def odsCacheDirName_def bind_assoc)
qed

lemma walk_children:
  assumes "\<forall>e\<in>set es. legalName (fst e)"
  shows "walkEntries (\<lambda>(d, isD). walkDir (Suc k) dir (removalVisit spareCache rm) (filepathJoin [''.'', d]) isD) es =
    bindP (forEach (filter (\<lambda>e. fst e \<noteq> odsCacheDirName) es) (\<lambda>e. rm (fst e) (snd e))) (\<lambda>_. ret False)"
  using assms
proof (induction es)
  case Nil
  then show ?case by simp
next
  case (Cons e es)
  then show ?case by (cases e) (simp add: visit_child bind_assoc del: walkDir.simps)
qed

lemma resolve_fsFull_dot: "dir \<noteq> [] \<Longrightarrow> resolve w (fsFull dir ''.'') = resolve w dir"
  using resolve_append [of dir w "''.''"] by (simp add: fsFull_def stepInto_def Split_char)

lemma remove_child:
  assumes "legalName n" "base \<noteq> []"
  shows "withBaseFileRemover base removeFileOrDir n b w =
    (if w_faulty w (resolve w base @ [n])
     then (Err ((if b then ''could not remove directory '' else ''could not remove file '') @ filepathJoin [base, n] @
            '': unlinkat '' @ filepathJoin [base, n] @ '': input/output error''), w)
     else (Ok (), w\<lparr>w_root := fs_del (resolve w base @ [n]) (w_root w)\<rparr>))"
  using Join_resolve [OF assms] by (simp add: withBaseFileRemover_def removeFileOrDir_def osRemoveAll_def wrapErr_def)

lemma remove_children:
  assumes "\<forall>e\<in>set es. legalName (fst e)" "base \<noteq> []"
    and "forEach es (\<lambda>e. withBaseFileRemover base removeFileOrDir (fst e) (snd e)) w = (r, w')"
  defines "d \<equiv> resolve w base"
  shows "only_files w w'"
    and "\<not> prefix q d \<Longrightarrow> (\<forall>e\<in>set es. \<not> prefix (d @ [fst e]) q) \<Longrightarrow> fs_get q (w_root w') = fs_get q (w_root w)"
    and "e \<in> set es \<Longrightarrow> r = Ok () \<Longrightarrow> fs_get (d @ [fst e]) (w_root w') = None"
    and "(\<And>p. \<not> w_faulty w p) \<Longrightarrow> r = Ok ()"
proof -
  have "only_files w w' \<and>
    (\<forall>q. \<not> prefix q d \<longrightarrow> (\<forall>e\<in>set es. \<not> prefix (d @ [fst e]) q) \<longrightarrow> fs_get q (w_root w') = fs_get q (w_root w)) \<and>
    (r = Ok () \<longrightarrow> (\<forall>n. fs_get (d @ [n]) (w_root w) = None \<or> n \<in> fst ` set es \<longrightarrow> fs_get (d @ [n]) (w_root w') = None)) \<and>
    ((\<forall>p. \<not> w_faulty w p) \<longrightarrow> r = Ok ())"
    using assms(1,3) unfolding d_def
  proof (induction es arbitrary: w)
    case Nil
    then show ?case by (auto simp: prog_simps fo.refl)
  next
    case (Cons e es)
    then have le: "legalName (fst e)" and les: "\<forall>e\<in>set es. legalName (fst e)" by auto
    note rc = remove_child [OF le assms(2), of "snd e" w]
    show ?case
    proof (cases "w_faulty w (resolve w base @ [fst e])")
      case True
      with rc Cons.prems(2) show ?thesis by (auto simp: fo.refl)
    next
      case False
      define w1 where "w1 = w\<lparr>w_root := fs_del (resolve w base @ [fst e]) (w_root w)\<rparr>"
      from rc False have "withBaseFileRemover base removeFileOrDir (fst e) (snd e) w = (Ok (), w1)"
        by (simp add: w1_def)
      with Cons.prems(2) have rest: "forEach es (\<lambda>e. withBaseFileRemover base removeFileOrDir (fst e) (snd e)) w1 = (r, w')"
        by simp
      have res: "resolve w1 base = resolve w base" by (simp add: w1_def)
      have other: "fs_get q (w_root w1) = fs_get q (w_root w)"
        if "\<not> prefix (resolve w base @ [fst e]) q" "\<not> prefix q (resolve w base)" for q
        using fs_get_del_other [of "resolve w base @ [fst e]" q "w_root w"] that
        by (auto simp: w1_def)
      have one: "fs_get (resolve w base @ [fst e]) (w_root w1) = None"
        unfolding w1_def by (simp add: fs_get_del_same)
      have gone: "fs_get (resolve w base @ [n]) (w_root w1) = None"
        if "fs_get (resolve w base @ [n]) (w_root w) = None \<or> n = fst e" for n
        using that one other [of "resolve w base @ [n]"] by (cases "n = fst e") auto
      from Cons.IH [OF les rest] res show ?thesis
        using other gone by (auto simp: w1_def only_files_def)
    qed
  qed
  then show "only_files w w'"
    and "\<not> prefix q d \<Longrightarrow> (\<forall>e\<in>set es. \<not> prefix (d @ [fst e]) q) \<Longrightarrow> fs_get q (w_root w') = fs_get q (w_root w)"
    and "e \<in> set es \<Longrightarrow> r = Ok () \<Longrightarrow> fs_get (d @ [fst e]) (w_root w') = None"
    and "(\<And>p. \<not> w_faulty w p) \<Longrightarrow> r = Ok ()" by auto
qed

lemma deleteDirectory_loop:
  assumes "dir \<noteq> []" "fs_get (resolve w dir) (w_root w) = Some (Dir es)" "\<not> w_faulty w (resolve w dir)"
    and "\<forall>e\<in>set es. legalName (fst e)"
  shows "deleteDirectoryContentsSpareCache \<lparr>fsb_filesystem = dir, fsb_base = base\<rparr> rm w =
    forEach (filter (\<lambda>e. fst e \<noteq> odsCacheDirName) (dirEntries es))
      (\<lambda>e. withBaseFileRemover base rm (fst e) (snd e)) w"
proof -
  obtain k where k: "size (w_root w) = Suc k"
    using assms(2) by (cases "w_root w"; cases "resolve w dir") auto
  have st: "osStat (fsFull dir ''.'') w = StatOk (Dir es)"
    using assms(1-3) by (simp add: osStat_def resolve_fsFull_dot fs_get_stat)
  have rd: "readDir (fsFull dir ''.'') w = (Ok (dirEntries es), w)"
    by (simp add: readDir_def st)
  have legal: "\<forall>e\<in>set (dirEntries es). legalName (fst e)"
    using assms(4) dirEntries_names by fastforce
  have at: "attempt (readDir (fsFull dir ''.'')) w = (Ok (Inr (dirEntries es)), w)"
    by (simp add: attempt_def rd)
  have vis: "removalVisit spareCache (withBaseFileRemover base rm) ''.'' True None = ret False"
    by (simp add: removalVisit_def)
  have "walkDir (Suc (Suc k)) dir (removalVisit spareCache (withBaseFileRemover base rm)) ''.'' True w =
    bindP (forEach (filter (\<lambda>e. fst e \<noteq> odsCacheDirName) (dirEntries es))
      (\<lambda>e. withBaseFileRemover base rm (fst e) (snd e))) (\<lambda>_. ret False) w"
    by (subst walkDir.simps(2), subst vis) (simp add: at walk_children [OF legal] del: walkDir.simps)
  then show ?thesis
    unfolding deleteDirectoryContentsSpareCache_def deleteDirRecursiveWithSkip_def WalkDir_def
    by (simp add: gets_def bindP_def [of "\<lambda>w. (Ok _, w)"] st k split: prod.split outcome.split del: walkDir.simps)
      (simp add: bindP_def ret_def split: prod.splits outcome.splits)
qed

text \<open>
  C22: emptying the checkout directory removes every entry of it except the cache, and changes
  nothing inside the cache or outside the directory, not even when it fails half-way; it succeeds
  if no removal fails.
\<close>

theorem checkout_keeps_only_cache:
  assumes "deleteDirectoryContentsSpareCache \<lparr>fsb_filesystem = dir, fsb_base = dir\<rparr> removeFileOrDir w = (r, w')"
    and "dir \<noteq> []" "fs_get (resolve w dir) (w_root w) = Some (Dir es)" "\<not> w_faulty w (resolve w dir)"
    and "\<forall>e\<in>set es. legalName (fst e)"
  shows "(\<forall>q. \<not> prefix q (resolve w dir) \<and>
             (prefix (resolve w dir) q \<longrightarrow> prefix (resolve w dir @ [odsCacheDirName]) q) \<longrightarrow>
             fs_get q (w_root w') = fs_get q (w_root w))
    \<and> (r = Ok () \<longrightarrow> (\<forall>n. n \<noteq> odsCacheDirName \<longrightarrow> fs_get (resolve w dir @ [n]) (w_root w') = None))
    \<and> ((\<forall>p. \<not> w_faulty w p) \<longrightarrow> r = Ok ())"
proof -
  let ?es = "filter (\<lambda>e. fst e \<noteq> odsCacheDirName) (dirEntries es)"
  have legal: "\<forall>e\<in>set ?es. legalName (fst e)" using assms(5) dirEntries_names by fastforce
  have run: "forEach ?es (\<lambda>e. withBaseFileRemover dir removeFileOrDir (fst e) (snd e)) w = (r, w')"
    using assms(1) deleteDirectory_loop [OF assms(2-5), of dir removeFileOrDir] by simp
  note rc = remove_children [OF legal assms(2) run]
  have "fs_get q (w_root w') = fs_get q (w_root w)"
    if "\<not> prefix q (resolve w dir)" "prefix (resolve w dir) q \<longrightarrow> prefix (resolve w dir @ [odsCacheDirName]) q" for q
  proof (rule rc(2) [OF that(1)], intro ballI notI)
    fix e assume e: "e \<in> set ?es" and p: "prefix (resolve w dir @ [fst e]) q"
    from p have "prefix (resolve w dir) q" by (metis append_prefixD)
    with that(2) have "prefix (resolve w dir @ [odsCacheDirName]) q" by simp
    with p have "fst e = odsCacheDirName" by (auto simp: prefix_def)
    with e show False by simp
  qed
  moreover have "fs_get (resolve w dir @ [n]) (w_root w') = None"
    if ok: "r = Ok ()" and ne: "n \<noteq> odsCacheDirName" for n
  proof (cases "n \<in> fst ` set es")
    case True
    then obtain b where "(n, b) \<in> set ?es" using dirEntries_complete [OF True] ne by auto
    with rc(3) ok show ?thesis by fastforce
  next
    case False
    then have "fs_get (resolve w dir @ [n]) (w_root w) = None"
      using assms(3) by (auto simp: fs_get_above map_of_eq_None_iff split: option.split)
    moreover have "fs_get (resolve w dir @ [n]) (w_root w') = fs_get (resolve w dir @ [n]) (w_root w)"
      by (rule rc(2)) (use False in \<open>force dest!: dirEntries_names\<close>)+
    ultimately show ?thesis by simp
  qed
  ultimately show ?thesis using rc(4) by blast
qed

section \<open>Examples\<close>

definition cacheTree :: node where
  "cacheTree = Dir [(''src'', Dir [(''main.go'', File ''package main'' 3)]), (''README.md'', File ''x'' 3),
     (''.ods-cache'', Dir [(''deps'', Dir [(''npm'', Dir []), (''stray'', File ''s'' 1)]),
        (''build-task'', Dir [(''go'', Dir [(''new'', Dir [(''.ods-last-used-stamp'', File [] (9 * day))]),
           (''old'', Dir [(''.ods-last-used-stamp'', File [] day)])])])])]"

definition cacheWorld :: world where
  "cacheWorld = emptyWorld\<lparr>w_root := cacheTree, w_now := 10 * day\<rparr>"

definition here :: fileSystemBase where
  "here = \<lparr>fsb_filesystem = ''.'', fsb_base = ''.''\<rparr>"

lemma resolve_here: "resolve cacheWorld ''.'' = []"
  by code_simp

lemma cacheWorld_simps:
  "w_root cacheWorld = cacheTree" "w_now cacheWorld = 10 * day" "\<not> w_faulty cacheWorld p"
  by (simp_all add: cacheWorld_def emptyWorld_def)

lemma checkout_witness:
  "fs_get [''src''] (w_root (snd (deleteDirectoryContentsSpareCache here removeFileOrDir cacheWorld))) = None
   \<and> fs_get [''.ods-cache'', ''deps'', ''npm''] (w_root (snd (deleteDirectoryContentsSpareCache here removeFileOrDir cacheWorld))) = Some (Dir [])"
proof -
  let ?run = "deleteDirectoryContentsSpareCache here removeFileOrDir cacheWorld"
  have "fs_get (resolve cacheWorld ''.'') (w_root cacheWorld) = Some cacheTree"
    by (simp add: resolve_here cacheWorld_simps)
  note th = checkout_keeps_only_cache [of "''.''" cacheWorld "fst ?run" "snd ?run", folded here_def, unfolded resolve_here,
      OF _ _ this [unfolded cacheTree_def resolve_here]]
  have "fs_get [''.ods-cache'', ''deps'', ''npm''] (w_root cacheWorld) = Some (Dir [])" by code_simp
  moreover have "fst ?run = Ok ()" by code_simp
  ultimately show ?thesis
    using th by (auto simp: legalName_def plainElem_def odsCacheDirName_def cacheWorld_simps)
qed

end
