(* ===== verification/CacheClean.thy ===== *)
theory CacheClean
  imports Cache
begin

text \<open>
  What \<open>cleanCache\<close> does to one build output.  Properties of the world that survive the deletion of
  everything but some spared paths are carried through the walk of the dependency cache and
  through the two levels of the clean-up; the entry a build output lies under is the only one
  whose handling depends on the state.
\<close>

section \<open>Invariants under deletions\<close>

lemma resolve_relPath:
  assumes "ps \<noteq> []" "\<forall>n\<in>set ps. legalName n" "a \<noteq> []"
  shows "resolve w (fsFull a (relPath ps)) = resolve w a @ ps"
    and "resolve w (filepathJoin [a, relPath ps]) = resolve w a @ ps"
  using resolve_append [OF assms(3), of w "relPath ps"] resolve_Join [of a "relPath ps" w] assms(3)
    stepInto_relPath [OF assms(1,2)] relPath_ne [OF assms(1,2)]
  by (simp_all add: fsFull_def)

lemma pathLevel_relPath: "ps \<noteq> [] \<Longrightarrow> \<forall>n\<in>set ps. legalName n \<Longrightarrow> Suc (pathLevel (relPath ps)) = length ps"
proof (induction ps rule: rev_induct)
  case Nil
  then show ?case by simp
next
  case (snoc n ps)
  then have "filter (\<lambda>c. c = CHR ''/'') n = []" by (auto simp: filter_empty_conv legalName_def)
  with snoc show ?case
    by (cases "ps = []") (auto simp: relPath_def pathLevel_def Join_snoc)
qed

text \<open>
  A process whose cache is the directory \<open>C\<close>, both as a file system and for the remover, and an
  invariant that survives the deletion of everything in it but some spared paths.
\<close>

definition cacheAt :: "string list \<Rightarrow> string \<Rightarrow> string \<Rightarrow> world \<Rightarrow> bool" where
  "cacheAt C root base w \<longleftrightarrow> root \<noteq> [] \<and> base \<noteq> [] \<and> resolve w root = C \<and> resolve w base = C \<and> legalTree (w_root w)"

lemma cacheAt_del: "cacheAt C root base w \<Longrightarrow> cacheAt C root base (w\<lparr>w_root := fs_del p (w_root w)\<rparr>)"
  by (simp add: cacheAt_def legalTree_del)

definition survivesRemoval :: "string list \<Rightarrow> string \<Rightarrow> string \<Rightarrow> (string list \<Rightarrow> bool) \<Rightarrow> (world \<Rightarrow> bool) \<Rightarrow> bool" where
  "survivesRemoval C root base spared I \<longleftrightarrow>
     (\<forall>w. I w \<longrightarrow> cacheAt C root base w) \<and>
     (\<forall>w ps. I w \<longrightarrow> ps \<noteq> [] \<longrightarrow> \<not> spared ps \<longrightarrow> I (w\<lparr>w_root := fs_del (C @ ps) (w_root w)\<rparr>))"

abbreviation legalPath :: "string list \<Rightarrow> bool" where
  "legalPath ps \<equiv> ps \<noteq> [] \<and> (\<forall>n\<in>set ps. legalName n)"

abbreviation cacheRemover :: "string \<Rightarrow> removeFunc" where
  "cacheRemover base \<equiv> withBaseFileRemover base removeFileOrDir"

lemma remover_keeps:
  assumes "survivesRemoval C root base spared I" "legalPath ps" "\<not> spared ps"
  shows "preserves (keepsInv I) (cacheRemover base (relPath ps) b)"
  unfolding keepsInv_preserves
proof (intro allI impI)
  fix w assume I: "I w"
  with assms(1) have "cacheAt C root base w" by (simp add: survivesRemoval_def)
  then have "resolve w (filepathJoin [base, relPath ps]) = C @ ps"
    using resolve_relPath(2) [of ps base w] assms(2) by (simp add: cacheAt_def)
  with I assms show "I (snd (cacheRemover base (relPath ps) b w))"
    by (auto simp: withBaseFileRemover_def removeFileOrDir_def osRemoveAll_def wrapErr_def survivesRemoval_def)
qed

lemma remover_Ok:
  assumes "cacheAt C root base w" "legalPath ps" "cacheRemover base (relPath ps) b w = (Ok u, w')"
  shows "w' = w\<lparr>w_root := fs_del (C @ ps) (w_root w)\<rparr>"
proof -
  have "resolve w (filepathJoin [base, relPath ps]) = C @ ps"
    using resolve_relPath(2) [of ps base w] assms(1,2) by (simp add: cacheAt_def)
  with assms(3) show ?thesis
    by (auto simp: withBaseFileRemover_def removeFileOrDir_def osRemoveAll_def split: if_splits)
qed

text \<open>What the status of the stamp says about the entry \<open>ps\<close>.\<close>

definition stampStat :: "string \<Rightarrow> string list \<Rightarrow> world \<Rightarrow> statRes" where
  "stampStat root ps w = osStat (fsFull root (relPath (ps @ [odsCacheLastUsedTimestamp]))) w"

definition notCleaned :: "int \<Rightarrow> int \<Rightarrow> bool \<Rightarrow> statRes \<Rightarrow> bool" where
  "notCleaned dirTime keep mayEnter r \<longleftrightarrow>
     (case r of NotExist \<Rightarrow> mayEnter | StatErr e \<Rightarrow> True | StatOk n \<Rightarrow> \<not> modTime dirTime n < keep)"

lemma stamp_legal: "legalName odsCacheLastUsedTimestamp" "legalName odsCacheBuildOutputDirName"
  by (simp_all add: legalName_def plainElem_def odsCacheLastUsedTimestamp_def odsCacheBuildOutputDirName_def)

lemma cleanEntry_relPath:
  assumes "legalPath ps" "legalName n"
  shows "cleanEntry root dirTime keep rm mayEnter enter (relPath ps) count (n, b) =
    (let clean = bindP (rm (relPath (ps @ [n])) b) (\<lambda>_. ret (count + 1))
     in if \<not> b then clean
        else bindP (gets (stampStat root (ps @ [n]))) (\<lambda>r.
          if notCleaned dirTime keep mayEnter r
          then (case r of
              NotExist \<Rightarrow> bindP (wrapErr (''could not enter directory '' @ relPath (ps @ [n]) @ '': '')
                  (enter (relPath (ps @ [n])))) (\<lambda>c. ret (count + 1 + c))
            | StatErr e \<Rightarrow> panicP ''nil pointer dereference''
            | StatOk m \<Rightarrow> ret (count + 1))
          else clean))"
proof -
  have j: "filepathJoin [relPath ps, n] = relPath (ps @ [n])"
    "filepathJoin [relPath (ps @ [n]), odsCacheLastUsedTimestamp] = relPath (ps @ [n, odsCacheLastUsedTimestamp])"
    using assms stamp_legal(1) Join_relPath [of ps n] Join_relPath [of "ps @ [n]" odsCacheLastUsedTimestamp]
    by auto
  show ?thesis
    unfolding cleanEntry_def Let_def fst_conv snd_conv j stampStat_def
    by (auto simp: j notCleaned_def bindP_def gets_def fun_eq_iff split: statRes.split)
qed

lemma entry_keeps:
  assumes sr: "survivesRemoval C root base spared I" and legal: "legalPath ps" "legalName n"
    and spared: "\<And>w. spared (ps @ [n]) \<Longrightarrow> I w \<Longrightarrow> b \<and> notCleaned dirTime keep mayEnter (stampStat root (ps @ [n]) w)"
    and enter: "mayEnter \<Longrightarrow> preserves (keepsInv I) (enter (relPath (ps @ [n])))"
  shows "preserves (keepsInv I) (cleanEntry root dirTime keep (cacheRemover base) mayEnter enter (relPath ps) count (n, b))"
proof -
  let ?clean = "bindP (cacheRemover base (relPath (ps @ [n])) b) (\<lambda>_. ret (count + 1))"
  have clean: "preserves (keepsInv I) ?clean" if "\<not> spared (ps @ [n])"
    using remover_keeps [OF sr, of "ps @ [n]"] that legal by (intro ki.bind ki.ret) auto
  have ent: "preserves (keepsInv I) (case r of
              NotExist \<Rightarrow> bindP (wrapErr (''could not enter directory '' @ relPath (ps @ [n]) @ '': '')
                  (enter (relPath (ps @ [n])))) (\<lambda>c. ret (count + 1 + c))
            | StatErr e \<Rightarrow> panicP ''nil pointer dereference''
            | StatOk m \<Rightarrow> ret (count + 1))" if "notCleaned dirTime keep mayEnter r" for r
    using that enter by (cases r) (auto simp: notCleaned_def intro!: ki.rules)
  show ?thesis
    unfolding cleanEntry_relPath [OF legal] Let_def
  proof (cases "spared (ps @ [n])")
    case False
    show "preserves (keepsInv I) (if \<not> b then ?clean else bindP (gets (stampStat root (ps @ [n]))) (\<lambda>r.
          if notCleaned dirTime keep mayEnter r then (case r of
              NotExist \<Rightarrow> bindP (wrapErr (''could not enter directory '' @ relPath (ps @ [n]) @ '': '')
                  (enter (relPath (ps @ [n])))) (\<lambda>c. ret (count + 1 + c))
            | StatErr e \<Rightarrow> panicP ''nil pointer dereference''
            | StatOk m \<Rightarrow> ret (count + 1)) else ?clean))"
      using clean [OF False] ent by (cases b) (auto intro!: ki.bind ki.get)
  next
    case True
    show "preserves (keepsInv I) (if \<not> b then ?clean else bindP (gets (stampStat root (ps @ [n]))) (\<lambda>r.
          if notCleaned dirTime keep mayEnter r then (case r of
              NotExist \<Rightarrow> bindP (wrapErr (''could not enter directory '' @ relPath (ps @ [n]) @ '': '')
                  (enter (relPath (ps @ [n])))) (\<lambda>c. ret (count + 1 + c))
            | StatErr e \<Rightarrow> panicP ''nil pointer dereference''
            | StatOk m \<Rightarrow> ret (count + 1)) else ?clean))"
      unfolding keepsInv_preserves
    proof (intro allI impI)
      fix w assume I: "I w"
      note s = spared [OF True I]
      with ent [of "stampStat root (ps @ [n]) w"] I
      show "I (snd ((if \<not> b then ?clean else bindP (gets (stampStat root (ps @ [n]))) (\<lambda>r.
          if notCleaned dirTime keep mayEnter r then (case r of
              NotExist \<Rightarrow> bindP (wrapErr (''could not enter directory '' @ relPath (ps @ [n]) @ '': '')
                  (enter (relPath (ps @ [n])))) (\<lambda>c. ret (count + 1 + c))
            | StatErr e \<Rightarrow> panicP ''nil pointer dereference''
            | StatOk m \<Rightarrow> ret (count + 1)) else ?clean)) w))"
        by (simp add: keepsInv_preserves gets_def)
    qed
  qed
qed

lemma cacheAt_full: "cacheAt C root base w \<Longrightarrow> legalPath ps \<Longrightarrow> resolve w (fsFull root (relPath ps)) = C @ ps"
  using resolve_relPath(1) [of ps root w] by (simp add: cacheAt_def)

lemma readDir_entries:
  assumes "cacheAt C root base w" "legalPath ps" "readDir (fsFull root (relPath ps)) w = (Ok es, w')"
  shows "\<exists>ds. fs_get (C @ ps) (w_root w) = Some (Dir ds) \<and> es = dirEntries ds \<and> w' = w \<and>
    (\<forall>e\<in>set es. legalName (fst e))"
proof -
  obtain ds where st: "osStat (fsFull root (relPath ps)) w = StatOk (Dir ds)" and es: "es = dirEntries ds" "w' = w"
    using readDir_OkD [OF assms(3)] by blast
  then have g: "fs_get (C @ ps) (w_root w) = Some (Dir ds)"
    using cacheAt_full [OF assms(1,2)] by (auto simp: osStat_def fs_get_stat split: if_splits)
  moreover have "legalTree (w_root w)" using assms(1) by (simp add: cacheAt_def)
  ultimately have "legalTree (Dir ds)" by (rule legalTree_get [rotated])
  have "legalName (fst e)" if "e \<in> set es" for e
  proof -
    from that es have "fst e \<in> fst ` set ds" using dirEntries_names by simp
    with \<open>legalTree (Dir ds)\<close> show ?thesis by auto
  qed
  then show ?thesis using g es by blast
qed

lemma level_keeps:
  assumes sr: "survivesRemoval C root base spared I" and legal: "legalPath ps"
    and spared: "\<And>w ds n b. I w \<Longrightarrow> fs_get (C @ ps) (w_root w) = Some (Dir ds) \<Longrightarrow> (n, b) \<in> set (dirEntries ds) \<Longrightarrow>
       legalName n \<Longrightarrow> spared (ps @ [n]) \<Longrightarrow> b"
    and stamps: "\<And>w n. I w \<Longrightarrow> legalName n \<Longrightarrow> spared (ps @ [n]) \<Longrightarrow>
       notCleaned dirTime keep (pathLevel (relPath ps) < ml) (stampStat root (ps @ [n]) w)"
    and enter: "\<And>n. pathLevel (relPath ps) < ml \<Longrightarrow> legalName n \<Longrightarrow> preserves (keepsInv I)
       (cleanupNotRecentlyUsedMaxLevel k root dirTime keep (cacheRemover base) ml (relPath (ps @ [n])))"
  shows "preserves (keepsInv I) (cleanupNotRecentlyUsedMaxLevel (Suc k) root dirTime keep (cacheRemover base) ml (relPath ps))"
  unfolding keepsInv_preserves
proof (intro allI impI)
  fix w assume I: "I w"
  then have ca: "cacheAt C root base w" using sr by (simp add: survivesRemoval_def)
  let ?entry = "cleanEntry root dirTime keep (cacheRemover base) (pathLevel (relPath ps) < ml)
    (cleanupNotRecentlyUsedMaxLevel k root dirTime keep (cacheRemover base) ml) (relPath ps)"
  let ?rd = "readDir (fsFull root (relPath ps))"
  show "I (snd (cleanupNotRecentlyUsedMaxLevel (Suc k) root dirTime keep (cacheRemover base) ml (relPath ps) w))"
  proof (cases "IsNotExist (osStat (fsFull root (relPath ps)) w)")
    case True
    with I show ?thesis by (simp add: gets_def ret_def)
  next
    case False
    obtain r w1 where rd: "?rd w = (r, w1)" by (cases "?rd w")
    then have w1: "w1 = w" by (rule readDir_state)
    show ?thesis
    proof (cases r)
      case (Ok es)
      with readDir_entries [OF ca legal] rd obtain ds
        where ds: "fs_get (C @ ps) (w_root w) = Some (Dir ds)" "es = dirEntries ds" "\<forall>e\<in>set es. legalName (fst e)" by blast
      have "preserves (keepsInv I) (foldP ?entry 0 es)"
      proof (rule ki.foldP)
        fix acc e assume e: "e \<in> set es"
        obtain n b where nb: "e = (n, b)" by (cases e)
        with e ds(3) have "legalName n" by auto
        with spared [OF I ds(1)] stamps e ds(2) nb enter
        show "preserves (keepsInv I) (?entry acc e)"
          unfolding nb by (intro entry_keeps [OF sr legal]) auto
      qed
      with I Ok rd w1 False show ?thesis
        by (simp add: gets_def wrapErr_def keepsInv_preserves)
    next
      case (Err e)
      with I rd w1 False show ?thesis by (simp add: gets_def wrapErr_def bindP_def)
    next
      case (Exit e)
      with I rd w1 False show ?thesis by (simp add: gets_def wrapErr_def bindP_def)
    next
      case (Panic e)
      with I rd w1 False show ?thesis by (simp add: gets_def wrapErr_def bindP_def)
    qed
  qed
qed

text \<open>The dependency cache: the walk removes only entries whose path starts with \<open>deps\<close>.\<close>

lemma deps_legal: "legalName odsCacheDependenciesDirName"
  by (simp add: legalName_def plainElem_def odsCacheDependenciesDirName_def)

lemma Join_dot_relPath: "legalName n \<Longrightarrow> filepathJoin [''.'', n] = relPath [n]"
  by (simp add: Join_dot relPath_def)

lemma visit_keeps:
  assumes sr: "survivesRemoval C root base spared I" and legal: "legalPath ps"
    and free: "HasPrefix (relPath ps) odsCacheDependenciesDirName \<Longrightarrow> \<not> spared ps"
  shows "preserves (keepsInv I) (removalVisit dependencyDecider (cacheRemover base) (relPath ps) b None)"
proof -
  have "preserves (keepsInv I) (if dependencyDecider (relPath ps) b AND remove \<noteq> 0 then cacheRemover base (relPath ps) b else ret ())"
    using remover_keeps [OF sr legal, of b] free
    by (auto simp: dependencyDecider_def Let_def Join_dot [OF deps_legal] skipDir_def remove_def enterDir_def intro: ki.ret)
  then show ?thesis
    unfolding removalVisit_def Let_def
    by (cases b) (auto intro!: ki.bind ki.ret)
qed

lemma walkEntries_keeps:
  "(\<And>e. e \<in> set es \<Longrightarrow> preserves (keepsInv I) (visit e)) \<Longrightarrow> preserves (keepsInv I) (walkEntries visit es)"
  by (induction es) (auto intro!: ki.rules)

text \<open>One directory of the walk, with the walk of its entries as an argument.\<close>

lemma walk_level_keeps:
  assumes I: "\<And>w. I w \<Longrightarrow> cacheAt C root base w" and pre: "preserves (keepsInv I) (fn name b None)"
    and err: "\<And>e. preserves (keepsInv I) (fn name b (Some e))"
    and names: "\<And>w es. I w \<Longrightarrow> readDir (fsFull root name) w = (Ok es, w) \<Longrightarrow> \<forall>e\<in>set es. legalName (fst e)"
    and sub: "\<And>m c. legalName m \<Longrightarrow> preserves (keepsInv I) (walkDir n root fn (filepathJoin [name, m]) c)"
  shows "preserves (keepsInv I) (walkDir (Suc n) root fn name b)"
proof -
  have "preserves (keepsInv I) (bindP (attempt (readDir (fsFull root name))) (\<lambda>r.
        case r of
          Inl e \<Rightarrow> fn name b (Some e)
        | Inr entries \<Rightarrow> walkEntries (\<lambda>(d, dIsDir). walkDir n root fn (filepathJoin [name, d]) dIsDir) entries))"
    unfolding keepsInv_preserves
  proof (intro allI impI)
    fix w assume w: "I w"
    obtain r w1 where rd: "readDir (fsFull root name) w = (r, w1)" by (cases "readDir (fsFull root name) w")
    then have w1: "w1 = w" by (rule readDir_state)
    show "I (snd (bindP (attempt (readDir (fsFull root name))) (\<lambda>r. case r of
          Inl e \<Rightarrow> fn name b (Some e)
        | Inr entries \<Rightarrow> walkEntries (\<lambda>(d, dIsDir). walkDir n root fn (filepathJoin [name, d]) dIsDir) entries) w))"
    proof (cases r)
      case (Ok es)
      with names [OF w] rd w1 have "\<forall>e\<in>set es. legalName (fst e)" by simp
      then have "preserves (keepsInv I) (walkEntries (\<lambda>(d, dIsDir). walkDir n root fn (filepathJoin [name, d]) dIsDir) es)"
        using sub by (intro walkEntries_keeps) auto
      with w rd w1 Ok show ?thesis by (simp add: attempt_def keepsInv_preserves)
    next
      case (Err e)
      with w rd w1 err show ?thesis by (simp add: attempt_def keepsInv_preserves)
    qed (use w rd w1 in \<open>simp_all add: attempt_def bindP_def\<close>)
  qed
  with pre show ?thesis by (auto intro!: ki.bind ki.ret simp: walkDir.simps)
qed

lemma walk_keeps:
  assumes sr: "survivesRemoval C root base spared I"
    and free: "\<And>ps. legalPath ps \<Longrightarrow> HasPrefix (relPath ps) odsCacheDependenciesDirName \<Longrightarrow> \<not> spared ps"
  shows "legalPath ps \<Longrightarrow> preserves (keepsInv I) (walkDir n root (removalVisit dependencyDecider (cacheRemover base)) (relPath ps) b)"
proof (induction n arbitrary: ps b)
  case 0
  then show ?case by (simp add: ki.panic)
next
  case (Suc n)
  have I: "cacheAt C root base w" if "I w" for w using sr that by (simp add: survivesRemoval_def)
  show ?case
  proof (rule walk_level_keeps)
    show "preserves (keepsInv I) (removalVisit dependencyDecider (cacheRemover base) (relPath ps) b None)"
      using visit_keeps [OF sr Suc.prems] free [OF Suc.prems] by blast
    show "preserves (keepsInv I) (removalVisit dependencyDecider (cacheRemover base) (relPath ps) b (Some e))" for e
      by (simp add: removalVisit_def ki.fail)
    show "\<forall>e\<in>set es. legalName (fst e)" if "I w" "readDir (fsFull root (relPath ps)) w = (Ok es, w)" for w es
      using readDir_entries [OF I [OF that(1)] Suc.prems that(2)] by blast
    show "preserves (keepsInv I) (walkDir n root (removalVisit dependencyDecider (cacheRemover base)) (filepathJoin [relPath ps, m]) c)"
      if "legalName m" for m c
      using Suc.IH [of "ps @ [m]"] Suc.prems that by (simp add: Join_relPath)
  qed (rule I)
qed

lemma deleteDependencies_keeps:
  assumes sr: "survivesRemoval C root base spared I"
    and free: "\<And>ps. legalPath ps \<Longrightarrow> HasPrefix (relPath ps) odsCacheDependenciesDirName \<Longrightarrow> \<not> spared ps"
  shows "preserves (keepsInv I) (deleteDirRecursiveWithSkip root dependencyDecider (cacheRemover base))"
proof -
  have I: "cacheAt C root base w" if "I w" for w using sr that by (simp add: survivesRemoval_def)
  have top: "preserves (keepsInv I) (walkDir (Suc n) root (removalVisit dependencyDecider (cacheRemover base)) ''.'' b)" for n b
  proof (rule walk_level_keeps)
    show "preserves (keepsInv I) (removalVisit dependencyDecider (cacheRemover base) ''.'' b None)"
      by (cases b) (simp_all add: removalVisit_def dependencyDecider_def HasPrefix_def odsCacheDependenciesDirName_def
          Join_dot [OF deps_legal, unfolded odsCacheDependenciesDirName_def] ki.ret)
    show "preserves (keepsInv I) (removalVisit dependencyDecider (cacheRemover base) ''.'' b (Some e))" for e
      by (simp add: removalVisit_def ki.fail)
    show "\<forall>e\<in>set es. legalName (fst e)" if i: "I w" and rd: "readDir (fsFull root ''.'') w = (Ok es, w)" for w es
    proof -
      obtain ds where "osStat (fsFull root ''.'') w = StatOk (Dir ds)" "es = dirEntries ds"
        using readDir_OkD [OF rd] by blast
      moreover from this have "fs_get (resolve w root) (w_root w) = Some (Dir ds)"
        using I [OF i] by (auto simp: cacheAt_def osStat_def resolve_fsFull_dot fs_get_stat split: if_splits)
      moreover have "legalTree (w_root w)" using I [OF i] by (simp add: cacheAt_def)
      ultimately have "legalTree (Dir ds)" "es = dirEntries ds" using legalTree_get by blast+
      then show ?thesis by (force dest: dirEntries_names)
    qed
    show "preserves (keepsInv I) (walkDir n root (removalVisit dependencyDecider (cacheRemover base)) (filepathJoin [''.'', m]) c)"
      if "legalName m" for m c
      using walk_keeps [OF sr free, of "[m]"] that by (simp add: Join_dot_relPath)
  qed (rule I)
  show ?thesis
    unfolding deleteDirRecursiveWithSkip_def WalkDir_def
    by (intro ki.rules) (auto simp: removalVisit_def split: statRes.split intro!: top ki.fail simp del: walkDir.simps)
qed

section \<open>Facts: cleaning the cache\<close>

abbreviation buildTask :: string where "buildTask \<equiv> odsCacheBuildOutputDirName"

abbreviation stamp :: string where "stamp \<equiv> odsCacheLastUsedTimestamp"

lemma cacheAt_start:
  assumes "dir \<noteq> []" "legalTree (w_root w)"
  shows "cacheAt (resolve w dir @ [odsCacheDirName]) (fsFull dir odsCacheDirName) (filepathJoin [dir, odsCacheDirName]) w"
proof -
  have "resolve w (fsFull dir odsCacheDirName) = resolve w dir @ [odsCacheDirName]"
    using resolve_relPath(1) [of "[odsCacheDirName]" dir w] cacheDir_legal assms(1) by (simp add: relPath_def)
  moreover have "filepathJoin [dir, odsCacheDirName] \<noteq> []"
    using assms(1) by (simp add: filepathJoin_def Clean_ne)
  ultimately show ?thesis
    using Join_resolve [OF cacheDir_legal assms(1), of w] assms by (simp add: cacheAt_def fsFull_def)
qed

definition intact :: "string list \<Rightarrow> string \<Rightarrow> string \<Rightarrow> node \<Rightarrow> world \<Rightarrow> bool" where
  "intact C K S D w \<longleftrightarrow> fs_get (C @ [buildTask, K, S]) (w_root w) = Some D \<and>
     fs_get (C @ [buildTask, K, stamp]) (w_root w) = None"

lemma intact_survives:
  "survivesRemoval C root base (\<lambda>ps. prefix ps [buildTask, K, S] \<or> prefix [buildTask, K, S] ps)
     (\<lambda>w. cacheAt C root base w \<and> intact C K S D w)"
  unfolding survivesRemoval_def intact_def
  using del_other [of _ "[buildTask, K, S]" C] by (auto simp: cacheAt_del fs_get_del_None)

lemma intact_Dirs:
  assumes "intact C K S D w"
  shows "\<exists>ks. fs_get (C @ [buildTask, K]) (w_root w) = Some (Dir ks) \<and> map_of ks S = Some D \<and> map_of ks stamp = None"
    and "\<exists>ts. fs_get (C @ [buildTask]) (w_root w) = Some (Dir ts) \<and> (\<exists>ks. map_of ts K = Some (Dir ks))"
proof -
  have 1: "fs_get (C @ [buildTask, K] @ [S]) (w_root w) = Some D" "fs_get (C @ [buildTask, K] @ [stamp]) (w_root w) = None"
    using assms by (simp_all add: intact_def)
  then obtain m where m: "fs_get (C @ [buildTask, K]) (w_root w) = Some m" "fs_get [S] m = Some D" "fs_get [stamp] m = None"
    using fs_get_above [of "C @ [buildTask, K]" "[S]"] fs_get_above [of "C @ [buildTask, K]" "[stamp]"]
    by (auto split: option.splits)
  then show k: "\<exists>ks. fs_get (C @ [buildTask, K]) (w_root w) = Some (Dir ks) \<and> map_of ks S = Some D \<and> map_of ks stamp = None"
    by (cases m) (auto split: option.splits)
  then obtain ks where ks: "fs_get (C @ [buildTask] @ [K]) (w_root w) = Some (Dir ks)" by auto
  then obtain t where t: "fs_get (C @ [buildTask]) (w_root w) = Some t" "fs_get [K] t = Some (Dir ks)"
    using fs_get_above [of "C @ [buildTask]" "[K]"] by (auto split: option.splits)
  then show "\<exists>ts. fs_get (C @ [buildTask]) (w_root w) = Some (Dir ts) \<and> (\<exists>ks. map_of ts K = Some (Dir ks))"
    by (cases t) (auto split: option.splits)
qed

lemma stampStat_at:
  assumes "cacheAt C root base w" "legalPath ps"
  shows "stampStat root ps w = (if w_faulty w (C @ ps @ [stamp])
    then StatErr (''stat '' @ fsFull root (relPath (ps @ [stamp])) @ '': input/output error'')
    else fs_stat (C @ ps @ [stamp]) (w_root w))"
proof -
  have "legalPath (ps @ [stamp])" using assms(2) stamp_legal(1) by auto
  from cacheAt_full [OF assms(1) this] show ?thesis by (simp add: stampStat_def osStat_def)
qed

lemma intact_stamp_K:
  assumes "intact C K S D w" "cacheAt C root base w" "legalName K"
  shows "stampStat root [buildTask, K] w = NotExist \<or> (\<exists>e. stampStat root [buildTask, K] w = StatErr e)"
proof -
  obtain ks where "fs_stat (C @ [buildTask, K]) (w_root w) = StatOk (Dir ks)" "map_of ks stamp = None"
    using intact_Dirs(1) [OF assms(1)] by (auto simp: fs_get_stat)
  then have "fs_stat ((C @ [buildTask, K]) @ [stamp]) (w_root w) = NotExist"
    by (subst fs_stat_append) simp
  then show ?thesis using stampStat_at [OF assms(2), of "[buildTask, K]"] assms(3) stamp_legal(2) by auto
qed

lemma intact_stamp_S:
  assumes "intact C K S D w" "cacheAt C root base w" "legalName K" "legalName S"
  shows "(\<exists>e. stampStat root [buildTask, K, S] w = StatErr e) \<or> stampStat root [buildTask, K, S] w = fs_stat [stamp] D"
proof -
  have "fs_stat (C @ [buildTask, K, S]) (w_root w) = StatOk D" using assms(1) by (simp add: intact_def fs_get_stat)
  then have "fs_stat ((C @ [buildTask, K, S]) @ [stamp]) (w_root w) = fs_stat [stamp] D"
    by (subst fs_stat_append) simp
  then show ?thesis using stampStat_at [OF assms(2), of "[buildTask, K, S]"] assms(3,4) stamp_legal(2) by auto
qed

lemma level_of: "legalName K \<Longrightarrow> pathLevel (relPath [buildTask]) = 0" "legalName K \<Longrightarrow> pathLevel (relPath [buildTask, K]) = 1"
  using pathLevel_relPath [of "[buildTask]"] pathLevel_relPath [of "[buildTask, K]"] stamp_legal(2) by auto

lemma cleanup_keeps_recent:
  assumes K: "legalName K" "legalName S" and D: "D = Dir ds" "map_of ds stamp = Some st" "\<not> modTime dirTime st < keep"
  shows "preserves (keepsInv (\<lambda>w. cacheAt C root base w \<and> intact C K S D w))
    (cleanupNotRecentlyUsed root dirTime keep (cacheRemover base) buildTask)"
proof -
  note sr = intact_survives [of C root base K S D]
  have rp: "relPath [buildTask] = buildTask" by (simp add: relPath_def)
  have st: "fs_stat [stamp] D = StatOk st" using D by simp
  have second: "preserves (keepsInv (\<lambda>w. cacheAt C root base w \<and> intact C K S D w))
      (cleanupNotRecentlyUsedMaxLevel (Suc 0) root dirTime keep (cacheRemover base) 1 (relPath ([buildTask] @ [n])))"
    if n: "legalName n" for n
  proof (rule level_keeps [OF sr])
    show "legalPath ([buildTask] @ [n])" using n stamp_legal by simp
    show b if w: "cacheAt C root base w \<and> intact C K S D w" and "fs_get (C @ [buildTask] @ [n]) (w_root w) = Some (Dir es)"
      "(m, b) \<in> set (dirEntries es)" "prefix (([buildTask] @ [n]) @ [m]) [buildTask, K, S] \<or> prefix [buildTask, K, S] (([buildTask] @ [n]) @ [m])"
    for w es m b
      using that intact_Dirs(1) [of C K S D w] D(1) dirEntries_flag [of m b es D] by auto
    show "notCleaned dirTime keep (pathLevel (relPath ([buildTask] @ [n])) < 1) (stampStat root (([buildTask] @ [n]) @ [m]) w)"
      if "cacheAt C root base w \<and> intact C K S D w" "legalName m"
        "prefix (([buildTask] @ [n]) @ [m]) [buildTask, K, S] \<or> prefix [buildTask, K, S] (([buildTask] @ [n]) @ [m])" for w m
      using that intact_stamp_S [of C K S D w root base] K st D(3) by (auto simp: notCleaned_def)
  qed (use n level_of in auto)
  have "preserves (keepsInv (\<lambda>w. cacheAt C root base w \<and> intact C K S D w))
      (cleanupNotRecentlyUsedMaxLevel (Suc (Suc 0)) root dirTime keep (cacheRemover base) 1 (relPath [buildTask]))"
  proof (rule level_keeps [OF sr])
    show "legalPath [buildTask]" using stamp_legal by simp
    show b if w: "cacheAt C root base w \<and> intact C K S D w" and "fs_get (C @ [buildTask]) (w_root w) = Some (Dir es)"
      "(m, b) \<in> set (dirEntries es)" "prefix ([buildTask] @ [m]) [buildTask, K, S] \<or> prefix [buildTask, K, S] ([buildTask] @ [m])"
    for w es m b
      using that intact_Dirs(2) [of C K S D w] dirEntries_flag [of m b es] by fastforce
    show "notCleaned dirTime keep (pathLevel (relPath [buildTask]) < 1) (stampStat root ([buildTask] @ [m]) w)"
      if "cacheAt C root base w \<and> intact C K S D w" "legalName m"
        "prefix ([buildTask] @ [m]) [buildTask, K, S] \<or> prefix [buildTask, K, S] ([buildTask] @ [m])" for w m
      using that intact_stamp_K [of C K S D w root base] K level_of(1) by (auto simp: notCleaned_def)
    show "preserves (keepsInv (\<lambda>w. cacheAt C root base w \<and> intact C K S D w))
      (cleanupNotRecentlyUsedMaxLevel (Suc 0) root dirTime keep (cacheRemover base) 1 (relPath ([buildTask] @ [n])))"
      if "legalName n" for n
      by (rule second [OF that])
  qed
  then show ?thesis by (simp add: cleanupNotRecentlyUsed_def rp numeral_2_eq_2 del: cleanupNotRecentlyUsedMaxLevel.simps)
qed

definition gone :: "string list \<Rightarrow> string \<Rightarrow> string \<Rightarrow> world \<Rightarrow> bool" where
  "gone C K S w \<longleftrightarrow> fs_get (C @ [buildTask, K, S]) (w_root w) = None"

lemma gone_survives: "survivesRemoval C root base (\<lambda>ps. False) (\<lambda>w. cacheAt C root base w \<and> gone C K S w)"
  by (auto simp: survivesRemoval_def gone_def cacheAt_del fs_get_del_None)

lemma goneOrIntact_survives:
  "survivesRemoval C root base (\<lambda>ps. strict_prefix [buildTask, K, S] ps)
     (\<lambda>w. cacheAt C root base w \<and> (gone C K S w \<or> intact C K S D w))"
  unfolding survivesRemoval_def
proof (intro conjI allI impI)
  fix w ps
  assume I: "cacheAt C root base w \<and> (gone C K S w \<or> intact C K S D w)" and ps: "ps \<noteq> []"
    and ns: "\<not> strict_prefix [buildTask, K, S] ps"
  let ?w = "w\<lparr>w_root := fs_del (C @ ps) (w_root w)\<rparr>"
  show "cacheAt C root base ?w" using I by (simp add: cacheAt_del)
  show "gone C K S ?w \<or> intact C K S D ?w"
  proof (cases "gone C K S w")
    case True
    then show ?thesis by (simp add: gone_def fs_get_del_None)
  next
    case False
    with I have i: "intact C K S D w" by simp
    show ?thesis
    proof (cases "prefix ps [buildTask, K, S]")
      case True
      then obtain qs where "[buildTask, K, S] = ps @ qs" by (auto simp: prefix_def)
      then have "fs_get (C @ [buildTask, K, S]) (fs_del (C @ ps) (w_root w)) =
          (case fs_get (C @ ps) (fs_del (C @ ps) (w_root w)) of None \<Rightarrow> None | Some m \<Rightarrow> fs_get qs m)"
        by (metis append.assoc fs_get_above)
      then show ?thesis using ps by (simp add: gone_def fs_get_del_same)
    next
      case False
      moreover from this ns have "\<not> prefix [buildTask, K, S] ps" by (auto simp: strict_prefix_def)
      ultimately show ?thesis using i del_other [of ps "[buildTask, K, S]" C "w_root w"]
        by (simp add: intact_def fs_get_del_None)
    qed
  qed
qed auto

text \<open>A level of the clean-up that finishes has processed the entry of an intact build output.\<close>

lemma level_Ok:
  assumes "cleanupNotRecentlyUsedMaxLevel (Suc k) root dirTime keep rm ml (relPath ps) w = (Ok c, w')"
    and ca: "cacheAt C root base w" and legal: "legalPath ps"
    and here: "fs_get (C @ ps) (w_root w) = Some (Dir ds)" "map_of ds n = Some m"
  shows "\<exists>es1 es2 c0. (\<forall>e\<in>set (es1 @ es2). legalName (fst e)) \<and>
    bindP (foldP (cleanEntry root dirTime keep rm (pathLevel (relPath ps) < ml)
        (cleanupNotRecentlyUsedMaxLevel k root dirTime keep rm ml) (relPath ps)) 0 es1) (\<lambda>c0.
      bindP (cleanEntry root dirTime keep rm (pathLevel (relPath ps) < ml)
        (cleanupNotRecentlyUsedMaxLevel k root dirTime keep rm ml) (relPath ps) c0 (n, isDirNode m)) (\<lambda>c1.
      foldP (cleanEntry root dirTime keep rm (pathLevel (relPath ps) < ml)
        (cleanupNotRecentlyUsedMaxLevel k root dirTime keep rm ml) (relPath ps)) c1 es2)) w = (Ok c, w')"
proof -
  let ?s = "osStat (fsFull root (relPath ps)) w"
  have st: "?s = StatOk (Dir ds) \<or> (\<exists>e. ?s = StatErr e)"
    using here(1) cacheAt_full [OF ca legal] by (auto simp: osStat_def fs_get_stat)
  with assms(1) have rd: "readDir (fsFull root (relPath ps)) w = (Ok (dirEntries ds), w)"
    by (auto simp: readDir_def gets_def IsNotExist_def wrapErr_def bindP_def)
  with st have s: "?s = StatOk (Dir ds)" by (auto simp: readDir_def)
  from here(2) have "n \<in> fst ` set ds" by (force dest: map_of_SomeD)
  then obtain b where b: "(n, b) \<in> set (dirEntries ds)" using dirEntries_complete by blast
  with dirEntries_flag [OF b here(2)] have "(n, isDirNode m) \<in> set (dirEntries ds)" by simp
  then obtain es1 es2 where es: "dirEntries ds = es1 @ (n, isDirNode m) # es2" by (metis split_list)
  moreover have "\<forall>e\<in>set (dirEntries ds). legalName (fst e)"
    using readDir_entries [OF ca legal rd] by blast
  moreover have "foldP (cleanEntry root dirTime keep rm (pathLevel (relPath ps) < ml)
        (cleanupNotRecentlyUsedMaxLevel k root dirTime keep rm ml) (relPath ps)) 0 (dirEntries ds) w = (Ok c, w')"
    using assms(1) rd s by (simp add: gets_def IsNotExist_def wrapErr_def)
  ultimately show ?thesis
    by (intro exI [of _ es1] exI [of _ es2]) (simp add: foldP_append)
qed

lemma cleanup_level_keeps:
  assumes "survivesRemoval C root base spared I" "legalPath ps" "length ps \<le> 3 - k"
    and "\<And>ps. legalPath ps \<Longrightarrow> length ps \<le> 3 \<Longrightarrow> \<not> spared ps"
    and "k \<le> 2"
  shows "preserves (keepsInv I) (cleanupNotRecentlyUsedMaxLevel k root dirTime keep (cacheRemover base) 1 (relPath ps))"
  using assms(2,3,5)
proof (induction k arbitrary: ps)
  case 0
  then show ?case by (simp add: ki.panic)
next
  case (Suc k)
  have no: "\<not> spared (ps @ [n])" if "legalName n" for n using assms(4) [of "ps @ [n]"] Suc.prems that by auto
  show ?case
    by (rule level_keeps [OF assms(1) Suc.prems(1)]) (use no Suc in auto)
qed

lemma entry_keeps_free:
  assumes "survivesRemoval C root base spared I" "legalPath ps" "legalName n" "length ps \<le> 2 - k" "k \<le> 1"
    and "\<And>ps. legalPath ps \<Longrightarrow> length ps \<le> 3 \<Longrightarrow> \<not> spared ps"
  shows "preserves (keepsInv I) (cleanEntry root dirTime keep (cacheRemover base) mayEnter
    (cleanupNotRecentlyUsedMaxLevel k root dirTime keep (cacheRemover base) 1) (relPath ps) c (n, b))"
proof (rule entry_keeps [OF assms(1-3)])
  show "preserves (keepsInv I) (cleanupNotRecentlyUsedMaxLevel k root dirTime keep (cacheRemover base) 1 (relPath (ps @ [n])))"
    by (rule cleanup_level_keeps [OF assms(1)]) (use assms in auto)
qed (use assms(6) [of "ps @ [n]"] assms(2-5) in auto)

lemma process_one:
  assumes "bindP A (\<lambda>c0. bindP (B c0) P) w = (Ok c, w')" and "J w"
    and "preserves (keepsInv J) A" and "\<And>c0 w1 x w2. J w1 \<Longrightarrow> B c0 w1 = (Ok x, w2) \<Longrightarrow> G w2"
    and "\<And>c1. preserves (keepsInv G) (P c1)"
  shows "G w'"
proof -
  obtain c0 w1 c1 w2 where "A w = (Ok c0, w1)" "B c0 w1 = (Ok c1, w2)" "P c1 w2 = (Ok c, w')"
    using assms(1) by (auto elim!: bindP_OkE)
  then show ?thesis using assms(2-5) unfolding keepsInv_preserves by (metis snd_conv)
qed

text \<open>
  A level of the clean-up removes a build output when the handling of the entry it lies under does.
\<close>

lemma level_removes:
  assumes run: "cleanupNotRecentlyUsedMaxLevel (Suc k) root dirTime keep (cacheRemover base) 1 (relPath ps) w = (Ok c, w')"
    and J: "cacheAt C root base w \<and> (gone C K S w \<or> intact C K S D w)"
    and legal: "legalPath ps" "legalName n" "length ps \<le> 2 - k" "k \<le> 1"
    and here: "intact C K S D w \<Longrightarrow> \<exists>ds es. fs_get (C @ ps) (w_root w) = Some (Dir ds) \<and> map_of ds n = Some (Dir es)"
    and entry: "\<And>c0 w1 x w2. cacheAt C root base w1 \<Longrightarrow> intact C K S D w1 \<Longrightarrow>
      cleanEntry root dirTime keep (cacheRemover base) (pathLevel (relPath ps) < 1)
        (cleanupNotRecentlyUsedMaxLevel k root dirTime keep (cacheRemover base) 1) (relPath ps) c0 (n, True) w1 = (Ok x, w2) \<Longrightarrow>
      cacheAt C root base w2 \<and> gone C K S w2"
  shows "cacheAt C root base w' \<and> gone C K S w'"
proof (cases "gone C K S w")
  case True
  have "preserves (keepsInv (\<lambda>w. cacheAt C root base w \<and> gone C K S w))
    (cleanupNotRecentlyUsedMaxLevel (Suc k) root dirTime keep (cacheRemover base) 1 (relPath ps))"
    by (rule cleanup_level_keeps [OF gone_survives]) (use legal in auto)
  with True J run show ?thesis unfolding keepsInv_preserves by (metis snd_conv)
next
  case False
  let ?J = "\<lambda>w. cacheAt C root base w \<and> (gone C K S w \<or> intact C K S D w)"
  let ?G = "\<lambda>w. cacheAt C root base w \<and> gone C K S w"
  let ?entry = "cleanEntry root dirTime keep (cacheRemover base) (pathLevel (relPath ps) < 1)
    (cleanupNotRecentlyUsedMaxLevel k root dirTime keep (cacheRemover base) 1) (relPath ps)"
  from False J have i: "intact C K S D w" and ca: "cacheAt C root base w" by auto
  obtain es1 es2 where legals: "\<forall>e\<in>set (es1 @ es2). legalName (fst e)"
    and main: "bindP (foldP ?entry 0 es1) (\<lambda>c0. bindP (?entry c0 (n, True)) (\<lambda>c1. foldP ?entry c1 es2)) w = (Ok c, w')"
    using level_Ok [OF run ca legal(1)] here [OF i] by fastforce
  have free: "preserves (keepsInv I) (?entry c0 e)"
    if "survivesRemoval C root base spared I" "legalName (fst e)"
      "\<And>ps. legalPath ps \<Longrightarrow> length ps \<le> 3 \<Longrightarrow> \<not> spared ps" for I spared c0 e
    using entry_keeps_free [OF that(1) legal(1) that(2) legal(3,4), of dirTime keep "pathLevel (relPath ps) < 1" c0 "snd e"] that(3)
    by simp
  show ?thesis
  proof (rule process_one [OF main, of ?J])
    show "preserves (keepsInv ?J) (foldP ?entry 0 es1)"
      by (rule ki.foldP, rule free [OF goneOrIntact_survives]) (use legals in \<open>auto simp: strict_prefix_def prefix_def\<close>)
    show "preserves (keepsInv ?G) (foldP ?entry c1 es2)" for c1
      by (rule ki.foldP, rule free [OF gone_survives]) (use legals in auto)
    show "?G w2" if w1: "?J w1" and e: "?entry c0 (n, True) w1 = (Ok x, w2)" for c0 w1 x w2
    proof (cases "gone C K S w1")
      case True
      have "preserves (keepsInv ?G) (?entry c0 (n, True))" by (rule free [OF gone_survives]) (use legal in auto)
      with True w1 e show ?thesis unfolding keepsInv_preserves by (metis snd_conv)
    next
      case False
      with w1 entry e show ?thesis by blast
    qed
  qed (rule J)
qed

lemma second_level_removes:
  assumes run: "cleanupNotRecentlyUsedMaxLevel (Suc 0) root dirTime keep (cacheRemover base) 1 (relPath [buildTask, K]) w = (Ok c, w')"
    and K: "legalName K" "legalName S"
    and J: "cacheAt C root base w \<and> (gone C K S w \<or> intact C K S D w)"
    and D: "D = Dir ds" "\<And>st. map_of ds stamp = Some st \<Longrightarrow> modTime dirTime st < keep"
  shows "cacheAt C root base w' \<and> gone C K S w'"
proof (rule level_removes [OF run J, of S])
  have legal: "legalPath [buildTask, K]" "legalPath [buildTask, K, S]" using K stamp_legal by simp_all
  show "cacheAt C root base w2 \<and> gone C K S w2"
    if ca: "cacheAt C root base w1" and i: "intact C K S D w1"
      and e: "cleanEntry root dirTime keep (cacheRemover base) (pathLevel (relPath [buildTask, K]) < 1)
        (cleanupNotRecentlyUsedMaxLevel 0 root dirTime keep (cacheRemover base) 1) (relPath [buildTask, K]) c0 (S, True) w1 = (Ok x, w2)"
    for c0 w1 x w2
  proof -
    have "fs_stat [stamp] D = NotExist \<or> (\<exists>st. fs_stat [stamp] D = StatOk st \<and> modTime dirTime st < keep)"
      using D by (auto split: option.split)
    with intact_stamp_S [OF i ca K] e level_of(2) [OF K(1)] cleanEntry_relPath [OF legal(1) K(2), of root dirTime keep "cacheRemover base" False _ c0 True]
    have "bindP (cacheRemover base (relPath [buildTask, K, S]) True) (\<lambda>_. ret (c0 + 1)) w1 = (Ok x, w2)"
      by (auto simp: notCleaned_def gets_def panicP_def)
    then obtain u where "cacheRemover base (relPath [buildTask, K, S]) True w1 = (Ok u, w2)"
      by (auto elim!: bindP_OkE simp: ret_def)
    from remover_Ok [OF ca legal(2) this] ca show ?thesis by (simp add: cacheAt_del gone_def fs_get_del_same)
  qed
qed (use K D stamp_legal in \<open>auto dest: intact_Dirs(1)\<close>)

lemma first_level_removes:
  assumes run: "cleanupNotRecentlyUsed root dirTime keep (cacheRemover base) buildTask w = (Ok c, w')"
    and K: "legalName K" "legalName S"
    and J: "cacheAt C root base w \<and> (gone C K S w \<or> intact C K S D w)"
    and D: "D = Dir ds" "\<And>st. map_of ds stamp = Some st \<Longrightarrow> modTime dirTime st < keep"
  shows "cacheAt C root base w' \<and> gone C K S w'"
proof (rule level_removes [of "Suc 0" _ _ _ _ "[buildTask]" _ _ _ _ _ _ _ K, OF _ J])
  have legal: "legalPath [buildTask]" using stamp_legal by simp
  show "cleanupNotRecentlyUsedMaxLevel (Suc (Suc 0)) root dirTime keep (cacheRemover base) 1 (relPath [buildTask]) w = (Ok c, w')"
    using run by (simp add: cleanupNotRecentlyUsed_def relPath_def numeral_2_eq_2 del: cleanupNotRecentlyUsedMaxLevel.simps)
  let ?enter = "cleanupNotRecentlyUsedMaxLevel (Suc 0) root dirTime keep (cacheRemover base) 1"
  show "cacheAt C root base w2 \<and> gone C K S w2"
    if ca: "cacheAt C root base w1" and i: "intact C K S D w1"
      and e: "cleanEntry root dirTime keep (cacheRemover base) (pathLevel (relPath [buildTask]) < 1) ?enter
        (relPath [buildTask]) c0 (K, True) w1 = (Ok x, w2)" for c0 w1 x w2
  proof -
    from intact_stamp_K [OF i ca K(1)] e level_of(1) [OF K(1)]
      cleanEntry_relPath [OF legal K(1), of root dirTime keep "cacheRemover base" True ?enter c0 True]
    have "bindP (wrapErr (''could not enter directory '' @ relPath [buildTask, K] @ '': '') (?enter (relPath [buildTask, K])))
        (\<lambda>c. ret (c0 + 1 + c)) w1 = (Ok x, w2)"
      by (auto simp: notCleaned_def gets_def panicP_def simp del: cleanupNotRecentlyUsedMaxLevel.simps)
    then obtain n where "?enter (relPath [buildTask, K]) w1 = (Ok n, w2)"
      by (auto elim!: bindP_OkE simp: ret_def simp del: cleanupNotRecentlyUsedMaxLevel.simps)
    from second_level_removes [OF this K _ D] ca i show ?thesis by blast
  qed
qed (use K stamp_legal in \<open>auto dest: intact_Dirs(2)\<close>)

text \<open>A build output is recently used if its stamp is not older than the given time.\<close>

definition recentlyUsed :: "int \<Rightarrow> int \<Rightarrow> (string \<times> node) list \<Rightarrow> bool" where
  "recentlyUsed dirTime keep ds = (case map_of ds stamp of None \<Rightarrow> False | Some st \<Rightarrow> \<not> modTime dirTime st < keep)"

text \<open>
  C23: cleaning the cache keeps a build output exactly as it is if its stamp is not older than the
  configured number of days, and removes it completely if the stamp is older or missing (a build
  output lies two levels below \<open>build-task\<close>, in a directory without a stamp of its own).
\<close>

theorem cleanCache_keeps_recent_builds:
  assumes run: "cleanCache dirTime \<lparr>fsb_filesystem = dir, fsb_base = dir\<rparr> removeFileOrDir expirationDays w = (Ok (), w')"
    and dir: "dir \<noteq> []" and names: "legalTree (w_root w)" "legalName K" "legalName S"
    and build: "intact (resolve w dir @ [odsCacheDirName]) K S (Dir ds) w"
  shows "fs_get (resolve w dir @ [odsCacheDirName, odsCacheBuildOutputDirName, K, S]) (w_root w') =
    (if recentlyUsed dirTime (w_now w - expirationDays * day) ds then Some (Dir ds) else None)"
proof -
  define C where "C = resolve w dir @ [odsCacheDirName]"
  define root where "root = fsFull dir odsCacheDirName"
  define base where "base = filepathJoin [dir, odsCacheDirName]"
  define keep where "keep = w_now w - expirationDays * day"
  note i = build [folded C_def]
  have ca: "cacheAt C root base w" unfolding C_def root_def base_def by (rule cacheAt_start [OF dir names(1)])
  have free: "\<not> (prefix ps [buildTask, K, S] \<or> prefix [buildTask, K, S] ps)"
    if "legalPath ps" "HasPrefix (relPath ps) odsCacheDependenciesDirName" for ps
    using that by (cases ps; cases "tl ps") (auto simp: relPath_def HasPrefix_def odsCacheDependenciesDirName_def odsCacheBuildOutputDirName_def)
  have "\<not> IsNotExist (osStat root w)"
  proof -
    have "fs_get (C @ [buildTask] @ [K, S]) (w_root w) = Some (Dir ds)" using i by (simp add: intact_def)
    then obtain m where "fs_get C (w_root w) = Some m" using fs_get_above [of C] by (fastforce split: option.splits)
    with ca show ?thesis by (auto simp: cacheAt_def osStat_def IsNotExist_def fs_get_stat)
  qed
  with run obtain w1 c where dep: "deleteDirRecursiveWithSkip root dependencyDecider (cacheRemover base) w = (Ok (), w1)"
    and clean: "cleanupNotRecentlyUsed root dirTime (w_now w1 - expirationDays * day) (cacheRemover base) buildTask w1 = (Ok c, w')"
    by (auto simp: cleanCache_def root_def [symmetric] base_def [symmetric] gets_def ret_def Let_def elim!: bindP_OkE)
  have now: "cacheAt C root base w1 \<and> intact C K S (Dir ds) w1"
    using deleteDependencies_keeps [OF intact_survives, of K S C root base "Dir ds"] free ca i dep unfolding keepsInv_preserves by (metis snd_conv)
  have keep: "w_now w1 - expirationDays * day = keep"
  proof -
    have "preserves (keepsInv (\<lambda>v. cacheAt C root base v \<and> w_now v = w_now w)) (deleteDirRecursiveWithSkip root dependencyDecider (cacheRemover base))"
      by (rule deleteDependencies_keeps [of C _ _ "\<lambda>ps. False"]) (auto simp: survivesRemoval_def cacheAt_del)
    with ca dep show ?thesis unfolding keepsInv_preserves keep_def by (metis snd_conv)
  qed
  show ?thesis
  proof (cases "recentlyUsed dirTime keep ds")
    case True
    then obtain st where "map_of ds stamp = Some st" "\<not> modTime dirTime st < keep"
      by (auto simp: recentlyUsed_def split: option.splits)
    from cleanup_keeps_recent [OF names(2,3) refl this] now clean keep
    have "intact C K S (Dir ds) w'" unfolding keepsInv_preserves by (metis snd_conv)
    with True show ?thesis by (simp add: intact_def C_def keep_def)
  next
    case False
    have "cacheAt C root base w' \<and> gone C K S w'"
      by (rule first_level_removes [OF clean names(2,3) _ refl])
        (use False now keep in \<open>auto simp: recentlyUsed_def\<close>)
    with False show ?thesis by (simp add: gone_def C_def keep_def)
  qed
qed

lemma cleanCache_witness:
  "fs_get [''.ods-cache'', ''build-task'', ''go'', ''new''] (w_root (snd (cleanCache 0 here removeFileOrDir 7 cacheWorld))) \<noteq> None
   \<and> fs_get [''.ods-cache'', ''build-task'', ''go'', ''old''] (w_root (snd (cleanCache 0 here removeFileOrDir 7 cacheWorld))) = None"
proof -
  let ?run = "cleanCache 0 here removeFileOrDir 7 cacheWorld"
  have "fst ?run = Ok ()" by code_simp
  then have run: "cleanCache 0 \<lparr>fsb_filesystem = ''.'', fsb_base = ''.''\<rparr> removeFileOrDir 7 cacheWorld = (Ok (), snd ?run)"
    by (metis here_def prod.collapse)
  have tree: "legalTree (w_root cacheWorld)"
    by (simp add: cacheWorld_def cacheTree_def legalName_def plainElem_def)
  have new: "intact (resolve cacheWorld ''.'' @ [odsCacheDirName]) ''go'' ''new'' (Dir [(''.ods-last-used-stamp'', File [] (9 * day))]) cacheWorld"
    and old: "intact (resolve cacheWorld ''.'' @ [odsCacheDirName]) ''go'' ''old'' (Dir [(''.ods-last-used-stamp'', File [] day)]) cacheWorld"
    by code_simp+
  show ?thesis
    using cleanCache_keeps_recent_builds [OF run _ tree _ _ new] cleanCache_keeps_recent_builds [OF run _ tree _ _ old]
    by (simp add: legalName_def plainElem_def resolve_here odsCacheDirName_def odsCacheBuildOutputDirName_def
        recentlyUsed_def odsCacheLastUsedTimestamp_def modTime_def cacheWorld_simps day_def)
qed

end
