(* ===== verification/Start.thy ===== *)
theory Start
  imports Cache Repository
begin

text \<open>
  \<open>cmd/start/main.go\<close>: the task that runs first in every pipeline.  It empties the checkout
  directory, checks out the repository and its subrepositories, writes the contexts, sets the
  build status, tags the commits and downloads the artifacts of earlier runs.  The process ends
  with status 1 wherever the code calls \<open>log.Fatal\<close>; log messages are not modelled.
\<close>

section \<open>Options\<close>

record startOptions =
  so_bitbucketAccessToken :: string
  so_bitbucketURL :: string
  so_consoleURL :: string
  so_pipelineRunName :: string
  so_nexusURL :: string
  so_nexusUsername :: string
  so_nexusPassword :: string
  so_nexusTemporaryRepository :: string
  so_nexusPermanentRepository :: string
  so_project :: string
  so_environment :: string
  so_version :: string
  so_prKey :: string
  so_prBase :: string
  so_gitRefSpec :: string
  so_httpProxy :: string
  so_httpsProxy :: string
  so_noProxy :: string
  so_url :: string
  so_gitFullRef :: string
  so_sslVerify :: string
  so_submodules :: string
  so_depth :: string
  so_cacheBuildTasksForDays :: int
  so_debug :: bool

text \<open>The values of the flags when none is given.\<close>

definition startDefaults :: "(string \<Rightarrow> string) \<Rightarrow> startOptions" where
  "startDefaults getenv =
     \<lparr>so_bitbucketAccessToken = getenv ''BITBUCKET_ACCESS_TOKEN'', so_bitbucketURL = getenv ''BITBUCKET_URL'',
      so_consoleURL = getenv ''CONSOLE_URL'', so_pipelineRunName = [],
      so_nexusURL = getenv ''NEXUS_URL'', so_nexusUsername = getenv ''NEXUS_USERNAME'',
      so_nexusPassword = getenv ''NEXUS_PASSWORD'',
      so_nexusTemporaryRepository = getenv ''NEXUS_TEMPORARY_REPOSITORY'',
      so_nexusPermanentRepository = getenv ''NEXUS_PERMANENT_REPOSITORY'',
      so_project = [], so_environment = [], so_version = [], so_prKey = [], so_prBase = [], so_gitRefSpec = [],
      so_httpProxy = ''.'', so_httpsProxy = ''.'', so_noProxy = ''.'', so_url = ''.'', so_gitFullRef = [],
      so_sslVerify = ''true'', so_submodules = ''true'', so_depth = ''1'', so_cacheBuildTasksForDays = 7,
      so_debug = (getenv ''DEBUG'' = ''true'')\<rparr>"

section \<open>Checking out\<close>

text \<open>The output of a child process that must succeed.\<close>

definition outputOr :: "(string \<Rightarrow> string \<Rightarrow> string) \<Rightarrow> (string \<times> string \<times> string option) prog_w \<Rightarrow> string prog_w" where
  "outputOr msg m = bindP m (\<lambda>(out, err, e). case e of None \<Rightarrow> ret out | Some x \<Rightarrow> failE (msg err x))"

lemma outputOr_Ok:
  "outputOr msg m w = (Ok out, w') \<longleftrightarrow> (\<exists>err. m w = (Ok (out, err, None), w'))"
  by (auto simp: outputOr_def bindP_def ret_def failE_def split: prod.splits outcome.splits option.splits)

definition gitLfsInUse :: "services \<Rightarrow> string \<Rightarrow> bool prog_w" where
  "gitLfsInUse sv dir =
     bindP (outputOr (\<lambda>err e. ''cannot list git lfs files: '' @ err @ '' ('' @ e @ '')'')
              (command_RunInDir sv ''git'' [''lfs'', ''ls-files'', ''--all''] dir)) (\<lambda>out.
     ret (TrimSpace out \<noteq> []))"

definition gitLfsEnableAndPullFiles :: "services \<Rightarrow> string \<Rightarrow> unit prog_w" where
  "gitLfsEnableAndPullFiles sv dir =
     bindP (outputOr (\<lambda>err e. ''cannot enable git lfs: '' @ err @ '' ('' @ e @ '')'')
              (command_RunInDir sv ''git'' [''lfs'', ''install''] dir)) (\<lambda>_.
     bindP (outputOr (\<lambda>err e. ''cannot git pull lfs files: '' @ err @ '' ('' @ e @ '')'')
              (command_RunInDir sv ''git'' [''lfs'', ''pull''] dir)) (\<lambda>_. ret ()))"

definition headCommitSHA :: "string \<Rightarrow> string prog_w" where
  "headCommitSHA dir = bindP (readFile (filepathJoin [dir, ''.git/HEAD''])) (\<lambda>content. ret (TrimSpace content))"

definition gitInitArgs :: "startOptions \<Rightarrow> string \<Rightarrow> string \<Rightarrow> string \<Rightarrow> string list" where
  "gitInitArgs opts url gitFullRef dir =
     [''-url'', url, ''-revision'', gitFullRef, ''-refspec'', so_gitRefSpec opts, ''-path'', dir,
      ''-sslVerify'', so_sslVerify opts, ''-submodules'', so_submodules opts, ''-depth'', so_depth opts]"

definition checkoutAndAssembleContext ::
  "services \<Rightarrow> rangeOrder \<Rightarrow> startOptions \<Rightarrow> string \<Rightarrow> string \<Rightarrow> string \<Rightarrow> ODSContext \<Rightarrow> ODSContext prog_w" where
  "checkoutAndAssembleContext sv ord opts checkoutDir url gitFullRef baseCtxt =
     bindP (gets (filepathAbs checkoutDir)) (\<lambda>absCheckoutDir.
     bindP (fatal (outputOr (\<lambda>err e. e) (command_Run sv ''/ko-app/git-init'' (gitInitArgs opts url gitFullRef absCheckoutDir)))) (\<lambda>_.
     bindP (fatal (WriteGitIgnore (filepathJoin [absCheckoutDir, ''.git'', ''info'', ''exclude'']))) (\<lambda>_.
     bindP (fatal (gitLfsInUse sv absCheckoutDir)) (\<lambda>lfs.
     bindP (if lfs then fatal (gitLfsEnableAndPullFiles sv absCheckoutDir) else ret ()) (\<lambda>_.
     bindP (fatal (headCommitSHA absCheckoutDir)) (\<lambda>sha.
     let ctxt = (ODSContext_Copy baseCtxt)\<lparr>oc_GitFullRef := gitFullRef, oc_GitCommitSHA := sha\<rparr>
     in bindP (fatal (Assemble ctxt absCheckoutDir)) (\<lambda>ctxt.
        bindP (gets w_trace) (\<lambda>h.
        bindP (fatal (WriteCache (ord h) ctxt absCheckoutDir)) (\<lambda>_.
        ret ctxt)))))))))"

section \<open>Version tags\<close>

definition listTags :: "services \<Rightarrow> ODSContext \<Rightarrow> string \<Rightarrow> tag list prog_w" where
  "listTags sv ctxt filterText =
     (let params = \<lparr>tl_FilterText = filterText, tl_OrderBy = []\<rparr>
      in bindP (wrapErr (''could not list tags in '' @ oc_Project ctxt @ ''/'' @ oc_Repository ctxt @ '': '')
           (perform (CTagList (oc_Project ctxt) (oc_Repository ctxt) params)
              (\<lambda>h. sv_TagList sv h (oc_Project ctxt) (oc_Repository ctxt) params))) (\<lambda>page.
         ret (tp_Values page)))"

definition checkProdTagRequirements :: "tag list \<Rightarrow> ODSContext \<Rightarrow> string \<Rightarrow> string + unit" where
  "checkProdTagRequirements tags ctxt version =
     (case fst (LatestReleaseCandidate tags version) of
        None \<Rightarrow> Inl (''no release candidate tag found for '' @ version @ ''. Deploy to QA before deploying to Prod'')
      | Some tag \<Rightarrow>
          (if tg_LatestCommit tag \<noteq> oc_GitCommitSHA ctxt
           then Inl (''latest release candidate tag for '' @ version @
                  '' does not point to checked out commit, cowardly refusing to deploy'')
           else Inr ()))"

definition createTag :: "services \<Rightarrow> string \<Rightarrow> ODSContext \<Rightarrow> unit prog_w" where
  "createTag sv tagName ctxt =
     bindP (wrapErr (''could not create tag '' @ tagName @ '' in '' @ oc_Project ctxt @ ''/'' @ oc_Repository ctxt @ '': '')
              (CreateTag sv ctxt tagName)) (\<lambda>_. ret ())"

definition wrapInt :: "int \<Rightarrow> int" where
  "wrapInt i = (i + 2 ^ 63) mod 2 ^ 64 - 2 ^ 63"

definition applyQATags :: "services \<Rightarrow> ODSContext \<Rightarrow> ODSContext list \<Rightarrow> tag list \<Rightarrow> unit prog_w" where
  "applyQATags sv ctxt subrepoContexts tags =
     (let rcNum = wrapInt (snd (LatestReleaseCandidate tags (oc_Version ctxt)) + 1);
          tagName = ''v'' @ oc_Version ctxt @ ''-rc.'' @ Itoa rcNum
      in bindP (createTag sv tagName ctxt) (\<lambda>_. forEach subrepoContexts (createTag sv tagName)))"

definition tagProdSubrepo :: "services \<Rightarrow> string \<Rightarrow> string \<Rightarrow> ODSContext \<Rightarrow> unit prog_w" where
  "tagProdSubrepo sv tagVersion tagName sctxt =
     bindP (listTags sv sctxt tagName) (\<lambda>subtags.
     bindP (wrapErr ''cannot proceed to prod stage: '' (liftE (checkProdTagRequirements subtags sctxt tagVersion))) (\<lambda>_.
     createTag sv tagName sctxt))"

definition applyProdTags :: "services \<Rightarrow> ODSContext \<Rightarrow> ODSContext list \<Rightarrow> tag list \<Rightarrow> unit prog_w" where
  "applyProdTags sv ctxt subrepoContexts tags =
     (let tagName = ''v'' @ oc_Version ctxt
      in bindP (wrapErr ''cannot proceed to prod stage: '' (liftE (checkProdTagRequirements tags ctxt (oc_Version ctxt)))) (\<lambda>_.
         bindP (createTag sv tagName ctxt) (\<lambda>_.
         forEach subrepoContexts (tagProdSubrepo sv (oc_Version ctxt) tagName))))"

definition applyVersionTags :: "services \<Rightarrow> ODSContext \<Rightarrow> ODSContext list \<Rightarrow> environment \<Rightarrow> unit prog_w" where
  "applyVersionTags sv ctxt subrepoContexts env =
     bindP (if en_Stage env \<noteq> DevStage
            then (if oc_Version ctxt = WIP then failE ''when stage != dev, you must provide a version''
                  else listTags sv ctxt (''v'' @ oc_Version ctxt))
            else ret []) (\<lambda>tags.
     if en_Stage env = QAStage then
       (if TagListContainsFinalVersion tags (oc_Version ctxt) then ret () else applyQATags sv ctxt subrepoContexts tags)
     else if en_Stage env = ProdStage then
       (if TagListContainsFinalVersion tags (oc_Version ctxt) then ret () else applyProdTags sv ctxt subrepoContexts tags)
     else ret ())"

section \<open>The task\<close>

definition start_downloadArtifacts :: "services \<Rightarrow> startOptions \<Rightarrow> string \<Rightarrow> ODSContext \<Rightarrow> unit prog_w" where
  "start_downloadArtifacts sv opts artifactsDir ctxt =
     bindP (DownloadGroup sv [so_nexusPermanentRepository opts, so_nexusTemporaryRepository opts]
              (ArtifactGroupBase ctxt) artifactsDir) (\<lambda>am.
     WriteJsonArtifact (artifactsManifestJson am) artifactsDir ArtifactsManifestFilename)"

definition osSetenv :: "string \<Rightarrow> string \<Rightarrow> unit prog_w" where
  "osSetenv k v = modifyP (\<lambda>w. w\<lparr>w_getenv := (w_getenv w)(k := v)\<rparr>)"

definition setProxyEnv :: "startOptions \<Rightarrow> unit prog_w" where
  "setProxyEnv opts =
     forEach [(''HTTP_PROXY'', so_httpProxy opts), (''HTTPS_PROXY'', so_httpsProxy opts), (''NO_PROXY'', so_noProxy opts)]
       (\<lambda>(k, v). if v \<noteq> [] then osSetenv k v else ret ())"

definition start_pipelineRunURL :: "string \<Rightarrow> ODSContext \<Rightarrow> string \<Rightarrow> string" where
  "start_pipelineRunURL consoleURL ctxt pipelineRunName =
     consoleURL @ ''/k8s/ns/'' @ oc_Namespace ctxt @ ''/tekton.dev~v1beta1~PipelineRun/'' @ pipelineRunName @ ''/''"

definition setBuildStatus :: "services \<Rightarrow> string \<Rightarrow> string \<Rightarrow> string \<Rightarrow> unit prog_w" where
  "setBuildStatus sv state gitCommitSHA runURL =
     (let payload = \<lparr>bs_State = state, bs_Key = gitCommitSHA, bs_Name = gitCommitSHA, bs_URL = runURL,
                     bs_Description = ''ODS Pipeline Build''\<rparr>
      in perform (CBuildStatusCreate gitCommitSHA payload) (\<lambda>h. sv_BuildStatusCreate sv h gitCommitSHA payload))"

definition subrepoURL :: "startOptions \<Rightarrow> ODSContext \<Rightarrow> repository \<Rightarrow> string" where
  "subrepoURL opts ctxt subrepo =
     (if re_URL subrepo = []
      then Replace 1 (so_url opts) (''/'' @ oc_Repository ctxt @ ''.git'') (''/'' @ re_Name subrepo @ ''.git'')
      else re_URL subrepo)"

definition checkoutSubrepo ::
  "services \<Rightarrow> rangeOrder \<Rightarrow> startOptions \<Rightarrow> ODSContext \<Rightarrow> ODSContext \<Rightarrow> repository \<Rightarrow> ODSContext prog_w" where
  "checkoutSubrepo sv ord opts baseCtxt ctxt subrepo =
     (let subrepoCheckoutDir = filepathJoin [SubreposPath, re_Name subrepo]
      in bindP (fatal (osMkdirAll subrepoCheckoutDir)) (\<lambda>_.
         bindP (fatal (BestMatchingBranch sv (oc_Project ctxt) subrepo (oc_Version ctxt))) (\<lambda>subrepoGitFullRef.
         checkoutAndAssembleContext sv ord opts subrepoCheckoutDir (subrepoURL opts ctxt subrepo) subrepoGitFullRef baseCtxt)))"

definition subrepoArtifacts :: "services \<Rightarrow> startOptions \<Rightarrow> ODSContext \<Rightarrow> unit prog_w" where
  "subrepoArtifacts sv opts src =
     (let artifactsDir = filepathJoin [SubreposPath, oc_Repository src, ArtifactsPath]
      in bindP (fatal (start_downloadArtifacts sv opts artifactsDir src)) (\<lambda>_.
         bindP (gets (osStat (filepathJoin [artifactsDir, PipelineRunsDir]))) (\<lambda>r.
         if IsNotExist r then exitP 1 else ret ())))"

definition Start_main :: "services \<Rightarrow> rangeOrder \<Rightarrow> int \<Rightarrow> startOptions \<Rightarrow> unit prog_w" where
  "Start_main sv ord dirTime opts =
     (let checkoutDir = ''.'';
          checkoutDirFSB = \<lparr>fsb_filesystem = checkoutDir, fsb_base = checkoutDir\<rparr>;
          baseCtxt = emptyContext\<lparr>oc_Project := so_project opts, oc_Environment := so_environment opts,
            oc_Version := so_version opts, oc_PullRequestBase := so_prBase opts, oc_PullRequestKey := so_prKey opts\<rparr>
      in bindP (fatal (deleteDirectoryContentsSpareCache checkoutDirFSB removeFileOrDir)) (\<lambda>_.
         bindP (fatal (cleanCache dirTime checkoutDirFSB removeFileOrDir (so_cacheBuildTasksForDays opts))) (\<lambda>_.
         bindP (setProxyEnv opts) (\<lambda>_.
         bindP (checkoutAndAssembleContext sv ord opts checkoutDir (so_url opts) (so_gitFullRef opts) baseCtxt) (\<lambda>ctxt.
         bindP (fatal (setBuildStatus sv BuildStatusInProgress (oc_GitCommitSHA ctxt)
                  (start_pipelineRunURL (so_consoleURL opts) ctxt (so_pipelineRunName opts)))) (\<lambda>_.
         bindP (fatal (ReadFromDir sv checkoutDir)) (\<lambda>odsConfig.
         bindP (mapP (checkoutSubrepo sv ord opts baseCtxt ctxt) (od_Repositories odsConfig)) (\<lambda>subrepoContexts.
         bindP (if oc_Environment ctxt \<noteq> []
                then bindP (fatal (liftE (ODS_Environment odsConfig (oc_Environment ctxt)))) (\<lambda>env.
                     fatal (applyVersionTags sv ctxt subrepoContexts env))
                else ret ()) (\<lambda>_.
         bindP (fatal (liftE (sv_NexusNew sv (so_nexusURL opts) (so_nexusUsername opts) (so_nexusPassword opts)))) (\<lambda>_.
         bindP (fatal (start_downloadArtifacts sv opts ArtifactsPath ctxt)) (\<lambda>_.
         forEach subrepoContexts (subrepoArtifacts sv opts))))))))))))"

section \<open>Properties\<close>

text \<open>The calls that tag the repositories of a run, main repository first.\<close>

definition tagCall :: "string \<Rightarrow> ODSContext \<Rightarrow> call" where
  "tagCall name ctxt = CTagCreate (oc_Project ctxt) (oc_Repository ctxt)
     \<lparr>tc_Message = [], tc_Name = name, tc_Force = False, tc_StartPoint = oc_GitCommitSHA ctxt, tc_Type = []\<rparr>"

definition tagsAsked :: "string \<Rightarrow> ODSContext \<Rightarrow> call" where
  "tagsAsked name ctxt = CTagList (oc_Project ctxt) (oc_Repository ctxt) \<lparr>tl_FilterText = name, tl_OrderBy = []\<rparr>"

definition versionTagCalls :: "string \<Rightarrow> ODSContext \<Rightarrow> ODSContext list \<Rightarrow> tag list \<Rightarrow> call list" where
  "versionTagCalls stage ctxt subs tags =
     (let v = ''v'' @ oc_Version ctxt
      in if stage = QAStage then
           tagsAsked v ctxt # (if TagListContainsFinalVersion tags (oc_Version ctxt) then []
             else map (tagCall (v @ ''-rc.'' @ Itoa (wrapInt (snd (LatestReleaseCandidate tags (oc_Version ctxt)) + 1)))) (ctxt # subs))
         else if stage = ProdStage then
           tagsAsked v ctxt # (if TagListContainsFinalVersion tags (oc_Version ctxt) then []
             else tagCall v ctxt # concat (map (\<lambda>s. [tagsAsked v s, tagCall v s]) subs))
         else [])"

lemma listTags_Ok:
  "listTags sv ctxt f w = (Ok tags, w') \<Longrightarrow> adds w [tagsAsked f ctxt] w'"
  unfolding listTags_def Let_def
  by (auto simp: prog_simps tagsAsked_def dest!: perform_result elim!: bindP_OkE)

lemma createTag_Ok: "createTag sv name ctxt w = (Ok u, w') \<Longrightarrow> adds w [tagCall name ctxt] w'"
  unfolding createTag_def CreateTag_def Let_def
  by (auto simp: prog_simps tagCall_def dest!: perform_result elim!: bindP_OkE)

lemma createTags_Ok: "forEach cs (createTag sv name) w = (Ok u, w') \<Longrightarrow> adds w (map (tagCall name) cs) w'"
  by (induction cs arbitrary: w) (auto simp: prog_simps elim!: bindP_OkE dest!: createTag_Ok intro: adds_trans [of _ "[_]", simplified])

lemma tagProdSubrepo_Ok:
  assumes "tagProdSubrepo sv v name s w = (Ok u, w')"
  shows "adds w [tagsAsked name s, tagCall name s] w'"
proof -
  from assms obtain tags w1 where "listTags sv s name w = (Ok tags, w1)" "createTag sv name s w1 = (Ok u, w')"
    unfolding tagProdSubrepo_def by (auto elim!: bindP_OkE simp: liftE_def prog_simps split: sum.splits)
  then show ?thesis using adds_trans [OF listTags_Ok createTag_Ok] by force
qed

lemma tagProdSubrepos_Ok:
  "forEach ss (tagProdSubrepo sv v name) w = (Ok u, w') \<Longrightarrow>
     adds w (concat (map (\<lambda>s. [tagsAsked name s, tagCall name s]) ss)) w'"
  by (induction ss arbitrary: w)
    (auto simp: prog_simps elim!: bindP_OkE dest!: tagProdSubrepo_Ok intro: adds_trans [of _ "[_, _]", simplified])

lemma applyVersionTags_adds:
  assumes "applyVersionTags sv ctxt subs env w = (Ok (), w')" and "validEnvironment env"
  shows "\<exists>tags. adds w (versionTagCalls (en_Stage env) ctxt subs tags) w' \<and>
    (en_Stage env = DevStage \<or> oc_Version ctxt \<noteq> WIP \<and>
       (\<exists>page. sv_TagList sv (w_trace w) (oc_Project ctxt) (oc_Repository ctxt)
            \<lparr>tl_FilterText = ''v'' @ oc_Version ctxt, tl_OrderBy = []\<rparr> = Inr page \<and> tp_Values page = tags))"
proof (cases "en_Stage env = DevStage")
  case True
  with assms(1) have "w' = w" by (simp add: applyVersionTags_def prog_simps DevStage_def QAStage_def ProdStage_def)
  with True show ?thesis by (simp add: versionTagCalls_def DevStage_def QAStage_def ProdStage_def)
next
  case False
  with assms(2) have stage: "en_Stage env = QAStage \<or> en_Stage env = ProdStage" by (simp add: validEnvironment_def)
  let ?v = "''v'' @ oc_Version ctxt"
  from assms(1) False obtain tags w1 where wip: "oc_Version ctxt \<noteq> WIP" and lt: "listTags sv ctxt ?v w = (Ok tags, w1)"
    and rest: "(if en_Stage env = QAStage then
       (if TagListContainsFinalVersion tags (oc_Version ctxt) then ret () else applyQATags sv ctxt subs tags)
     else if en_Stage env = ProdStage then
       (if TagListContainsFinalVersion tags (oc_Version ctxt) then ret () else applyProdTags sv ctxt subs tags)
     else ret ()) w1 = (Ok (), w')"
    unfolding applyVersionTags_def by (auto elim!: bindP_OkE simp: prog_simps split: if_splits)
  note asked = listTags_Ok [OF lt]
  have page: "\<exists>page. sv_TagList sv (w_trace w) (oc_Project ctxt) (oc_Repository ctxt) \<lparr>tl_FilterText = ?v, tl_OrderBy = []\<rparr> = Inr page \<and> tp_Values page = tags"
    using lt unfolding listTags_def Let_def by (auto simp: prog_simps dest!: perform_result elim!: bindP_OkE)
  have "adds w (versionTagCalls (en_Stage env) ctxt subs tags) w'"
  proof (cases "TagListContainsFinalVersion tags (oc_Version ctxt)")
    case True
    with rest have "w' = w1" by (auto simp: prog_simps split: if_splits)
    with asked True stage show ?thesis by (auto simp: versionTagCalls_def Let_def QAStage_def ProdStage_def)
  next
    case notfinal: False
    show ?thesis
    proof (cases "en_Stage env = QAStage")
      case True
      with rest notfinal have "applyQATags sv ctxt subs tags w1 = (Ok (), w')" by simp
      then have "adds w1 (map (tagCall (?v @ ''-rc.'' @ Itoa (wrapInt (snd (LatestReleaseCandidate tags (oc_Version ctxt)) + 1)))) (ctxt # subs)) w'"
        unfolding applyQATags_def Let_def
        by (auto elim!: bindP_OkE dest!: createTag_Ok createTags_Ok intro: adds_trans [of _ "[_]", simplified])
      with adds_trans [OF asked this] True notfinal show ?thesis by (simp add: versionTagCalls_def Let_def)
    next
      case False
      with rest notfinal stage have "applyProdTags sv ctxt subs tags w1 = (Ok (), w')" by auto
      then have "adds w1 (tagCall ?v ctxt # concat (map (\<lambda>s. [tagsAsked ?v s, tagCall ?v s]) subs)) w'"
        unfolding applyProdTags_def Let_def
        by (auto elim!: bindP_OkE dest!: createTag_Ok tagProdSubrepos_Ok intro: adds_trans [of _ "[_]", simplified]
            simp: liftE_def prog_simps split: sum.splits)
      with adds_trans [OF asked this] False stage notfinal show ?thesis
        by (auto simp: versionTagCalls_def Let_def QAStage_def ProdStage_def)
    qed
  qed
  with wip page show ?thesis by blast
qed

text \<open>
  C24: when the version tags of a run are applied without an error, exactly these requests were
  made, and nothing else changed: none for a development environment; for the other stages a
  version was given and the tags of the repository were listed; unless the final tag exists, a QA
  run gives the repository and all subrepositories the same release candidate, numbered one more
  than the highest there is, at their checked-out commits, and a production run gives them the
  final tag, for each subrepository after listing its tags.
\<close>

theorem applyVersionTags_requests:
  assumes "applyVersionTags sv ctxt subs env w = (Ok (), w')" and "validEnvironment env"
  shows "\<exists>tags. adds w (versionTagCalls (en_Stage env) ctxt subs tags) w' \<and>
    (en_Stage env = DevStage \<or> oc_Version ctxt \<noteq> WIP \<and>
       (\<exists>page. sv_TagList sv (w_trace w) (oc_Project ctxt) (oc_Repository ctxt)
            \<lparr>tl_FilterText = ''v'' @ oc_Version ctxt, tl_OrderBy = []\<rparr> = Inr page \<and> tp_Values page = tags))"
  using assms by (rule applyVersionTags_adds)

text \<open>
  Whether a commit may go to production is decided by the last tag of the list alone, once
  there is any release candidate: with the candidates 2 and 1 listed newest first, the commit of
  candidate 2 is refused and that of candidate 1 is let through.
\<close>

theorem checkProdTagRequirements_looks_at_last_tag:
  "(checkProdTagRequirements tags ctxt version = Inr () \<longleftrightarrow>
      snd (LatestReleaseCandidate tags version) \<noteq> 0 \<and> tags \<noteq> [] \<and> tg_LatestCommit (last tags) = oc_GitCommitSHA ctxt)
   \<and> checkProdTagRequirements [rcTag ''v1.0.0-rc.2'' ''b'', rcTag ''v1.0.0-rc.1'' ''a'']
       (emptyContext\<lparr>oc_GitCommitSHA := ''b''\<rparr>) ''1.0.0'' \<noteq> Inr ()
   \<and> checkProdTagRequirements [rcTag ''v1.0.0-rc.2'' ''b'', rcTag ''v1.0.0-rc.1'' ''a'']
       (emptyContext\<lparr>oc_GitCommitSHA := ''a''\<rparr>) ''1.0.0'' = Inr ()"
proof (intro conjI)
  show "checkProdTagRequirements tags ctxt version = Inr () \<longleftrightarrow>
      snd (LatestReleaseCandidate tags version) \<noteq> 0 \<and> tags \<noteq> [] \<and> tg_LatestCommit (last tags) = oc_GitCommitSHA ctxt"
    using latestRCLoop_tag [of "''refs/tags/v'' @ version @ ''-rc.''" tags None False 0]
    by (auto simp: checkProdTagRequirements_def LatestReleaseCandidate_def split: option.splits)
qed code_simp+

section \<open>Examples\<close>

text \<open>
  A Bitbucket server with one release candidate in the main repository and no tag in the
  subrepository, which remembers the tags it creates.
\<close>

definition createdTags :: "string \<Rightarrow> call list \<Rightarrow> tag list" where
  "createdTags repo h = concat (map (\<lambda>c. case c of
       CTagCreate p r payload \<Rightarrow> (if r = repo then [rcTag (tc_Name payload) (tc_StartPoint payload)] else [])
     | _ \<Rightarrow> []) h)"

definition tagServices :: services where
  "tagServices = noServices\<lparr>
     sv_TagList := (\<lambda>h p r params. Inr \<lparr>tp_Size = 1, tp_Limit = 25, tp_IsLastPage = True,
       tp_Values = createdTags r h @ (if r = ''main'' then [rcTag ''v1.0.0-rc.1'' ''m''] else []), tp_Start = 0\<rparr>),
     sv_TagCreate := (\<lambda>h p r payload. Inr (rcTag (tc_Name payload) (tc_StartPoint payload)))\<rparr>"

definition mainContext :: ODSContext where
  "mainContext = emptyContext\<lparr>oc_Project := ''p'', oc_Repository := ''main'', oc_GitCommitSHA := ''m'', oc_Version := ''1.0.0''\<rparr>"

definition subContext :: ODSContext where
  "subContext = emptyContext\<lparr>oc_Project := ''p'', oc_Repository := ''sub'', oc_GitCommitSHA := ''s'', oc_Version := ''1.0.0''\<rparr>"

definition stageEnvironment :: "string \<Rightarrow> environment" where
  "stageEnvironment stage = \<lparr>en_Name = ''target'', en_Stage = stage, en_APIServer = [], en_APICredentialsSecret = [],
     en_RegistryHost = [], en_RegistryTLSVerify = None, en_Namespace = [], en_Config = [], en_APIToken = []\<rparr>"

lemma applyVersionTags_witness:
  "w_trace (snd (applyVersionTags tagServices mainContext [subContext] (stageEnvironment QAStage) emptyWorld)) =
     [tagsAsked ''v1.0.0'' mainContext, tagCall ''v1.0.0-rc.2'' mainContext, tagCall ''v1.0.0-rc.2'' subContext]"
proof -
  have env: "validEnvironment (stageEnvironment QAStage)"
    by (simp add: validEnvironment_def stageEnvironment_def envNamePattern_def isLowerC_def)
  have "fst (applyVersionTags tagServices mainContext [subContext] (stageEnvironment QAStage) emptyWorld) = Ok ()"
    by code_simp
  then obtain w' where run: "applyVersionTags tagServices mainContext [subContext] (stageEnvironment QAStage) emptyWorld = (Ok (), w')"
    by (metis prod.collapse)
  obtain page where "adds emptyWorld (versionTagCalls QAStage mainContext [subContext] (tp_Values page)) w'"
    "sv_TagList tagServices (w_trace emptyWorld) (oc_Project mainContext) (oc_Repository mainContext)
      \<lparr>tl_FilterText = ''v'' @ oc_Version mainContext, tl_OrderBy = []\<rparr> = Inr page"
    using applyVersionTags_requests [OF run env] by (auto simp: stageEnvironment_def QAStage_def DevStage_def)
  moreover from this(2) have "tp_Values page = [rcTag ''v1.0.0-rc.1'' ''m'']"
    by (auto simp: tagServices_def createdTags_def emptyWorld_def mainContext_def)
  moreover have "versionTagCalls QAStage mainContext [subContext] [rcTag ''v1.0.0-rc.1'' ''m''] =
     [tagsAsked ''v1.0.0'' mainContext, tagCall ''v1.0.0-rc.2'' mainContext, tagCall ''v1.0.0-rc.2'' subContext]"
    by code_simp
  ultimately have "adds emptyWorld [tagsAsked ''v1.0.0'' mainContext, tagCall ''v1.0.0-rc.2'' mainContext, tagCall ''v1.0.0-rc.2'' subContext] w'"
    by simp
  with run show ?thesis by (simp add: adds_def emptyWorld_def)
qed

text \<open>
  Tagging a production run is not atomic: when a subrepository fails its check, the main
  repository has its final tag already, and the same run repeated then succeeds without looking
  at the subrepository, which never gets the tag.
\<close>

theorem applyVersionTags_prod_not_atomic:
  "case applyVersionTags tagServices mainContext [subContext] (stageEnvironment ProdStage) emptyWorld of
     (r1, w1) \<Rightarrow> r1 \<noteq> Ok () \<and> tagCall ''v1.0.0'' mainContext \<in> set (w_trace w1) \<and>
     (case applyVersionTags tagServices mainContext [subContext] (stageEnvironment ProdStage) w1 of
        (r2, w2) \<Rightarrow> r2 = Ok () \<and> w_trace w2 = w_trace w1 @ [tagsAsked ''v1.0.0'' mainContext] \<and>
          tagCall ''v1.0.0'' subContext \<notin> set (w_trace w2))"
  by code_simp

end
