(* ===== verification/StartRun.thy ===== *)
theory StartRun
  imports Start
begin

text \<open>
  What a start task that succeeds has done, as the sequence of its milestones: the checkouts, the
  build status, the tags it created, and the groups it searched for artifacts.  Every operation
  of theory Start reaches a known sequence of milestones or is unnoticed.
\<close>

section \<open>Milestones\<close>

definition milestone :: "call \<Rightarrow> bool" where
  "milestone c = (case c of
       CExec e _ _ _ \<Rightarrow> e = ''/ko-app/git-init'' | CBuildStatusCreate _ _ \<Rightarrow> True
     | CTagCreate _ _ _ \<Rightarrow> True | CSearchAssets _ _ \<Rightarrow> True | _ \<Rightarrow> False)"

lemma milestone_simps [simp]:
  "milestone (CExec e a x d) \<longleftrightarrow> e = ''/ko-app/git-init''" "milestone (CBuildStatusCreate s b)"
  "milestone (CTagCreate p r t)" "milestone (CSearchAssets r g)" "\<not> milestone (CTagList p r l)"
  "\<not> milestone (CBranchList p r bl)" "\<not> milestone (CHttpGet u)"
  by (simp_all add: milestone_def)

definition reaches :: "world \<Rightarrow> call list \<Rightarrow> world \<Rightarrow> bool" where
  "reaches w seg w' \<longleftrightarrow> emits milestone w seg w' \<and> w_cwd w' = w_cwd w"

definition unnoticed :: "world \<Rightarrow> world \<Rightarrow> bool" where
  "unnoticed w w' \<longleftrightarrow> reaches w [] w'"

lemma reaches_trans: "reaches w a w1 \<Longrightarrow> reaches w1 b w2 \<Longrightarrow> reaches w (a @ b) w2"
  unfolding reaches_def using emits_trans by metis

lemma reaches_refl: "reaches w [] w"
  by (simp add: reaches_def emits_refl)

lemma reaches_adds: "adds w cs w' \<Longrightarrow> reaches w (filter milestone cs) w'"
  unfolding reaches_def using emits_adds [of w cs w' milestone] by (simp add: adds_def)

interpretation un: step_relation unnoticed
proof
  show "unnoticed w w" for w by (simp add: unnoticed_def reaches_refl)
  show "unnoticed w w' \<Longrightarrow> unnoticed w' w'' \<Longrightarrow> unnoticed w w''" for w w' w''
    unfolding unnoticed_def using reaches_trans [of w "[]" w' "[]" w''] by simp
qed

lemma unnoticed_result: "preserves unnoticed m \<Longrightarrow> m w = (r, w') \<Longrightarrow> reaches w [] w'"
  by (drule preservesD, assumption) (simp add: unnoticed_def)

lemma un_perform: "\<not> milestone c \<Longrightarrow> preserves unnoticed (perform c f)"
  using si_perform [of milestone c f]
  by (auto simp: preserves_def unnoticed_def reaches_def silent_def perform_def split: sum.split)

lemma un_runCommand: "\<not> milestone (CExec e a x d) \<Longrightarrow> preserves unnoticed (runCommand sv e a x d)"
  using si_runCommand [of milestone e a x d sv]
  by (auto simp: preserves_def unnoticed_def reaches_def silent_def runCommand_def split: prod.split)

lemma un_files: "preserves only_files m \<Longrightarrow> preserves unnoticed m"
  using si_files [of m milestone]
  by (auto simp: preserves_def unnoticed_def reaches_def silent_def frame)

lemma files_result: "preserves only_files m \<Longrightarrow> m w = (r, w') \<Longrightarrow> reaches w [] w'"
  by (rule unnoticed_result [OF un_files])

lemma un_same: "preserves (=) m \<Longrightarrow> preserves unnoticed m"
  unfolding preserves_def using un.refl by metis

section \<open>Operations that are unnoticed\<close>

lemma fo_walkEntries: "(\<And>e. preserves only_files (visit e)) \<Longrightarrow> preserves only_files (walkEntries visit es)"
  by (induction es) (auto intro!: fo.rules)

lemma fo_walkDir:
  "(\<And>p d e. preserves only_files (fn p d e)) \<Longrightarrow> preserves only_files (walkDir n dir fn name isDir)"
proof (induction n arbitrary: name isDir)
  case 0
  show ?case by (simp add: fo.panic)
next
  case (Suc n)
  then show ?case unfolding walkDir.simps by (intro fo.rules readDir_fo fo_walkEntries) blast+
qed

lemma fo_WalkDir:
  assumes "\<And>p d e. preserves only_files (fn p d e)"
  shows "preserves only_files (WalkDir dir fn)"
proof -
  have "preserves only_files (case r of StatOk n \<Rightarrow> walkDir (Suc k) dir fn ''.'' (isDirNode n)
            | NotExist \<Rightarrow> fn ''.'' False (Some ''file does not exist'')
            | StatErr e \<Rightarrow> fn ''.'' False (Some e))" for r k
    using assms fo_walkDir [of fn, OF assms] by (cases r) (simp_all del: walkDir.simps)
  then show ?thesis unfolding WalkDir_def by (intro fo.rules)
qed

lemma fo_removal: "(\<And>p d. preserves only_files (rm p d)) \<Longrightarrow> preserves only_files (deleteDirRecursiveWithSkip root dec rm)"
  unfolding deleteDirRecursiveWithSkip_def removalVisit_def Let_def by (intro fo_WalkDir fo.rules)

lemma fo_remover: "preserves only_files (withBaseFileRemover b removeFileOrDir p d)"
  unfolding withBaseFileRemover_def removeFileOrDir_def by (intro fo.rules osRemoveAll_fo)

lemma fo_spareCache: "preserves only_files (deleteDirectoryContentsSpareCache fsb removeFileOrDir)"
  unfolding deleteDirectoryContentsSpareCache_def by (intro fo_removal fo_remover)

lemma fo_cleanEntry:
  assumes "\<And>p d. preserves only_files (rm p d)" "\<And>p. preserves only_files (enter p)"
  shows "preserves only_files (cleanEntry root t k rm may enter parent cnt f)"
proof -
  have "preserves only_files (case r of
             NotExist \<Rightarrow>
               (if may then bindP (wrapErr e (enter path)) (\<lambda>enterCount. ret (cnt + 1 + enterCount))
                else bindP (rm path (snd f)) (\<lambda>_. ret (cnt + 1)))
           | StatErr e \<Rightarrow> panicP ''nil pointer dereference''
           | StatOk n \<Rightarrow> (if modTime t n < k then bindP (rm path (snd f)) (\<lambda>_. ret (cnt + 1)) else ret (cnt + 1)))"
    for r e path
    by (cases r) (auto intro!: fo.rules assms)
  then show ?thesis unfolding cleanEntry_def Let_def by (intro fo.rules assms)
qed

lemma fo_cleanup:
  "(\<And>p d. preserves only_files (rm p d)) \<Longrightarrow>
     preserves only_files (cleanupNotRecentlyUsedMaxLevel n root t k rm m parent)"
proof (induction n arbitrary: parent)
  case 0
  show ?case by (simp add: fo.panic)
next
  case (Suc n)
  then show ?case unfolding cleanupNotRecentlyUsedMaxLevel.simps
    by (intro fo.rules readDir_fo fo_cleanEntry) blast+
qed

lemma fo_cleanCache: "preserves only_files (cleanCache t fsb removeFileOrDir days)"
  unfolding cleanCache_def Let_def cleanupNotRecentlyUsed_def
  by (intro fo.rules fo_removal fo_remover fo_cleanup)

lemma un_setProxyEnv: "preserves unnoticed (setProxyEnv opts)"
proof -
  have "preserves unnoticed (osSetenv k v)" for k v
    by (simp add: osSetenv_def modifyP_def preserves_def unnoticed_def reaches_def emits_def)
  then show ?thesis unfolding setProxyEnv_def by (intro un.rules) auto
qed

lemma ReadFromDir_Ok:
  assumes "ReadFromDir sv dir w = (Ok cfg, w')"
  shows "w' = w \<and> (\<forall>e\<in>set (od_Environments cfg). validEnvironment e)"
proof -
  have "readCandidates sv dir cs w = (Ok cfg, w') \<Longrightarrow> ?thesis" for cs
  proof (induction cs)
    case (Cons c cs)
    then show ?case
      by (auto simp: ReadFromFile_def Config_Read_Ok gets_def elim!: bindP_OkE split: if_splits)
  qed (simp add: failE_def)
  with assms show ?thesis unfolding ReadFromDir_def by blast
qed

section \<open>Operations with milestones\<close>

definition gitInitCall :: "startOptions \<Rightarrow> string \<Rightarrow> string \<Rightarrow> string \<Rightarrow> call" where
  "gitInitCall opts url ref dir = CExec ''/ko-app/git-init'' (gitInitArgs opts url ref dir) [] []"

lemma runCommand_Ok: "runCommand sv e a x d w = (r, w') \<Longrightarrow> reaches w (filter milestone [CExec e a x d]) w'"
  by (auto simp: runCommand_def reaches_def emits_def split: prod.splits)

lemma un_lfs: "preserves unnoticed (gitLfsInUse sv d)" "preserves unnoticed (gitLfsEnableAndPullFiles sv d)"
  unfolding gitLfsInUse_def gitLfsEnableAndPullFiles_def outputOr_def command_RunInDir_def
  by (intro un.rules un_runCommand; simp)+

lemma fo_gitFiles: "preserves only_files (WriteGitIgnore f)" "preserves only_files (headCommitSHA d)"
  unfolding WriteGitIgnore_def headCommitSHA_def by (intro fo.rules readFile_fo writeFile_fo)+

lemma un_WriteCache: "preserves unnoticed (WriteCache ord c d)"
  unfolding WriteCache_def writeField_def Let_def by (intro un.rules un_files [OF osMkdir_fo] un_files [OF writeFile_fo])

lemma Assemble_environment: "Assemble c d w = (Ok c', w') \<Longrightarrow> oc_Environment c' = oc_Environment c"
proof -
  assume "Assemble c d w = (Ok c', w')"
  then obtain o1 o2 o3 o4 o5 m1 m2 m3 m4 m5 w1 w2 w3 w4 w5 org repo where
    e: "ifEmpty FNamespace m1 c w = (Ok o1, w1)" "ifEmpty FGitFullRef m2 o1 w1 = (Ok o2, w2)"
      "ifEmpty FGitRef m3 o2 w2 = (Ok o3, w3)" "ifEmpty FGitURL m4 o3 w3 = (Ok o4, w4)"
      "ifEmpty FGitCommitSHA m5 o4 w4 = (Ok o5, w5)" and d: "c' = assembleNames org repo o5"
    unfolding Assemble_def Let_def by (elim bindP_OkE) (auto simp: prog_simps elim!: bindP_OkE split: prod.splits)
  have "getField FEnvironment o5 = getField FEnvironment c"
    using ifEmpty_other [OF e(1), of FEnvironment] ifEmpty_other [OF e(2), of FEnvironment] ifEmpty_other [OF e(3), of FEnvironment]
      ifEmpty_other [OF e(4), of FEnvironment] ifEmpty_other [OF e(5), of FEnvironment] by simp
  then show ?thesis by (simp add: d assembleNames_def Let_def)
qed

lemma checkout_Ok:
  assumes "checkoutAndAssembleContext sv ord opts dir url ref base w = (Ok c, w')"
  shows "reaches w [gitInitCall opts url ref (filepathAbs dir w)] w' \<and>
     oc_Environment c = oc_Environment base \<and>
     oc_Version c = (if oc_Version base = [] then WIP else oc_Version base) \<and>
     (oc_Project base \<noteq> [] \<longrightarrow> oc_Project c = oc_Project base) \<and> (ref \<noteq> [] \<longrightarrow> oc_GitFullRef c = ref)"
proof -
  let ?abs = "filepathAbs dir w"
  let ?rest = "\<lambda>sha. bindP (fatal (Assemble ((ODSContext_Copy base)\<lparr>oc_GitFullRef := ref, oc_GitCommitSHA := sha\<rparr>) ?abs)) (\<lambda>ctxt.
        bindP (gets w_trace) (\<lambda>h. bindP (fatal (WriteCache (ord h) ctxt ?abs)) (\<lambda>_. ret ctxt)))"
  from assms obtain out w1 w2 lfs w3 w4 sha w5 x y z where
    1: "outputOr (\<lambda>err e. e) (command_Run sv ''/ko-app/git-init'' (gitInitArgs opts url ref ?abs)) w = (Ok out, w1)"
    and 2: "WriteGitIgnore (filepathJoin [?abs, ''.git'', ''info'', ''exclude'']) w1 = (Ok x, w2)"
    and 3: "gitLfsInUse sv ?abs w2 = (Ok lfs, w3)"
    and 4: "(if lfs then fatal (gitLfsEnableAndPullFiles sv ?abs) else ret ()) w3 = (Ok y, w4)"
    and 5: "headCommitSHA ?abs w4 = (Ok sha, w5)" and 6: "?rest sha w5 = (Ok c, w')"
    unfolding checkoutAndAssembleContext_def Let_def
    by (elim bindP_OkE) (auto simp: gets_def elim!: bindP_OkE)
  from 6 obtain w6 ord' v where a: "Assemble ((ODSContext_Copy base)\<lparr>oc_GitFullRef := ref, oc_GitCommitSHA := sha\<rparr>) ?abs w5 = (Ok c, w6)"
    and wc: "WriteCache ord' c ?abs w6 = (Ok v, w')"
    by (auto simp: gets_def ret_def elim!: bindP_OkE)
  from 1 have r1: "reaches w [gitInitCall opts url ref ?abs] w1"
    using runCommand_Ok by (fastforce simp: outputOr_Ok command_Run_def gitInitCall_def)
  have r2: "reaches w1 [] w2" by (rule files_result [OF fo_gitFiles(1) 2])
  have r3: "reaches w2 [] w3" by (rule unnoticed_result [OF un_lfs(1) 3])
  have "preserves unnoticed (if lfs then fatal (gitLfsEnableAndPullFiles sv ?abs) else ret ())" by (intro un.rules un_lfs)
  from unnoticed_result [OF this 4] have r4: "reaches w3 [] w4" .
  have r5: "reaches w4 [] w5" by (rule files_result [OF fo_gitFiles(2) 5])
  have r6: "w6 = w5" using Assemble_completes_context [OF a] by simp
  have r7: "reaches w6 [] w'" by (rule unnoticed_result [OF un_WriteCache wc])
  have "reaches w [gitInitCall opts url ref ?abs] w'"
    using reaches_trans [OF r1 reaches_trans [OF r2 reaches_trans [OF r3 reaches_trans [OF r4 reaches_trans [OF r5 r7 [unfolded r6]]]]]]
    by simp
  moreover have "oc_Environment c = oc_Environment base"
    using Assemble_environment [OF a] by (simp add: ODSContext_Copy_def)
  moreover have "oc_Version c = (if oc_Version base = [] then WIP else oc_Version base)"
    and keep: "\<forall>f. getField f ((ODSContext_Copy base)\<lparr>oc_GitFullRef := ref, oc_GitCommitSHA := sha\<rparr>) \<noteq> [] \<longrightarrow>
      getField f c = getField f ((ODSContext_Copy base)\<lparr>oc_GitFullRef := ref, oc_GitCommitSHA := sha\<rparr>)"
    using Assemble_completes_context [OF a] by (simp_all add: ODSContext_Copy_def)
  ultimately show ?thesis
    using keep [rule_format, of FProject] keep [rule_format, of FGitFullRef] by (simp add: ODSContext_Copy_def)
qed

lemma un_BestMatchingBranch: "preserves unnoticed (BestMatchingBranch sv p r v)"
  unfolding BestMatchingBranch_def findReleaseBranch_def branchList_def Let_def
  by (intro un.rules un_perform) simp_all

lemma BestMatchingBranch_ne: "BestMatchingBranch sv p r v w = (Ok ref, w') \<Longrightarrow> ref \<noteq> []"
  by (auto simp: BestMatchingBranch_def DefaultBranch_def Let_def ret_def elim!: bindP_OkE split: if_splits)

lemma filepathAbs_cwd: "w_cwd w' = w_cwd w \<Longrightarrow> filepathAbs s w' = filepathAbs s w"
  by (simp add: filepathAbs_def resolve_def)

definition subrepoDir :: "repository \<Rightarrow> string" where
  "subrepoDir r = filepathJoin [SubreposPath, re_Name r]"

definition subrepoInitCall :: "startOptions \<Rightarrow> ODSContext \<Rightarrow> world \<Rightarrow> repository \<Rightarrow> ODSContext \<Rightarrow> call" where
  "subrepoInitCall opts ctxt w r c = gitInitCall opts (subrepoURL opts ctxt r) (oc_GitFullRef c) (filepathAbs (subrepoDir r) w)"

lemma subrepoInitCall_cwd: "w_cwd w' = w_cwd w \<Longrightarrow> subrepoInitCall opts ctxt w' = subrepoInitCall opts ctxt w"
  by (intro ext) (simp add: subrepoInitCall_def filepathAbs_cwd [of w' w])

lemma checkoutSubrepo_Ok:
  assumes "checkoutSubrepo sv ord opts base ctxt r w = (Ok c, w')"
  shows "reaches w [subrepoInitCall opts ctxt w r c] w'"
proof -
  from assms obtain u w1 ref w2 where
    1: "osMkdirAll (subrepoDir r) w = (Ok u, w1)"
    and 2: "BestMatchingBranch sv (oc_Project ctxt) r (oc_Version ctxt) w1 = (Ok ref, w2)"
    and 3: "checkoutAndAssembleContext sv ord opts (subrepoDir r) (subrepoURL opts ctxt r) ref base w2 = (Ok c, w')"
    unfolding checkoutSubrepo_def Let_def subrepoDir_def by (auto elim!: bindP_OkE)
  have r1: "reaches w [] w1" by (rule files_result [OF osMkdirAll_fo 1])
  have r2: "reaches w1 [] w2" by (rule unnoticed_result [OF un_BestMatchingBranch 2])
  have cwd: "w_cwd w2 = w_cwd w" using r1 r2 by (simp add: reaches_def)
  have "oc_GitFullRef c = ref" using checkout_Ok [OF 3] BestMatchingBranch_ne [OF 2] by blast
  then have "reaches w2 [subrepoInitCall opts ctxt w r c] w'"
    using checkout_Ok [OF 3] filepathAbs_cwd [OF cwd] by (simp add: subrepoInitCall_def)
  from reaches_trans [OF r1 reaches_trans [OF r2 this]] show ?thesis by simp
qed

lemma checkoutSubrepos_Ok:
  assumes "mapP (checkoutSubrepo sv ord opts base ctxt) rs w = (Ok cs, w')"
  shows "length cs = length rs \<and> reaches w (map2 (subrepoInitCall opts ctxt w) rs cs) w'"
  using assms
proof (induction rs arbitrary: w cs)
  case Nil
  then show ?case by (simp add: ret_def reaches_refl)
next
  case (Cons r rs)
  from Cons.prems obtain c w1 ds where 1: "checkoutSubrepo sv ord opts base ctxt r w = (Ok c, w1)"
    and 2: "mapP (checkoutSubrepo sv ord opts base ctxt) rs w1 = (Ok ds, w')" and cs: "cs = c # ds"
    by (auto simp: ret_def elim!: bindP_OkE)
  note r1 = checkoutSubrepo_Ok [OF 1]
  then have "w_cwd w1 = w_cwd w" by (simp add: reaches_def)
  from Cons.IH [OF 2, unfolded subrepoInitCall_cwd [OF this]]
  have l: "length ds = length rs" and r2: "reaches w1 (map2 (subrepoInitCall opts ctxt w) rs ds) w'" by simp_all
  from reaches_trans [OF r1 r2] l show ?case by (simp add: cs)
qed

text \<open>
  One search for artifacts: in the permanent repository, and in the temporary one unless the
  permanent one has some.
\<close>

definition searched :: "startOptions \<Rightarrow> ODSContext \<Rightarrow> call list \<Rightarrow> bool" where
  "searched opts c seg \<longleftrightarrow> (\<exists>rs. rs \<in> {[so_nexusPermanentRepository opts], [so_nexusPermanentRepository opts, so_nexusTemporaryRepository opts]} \<and>
     seg = map (\<lambda>r. CSearchAssets r (ArtifactGroupBase c @ ''/*'')) rs)"

lemma unnoticed_downloadAsset: "preserves unnoticed (downloadAsset sv g d s)"
  unfolding downloadAsset_def Let_def nexus_Download_def
  by (intro un.rules un_perform un_files [OF osMkdirAll_fo] un_files [OF osCreate_fo] un_files [OF writeFile_fo]) simp

lemma un_WriteJsonArtifact: "preserves unnoticed (WriteJsonArtifact j d f)"
  unfolding WriteJsonArtifact_def by (intro un_files fo.rules osMkdirAll_fo writeFile_fo)

lemma prefix_two: "[a, b] = before @ x # after \<Longrightarrow> before @ [x] = [a] \<or> before @ [x] = [a, b]"
  by (auto simp: Cons_eq_append_conv)

lemma nexus_Search_cwd: "nexus_Search sv r g w = (x, w') \<Longrightarrow> w_cwd w' = w_cwd w"
  by (auto simp: nexus_Search_def wrapErr_def perform_def split: sum.splits)

lemma searchForAssets_cwd: "searchForAssets sv g rs w = (Ok x, w') \<Longrightarrow> w_cwd w' = w_cwd w"
  by (induction rs arbitrary: w) (auto simp: ret_def elim!: bindP_OkE dest!: nexus_Search_cwd split: if_splits)

lemma download_Ok:
  assumes "start_downloadArtifacts sv opts dir c w = (Ok u, w')"
  shows "\<exists>seg. searched opts c seg \<and> reaches w seg w'"
proof -
  let ?repos = "[so_nexusPermanentRepository opts, so_nexusTemporaryRepository opts]" and ?g = "ArtifactGroupBase c"
  from assms obtain src urls w1 m w2 where
    s: "searchForAssets sv (?g @ ''/*'') ?repos w = (Ok (src, urls), w1)"
    and d: "bindP (mapP (downloadAsset sv ?g dir) urls) (\<lambda>artifacts.
       ret \<lparr>am_SourceRepository = src, am_Artifacts = artifacts\<rparr>) w1 = (Ok m, w2)"
    and j: "WriteJsonArtifact (artifactsManifestJson m) dir ArtifactsManifestFilename w2 = (Ok u, w')"
    unfolding start_downloadArtifacts_def DownloadGroup_def by (auto elim!: bindP_OkE)
  obtain rs where rs: "rs \<in> {[so_nexusPermanentRepository opts], ?repos}"
    and t: "w_trace w1 = w_trace w @ map (\<lambda>r. CSearchAssets r (?g @ ''/*'')) rs"
    using searchForAssets_result [OF s]
  proof (elim disjE exE conjE)
    fix before after
    assume p: "?repos = before @ src # after" "w_trace w1 = w_trace w @ map (\<lambda>r. CSearchAssets r (?g @ ''/*'')) (before @ [src])"
    from prefix_two [OF p(1)] have "before @ [src] \<in> {[so_nexusPermanentRepository opts], ?repos}" by simp
    from that [OF this p(2)] show thesis .
  next
    assume "w_trace w1 = w_trace w @ map (\<lambda>r. CSearchAssets r (?g @ ''/*'')) ?repos"
    from that [OF _ this] show thesis by simp
  qed
  have r1: "reaches w (map (\<lambda>r. CSearchAssets r (?g @ ''/*'')) rs) w1"
    using t searchForAssets_cwd [OF s] by (auto simp: reaches_def emits_def filter_map o_def)
  have "preserves unnoticed (bindP (mapP (downloadAsset sv ?g dir) urls) (\<lambda>artifacts.
       ret \<lparr>am_SourceRepository = src, am_Artifacts = artifacts\<rparr>))"
    by (intro un.rules unnoticed_downloadAsset)
  from unnoticed_result [OF this d] have r2: "reaches w1 [] w2" .
  have r3: "reaches w2 [] w'" by (rule unnoticed_result [OF un_WriteJsonArtifact j])
  from reaches_trans [OF r1 reaches_trans [OF r2 r3]] rs show ?thesis unfolding searched_def by auto
qed

lemma subrepoArtifacts_Ok:
  "forEach cs (subrepoArtifacts sv opts) w = (Ok u, w') \<Longrightarrow>
     \<exists>segs. list_all2 (searched opts) cs segs \<and> reaches w (concat segs) w'"
proof (induction cs arbitrary: w)
  case Nil
  then show ?case by (auto simp: ret_def reaches_refl)
next
  case (Cons c cs)
  from Cons.prems obtain v w1 where 1: "subrepoArtifacts sv opts c w = (Ok v, w1)"
    and 2: "forEach cs (subrepoArtifacts sv opts) w1 = (Ok u, w')" by (auto elim: bindP_OkE)
  from 1 obtain dir x where "start_downloadArtifacts sv opts dir c w = (Ok x, w1)"
    by (auto simp: subrepoArtifacts_def Let_def gets_def exitP_def ret_def bindP_def [of "\<lambda>w. (Ok _, w)"]
        elim!: bindP_OkE split: if_splits)
  then obtain seg where "searched opts c seg" "reaches w seg w1" using download_Ok by blast
  moreover from Cons.IH [OF 2] obtain segs where "list_all2 (searched opts) cs segs" "reaches w1 (concat segs) w'" by blast
  ultimately show ?case using reaches_trans by (intro exI [of _ "seg # segs"]) fastforce
qed

text \<open>The tags of a run: none without an environment, otherwise the creations among the tag requests.\<close>

definition isTagCreate :: "call \<Rightarrow> bool" where
  "isTagCreate c = (case c of CTagCreate _ _ _ \<Rightarrow> True | _ \<Rightarrow> False)"

definition tagsCreated :: "ODS \<Rightarrow> string \<Rightarrow> ODSContext \<Rightarrow> ODSContext list \<Rightarrow> call list \<Rightarrow> bool" where
  "tagsCreated cfg envName ctxt subs seg \<longleftrightarrow>
     (if envName = [] then seg = []
      else \<exists>env listed. findFirst (\<lambda>e. en_Name e = envName) (od_Environments cfg) = Some env \<and>
        seg = filter isTagCreate (versionTagCalls (en_Stage env) ctxt subs listed))"

lemma milestone_tags: "filter milestone (versionTagCalls st ctxt subs tags) = filter isTagCreate (versionTagCalls st ctxt subs tags)"
proof (rule filter_cong [OF HOL.refl])
  have "c \<in> set (versionTagCalls st ctxt subs tags) \<Longrightarrow> \<exists>p r l t. c = CTagList p r l \<or> c = CTagCreate p r t" for c
    by (auto simp: versionTagCalls_def Let_def tagsAsked_def tagCall_def split: if_splits)
  then show "c \<in> set (versionTagCalls st ctxt subs tags) \<Longrightarrow> milestone c = isTagCreate c" for c
    by (force simp: isTagCreate_def)
qed

lemma tags_Ok:
  assumes "(if oc_Environment ctxt \<noteq> []
        then bindP (fatal (liftE (ODS_Environment cfg (oc_Environment ctxt)))) (\<lambda>env. fatal (applyVersionTags sv ctxt subs env))
        else ret ()) w = (Ok u, w')"
    and valid: "\<forall>e\<in>set (od_Environments cfg). validEnvironment e"
  shows "\<exists>seg. tagsCreated cfg (oc_Environment ctxt) ctxt subs seg \<and> reaches w seg w'"
proof (cases "oc_Environment ctxt = []")
  case True
  with assms(1) show ?thesis by (simp add: tagsCreated_def ret_def reaches_refl)
next
  case False
  with assms(1) obtain env w1 where "liftE (ODS_Environment cfg (oc_Environment ctxt)) w = (Ok env, w1)"
    and a: "applyVersionTags sv ctxt subs env w1 = (Ok (), w')" by (auto elim: bindP_OkE)
  then have e: "ODS_Environment cfg (oc_Environment ctxt) = Inr env" and w1: "w1 = w"
    by (auto simp: liftE_def ret_def failE_def split: sum.splits)
  from e have f: "findFirst (\<lambda>e. en_Name e = oc_Environment ctxt) (od_Environments cfg) = Some env"
    by (simp add: ODS_Environment_Inr)
  have "validEnvironment env" using valid findFirst_SomeD [OF f] by simp
  from applyVersionTags_adds [OF a this] w1 obtain tags where "adds w (versionTagCalls (en_Stage env) ctxt subs tags) w'" by blast
  from reaches_adds [OF this] f False show ?thesis unfolding tagsCreated_def milestone_tags by auto
qed

section \<open>Property\<close>


subsection \<open>Example\<close>

text \<open>
  A QA run of a repository with one subrepository: \<open>git-init\<close> puts a checkout at the path it is
  given, Bitbucket has no tags yet, and Nexus has an artifact of the subrepository only.
\<close>

definition checkoutTree :: "string \<Rightarrow> node" where
  "checkoutTree url = Dir [(''.git'', Dir [(''HEAD'', File ''abc'' 0), (''info'', Dir []),
       (''config'', File (''url = '' @ url) 0)]), (''ods.yaml'', File ''y'' 0)]"

definition twoRepos :: ODS where
  "twoRepos = exampleODS\<lparr>od_Repositories := [\<lparr>re_Name = ''sub'', re_URL = [], re_Branch = []\<rparr>]\<rparr>"

definition gitInit :: "call list \<Rightarrow> string \<Rightarrow> string list \<Rightarrow> string list \<Rightarrow> string \<Rightarrow> node \<Rightarrow> node \<times> string \<times> string \<times> string option" where
  "gitInit h e a x d r =
     (if e = ''/ko-app/git-init''
      then (case fs_put (cleanElems (a ! 7)) (checkoutTree (a ! 1)) r of None \<Rightarrow> r | Some r' \<Rightarrow> r') else r, [], [], None)"

definition startServices :: services where
  "startServices = tagServices\<lparr>
     sv_Exec := gitInit,
     sv_BranchList := (\<lambda>_ _ _ _. Inr \<lparr>bp_Size = 0, bp_Limit = 25, bp_IsLastPage = True, bp_Values = [], bp_Start = 0\<rparr>),
     sv_BuildStatusCreate := (\<lambda>_ _ _. Inr ()), sv_YamlODS := (\<lambda>_. Inr (Some twoRepos)), sv_NexusNew := (\<lambda>_ _ _. Inr ()),
     sv_SearchAssets := (\<lambda>h r g. Inr (if r = ''perm'' \<and> g = ''/p/sub/abc/*'' then [''http://n/p/sub/abc/pipeline-runs/x.json''] else [])),
     sv_HttpGet := (\<lambda>_ _. Inr ''{}'')\<rparr>"

definition qaRun :: startOptions where
  "qaRun = (startDefaults (\<lambda>_. []))\<lparr>so_project := ''p'', so_environment := ''foo-qa'', so_version := ''1.0.0'',
     so_url := ''http://b/scm/p/main.git'', so_gitFullRef := ''refs/heads/master'',
     so_nexusPermanentRepository := ''perm'', so_nexusTemporaryRepository := ''temp''\<rparr>"

definition startWorld :: world where
  "startWorld = emptyWorld\<lparr>w_cwd := [''w''],
     w_root := Dir [(''w'', Dir [(''old'', File ''x'' 0)]),
       (''var'', Dir [(''run'', Dir [(''secrets'', Dir [(''kubernetes.io'', Dir [(''serviceaccount'',
          Dir [(''namespace'', File ''p-cd'' 0)])])])])])]\<rparr>"


end
