(* ===== verification/Notification.thy ===== *)
theory Notification
  imports PipelineCtxt
begin

text \<open>
  \<open>internal/notification\<close>: the configuration of the notification webhook, kept in a config map, and
  the call of the webhook.  Text templates and the HTTP exchange are operations of the
  environment; reading and checking the configuration is modelled.
\<close>

section \<open>Configuration (config.go)\<close>

definition configMapName :: string where "configMapName = ''ods-notification''"
definition urlProperty :: string where "urlProperty = ''url''"
definition methodProperty :: string where "methodProperty = ''method''"
definition contentTypeProperty :: string where "contentTypeProperty = ''contentType''"
definition requestTemplateProperty :: string where "requestTemplateProperty = ''requestTemplate''"
definition notifyOnStatusProperty :: string where "notifyOnStatusProperty = ''notifyOnStatus''"
definition enabledProperty :: string where "enabledProperty = ''enabled''"

record notificationConfig =
  nc_Enabled :: bool
  nc_URL :: string
  nc_Method :: string
  nc_ContentType :: string
  nc_NotifyOnStatus :: "string list"
  nc_Template :: string

text \<open>
  \<open>json.Decoder.Decode\<close> reads the first value of the text and ignores what follows; an empty text
  is \<open>io.EOF\<close>, which the code lets pass.
\<close>

definition decodeStatuses :: "string \<Rightarrow> string + string list" where
  "decodeStatuses s =
     (if skipWs s = [] then Inr []
      else case pValue (2 * length s + 2) s of
          None \<Rightarrow> Inl ''invalid character in JSON''
        | Some (v, r) \<Rightarrow> decSlice [] decStr [] v)"

definition property :: "labels \<Rightarrow> string \<Rightarrow> string + string" where
  "property data k = (case map_of data k of
       Some v \<Rightarrow> Inr v
     | None \<Rightarrow> Inl (configMapName @ '' doesn'' @ [CHR 0x27] @ ''t '' @
         (if k = notifyOnStatusProperty then ''specifiy'' else ''specify'') @ '' '' @ [CHR 0x27] @ k @ [CHR 0x27] @ '' property''))"

definition ReadConfigFromConfigMap :: "services \<Rightarrow> string \<Rightarrow> notificationConfig prog_w" where
  "ReadConfigFromConfigMap sv namespace =
     bindP (wrapErr (''failed to load '' @ configMapName @ '' ConfigMap: '')
              (perform (CGetConfigMap namespace configMapName) (\<lambda>h. sv_GetConfigMap sv h namespace configMapName))) (\<lambda>data.
     bindP (liftE (property data enabledProperty)) (\<lambda>enabledPropValue.
     bindP (liftE (case ParseBool enabledPropValue of
              None \<Rightarrow> Inl (''cannot parse '' @ enabledPropValue @ '' to bool'') | Some b \<Rightarrow> Inr b)) (\<lambda>enabled.
     bindP (liftE (property data urlProperty)) (\<lambda>url.
     bindP (liftE (property data methodProperty)) (\<lambda>method.
     bindP (liftE (property data contentTypeProperty)) (\<lambda>contentType.
     bindP (liftE (property data notifyOnStatusProperty)) (\<lambda>notifyOnStatus.
     bindP (wrapErr ''decoding notification status properties failed: '' (liftE (decodeStatuses notifyOnStatus))) (\<lambda>notificationStatusValues.
     bindP (liftE (property data requestTemplateProperty)) (\<lambda>text.
     bindP (liftE (case sv_TemplateParse sv text of
              Inl e \<Rightarrow> Inl ''failed to parse requestTemplate Template'' | Inr u \<Rightarrow> Inr u)) (\<lambda>_.
     ret \<lparr>nc_Enabled = enabled, nc_URL = url, nc_Method = method, nc_ContentType = contentType,
          nc_NotifyOnStatus = notificationStatusValues, nc_Template = text\<rparr>))))))))))"

section \<open>The client (client.go)\<close>

record pipelineRunResult =
  rr_PipelineRunName :: string
  rr_PipelineRunURL :: string
  rr_OverallStatus :: string
  rr_ODSContext :: ODSContext

text \<open>The strings a template can refer to.\<close>

definition templateData :: "pipelineRunResult \<Rightarrow> (string \<times> string) list" where
  "templateData r =
     [(''PipelineRunName'', rr_PipelineRunName r), (''PipelineRunURL'', rr_PipelineRunURL r),
      (''OverallStatus'', rr_OverallStatus r)] @
     map (\<lambda>f. (''ODSContext.'' @ fieldFile f, getField f (rr_ODSContext r))) cacheFields"

definition ShouldNotify :: "notificationConfig \<Rightarrow> string \<Rightarrow> bool" where
  "ShouldNotify cfg status \<longleftrightarrow> nc_Enabled cfg \<and> list_ex (\<lambda>allowedStatus. allowedStatus = status) (nc_NotifyOnStatus cfg)"

text \<open>The checks of \<open>http.NewRequest\<close>: the method is a token (none means GET), the URL parses.\<close>

definition tokenChar :: "char \<Rightarrow> bool" where
  "tokenChar c \<longleftrightarrow> isAlnum c \<or> c \<in> set (''!#$%&*+-.^_|~'' @ [CHR 0x27, CHR 0x60])"

definition httpNewRequest :: "string \<Rightarrow> string \<Rightarrow> string + string" where
  "httpNewRequest method url =
     (if \<not> list_all tokenChar method then Inl (''net/http: invalid method '' @ [CHR 0x22] @ method @ [CHR 0x22])
      else case urlParse url of
          Inl e \<Rightarrow> Inl e
        | Inr u \<Rightarrow> Inr (if method = [] then ''GET'' else method))"

definition CallWebhook :: "services \<Rightarrow> notificationConfig \<Rightarrow> pipelineRunResult \<Rightarrow> unit prog_w" where
  "CallWebhook sv cfg summary =
     bindP (wrapErr ''rendering notification webhook Template failed: ''
              (liftE (sv_TemplateExecute sv (nc_Template cfg) (templateData summary)))) (\<lambda>requestBody.
     bindP (liftE (httpNewRequest (nc_Method cfg) (nc_URL cfg))) (\<lambda>method.
     bindP (wrapErr ''performing notification webhook request failed: ''
              (perform (CWebhook method (nc_URL cfg) (nc_ContentType cfg) requestBody)
                 (\<lambda>h. sv_Webhook sv h method (nc_URL cfg) (nc_ContentType cfg) requestBody))) (\<lambda>(statusCode, status, body).
     if statusCode < 200 \<or> 300 \<le> statusCode
     then failE (''notification webhook returned non-2xx status (status: '' @ status @ '', body: '' @ body @ '')'')
     else ret ())))"

section \<open>Facts\<close>

text \<open>What a program asks for, when it fails or not, starts with what it asked before.\<close>

lemma ReadConfig_calls:
  "ReadConfigFromConfigMap sv ns w = (r, w') \<Longrightarrow> adds w [CGetConfigMap ns configMapName] w'"
proof -
  assume run: "ReadConfigFromConfigMap sv ns w = (r, w')"
  define rest where "rest = snd (perform (CGetConfigMap ns configMapName) (\<lambda>h. sv_GetConfigMap sv h ns configMapName) w)"
  have "adds w [CGetConfigMap ns configMapName] rest"
    unfolding rest_def by (auto simp: perform_def adds_def split: sum.split)
  moreover have "w' = rest"
    using run unfolding ReadConfigFromConfigMap_def rest_def
    by (auto simp: bindP_def wrapErr_def perform_def liftE_def prog_simps split: sum.splits option.splits outcome.splits prod.splits)
  ultimately show ?thesis by simp
qed

end
