(* ===== verification/Finish.thy ===== *)
theory Finish
  imports Start Notification
begin

text \<open>
  \<open>cmd/finish/main.go\<close>: the task that runs last in every pipeline.  It reports the outcome to
  Bitbucket, uploads the artifacts of the run that Nexus does not have yet, and notifies.  The
  step that sets the build status is the one of theory Start.
\<close>

section \<open>Options\<close>

record finishOptions =
  fo_bitbucketAccessToken :: string
  fo_bitbucketURL :: string
  fo_consoleURL :: string
  fo_pipelineRunName :: string
  fo_aggregateTasksStatus :: string
  fo_nexusURL :: string
  fo_nexusUsername :: string
  fo_nexusPassword :: string
  fo_nexusTemporaryRepository :: string
  fo_nexusPermanentRepository :: string
  fo_debug :: bool

definition finishDefaults :: "(string \<Rightarrow> string) \<Rightarrow> finishOptions" where
  "finishDefaults getenv =
     \<lparr>fo_bitbucketAccessToken = getenv ''BITBUCKET_ACCESS_TOKEN'', fo_bitbucketURL = getenv ''BITBUCKET_URL'',
      fo_consoleURL = getenv ''CONSOLE_URL'', fo_pipelineRunName = [], fo_aggregateTasksStatus = ''None'',
      fo_nexusURL = getenv ''NEXUS_URL'', fo_nexusUsername = getenv ''NEXUS_USERNAME'',
      fo_nexusPassword = getenv ''NEXUS_PASSWORD'',
      fo_nexusTemporaryRepository = getenv ''NEXUS_TEMPORARY_REPOSITORY'',
      fo_nexusPermanentRepository = getenv ''NEXUS_PERMANENT_REPOSITORY'', fo_debug = (getenv ''DEBUG'' = ''true'')\<rparr>"

text \<open>
  The names under which the flags of the two Nexus repositories are registered: the default names
  of the repositories, not \<open>nexus-temporary-repository\<close> and \<open>nexus-permanent-repository\<close>.
\<close>

definition nexusRepositoryFlags :: "string \<times> string" where
  "nexusRepositoryFlags = (TemporaryRepositoryDefault, PermanentRepositoryDefault)"

section \<open>Status\<close>

definition tasksSuccessful :: "string \<Rightarrow> bool" where
  "tasksSuccessful aggregateTasksStatus \<longleftrightarrow>
     aggregateTasksStatus = ''Succeeded'' \<or> aggregateTasksStatus = ''Completed''"

definition getBitbucketBuildStatus :: "string \<Rightarrow> string" where
  "getBitbucketBuildStatus aggregateTasksStatus =
     (if tasksSuccessful aggregateTasksStatus then BuildStatusSuccessful else BuildStatusFailed)"

section \<open>Artifacts\<close>

record pipelineRunArtifact =
  ra_Name :: string
  ra_AggregateTaskStatus :: string

definition pipelineRunArtifactJson :: "pipelineRunArtifact \<Rightarrow> json" where
  "pipelineRunArtifactJson a = JObj [(''name'', JStr (ra_Name a)), (''aggregateTaskStatus'', JStr (ra_AggregateTaskStatus a))]"

definition createPipelineRunArtifact :: "string \<Rightarrow> string \<Rightarrow> string \<Rightarrow> unit prog_w" where
  "createPipelineRunArtifact checkoutDir pipelineRunName aggregateTasksStatus =
     (let pra = \<lparr>ra_Name = pipelineRunName, ra_AggregateTaskStatus = aggregateTasksStatus\<rparr>
      in WriteJsonArtifact (pipelineRunArtifactJson pra) (filepathJoin [checkoutDir, PipelineRunsPath]) (ra_Name pra @ ''.json''))"

definition finish_artifactGroup :: "ODSContext \<Rightarrow> string \<Rightarrow> finishOptions \<Rightarrow> string" where
  "finish_artifactGroup ctxt artifactsSubDir opts =
     ArtifactGroup ctxt
       (if tasksSuccessful (fo_aggregateTasksStatus opts) then artifactsSubDir
        else ''failed-'' @ fo_pipelineRunName opts @ ''-artifacts/'' @ artifactsSubDir)"

text \<open>
  One file of one artifact directory.  A manifest file whose content is null gives a nil pointer,
  which \<open>Contains\<close> dereferences.
\<close>

definition uploadFile ::
  "services \<Rightarrow> finishOptions \<Rightarrow> string \<Rightarrow> string \<Rightarrow> ODSContext \<Rightarrow> artifactsManifest option \<Rightarrow> string \<Rightarrow> string \<Rightarrow> unit prog_w" where
  "uploadFile sv opts nexusRepository checkoutDir ctxt am artifactsSubDir filename =
     bindP (liftPanic ''nil pointer dereference'' am) (\<lambda>m.
     if ArtifactsManifest_Contains m nexusRepository artifactsSubDir filename then ret ()
     else (let cfg = \<lparr>nx_Username = fo_nexusUsername opts, nx_Password = fo_nexusPassword opts, nx_BaseURL = fo_nexusURL opts\<rparr>
           in bindP (nexus_Upload sv cfg nexusRepository (finish_artifactGroup ctxt artifactsSubDir opts)
                       (filepathJoin [checkoutDir, ArtifactsPath, artifactsSubDir, filename])) (\<lambda>link. ret ())))"

text \<open>\<open>mord\<close>: the order in which Go ranges over the map of artifact directories.\<close>

type_synonym artifactOrder = "call list \<Rightarrow> (string \<times> string list) list \<Rightarrow> (string \<times> string list) list"

definition uploadArtifacts ::
  "services \<Rightarrow> artifactOrder \<Rightarrow> finishOptions \<Rightarrow> string \<Rightarrow> string \<Rightarrow> ODSContext \<Rightarrow> unit prog_w" where
  "uploadArtifacts sv mord opts nexusRepository checkoutDir ctxt =
     bindP (ReadArtifactsDir (filepathJoin [checkoutDir, ArtifactsPath])) (\<lambda>artifactsMap.
     bindP (ReadArtifactsManifestFromFile sv (filepathJoin [checkoutDir, ArtifactsPath, ArtifactsManifestFilename])) (\<lambda>am.
     bindP (gets w_trace) (\<lambda>h.
     forEach (mord h artifactsMap) (\<lambda>(artifactsSubDir, files).
       forEach files (uploadFile sv opts nexusRepository checkoutDir ctxt am artifactsSubDir)))))"

definition targetRepository :: "finishOptions \<Rightarrow> ODS \<Rightarrow> ODSContext \<Rightarrow> string + string" where
  "targetRepository opts odsConfig ctxt =
     (if oc_Environment ctxt = [] then Inr (fo_nexusTemporaryRepository opts)
      else case ODS_Environment odsConfig (oc_Environment ctxt) of
          Inl e \<Rightarrow> Inl (''cannot determine environment: '' @ e)
        | Inr env \<Rightarrow> Inr (if en_Stage env \<noteq> DevStage then fo_nexusPermanentRepository opts
                          else fo_nexusTemporaryRepository opts))"

definition uploadSubrepo ::
  "services \<Rightarrow> rangeOrder \<Rightarrow> artifactOrder \<Rightarrow> finishOptions \<Rightarrow> string \<Rightarrow> string \<Rightarrow> repository \<Rightarrow> unit prog_w" where
  "uploadSubrepo sv ord mord opts nexusRepository checkoutDir subrepo =
     (let subrepoCheckoutDir = filepathJoin [checkoutDir, SubreposPath, re_Name subrepo]
      in bindP (gets w_trace) (\<lambda>h.
         bindP (wrapErr (''cannot read cache of subrepository '' @ re_Name subrepo @ '': '')
                  (ReadCache (ord h) emptyContext subrepoCheckoutDir)) (\<lambda>subrepoCtxt.
         wrapErr (''cannot upload artifacts of subrepository '' @ re_Name subrepo @ '': '')
           (uploadArtifacts sv mord opts nexusRepository subrepoCheckoutDir subrepoCtxt))))"

definition handleArtifacts ::
  "services \<Rightarrow> rangeOrder \<Rightarrow> artifactOrder \<Rightarrow> finishOptions \<Rightarrow> string \<Rightarrow> ODSContext \<Rightarrow> unit prog_w" where
  "handleArtifacts sv ord mord opts checkoutDir ctxt =
     bindP (wrapErr ''cannot create pipeline run artifact: ''
              (createPipelineRunArtifact checkoutDir (fo_pipelineRunName opts) (fo_aggregateTasksStatus opts))) (\<lambda>_.
     bindP (wrapErr ''cannot read ods config: '' (ReadFromDir sv checkoutDir)) (\<lambda>odsConfig.
     bindP (liftE (targetRepository opts odsConfig ctxt)) (\<lambda>nexusRepository.
     bindP (wrapErr ''cannot upload artifacts of main repository: ''
              (uploadArtifacts sv mord opts nexusRepository checkoutDir ctxt)) (\<lambda>_.
     forEach (od_Repositories odsConfig) (uploadSubrepo sv ord mord opts nexusRepository checkoutDir)))))"

section \<open>The task\<close>

definition notify :: "services \<Rightarrow> finishOptions \<Rightarrow> ODSContext \<Rightarrow> string \<Rightarrow> notificationConfig \<Rightarrow> unit prog_w" where
  "notify sv opts ctxt runURL cfg =
     (if ShouldNotify cfg (fo_aggregateTasksStatus opts)
      then bindP (attempt (CallWebhook sv cfg
             \<lparr>rr_PipelineRunName = fo_pipelineRunName opts, rr_PipelineRunURL = runURL,
              rr_OverallStatus = fo_aggregateTasksStatus opts, rr_ODSContext = ctxt\<rparr>)) (\<lambda>r. ret ())
      else ret ())"

definition Finish_main :: "services \<Rightarrow> rangeOrder \<Rightarrow> artifactOrder \<Rightarrow> finishOptions \<Rightarrow> unit prog_w" where
  "Finish_main sv ord mord opts =
     (let checkoutDir = ''.''
      in bindP (gets w_trace) (\<lambda>h.
         bindP (fatal (ReadCache (ord h) emptyContext checkoutDir)) (\<lambda>ctxt.
         let runURL = start_pipelineRunURL (fo_consoleURL opts) ctxt (fo_pipelineRunName opts)
         in bindP (fatal (setBuildStatus sv (getBitbucketBuildStatus (fo_aggregateTasksStatus opts)) (oc_GitCommitSHA ctxt) runURL)) (\<lambda>_.
            bindP (fatal (liftE (sv_NexusNew sv (fo_nexusURL opts) (fo_nexusUsername opts) (fo_nexusPassword opts)))) (\<lambda>_.
            bindP (fatal (handleArtifacts sv ord mord opts checkoutDir ctxt)) (\<lambda>_.
            bindP (fatal (liftE (sv_KubeNew sv []))) (\<lambda>_.
            bindP (fatal (ReadConfigFromConfigMap sv (oc_Namespace ctxt))) (\<lambda>cfg.
            notify sv opts ctxt runURL cfg))))))))"

section \<open>Facts\<close>

lemma osOpen_same_Ok: "osOpen f w = (Ok u, w') \<Longrightarrow> w' = w"
  by (auto simp: osOpen_def split: statRes.splits)

lemma nexus_Upload_Ok:
  assumes "nexus_Upload sv cfg repo g f w = (Ok link, w')"
  shows "\<exists>content. contentAt f w = Some content \<and> adds w [CUploadComponent repo g (Base f) content] w'"
proof -
  from assms obtain u w1 where o: "osOpen f w = (Ok u, w1)"
    and 1: "bindP (wrapErr ''could not upload component: '' (readFile f)) (\<lambda>content.
         bindP (wrapErr ''could not upload component: ''
             (perform (CUploadComponent repo g (Base f) content)
               (\<lambda>h. sv_UploadComponent sv h repo g (Base f) content))) (\<lambda>_.
         ret (nx_BaseURL cfg @ ''/repository/'' @ repo @ g @ ''/'' @ Base f))) w1 = (Ok link, w')"
    unfolding nexus_Upload_def Let_def by (rule bindP_OkE) (simp only: wrapErr_Ok)
  from o have w1: "w1 = w" by (rule osOpen_same_Ok)
  from 1 obtain content w2 where r: "readFile f w = (Ok content, w2)"
    and 2: "bindP (wrapErr ''could not upload component: ''
             (perform (CUploadComponent repo g (Base f) content)
               (\<lambda>h. sv_UploadComponent sv h repo g (Base f) content))) (\<lambda>_.
         ret (nx_BaseURL cfg @ ''/repository/'' @ repo @ g @ ''/'' @ Base f)) w2 = (Ok link, w')"
    unfolding w1 by (rule bindP_OkE) (simp only: wrapErr_Ok)
  from r have w2: "w2 = w" by (rule readFile_state)
  from 2 obtain u' where "perform (CUploadComponent repo g (Base f) content)
      (\<lambda>h. sv_UploadComponent sv h repo g (Base f) content) w = (Ok u', w')"
    unfolding w2 by (rule bindP_OkE) (simp add: ret_def)
  from perform_result [OF this] r show ?thesis unfolding w2 by (metis readFile_contentAt)
qed

text \<open>The uploads of some files, as \<open>Nexus\<close> receives them.\<close>

definition uploadCall :: "finishOptions \<Rightarrow> string \<Rightarrow> string \<Rightarrow> ODSContext \<Rightarrow> world \<Rightarrow> string \<times> string \<Rightarrow> call" where
  "uploadCall opts nexusRepository checkoutDir ctxt w f =
     (let path = filepathJoin [checkoutDir, ArtifactsPath, fst f, snd f];
          failed = (if fo_aggregateTasksStatus opts \<in> {''Succeeded'', ''Completed''} then []
                    else ''failed-'' @ fo_pipelineRunName opts @ ''-artifacts/'')
      in CUploadComponent nexusRepository
           (''/'' @ oc_Project ctxt @ ''/'' @ oc_Repository ctxt @ ''/'' @ oc_GitCommitSHA ctxt @ ''/'' @ failed @ fst f)
           (Base path) (the (contentAt path w)))"

definition artifactFiles :: "(string \<times> string list) list \<Rightarrow> (string \<times> string) list" where
  "artifactFiles dirs = concat (map (\<lambda>d. map (Pair (fst d)) (snd d)) dirs)"

definition missingFiles :: "artifactsManifest \<Rightarrow> string \<Rightarrow> (string \<times> string list) list \<Rightarrow> (string \<times> string) list" where
  "missingFiles m nexusRepository dirs =
     filter (\<lambda>f. \<not> ArtifactsManifest_Contains m nexusRepository (fst f) (snd f)) (artifactFiles dirs)"

lemma uploadCall_adds: "adds w cs w' \<Longrightarrow> uploadCall opts repo dir ctxt w' = uploadCall opts repo dir ctxt w"
  by (simp add: uploadCall_def contentAt_adds fun_eq_iff)

lemma uploadFile_Ok:
  assumes "uploadFile sv opts repo dir ctxt am sub f w = (Ok u, w')"
  shows "\<exists>m. am = Some m \<and> adds w (map (uploadCall opts repo dir ctxt w) (missingFiles m repo [(sub, [f])])) w'"
proof -
  from assms obtain m where m: "am = Some m"
    and run: "(if ArtifactsManifest_Contains m repo sub f then ret ()
     else (let cfg = \<lparr>nx_Username = fo_nexusUsername opts, nx_Password = fo_nexusPassword opts, nx_BaseURL = fo_nexusURL opts\<rparr>
           in bindP (nexus_Upload sv cfg repo (finish_artifactGroup ctxt sub opts)
                       (filepathJoin [dir, ArtifactsPath, sub, f])) (\<lambda>link. ret ()))) w = (Ok u, w')"
    unfolding uploadFile_def by (cases am) (auto simp: prog_simps)
  show ?thesis
  proof (cases "ArtifactsManifest_Contains m repo sub f")
    case True
    with run m show ?thesis by (simp add: prog_simps missingFiles_def artifactFiles_def)
  next
    case False
    with run have "bindP (nexus_Upload sv
        \<lparr>nx_Username = fo_nexusUsername opts, nx_Password = fo_nexusPassword opts, nx_BaseURL = fo_nexusURL opts\<rparr>
        repo (finish_artifactGroup ctxt sub opts) (filepathJoin [dir, ArtifactsPath, sub, f])) (\<lambda>link. ret ()) w = (Ok u, w')"
      by (simp add: Let_def)
    then obtain link where up: "nexus_Upload sv
        \<lparr>nx_Username = fo_nexusUsername opts, nx_Password = fo_nexusPassword opts, nx_BaseURL = fo_nexusURL opts\<rparr>
        repo (finish_artifactGroup ctxt sub opts) (filepathJoin [dir, ArtifactsPath, sub, f]) w = (Ok link, w')"
      by (rule bindP_OkE) (simp add: ret_def)
    from nexus_Upload_Ok [OF up] have "adds w [uploadCall opts repo dir ctxt w (sub, f)] w'"
      by (auto simp: uploadCall_def Let_def finish_artifactGroup_def tasksSuccessful_def ArtifactGroup_def
          nexus_ArtifactGroup_def nexus_ArtifactGroupBase_def)
    with m False show ?thesis by (simp add: missingFiles_def artifactFiles_def)
    qed
qed

lemma missingFiles_simps:
  "missingFiles m repo [] = []"
  "missingFiles m repo ((sub, fs) # ds) = missingFiles m repo [(sub, fs)] @ missingFiles m repo ds"
  "missingFiles m repo [(sub, f # fs)] = missingFiles m repo [(sub, [f])] @ missingFiles m repo [(sub, fs)]"
  "missingFiles m repo [(sub, [])] = []"
  by (simp_all add: missingFiles_def artifactFiles_def)

lemma artifactFiles_perm: "mset ds = mset es \<Longrightarrow> mset (artifactFiles ds) = mset (artifactFiles es)"
proof -
  have "mset (artifactFiles xs) = (\<Sum>\<^sub># (image_mset (\<lambda>d. mset (map (Pair (fst d)) (snd d))) (mset xs)))" for xs
    by (induction xs) (simp_all add: artifactFiles_def)
  then show "mset ds = mset es \<Longrightarrow> mset (artifactFiles ds) = mset (artifactFiles es)" by (simp only: simp_thms)
qed

lemma uploadFiles_Ok:
  assumes "forEach fs (uploadFile sv opts repo dir ctxt (Some m) sub) w = (Ok u, w')"
  shows "adds w (map (uploadCall opts repo dir ctxt w) (missingFiles m repo [(sub, fs)])) w'"
  using assms
proof (induction fs arbitrary: w)
  case Nil
  then show ?case by (simp add: prog_simps missingFiles_simps(1,4))
next
  case (Cons f fs)
  then obtain u1 w1 where 1: "uploadFile sv opts repo dir ctxt (Some m) sub f w = (Ok u1, w1)"
    and 2: "forEach fs (uploadFile sv opts repo dir ctxt (Some m) sub) w1 = (Ok u, w')" by (auto elim: bindP_OkE)
  from uploadFile_Ok [OF 1] have a: "adds w (map (uploadCall opts repo dir ctxt w) (missingFiles m repo [(sub, [f])])) w1" by simp
  from adds_trans [OF a Cons.IH [OF 2]] show ?case
    by (simp add: missingFiles_simps(3) [of m repo sub f fs] uploadCall_adds [OF a])
qed

lemma uploadDirs_Ok:
  assumes "forEach ds (\<lambda>(sub, fs). forEach fs (uploadFile sv opts repo dir ctxt (Some m) sub)) w = (Ok u, w')"
  shows "adds w (map (uploadCall opts repo dir ctxt w) (missingFiles m repo ds)) w'"
  using assms
proof (induction ds arbitrary: w)
  case Nil
  then show ?case by (simp add: prog_simps missingFiles_simps(1,4))
next
  case (Cons d ds)
  obtain sub fs where d: "d = (sub, fs)" by (cases d)
  with Cons.prems obtain u1 w1 where 1: "forEach fs (uploadFile sv opts repo dir ctxt (Some m) sub) w = (Ok u1, w1)"
    and 2: "forEach ds (\<lambda>(sub, fs). forEach fs (uploadFile sv opts repo dir ctxt (Some m) sub)) w1 = (Ok u, w')"
    by (auto elim: bindP_OkE)
  note a = uploadFiles_Ok [OF 1]
  from adds_trans [OF a Cons.IH [OF 2]] show ?case
    by (simp add: d missingFiles_simps(2) [of m repo sub fs ds] uploadCall_adds [OF a])
qed

lemma uploadDirs_None:
  assumes "forEach ds (\<lambda>(sub, fs). forEach fs (uploadFile sv opts repo dir ctxt None sub)) w = (Ok u, w')"
  shows "artifactFiles ds = [] \<and> w' = w"
  using assms
proof (induction ds)
  case Nil
  then show ?case by (simp add: prog_simps artifactFiles_def)
next
  case (Cons d ds)
  obtain sub fs where d: "d = (sub, fs)" by (cases d)
  from Cons.prems have "fs = []" by (cases fs) (simp_all add: d uploadFile_def panicP_def)
  with Cons d show ?case by (simp add: prog_simps artifactFiles_def)
qed

lemma ReadArtifactsDir_same: "preserves (=) (ReadArtifactsDir d)"
proof -
  have "preserves (=) (readDir f)" for f unfolding preserves_def by (metis readDir_state prod.collapse)
  then show ?thesis unfolding ReadArtifactsDir_def readSubdir_def by (intro same.rules)
qed

lemma ReadArtifactsManifest_Ok:
  assumes "ReadArtifactsManifestFromFile sv f w = (Ok am, w')"
  shows "w' = w \<and> (\<exists>content. contentAt f w = Some content \<and> sv_YamlManifest sv content = Inr am)"
proof -
  from assms obtain body w1 where r: "readFile f w = (Ok body, w1)"
    and k: "wrapErr ''could not unmarshal manifest: '' (liftE (sv_YamlManifest sv body)) w1 = (Ok am, w')"
    unfolding ReadArtifactsManifestFromFile_def by (rule bindP_OkE) (simp only: wrapErr_Ok)
  from r have "w1 = w" by (rule readFile_state)
  with r k show ?thesis by (cases "sv_YamlManifest sv body") (auto simp: readFile_contentAt prog_simps)
qed

section \<open>Properties\<close>

text \<open>
  C25: when uploading the artifacts of a checkout succeeds, exactly these uploads were made, and
  nothing else changed: one for every file of every artifact directory that the manifest of the
  target repository does not list, with the content of that file, in the group of the commit and
  the directory, which a run with failed tasks puts under \<open>failed-<run>-artifacts/\<close>.
\<close>

theorem uploadArtifacts_uploads_missing:
  assumes "uploadArtifacts sv mord opts repo dir ctxt w = (Ok (), w')"
    and "\<And>h ds. mset (mord h ds) = mset ds"
  shows "\<exists>dirs content am calls.
    ReadArtifactsDir (filepathJoin [dir, ArtifactsPath]) w = (Ok dirs, w) \<and>
    contentAt (filepathJoin [dir, ArtifactsPath, ArtifactsManifestFilename]) w = Some content \<and>
    sv_YamlManifest sv content = Inr am \<and> adds w calls w' \<and>
    (case am of None \<Rightarrow> artifactFiles dirs = [] \<and> calls = []
     | Some m \<Rightarrow> mset calls = mset (map (uploadCall opts repo dir ctxt w) (missingFiles m repo dirs)))"
proof -
  from assms(1) obtain dirs w1 where d: "ReadArtifactsDir (filepathJoin [dir, ArtifactsPath]) w = (Ok dirs, w1)"
    and 1: "bindP (ReadArtifactsManifestFromFile sv (filepathJoin [dir, ArtifactsPath, ArtifactsManifestFilename])) (\<lambda>am.
     bindP (gets w_trace) (\<lambda>h. forEach (mord h dirs) (\<lambda>(artifactsSubDir, files).
       forEach files (uploadFile sv opts repo dir ctxt am artifactsSubDir)))) w1 = (Ok (), w')"
    unfolding uploadArtifacts_def by (rule bindP_OkE)
  from preservesD [OF ReadArtifactsDir_same d] have w1: "w1 = w" by simp
  from 1 obtain am w2 where m: "ReadArtifactsManifestFromFile sv (filepathJoin [dir, ArtifactsPath, ArtifactsManifestFilename]) w = (Ok am, w2)"
    and 2: "bindP (gets w_trace) (\<lambda>h. forEach (mord h dirs) (\<lambda>(artifactsSubDir, files).
       forEach files (uploadFile sv opts repo dir ctxt am artifactsSubDir))) w2 = (Ok (), w')"
    unfolding w1 by (rule bindP_OkE)
  from ReadArtifactsManifest_Ok [OF m] obtain content where w2: "w2 = w"
    and c: "contentAt (filepathJoin [dir, ArtifactsPath, ArtifactsManifestFilename]) w = Some content" "sv_YamlManifest sv content = Inr am"
    by blast
  from 2 have 3: "forEach (mord (w_trace w) dirs) (\<lambda>(artifactsSubDir, files).
       forEach files (uploadFile sv opts repo dir ctxt am artifactsSubDir)) w = (Ok (), w')"
    by (simp add: w2 gets_def bindP_def)
  have perm: "mset (artifactFiles (mord (w_trace w) dirs)) = mset (artifactFiles dirs)"
    using assms(2) by (rule artifactFiles_perm)
  show ?thesis
  proof (cases am)
    case None
    with 3 uploadDirs_None have "artifactFiles (mord (w_trace w) dirs) = [] \<and> w' = w" by blast
    with perm have "artifactFiles dirs = [] \<and> adds w [] w'" by simp
    with None d c w1 show ?thesis by (intro exI [of _ dirs] exI [of _ content] exI [of _ am] exI [of _ "[]"]) simp
  next
    case (Some m)
    with 3 have "adds w (map (uploadCall opts repo dir ctxt w) (missingFiles m repo (mord (w_trace w) dirs))) w'"
      by (simp add: uploadDirs_Ok)
    moreover from perm have "mset (map (uploadCall opts repo dir ctxt w) (missingFiles m repo (mord (w_trace w) dirs)))
        = mset (map (uploadCall opts repo dir ctxt w) (missingFiles m repo dirs))"
      by (simp add: missingFiles_def)
    ultimately show ?thesis using Some d c w1
      by (intro exI [of _ dirs] exI [of _ content] exI [of _ am]) auto
  qed
qed

text \<open>A checkout with two reports, one of which the manifest lists; the tasks of the run have failed.\<close>

definition reportTree :: node where
  "reportTree = Dir [(''.ods'', Dir [(''artifacts'', Dir
     [(''xunit'', Dir [(''a.xml'', File ''A'' 0), (''b.xml'', File ''B'' 0)]), (''manifest.json'', File ''m'' 0)])])]"

definition reportManifest :: artifactsManifest where
  "reportManifest = \<lparr>am_SourceRepository = ''temp'',
     am_Artifacts = [\<lparr>ai_URL = [], ai_Directory = ''xunit'', ai_Name = ''b.xml''\<rparr>]\<rparr>"

definition reportServices :: services where
  "reportServices = noServices\<lparr>sv_YamlManifest := (\<lambda>s. Inr (Some reportManifest)),
     sv_UploadComponent := (\<lambda>_ _ _ _ _. Inr ())\<rparr>"

definition failedRun :: finishOptions where
  "failedRun = (finishDefaults (\<lambda>v. []))\<lparr>fo_aggregateTasksStatus := ''Failed'', fo_pipelineRunName := ''run-1''\<rparr>"

definition reportContext :: ODSContext where
  "reportContext = emptyContext\<lparr>oc_Project := ''p'', oc_Repository := ''r'', oc_GitCommitSHA := ''c''\<rparr>"

lemma uploadArtifacts_witness:
  "\<exists>w'. uploadArtifacts reportServices (\<lambda>h ds. rev ds) failedRun ''temp'' ''.'' reportContext (emptyWorld\<lparr>w_root := reportTree\<rparr>) = (Ok (), w') \<and>
     w_trace w' = [CUploadComponent ''temp'' ''/p/r/c/failed-run-1-artifacts/xunit'' ''a.xml'' ''A'']"
proof -
  let ?w = "emptyWorld\<lparr>w_root := reportTree\<rparr>"
  have "fst (uploadArtifacts reportServices (\<lambda>h ds. rev ds) failedRun ''temp'' ''.'' reportContext ?w) = Ok ()"
    by code_simp
  then obtain w' where run: "uploadArtifacts reportServices (\<lambda>h ds. rev ds) failedRun ''temp'' ''.'' reportContext ?w = (Ok (), w')"
    by (metis prod.collapse)
  have dirs: "fst (ReadArtifactsDir (filepathJoin [''.'', ArtifactsPath]) ?w) = Ok [(''xunit'', [''a.xml'', ''b.xml''])]"
    by code_simp
  have calls: "map (uploadCall failedRun ''temp'' ''.'' reportContext ?w) (missingFiles reportManifest ''temp'' [(''xunit'', [''a.xml'', ''b.xml''])])
      = [CUploadComponent ''temp'' ''/p/r/c/failed-run-1-artifacts/xunit'' ''a.xml'' ''A'']"
    by code_simp
  obtain d c am cs where "ReadArtifactsDir (filepathJoin [''.'', ArtifactsPath]) ?w = (Ok d, ?w)"
    "sv_YamlManifest reportServices c = Inr am" "adds ?w cs w'"
    "case am of None \<Rightarrow> artifactFiles d = [] \<and> cs = []
     | Some m \<Rightarrow> mset cs = mset (map (uploadCall failedRun ''temp'' ''.'' reportContext ?w) (missingFiles m ''temp'' d))"
    using uploadArtifacts_uploads_missing [OF run mset_rev] by blast
  moreover from this(2) have "am = Some reportManifest" by (simp add: reportServices_def)
  moreover have "d = [(''xunit'', [''a.xml'', ''b.xml''])]" using calculation(1) dirs by simp
  ultimately have "adds ?w cs w'" "mset cs = mset [CUploadComponent ''temp'' ''/p/r/c/failed-run-1-artifacts/xunit'' ''a.xml'' ''A'']"
    using calls by simp_all
  then have "w_trace w' = [CUploadComponent ''temp'' ''/p/r/c/failed-run-1-artifacts/xunit'' ''a.xml'' ''A'']"
    by (simp add: adds_def emptyWorld_def)
  with run show ?thesis by blast
qed

subsection \<open>The task as a whole\<close>

text \<open>What the notification webhook answers has no influence on the rest of the task.\<close>

definition withWebhook :: "(call list \<Rightarrow> string \<Rightarrow> string \<Rightarrow> string \<Rightarrow> string \<Rightarrow> string + (int \<times> string \<times> string)) \<Rightarrow> services \<Rightarrow> services" where
  "withWebhook f sv = sv\<lparr>sv_Webhook := f\<rparr>"

lemma ReadArtifactsManifest_webhook: "ReadArtifactsManifestFromFile (withWebhook f sv) = ReadArtifactsManifestFromFile sv"
  by (simp add: fun_eq_iff ReadArtifactsManifestFromFile_def withWebhook_def)

lemma nexus_Upload_webhook: "nexus_Upload (withWebhook f sv) = nexus_Upload sv"
  by (simp add: fun_eq_iff nexus_Upload_def withWebhook_def)

lemma uploadFile_webhook: "uploadFile (withWebhook f sv) = uploadFile sv"
  by (simp add: fun_eq_iff uploadFile_def nexus_Upload_webhook Let_def cong: if_cong)

lemma uploadArtifacts_webhook: "uploadArtifacts (withWebhook f sv) = uploadArtifacts sv"
  by (simp add: fun_eq_iff uploadArtifacts_def ReadArtifactsManifest_webhook uploadFile_webhook)

lemma readCandidates_webhook: "readCandidates (withWebhook f sv) dir cs = readCandidates sv dir cs"
proof -
  have "ReadFromFile (withWebhook f sv) = ReadFromFile sv"
    by (simp add: fun_eq_iff ReadFromFile_def withWebhook_def)
  then show ?thesis by (induction cs) (simp_all cong: if_cong)
qed

lemma ReadFromDir_webhook: "ReadFromDir (withWebhook f sv) = ReadFromDir sv"
  by (simp add: fun_eq_iff ReadFromDir_def readCandidates_webhook)

lemma uploadSubrepo_webhook: "uploadSubrepo (withWebhook f sv) = uploadSubrepo sv"
  by (simp add: fun_eq_iff uploadSubrepo_def uploadArtifacts_webhook)

lemma handleArtifacts_webhook: "handleArtifacts (withWebhook f sv) = handleArtifacts sv"
  by (simp add: fun_eq_iff handleArtifacts_def uploadSubrepo_webhook uploadArtifacts_webhook ReadFromDir_webhook)

lemma ReadConfig_webhook: "ReadConfigFromConfigMap (withWebhook f sv) = ReadConfigFromConfigMap sv"
  by (simp add: fun_eq_iff ReadConfigFromConfigMap_def withWebhook_def)

lemma attempt_Ok: "fst (m w) \<in> range Ok \<union> range Err \<Longrightarrow> \<exists>x w'. attempt m w = (Ok x, w')"
  by (cases "m w") (auto simp: attempt_def)

lemma CallWebhook_returns: "fst (CallWebhook sv cfg summary w) \<in> range Ok \<union> range Err"
  unfolding CallWebhook_def
  by (auto simp: bindP_def wrapErr_def liftE_def perform_def prog_simps split: sum.split prod.split outcome.split)

lemma notify_Ok: "fst (notify sv opts ctxt runURL cfg w) = Ok ()"
proof (cases "ShouldNotify cfg (fo_aggregateTasksStatus opts)")
  case True
  obtain x w' where "attempt (CallWebhook sv cfg
      \<lparr>rr_PipelineRunName = fo_pipelineRunName opts, rr_PipelineRunURL = runURL,
       rr_OverallStatus = fo_aggregateTasksStatus opts, rr_ODSContext = ctxt\<rparr>) w = (Ok x, w')"
    using attempt_Ok [of "CallWebhook sv cfg _" w, OF CallWebhook_returns] by blast
  with True show ?thesis by (simp add: notify_def ret_def)
qed (simp add: notify_def ret_def)

lemma CallWebhook_tg: "preserves trace_grows (CallWebhook sv cfg summary)"
  unfolding CallWebhook_def by (intro tg.rules perform_tg)

lemma notify_tg: "preserves trace_grows (notify sv opts ctxt runURL cfg)"
  unfolding notify_def by (intro tg.rules CallWebhook_tg)

lemma ReadConfig_tg: "preserves trace_grows (ReadConfigFromConfigMap sv ns)"
  unfolding ReadConfigFromConfigMap_def by (intro tg.rules perform_tg)

lemma same_tg: "preserves (=) m \<Longrightarrow> preserves trace_grows m"
  unfolding preserves_def trace_grows_def by (metis prefix_order.refl)

lemma uploadArtifacts_tg: "preserves trace_grows (uploadArtifacts sv mord opts repo dir ctxt)"
  unfolding uploadArtifacts_def uploadFile_def nexus_Upload_def ReadArtifactsManifestFromFile_def Let_def
  by (intro tg.rules perform_tg same_tg ReadArtifactsDir_same readFile_same osOpen_same)

lemma handleArtifacts_tg: "preserves trace_grows (handleArtifacts sv ord mord opts dir ctxt)"
proof -
  have "preserves trace_grows (readCandidates sv d cs)" for d cs
    by (induction cs) (auto simp: ReadFromFile_def Config_Read_def intro!: tg.rules same_tg [OF readFile_same])
  then show ?thesis
    unfolding handleArtifacts_def createPipelineRunArtifact_def WriteJsonArtifact_def uploadSubrepo_def ReadFromDir_def Let_def
    by (intro tg.rules uploadArtifacts_tg only_files_trace_grows [OF osMkdirAll_fo] only_files_trace_grows [OF writeFile_fo]
        same_tg [OF ReadCache_same])
qed

lemma fst_bindP_cong: "(\<And>x w. fst (f x w) = fst (g x w)) \<Longrightarrow> fst (bindP m f w) = fst (bindP m g w)"
  by (auto simp: bindP_def split: prod.split outcome.split)

lemma Finish_main_webhook: "fst (Finish_main (withWebhook f sv) ord mord opts w) = fst (Finish_main sv ord mord opts w)"
proof -
  have sel: "sv_NexusNew (withWebhook f sv) = sv_NexusNew sv" "sv_KubeNew (withWebhook f sv) = sv_KubeNew sv"
    "setBuildStatus (withWebhook f sv) = setBuildStatus sv"
    by (simp_all add: withWebhook_def setBuildStatus_def fun_eq_iff)
  show ?thesis
    unfolding Finish_main_def Let_def handleArtifacts_webhook ReadConfig_webhook sel
    by (intro fst_bindP_cong) (simp add: notify_Ok)
qed

text \<open>
  C26: the task either stops because the context cannot be read, or its first request sets the
  build status of the commit: \<open>SUCCESSFUL\<close> if the tasks \<open>Succeeded\<close> or \<open>Completed\<close>, else
  \<open>FAILED\<close>.  Whatever the notification webhook answers, the outcome of the task is the same.
\<close>

theorem Finish_main_reports_status:
  assumes "Finish_main sv ord mord opts w = (r, w')"
  shows "(w' = w \<and> r \<notin> range Ok \<or>
     (\<exists>c rest. ReadCache (ord (w_trace w)) emptyContext ''.'' w = (Ok c, w) \<and>
        w_trace w' = w_trace w @ CBuildStatusCreate (oc_GitCommitSHA c)
          \<lparr>bs_State = (if fo_aggregateTasksStatus opts \<in> {''Succeeded'', ''Completed''} then ''SUCCESSFUL'' else ''FAILED''),
           bs_Key = oc_GitCommitSHA c, bs_Name = oc_GitCommitSHA c,
           bs_URL = fo_consoleURL opts @ ''/k8s/ns/'' @ oc_Namespace c @ ''/tekton.dev~v1beta1~PipelineRun/'' @ fo_pipelineRunName opts @ ''/'',
           bs_Description = ''ODS Pipeline Build''\<rparr> # rest))
   \<and> fst (Finish_main (sv\<lparr>sv_Webhook := f\<rparr>) ord mord opts w) = r"
proof
  define status where "status = (\<lambda>c. setBuildStatus sv (getBitbucketBuildStatus (fo_aggregateTasksStatus opts)) (oc_GitCommitSHA c)
      (start_pipelineRunURL (fo_consoleURL opts) c (fo_pipelineRunName opts)))"
  define rest where "rest = (\<lambda>c. bindP (fatal (liftE (sv_NexusNew sv (fo_nexusURL opts) (fo_nexusUsername opts) (fo_nexusPassword opts)))) (\<lambda>_.
            bindP (fatal (handleArtifacts sv ord mord opts ''.'' c)) (\<lambda>_.
            bindP (fatal (liftE (sv_KubeNew sv []))) (\<lambda>_.
            bindP (fatal (ReadConfigFromConfigMap sv (oc_Namespace c))) (\<lambda>cfg.
            notify sv opts c (start_pipelineRunURL (fo_consoleURL opts) c (fo_pipelineRunName opts)) cfg)))))"
  have main: "Finish_main sv ord mord opts w =
      bindP (fatal (ReadCache (ord (w_trace w)) emptyContext ''.'')) (\<lambda>c. bindP (fatal (status c)) (\<lambda>_. rest c)) w"
    by (simp add: Finish_main_def status_def rest_def gets_def bindP_def Let_def)
  have tg: "preserves trace_grows (rest c)" for c
    unfolding rest_def by (intro tg.rules handleArtifacts_tg ReadConfig_tg notify_tg)
  obtain x w1 where read: "ReadCache (ord (w_trace w)) emptyContext ''.'' w = (x, w1)" by (cases "ReadCache (ord (w_trace w)) emptyContext ''.'' w")
  from preservesD [OF ReadCache_same read] have w1: "w1 = w" by simp
  show "w' = w \<and> r \<notin> range Ok \<or>
     (\<exists>c rest. ReadCache (ord (w_trace w)) emptyContext ''.'' w = (Ok c, w) \<and>
        w_trace w' = w_trace w @ CBuildStatusCreate (oc_GitCommitSHA c)
          \<lparr>bs_State = (if fo_aggregateTasksStatus opts \<in> {''Succeeded'', ''Completed''} then ''SUCCESSFUL'' else ''FAILED''),
           bs_Key = oc_GitCommitSHA c, bs_Name = oc_GitCommitSHA c,
           bs_URL = fo_consoleURL opts @ ''/k8s/ns/'' @ oc_Namespace c @ ''/tekton.dev~v1beta1~PipelineRun/'' @ fo_pipelineRunName opts @ ''/'',
           bs_Description = ''ODS Pipeline Build''\<rparr> # rest)"
  proof (cases x)
    case (Ok c)
    let ?p = "\<lparr>bs_State = (if fo_aggregateTasksStatus opts \<in> {''Succeeded'', ''Completed''} then ''SUCCESSFUL'' else ''FAILED''),
           bs_Key = oc_GitCommitSHA c, bs_Name = oc_GitCommitSHA c,
           bs_URL = fo_consoleURL opts @ ''/k8s/ns/'' @ oc_Namespace c @ ''/tekton.dev~v1beta1~PipelineRun/'' @ fo_pipelineRunName opts @ ''/'',
           bs_Description = ''ODS Pipeline Build''\<rparr>"
    have call: "status c = perform (CBuildStatusCreate (oc_GitCommitSHA c) ?p) (\<lambda>h. sv_BuildStatusCreate sv h (oc_GitCommitSHA c) ?p)"
      by (auto simp: status_def setBuildStatus_def Let_def start_pipelineRunURL_def getBitbucketBuildStatus_def tasksSuccessful_def
          BuildStatusSuccessful_def BuildStatusFailed_def)
    from read Ok w1 assms main have st: "bindP (fatal (status c)) (\<lambda>_. rest c) w = (r, w')" by (simp add: bindP_def fatal_def)
    obtain y w2 where y: "status c w = (y, w2)" by (cases "status c w")
    with perform_result [OF y [unfolded call]] have t2: "w_trace w2 = w_trace w @ [CBuildStatusCreate (oc_GitCommitSHA c) ?p]"
      by (simp add: adds_trace)
    have "trace_grows w2 w'"
    proof (cases y)
      case (Ok u)
      with st y preservesD [OF tg, of c w2 r w'] show ?thesis by (simp add: bindP_def fatal_def)
    qed (use st y tg.refl in \<open>auto simp: bindP_def fatal_def\<close>)
    with t2 obtain zs where "w_trace w' = w_trace w @ CBuildStatusCreate (oc_GitCommitSHA c) ?p # zs"
      by (auto simp: trace_grows_def prefix_def)
    with read Ok w1 show ?thesis by blast
  qed (use read w1 assms main in \<open>auto simp: bindP_def fatal_def\<close>)
  show "fst (Finish_main (sv\<lparr>sv_Webhook := f\<rparr>) ord mord opts w) = r"
    using Finish_main_webhook [of f sv ord mord opts w] assms by (simp add: withWebhook_def)
qed

text \<open>A run without tasks, without an environment, and with a webhook that refuses the notification.\<close>

definition finishTree :: node where
  "finishTree = Dir [(''.ods'', Dir
     (map (\<lambda>f. (fieldFile f, File (''x'') 0)) (filter (\<lambda>f. f \<noteq> FEnvironment) cacheFields) @
      [(fieldFile FEnvironment, File [] 0),
       (''artifacts'', Dir [(''manifest.json'', File ''m'' 0)])])),
     (''ods.yaml'', File ''y'' 0)]"

definition finishServices :: services where
  "finishServices = reportServices\<lparr>sv_BuildStatusCreate := (\<lambda>_ _ _. Inr ()), sv_NexusNew := (\<lambda>_ _ _. Inr ()),
     sv_KubeNew := (\<lambda>_. Inr ()), sv_YamlODS := (\<lambda>_. Inr (Some exampleODS)), sv_YamlManifest := (\<lambda>_. Inr (Some reportManifest)),
     sv_GetConfigMap := (\<lambda>_ _ _. Inr [(''enabled'', ''true''), (''url'', ''http://hook''), (''method'', ''POST''),
       (''contentType'', ''text/plain''), (''notifyOnStatus'', ''['' @ [CHR 0x22] @ ''Succeeded'' @ [CHR 0x22] @ '']''), (''requestTemplate'', ''done'')]),
     sv_TemplateParse := (\<lambda>_. Inr ()), sv_TemplateExecute := (\<lambda>t d. Inr t),
     sv_Webhook := (\<lambda>_ _ _ _ _. Inr (500, ''500 Internal Server Error'', ''no''))\<rparr>"

definition goodRun :: finishOptions where
  "goodRun = failedRun\<lparr>fo_aggregateTasksStatus := ''Succeeded''\<rparr>"

lemma Finish_main_witness:
  "\<exists>rest. w_trace (snd (Finish_main finishServices (\<lambda>h fs. fs) (\<lambda>h ds. ds) goodRun (emptyWorld\<lparr>w_root := finishTree\<rparr>))) =
       CBuildStatusCreate ''x'' \<lparr>bs_State = ''SUCCESSFUL'', bs_Key = ''x'', bs_Name = ''x'',
         bs_URL = ''/k8s/ns/x/tekton.dev~v1beta1~PipelineRun/run-1/'', bs_Description = ''ODS Pipeline Build''\<rparr> # rest
     \<and> CWebhook ''POST'' ''http://hook'' ''text/plain'' ''done'' \<in> set rest
     \<and> fst (Finish_main finishServices (\<lambda>h fs. fs) (\<lambda>h ds. ds) goodRun (emptyWorld\<lparr>w_root := finishTree\<rparr>)) = Ok ()"
proof -
  let ?m = "Finish_main finishServices (\<lambda>h fs. fs) (\<lambda>h ds. ds) goodRun (emptyWorld\<lparr>w_root := finishTree\<rparr>)"
  have run: "fst ?m = Ok ()" "CWebhook ''POST'' ''http://hook'' ''text/plain'' ''done'' \<in> set (w_trace (snd ?m))"
    by code_simp+
  obtain r w' where m: "?m = (r, w')" by (cases ?m)
  have ctxt: "case ReadCache (\<lambda>fs. fs) emptyContext ''.'' (emptyWorld\<lparr>w_root := finishTree\<rparr>) of
      (Ok c, _) \<Rightarrow> oc_GitCommitSHA c = ''x'' \<and> oc_Namespace c = ''x'' | _ \<Rightarrow> False" by code_simp
  from Finish_main_reports_status [OF m, of undefined] run(1) m obtain c rest where
    c: "ReadCache (\<lambda>fs. fs) emptyContext ''.'' (emptyWorld\<lparr>w_root := finishTree\<rparr>) = (Ok c, emptyWorld\<lparr>w_root := finishTree\<rparr>)"
    and t: "w_trace w' = w_trace (emptyWorld\<lparr>w_root := finishTree\<rparr>) @ CBuildStatusCreate (oc_GitCommitSHA c)
          \<lparr>bs_State = (if fo_aggregateTasksStatus goodRun \<in> {''Succeeded'', ''Completed''} then ''SUCCESSFUL'' else ''FAILED''),
           bs_Key = oc_GitCommitSHA c, bs_Name = oc_GitCommitSHA c,
           bs_URL = fo_consoleURL goodRun @ ''/k8s/ns/'' @ oc_Namespace c @ ''/tekton.dev~v1beta1~PipelineRun/'' @ fo_pipelineRunName goodRun @ ''/'',
           bs_Description = ''ODS Pipeline Build''\<rparr> # rest"
    by (auto simp only: fst_conv)
  from ctxt c have "oc_GitCommitSHA c = ''x''" "oc_Namespace c = ''x''" by simp_all
  moreover have "fo_consoleURL goodRun = []" "fo_pipelineRunName goodRun = ''run-1''" "fo_aggregateTasksStatus goodRun = ''Succeeded''"
    by (simp_all add: goodRun_def failedRun_def finishDefaults_def)
  ultimately have "w_trace w' = CBuildStatusCreate ''x'' \<lparr>bs_State = ''SUCCESSFUL'', bs_Key = ''x'', bs_Name = ''x'',
         bs_URL = ''/k8s/ns/x/tekton.dev~v1beta1~PipelineRun/run-1/'', bs_Description = ''ODS Pipeline Build''\<rparr> # rest"
    using t by (simp add: emptyWorld_def)
  with run m show ?thesis by simp
qed

end
