(* ===== verification/ImageArtifact.thy ===== *)
theory ImageArtifact
  imports PipelineCtxt
begin

text \<open>
  What the image tasks share: the record of a built image (\<open>pkg/artifact/image.go\<close>), which
  \<open>build-push-image\<close> writes and \<open>deploy-with-helm\<close> reads, and small helpers of both.
\<close>

section \<open>Image records\<close>

record imageArtifact =
  im_Image :: string
  im_Registry :: string
  im_Repository :: string
  im_Name :: string
  im_Tag :: string
  im_Digest :: string

definition zeroImage :: imageArtifact where
  "zeroImage = \<lparr>im_Image = [], im_Registry = [], im_Repository = [], im_Name = [], im_Tag = [], im_Digest = []\<rparr>"

definition decImage :: "imageArtifact decoder" where
  "decImage = decStruct
     [(''image'', decField im_Image (\<lambda>s r. r\<lparr>im_Image := s\<rparr>) decStr),
      (''registry'', decField im_Registry (\<lambda>s r. r\<lparr>im_Registry := s\<rparr>) decStr),
      (''repository'', decField im_Repository (\<lambda>s r. r\<lparr>im_Repository := s\<rparr>) decStr),
      (''name'', decField im_Name (\<lambda>s r. r\<lparr>im_Name := s\<rparr>) decStr),
      (''tag'', decField im_Tag (\<lambda>s r. r\<lparr>im_Tag := s\<rparr>) decStr),
      (''digest'', decField im_Digest (\<lambda>s r. r\<lparr>im_Digest := s\<rparr>) decStr)]"

definition imageArtifactJson :: "imageArtifact \<Rightarrow> json" where
  "imageArtifactJson a = JObj [(''image'', JStr (im_Image a)), (''registry'', JStr (im_Registry a)),
     (''repository'', JStr (im_Repository a)), (''name'', JStr (im_Name a)), (''tag'', JStr (im_Tag a)),
     (''digest'', JStr (im_Digest a))]"

definition unmarshalImage :: "string \<Rightarrow> string + imageArtifact" where
  "unmarshalImage body = (case parseJson body of
       None \<Rightarrow> Inl ''invalid character in JSON''
     | Some v \<Rightarrow> decImage zeroImage v)"

section \<open>Helpers\<close>

definition kubernetesServiceaccountDir :: string where "kubernetesServiceaccountDir = ''/var/run/secrets/kubernetes.io/serviceaccount''"

definition directory_ListFiles :: "string \<Rightarrow> unit prog_w" where
  "directory_ListFiles dir = bindP (fatal (readDir dir)) (\<lambda>files. forEach files (\<lambda>f. printLn (fst f)))"

text \<open>A child process that must succeed: otherwise its error output is printed and the process ends.\<close>

definition runOrFatal :: "(string \<times> string \<times> string option) prog_w \<Rightarrow> string prog_w" where
  "runOrFatal m = bindP m (\<lambda>(out, err, e). case e of
       None \<Rightarrow> ret out | Some x \<Rightarrow> bindP (printLn err) (\<lambda>_. exitP 1))"

section \<open>Facts\<close>

lemma unmarshalImage_Marshal: "unmarshalImage (Marshal (imageArtifactJson a)) = Inr a"
proof -
  have "parseJson (Marshal (imageArtifactJson a) @ []) = Some (imageArtifactJson a)"
    by (rule parseJson_Marshal) (simp_all add: imageArtifactJson_def stopsNumber_def)
  then show ?thesis
    by (simp add: unmarshalImage_def imageArtifactJson_def decImage_def decStruct_def fieldOf_def decField_def decStr_def zeroImage_def)
qed

end
