(* ===== verification/BuildPush.thy ===== *)
theory BuildPush
  imports Start ImageArtifact
begin

text \<open>
  \<open>cmd/build-push-image/main.go\<close>: the task that builds an image with buildah unless the registry has
  it already, pushes it, has it scanned by Aqua, and records it as an artifact.  Lines printed
  with \<open>fmt\<close> are modelled, \<open>log\<close> messages are not.
\<close>

section \<open>Options\<close>

definition aquasecBin :: string where "aquasecBin = ''aquasec''"

record buildOptions =
  bo_bitbucketAccessToken :: string
  bo_bitbucketURL :: string
  bo_aquaUsername :: string
  bo_aquaPassword :: string
  bo_aquaURL :: string
  bo_aquaRegistry :: string
  bo_imageStream :: string
  bo_registry :: string
  bo_certDir :: string
  bo_imageNamespace :: string
  bo_tlsVerify :: bool
  bo_storageDriver :: string
  bo_format :: string
  bo_dockerfile :: string
  bo_contextDir :: string
  bo_nexusURL :: string
  bo_nexusUsername :: string
  bo_nexusPassword :: string
  bo_buildahBuildExtraArgs :: string
  bo_buildahPushExtraArgs :: string
  bo_aquasecGate :: bool
  bo_debug :: bool

definition buildDefaults :: "(string \<Rightarrow> string) \<Rightarrow> buildOptions" where
  "buildDefaults getenv =
     \<lparr>bo_bitbucketAccessToken = getenv ''BITBUCKET_ACCESS_TOKEN'', bo_bitbucketURL = getenv ''BITBUCKET_URL'',
      bo_aquaUsername = getenv ''AQUA_USERNAME'', bo_aquaPassword = getenv ''AQUA_PASSWORD'', bo_aquaURL = getenv ''AQUA_URL'',
      bo_aquaRegistry = getenv ''AQUA_REGISTRY'', bo_imageStream = [],
      bo_registry = ''image-registry.openshift-image-registry.svc:5000'', bo_certDir = ''/etc/containers/certs.d'',
      bo_imageNamespace = [], bo_tlsVerify = True, bo_storageDriver = ''vfs'', bo_format = ''oci'',
      bo_dockerfile = ''./Dockerfile'', bo_contextDir = ''docker'',
      bo_nexusURL = getenv ''NEXUS_URL'', bo_nexusUsername = getenv ''NEXUS_USERNAME'', bo_nexusPassword = getenv ''NEXUS_PASSWORD'',
      bo_buildahBuildExtraArgs = ''docker'', bo_buildahPushExtraArgs = ''docker'', bo_aquasecGate = False,
      bo_debug = (getenv ''DEBUG'' = ''true'')\<rparr>"

section \<open>Building and pushing\<close>

definition nexusUser :: "buildOptions \<Rightarrow> url \<Rightarrow> (string \<times> string option) option" where
  "nexusUser opts u =
     (if bo_nexusUsername opts \<noteq> []
      then Some (bo_nexusUsername opts, if bo_nexusPassword opts = [] then None else Some (bo_nexusPassword opts))
      else ur_User u)"

definition nexusBuildArgs :: "buildOptions \<Rightarrow> string + string list" where
  "nexusBuildArgs opts =
     (if TrimSpace (bo_nexusURL opts) = [] then Inr []
      else case urlParse (bo_nexusURL opts) of
        Inl e \<Rightarrow> Inl (''could not parse nexus url ('' @ bo_nexusURL opts @ ''): '' @ e)
      | Inr nexusUrl \<Rightarrow>
          (if ur_Host nexusUrl = [] then Inl (''could not get host in nexus url ('' @ bo_nexusURL opts @ '')'')
           else let nexusAuth = userinfoString (nexusUser opts nexusUrl);
                    a = SplitN 2 nexusAuth '':'';
                    unEscaped = (case a of u # _ \<Rightarrow> u | [] \<Rightarrow> []);
                    pwEscaped = (case a of u # p # _ \<Rightarrow> p | _ \<Rightarrow> [])
                in Inr [''--build-arg=nexusUrl='' @ bo_nexusURL opts,
                        ''--build-arg=nexusUsername='' @ unEscaped,
                        ''--build-arg=nexusPassword='' @ pwEscaped,
                        ''--build-arg=nexusHost='' @ ur_Host nexusUrl,
                        ''--build-arg=nexusAuth='' @ nexusAuth,
                        ''--build-arg=nexusUrlWithAuth='' @
                          (if nexusAuth \<noteq> [] then ur_Scheme nexusUrl @ ''://'' @ nexusAuth @ ''@'' @ ur_Host nexusUrl
                           else bo_nexusURL opts)]))"

text \<open>A failure of the command or of what precedes it is an error for the caller, who ends the process.\<close>

definition buildahBuild :: "services \<Rightarrow> buildOptions \<Rightarrow> string \<Rightarrow> string prog_w" where
  "buildahBuild sv opts tag =
     bindP (wrapErr (''could not parse extra args ('' @ bo_buildahBuildExtraArgs opts @ ''): '')
              (liftE (sv_Shlex sv (bo_buildahBuildExtraArgs opts)))) (\<lambda>extraArgs.
     bindP (wrapErr ''could not add nexus build args: '' (liftE (nexusBuildArgs opts))) (\<lambda>nexusArgs.
     let args = [''--storage-driver='' @ bo_storageDriver opts, ''bud'', ''--format='' @ bo_format opts,
                 ''--tls-verify='' @ fmtBool (bo_tlsVerify opts), ''--cert-dir='' @ bo_certDir opts, ''--no-cache'',
                 ''--file='' @ bo_dockerfile opts, ''--tag='' @ tag] @ extraArgs @ nexusArgs @
                (if bo_debug opts then [''--log-level=debug''] else [])
     in outputOr (\<lambda>err e. e) (command_Run sv ''buildah'' (args @ [bo_contextDir opts]))))"

text \<open>Extra arguments of the push that cannot be split are logged and left out.\<close>

definition buildahPush :: "services \<Rightarrow> buildOptions \<Rightarrow> string \<Rightarrow> string \<Rightarrow> string prog_w" where
  "buildahPush sv opts workingDir imageRef =
     (let extraArgs = (case sv_Shlex sv (bo_buildahPushExtraArgs opts) of Inl e \<Rightarrow> [] | Inr xs \<Rightarrow> xs);
          args = [''--storage-driver='' @ bo_storageDriver opts, ''push'', ''--tls-verify='' @ fmtBool (bo_tlsVerify opts),
                  ''--cert-dir='' @ bo_certDir opts, ''--digestfile='' @ filepathJoin [workingDir, ''image-digest'']] @ extraArgs @
                 (if bo_debug opts then [''--log-level=debug''] else [])
      in outputOr (\<lambda>err e. e) (command_Run sv ''buildah'' (args @ [imageRef, ''docker://'' @ imageRef])))"

definition getImageDigestFromRegistry :: "services \<Rightarrow> string \<Rightarrow> buildOptions \<Rightarrow> string prog_w" where
  "getImageDigestFromRegistry sv imageRef opts =
     (let args = [''inspect'', ''--format={{.Digest}}'', ''--tls-verify='' @ fmtBool (bo_tlsVerify opts),
                  ''--cert-dir='' @ bo_certDir opts] @ (if bo_debug opts then [''--debug''] else [])
      in outputOr (\<lambda>err e. e) (command_Run sv ''skopeo'' (args @ [''docker://'' @ imageRef])))"

definition getImageDigestFromFile :: "string \<Rightarrow> string prog_w" where
  "getImageDigestFromFile workingDir =
     bindP (readFile (filepathJoin [workingDir, ''image-digest''])) (\<lambda>content. ret (TrimSpace content))"

definition writeImageDigestToResults :: "string \<Rightarrow> unit prog_w" where
  "writeImageDigestToResults imageDigest =
     bindP (osMkdirAll ''/tekton/results'') (\<lambda>_. writeFile ''/tekton/results/image-digest'' imageDigest)"

section \<open>Scanning\<close>

definition aquaScan :: "services \<Rightarrow> buildOptions \<Rightarrow> string \<Rightarrow> string \<Rightarrow> string \<Rightarrow> (string \<times> string \<times> string option) prog_w" where
  "aquaScan sv opts img htmlReportFile jsonReportFile =
     command_Run sv aquasecBin
       [''scan'', ''--dockerless'', ''--register'', ''--text'', ''--htmlfile='' @ htmlReportFile, ''--jsonfile='' @ jsonReportFile,
        ''-w'', ''/tmp'', ''--user='' @ bo_aquaUsername opts, ''--password='' @ bo_aquaPassword opts,
        ''--host='' @ bo_aquaURL opts, img, ''--registry='' @ bo_aquaRegistry opts]"

definition copyReport :: "string \<Rightarrow> string \<Rightarrow> unit prog_w" where
  "copyReport kind reportFile =
     bindP (gets (osStat reportFile)) (\<lambda>r.
     if StatSucceeds r
     then wrapErr (''copying '' @ kind @ '' report to artifacts failed: '') (CopyArtifact reportFile AquaScansPath)
     else ret ())"

definition copyAquaReportsToArtifacts :: "string \<Rightarrow> string \<Rightarrow> unit prog_w" where
  "copyAquaReportsToArtifacts htmlReportFile jsonReportFile =
     bindP (copyReport ''HTML'' htmlReportFile) (\<lambda>_. copyReport ''JSON'' jsonReportFile)"

definition createBitbucketInsightReport :: "services \<Rightarrow> string \<Rightarrow> bool \<Rightarrow> ODSContext \<Rightarrow> unit prog_w" where
  "createBitbucketInsightReport sv aquaScanUrl success ctxt =
     bindP (gets w_now) (\<lambda>now.
     let reportKey = ''org.opendevstack.aquasec'';
         scanResult = (if success then InsightReportPass else InsightReportFail);
         payload = \<lparr>ir_Data = [\<lparr>id_Title = ''Report'', id_Value = [(''linktext'', ''Result in Aqua''), (''href'', aquaScanUrl)], id_Type = ''LINK''\<rparr>],
                    ir_Details = ''Please visit the following link to review the Aqua Security scan report:'',
                    ir_Title = ''Aqua Security'', ir_Reporter = ''OpenDevStack'', ir_CreatedDate = now div 1000000000,
                    ir_Link = [], ir_LogoURL = [], ir_Result = scanResult\<rparr>
     in perform (CInsightReportCreate (oc_Project ctxt) (oc_Repository ctxt) (oc_GitCommitSHA ctxt) reportKey payload)
          (\<lambda>h. sv_InsightReportCreate sv h (oc_Project ctxt) (oc_Repository ctxt) (oc_GitCommitSHA ctxt) reportKey payload))"

definition aquasecInstalled :: "services \<Rightarrow> bool" where
  "aquasecInstalled sv = sv_LookPath sv aquasecBin"

definition scanImage :: "services \<Rightarrow> buildOptions \<Rightarrow> ODSContext \<Rightarrow> string \<Rightarrow> string \<Rightarrow> unit prog_w" where
  "scanImage sv opts ctxt workingDir aquaImage =
     bindP (printLn ''Scanning image with Aqua scanner ...'') (\<lambda>_.
     let htmlReportFile = filepathJoin [workingDir, ''report.html'']; jsonReportFile = filepathJoin [workingDir, ''report.json'']
     in bindP (aquaScan sv opts aquaImage htmlReportFile jsonReportFile) (\<lambda>(stdout, stderr, err).
        if err \<noteq> None \<and> bo_aquasecGate opts then exitP 1
        else bindP (printLn stdout) (\<lambda>_.
             let aquaScanUrl = bo_aquaURL opts @ ''/#/images/'' @ QueryEscape (bo_aquaRegistry opts) @ ''/'' @ QueryEscape aquaImage @ ''/vulns''
             in bindP (printLn (''Aqua vulnerability report is at '' @ aquaScanUrl @ '' ...'')) (\<lambda>_.
                bindP (fatal (copyAquaReportsToArtifacts htmlReportFile jsonReportFile)) (\<lambda>_.
                bindP (printLn ''Creating Bitbucket code insight report ...'') (\<lambda>_.
                fatal (createBitbucketInsightReport sv aquaScanUrl (err = None) ctxt)))))))"

section \<open>The task\<close>

text \<open>The options the code adjusts before it starts.\<close>

definition adjustedOptions :: "buildOptions \<Rightarrow> bool \<Rightarrow> buildOptions" where
  "adjustedOptions opts serviceaccount =
     (let opts1 = (if serviceaccount then opts\<lparr>bo_certDir := kubernetesServiceaccountDir\<rparr> else opts)
      in if HasPrefix (bo_registry opts) ''kind-registry.kind'' then opts1\<lparr>bo_tlsVerify := False\<rparr> else opts1)"

definition builtImage :: "buildOptions \<Rightarrow> ODSContext \<Rightarrow> string \<Rightarrow> imageArtifact" where
  "builtImage opts ctxt imageDigest =
     (let imageNamespace = (if bo_imageNamespace opts = [] then oc_Namespace ctxt else bo_imageNamespace opts);
          imageStream = (if bo_imageStream opts = [] then oc_Component ctxt else bo_imageStream opts);
          imageName = imageStream @ '':'' @ oc_GitCommitSHA ctxt
      in \<lparr>im_Image = bo_registry opts @ ''/'' @ imageNamespace @ ''/'' @ imageName, im_Registry = bo_registry opts,
          im_Repository = imageNamespace, im_Name = imageStream, im_Tag = oc_GitCommitSHA ctxt, im_Digest = imageDigest\<rparr>)"

text \<open>Building, pushing and scanning an image the registry does not have.\<close>

definition buildImage :: "services \<Rightarrow> buildOptions \<Rightarrow> ODSContext \<Rightarrow> string \<Rightarrow> string prog_w" where
  "buildImage sv opts ctxt workingDir =
     (let ia = builtImage opts ctxt []; imageName = im_Name ia @ '':'' @ im_Tag ia
      in bindP (printLn (''Building image '' @ imageName @ '' ...'')) (\<lambda>_.
         bindP (fatal (buildahBuild sv opts (im_Image ia))) (\<lambda>stdout.
         bindP (printLn stdout) (\<lambda>_.
         bindP (printLn (''Pushing image '' @ im_Image ia @ '' ...'')) (\<lambda>_.
         bindP (fatal (buildahPush sv opts workingDir (im_Image ia))) (\<lambda>stdout.
         bindP (printLn stdout) (\<lambda>_.
         bindP (fatal (getImageDigestFromFile workingDir)) (\<lambda>d.
         bindP (if aquasecInstalled sv then scanImage sv opts ctxt workingDir (im_Repository ia @ ''/'' @ imageName)
                else printLn ''Aqua is not configured, image will not be scanned for vulnerabilities.'') (\<lambda>_.
         ret d)))))))))"

definition recordImage :: "imageArtifact \<Rightarrow> unit prog_w" where
  "recordImage ia =
     bindP (fatal (writeImageDigestToResults (im_Digest ia))) (\<lambda>_.
     bindP (printLn ''Writing image artifact ...'') (\<lambda>_.
     fatal (WriteJsonArtifact (imageArtifactJson ia) ImageDigestsPath (im_Name ia @ ''.json''))))"

definition BuildPush_main :: "services \<Rightarrow> rangeOrder \<Rightarrow> buildOptions \<Rightarrow> unit prog_w" where
  "BuildPush_main sv ord opts0 =
     (let workingDir = ''.''
      in bindP (gets w_trace) (\<lambda>h.
         bindP (fatal (ReadCache (ord h) emptyContext workingDir)) (\<lambda>ctxt.
         bindP (gets (osStat kubernetesServiceaccountDir)) (\<lambda>sa.
         let opts = adjustedOptions opts0 (StatSucceeds sa); ia = builtImage opts ctxt []
         in bindP (if bo_debug opts then directory_ListFiles (bo_certDir opts) else ret ()) (\<lambda>_.
            bindP (printLn (''Checking if image '' @ im_Name ia @ '':'' @ im_Tag ia @ '' exists already ...'')) (\<lambda>_.
            bindP (attempt (getImageDigestFromRegistry sv (im_Image ia) opts)) (\<lambda>r.
            bindP (case r of
                     Inr d \<Rightarrow> bindP (printLn ''Image exists already.'') (\<lambda>_. ret d)
                   | Inl e \<Rightarrow> buildImage sv opts ctxt workingDir) (\<lambda>imageDigest.
            recordImage (builtImage opts ctxt imageDigest)))))))))"

section \<open>Properties\<close>

lemma SplitN_colon:
  "CHR '':'' \<notin> set a \<Longrightarrow> SplitN 2 a '':'' = [a]"
  "CHR '':'' \<notin> set a \<Longrightarrow> SplitN 2 (a @ CHR '':'' # b) '':'' = [a, b]"
proof -
  have 2: "(2::nat) = Suc (Suc 0)" by simp
  show "CHR '':'' \<notin> set a \<Longrightarrow> SplitN 2 a '':'' = [a]"
    using Index_char_None [of a "CHR '':''"] by (simp add: 2)
  assume a: "CHR '':'' \<notin> set a"
  then have "Index (a @ CHR '':'' # b) '':'' = Some (length a)" by (induction a) auto
  then show "SplitN 2 (a @ CHR '':'' # b) '':'' = [a, b]" by (simp add: 2)
qed

text \<open>
  A build that has a user for Nexus gets user name and password as separate arguments and
  combined in front of the host.  They are escaped so that neither contains a separator of
  the URL, and unescaping them gives the configured values.
\<close>

theorem nexusBuildArgs_credentials:
  assumes "nexusBuildArgs opts = Inr args" and "TrimSpace (bo_nexusURL opts) \<noteq> []" and "bo_nexusUsername opts \<noteq> []"
  shows "\<exists>u user password auth.
     urlParse (bo_nexusURL opts) = Inr u \<and> ur_Host u \<noteq> [] \<and>
     unescape EncodeUserPassword user = Inr (bo_nexusUsername opts) \<and>
     unescape EncodeUserPassword password = Inr (bo_nexusPassword opts) \<and>
     (\<forall>c\<in>set (user @ password). c \<noteq> CHR '':'' \<and> c \<noteq> CHR ''@'' \<and> c \<noteq> CHR ''/'') \<and>
     auth = (if bo_nexusPassword opts = [] then user else user @ '':'' @ password) \<and>
     args = [''--build-arg=nexusUrl='' @ bo_nexusURL opts, ''--build-arg=nexusUsername='' @ user, ''--build-arg=nexusPassword='' @ password,
             ''--build-arg=nexusHost='' @ ur_Host u, ''--build-arg=nexusAuth='' @ auth,
             ''--build-arg=nexusUrlWithAuth='' @ ur_Scheme u @ ''://'' @ auth @ ''@'' @ ur_Host u]"
proof -
  let ?user = "escapeUserPassword (bo_nexusUsername opts)" and ?pw = "escapeUserPassword (bo_nexusPassword opts)"
  let ?auth = "if bo_nexusPassword opts = [] then ?user else ?user @ '':'' @ ?pw"
  obtain u where u: "urlParse (bo_nexusURL opts) = Inr u" "ur_Host u \<noteq> []"
    using assms(1,2) by (auto simp: nexusBuildArgs_def split: sum.splits if_splits)
  have auth: "userinfoString (nexusUser opts u) = ?auth"
    using assms(3) by (simp add: userinfoString_def nexusUser_def)
  have pw: "?pw = []" if "bo_nexusPassword opts = []" using that by (simp add: escapeUserPassword_def)
  have user: "CHR '':'' \<notin> set ?user" using escapeUserPassword_chars by blast
  have ne: "?user \<noteq> []"
    using unescape_escapeUserPassword [of EncodeUserPassword "bo_nexusUsername opts"] assms(3) by (cases ?user) auto
  have "args = [''--build-arg=nexusUrl='' @ bo_nexusURL opts, ''--build-arg=nexusUsername='' @ ?user, ''--build-arg=nexusPassword='' @ ?pw,
             ''--build-arg=nexusHost='' @ ur_Host u, ''--build-arg=nexusAuth='' @ ?auth,
             ''--build-arg=nexusUrlWithAuth='' @ ur_Scheme u @ ''://'' @ ?auth @ ''@'' @ ur_Host u]"
    using assms(1,2) u auth user ne pw by (auto simp: nexusBuildArgs_def Let_def SplitN_colon)
  moreover have "\<forall>c\<in>set (?user @ ?pw). c \<noteq> CHR '':'' \<and> c \<noteq> CHR ''@'' \<and> c \<noteq> CHR ''/''"
    using escapeUserPassword_chars by auto
  ultimately show ?thesis using u unescape_escapeUserPassword [of EncodeUserPassword] by blast
qed

definition nexusExample :: buildOptions where
  "nexusExample = (buildDefaults (\<lambda>v. []))\<lparr>bo_nexusURL := ''https://nexus:8081'', bo_nexusUsername := ''a:b'', bo_nexusPassword := ''c@d''\<rparr>"

lemma nexusBuildArgs_witness:
  "\<exists>user password. nexusBuildArgs nexusExample =
     Inr [''--build-arg=nexusUrl=https://nexus:8081'', ''--build-arg=nexusUsername='' @ user, ''--build-arg=nexusPassword='' @ password,
       ''--build-arg=nexusHost=nexus:8081'', ''--build-arg=nexusAuth='' @ user @ '':'' @ password,
       ''--build-arg=nexusUrlWithAuth=https://'' @ user @ '':'' @ password @ ''@nexus:8081''] \<and>
     unescape EncodeUserPassword user = Inr ''a:b'' \<and> unescape EncodeUserPassword password = Inr ''c@d''"
proof -
  have "case nexusBuildArgs nexusExample of Inr args \<Rightarrow> True | Inl e \<Rightarrow> False" by code_simp
  then obtain args where args: "nexusBuildArgs nexusExample = Inr args" by (auto split: sum.splits)
  have url: "TrimSpace (bo_nexusURL nexusExample) \<noteq> []" "bo_nexusUsername nexusExample \<noteq> []" by code_simp+
  have u: "case urlParse (bo_nexusURL nexusExample) of Inr u \<Rightarrow> ur_Host u = ''nexus:8081'' \<and> ur_Scheme u = ''https'' | Inl e \<Rightarrow> False"
    by code_simp
  from nexusBuildArgs_credentials [OF args url] u args show ?thesis
    by (auto simp: nexusExample_def)
qed

text \<open>
  C31: what the build records is what the deployment reads: when the task ends without an error,
  the artifact of the image decodes to the image in the registry, namespace and stream of the
  options or else of the context, tagged with the commit of the context.
\<close>

theorem built_image_is_read_back:
  assumes "BuildPush_main sv ord opts w = (Ok (), w')"
  shows "\<exists>ctxt digest content ns name.
     ReadCache (ord (w_trace w)) emptyContext ''.'' w = (Ok ctxt, w) \<and>
     ns = (if bo_imageNamespace opts = [] then oc_Namespace ctxt else bo_imageNamespace opts) \<and>
     name = (if bo_imageStream opts = [] then oc_Component ctxt else bo_imageStream opts) \<and>
     contentAt (filepathJoin [''.ods/artifacts/image-digests'', name @ ''.json'']) w' = Some content \<and>
     unmarshalImage content = Inr \<lparr>im_Image = bo_registry opts @ ''/'' @ ns @ ''/'' @ name @ '':'' @ oc_GitCommitSHA ctxt,
       im_Registry = bo_registry opts, im_Repository = ns, im_Name = name, im_Tag = oc_GitCommitSHA ctxt, im_Digest = digest\<rparr>"
proof -
  have same: "bo_registry (adjustedOptions opts b) = bo_registry opts \<and> bo_imageNamespace (adjustedOptions opts b) = bo_imageNamespace opts
      \<and> bo_imageStream (adjustedOptions opts b) = bo_imageStream opts" for b
    by (simp add: adjustedOptions_def Let_def)
  from assms obtain ctxt w1 sa digest w2 where r: "ReadCache (ord (w_trace w)) emptyContext ''.'' w = (Ok ctxt, w1)"
    and k: "recordImage (builtImage (adjustedOptions opts sa) ctxt digest) w2 = (Ok (), w')"
    unfolding BuildPush_main_def Let_def gets_def by (auto simp: bindP_def [of "\<lambda>w. (Ok _, w)"] elim!: bindP_OkE)
  from r preservesD [OF ReadCache_same r] have r': "ReadCache (ord (w_trace w)) emptyContext ''.'' w = (Ok ctxt, w)" by simp
  let ?ia = "builtImage (adjustedOptions opts sa) ctxt digest"
  from k obtain w3 where "WriteJsonArtifact (imageArtifactJson ?ia) ImageDigestsPath (im_Name ?ia @ ''.json'') w3 = (Ok (), w')"
    unfolding recordImage_def by (auto elim!: bindP_OkE)
  then obtain w4 where wf: "writeFile (filepathJoin [ImageDigestsPath, im_Name ?ia @ ''.json'']) (Marshal (imageArtifactJson ?ia)) w4 = (Ok (), w')"
    unfolding WriteJsonArtifact_def by (auto elim!: bindP_OkE)
  from contentAt_write_same [OF wf]
  have "contentAt (filepathJoin [ImageDigestsPath, im_Name ?ia @ ''.json'']) w' = Some (Marshal (imageArtifactJson ?ia))" .
  moreover have "ImageDigestsPath = ''.ods/artifacts/image-digests''" by code_simp
  ultimately show ?thesis
    using r' unmarshalImage_Marshal [of ?ia] same by (auto simp: builtImage_def Let_def)
qed

text \<open>The registry has the image already; what skopeo prints ends with a line feed, and so does the digest recorded.\<close>

definition cachedContext :: node where
  "cachedContext = Dir [(''.ods'', Dir (map (\<lambda>f. (fieldFile f, File (fieldFile f) 0)) cacheFields))]"

definition registryServices :: services where
  "registryServices = noServices\<lparr>
     sv_Exec := (\<lambda>h e a x d r. (r, ''sha256:1'' @ [CHR 0x0A], [], if e = ''skopeo'' then None else Some ''failed''))\<rparr>"

definition buildExample :: buildOptions where
  "buildExample = (buildDefaults (\<lambda>v. []))\<lparr>bo_registry := ''reg''\<rparr>"

lemma built_image_witness:
  "\<exists>w' content a. BuildPush_main registryServices (\<lambda>h fs. fs) buildExample (emptyWorld\<lparr>w_root := cachedContext\<rparr>) = (Ok (), w') \<and>
     contentAt ''.ods/artifacts/image-digests/component.json'' w' = Some content \<and>
     unmarshalImage content = Inr a \<and> im_Image a = ''reg/namespace/component:git-commit-sha''"
proof -
  let ?m = "BuildPush_main registryServices (\<lambda>h fs. fs) buildExample (emptyWorld\<lparr>w_root := cachedContext\<rparr>)"
  have "fst ?m = Ok ()" by code_simp
  then obtain w' where m: "?m = (Ok (), w')" by (metis prod.collapse)
  have ctxt: "case ReadCache (\<lambda>fs. fs) emptyContext ''.'' (emptyWorld\<lparr>w_root := cachedContext\<rparr>) of
      (Ok c, _) \<Rightarrow> oc_Namespace c = ''namespace'' \<and> oc_Component c = ''component'' \<and> oc_GitCommitSHA c = ''git-commit-sha''
    | _ \<Rightarrow> False" by code_simp
  have path: "filepathJoin [''.ods/artifacts/image-digests'', ''component'' @ ''.json''] = ''.ods/artifacts/image-digests/component.json''"
    by code_simp
  from built_image_is_read_back [OF m] ctxt path show ?thesis
    using m by (fastforce simp: buildExample_def buildDefaults_def)
qed

lemma existing_image_digest_untrimmed:
  "fst (getImageDigestFromRegistry registryServices ''reg/n/c:t'' buildExample emptyWorld) = Ok (''sha256:1'' @ [CHR 0x0A]) \<and>
   fst (getImageDigestFromFile ''.'' (emptyWorld\<lparr>w_root := Dir [(''image-digest'', File (''sha256:1'' @ [CHR 0x0A]) 0)]\<rparr>)) = Ok ''sha256:1''"
  by code_simp

end
