(* ===== verification/BuildRun.thy ===== *)
theory BuildRun
  imports BuildPush
begin

text \<open>
  What an image build task that succeeds has run: the commands in order, and which of them
  succeeded.  An operation without commands is silent; the others run exactly one.
\<close>

section \<open>The commands\<close>

definition inspectCall :: "buildOptions \<Rightarrow> string \<Rightarrow> call" where
  "inspectCall opts img = CExec ''skopeo'' ([''inspect'', ''--format={{.Digest}}'', ''--tls-verify='' @ fmtBool (bo_tlsVerify opts),
     ''--cert-dir='' @ bo_certDir opts] @ (if bo_debug opts then [''--debug''] else []) @ [''docker://'' @ img]) [] []"

definition budCall :: "buildOptions \<Rightarrow> string list \<Rightarrow> string list \<Rightarrow> string \<Rightarrow> call" where
  "budCall opts extra nexusArgs img = CExec ''buildah'' ([''--storage-driver='' @ bo_storageDriver opts, ''bud'', ''--format='' @ bo_format opts,
     ''--tls-verify='' @ fmtBool (bo_tlsVerify opts), ''--cert-dir='' @ bo_certDir opts, ''--no-cache'',
     ''--file='' @ bo_dockerfile opts, ''--tag='' @ img] @ extra @ nexusArgs @
     (if bo_debug opts then [''--log-level=debug''] else []) @ [bo_contextDir opts]) [] []"

definition pushCall :: "buildOptions \<Rightarrow> string list \<Rightarrow> string \<Rightarrow> call" where
  "pushCall opts extra img = CExec ''buildah'' ([''--storage-driver='' @ bo_storageDriver opts, ''push'', ''--tls-verify='' @ fmtBool (bo_tlsVerify opts),
     ''--cert-dir='' @ bo_certDir opts, ''--digestfile='' @ filepathJoin [''.'', ''image-digest'']] @ extra @
     (if bo_debug opts then [''--log-level=debug''] else []) @ [img, ''docker://'' @ img]) [] []"

definition scanCall :: "buildOptions \<Rightarrow> string \<Rightarrow> call" where
  "scanCall opts img = CExec aquasecBin
     [''scan'', ''--dockerless'', ''--register'', ''--text'', ''--htmlfile='' @ filepathJoin [''.'', ''report.html''],
      ''--jsonfile='' @ filepathJoin [''.'', ''report.json''],
      ''-w'', ''/tmp'', ''--user='' @ bo_aquaUsername opts, ''--password='' @ bo_aquaPassword opts,
      ''--host='' @ bo_aquaURL opts, img, ''--registry='' @ bo_aquaRegistry opts] [] []"

text \<open>The command is among the calls made so far, and at that point it succeeded, printing \<open>out\<close>.\<close>

definition succeeded :: "services \<Rightarrow> world \<Rightarrow> call \<Rightarrow> string \<Rightarrow> bool" where
  "succeeded sv w c out \<longleftrightarrow> (\<exists>h t. w_trace w = h @ c # t \<and> (case c of
       CExec e a x d \<Rightarrow> \<exists>r r' err. sv_Exec sv h e a x d r = (r', out, err, None) | _ \<Rightarrow> False))"

lemma succeeded_later: "succeeded sv w c out \<Longrightarrow> emits P w seg w' \<Longrightarrow> succeeded sv w' c out"
  unfolding succeeded_def emits_def
proof (elim exE conjE)
  fix h t u
  assume "w_trace w = h @ c # t" "w_trace w' = w_trace w @ u" and e: "case c of
       CExec e a x d \<Rightarrow> \<exists>r r' err. sv_Exec sv h e a x d r = (r', out, err, None) | _ \<Rightarrow> False"
  then have "w_trace w' = h @ c # (t @ u)" by simp
  with e show "\<exists>h t. w_trace w' = h @ c # t \<and> (case c of
       CExec e a x d \<Rightarrow> \<exists>r r' err. sv_Exec sv h e a x d r = (r', out, err, None) | _ \<Rightarrow> False)" by blast
qed

lemma succeeded_now:
  assumes "sv_Exec sv (w_trace w) e a x d (w_root w) = (r', out, err, None)"
  shows "succeeded sv (w\<lparr>w_root := r', w_trace := w_trace w @ [CExec e a x d]\<rparr>) (CExec e a x d) out"
  unfolding succeeded_def using assms by (intro exI [of _ "w_trace w"] exI [of _ "[]"]) auto

lemma runs_one:
  assumes "command_Run sv e a w = (Ok (out, err, x), w')"
  shows "emits isExec w [CExec e a [] []] w' \<and> (x = None \<longrightarrow> succeeded sv w' (CExec e a [] []) out)"
  using assms by (auto simp: command_Run_def runCommand_def emits_def split: prod.splits intro!: succeeded_now)

lemma outputOr_runs:
  assumes "outputOr msg (command_Run sv e a) w = (Ok out, w')"
  shows "emits isExec w [CExec e a [] []] w' \<and> succeeded sv w' (CExec e a [] []) out"
  using assms runs_one by (fastforce simp: outputOr_Ok)

text \<open>Whatever comes out of it, one command has been run.\<close>

lemma attempt_outputOr_runs:
  assumes "attempt (outputOr msg (command_Run sv e a)) w = (Ok r, w')"
  shows "emits isExec w [CExec e a [] []] w' \<and> (\<forall>out. r = Inr out \<longrightarrow> succeeded sv w' (CExec e a [] []) out)"
  using assms
  by (auto simp: attempt_def outputOr_def command_Run_def runCommand_def bindP_def ret_def failE_def emits_def
      split: prod.splits option.splits intro!: succeeded_now)

section \<open>Silent operations\<close>

abbreviation runsNothing :: "('a prog_w) \<Rightarrow> bool" where
  "runsNothing m \<equiv> preserves (silent isExec) m"

lemma rn_print: "runsNothing (printLn s)"
  by (rule si_print) simp

lemma rn_report: "runsNothing (createBitbucketInsightReport sv u s c)"
  unfolding createBitbucketInsightReport_def Let_def by (intro si.rules si_perform) simp

lemma rn_copyReport: "runsNothing (copyAquaReportsToArtifacts a b)"
  unfolding copyAquaReportsToArtifacts_def copyReport_def CopyArtifact_def
  by (intro si.rules si_files [OF osMkdirAll_fo] si_files [OF file_Copy_fo])

lemma rn_digest: "runsNothing (getImageDigestFromFile d)" "runsNothing (writeImageDigestToResults s)"
  unfolding getImageDigestFromFile_def writeImageDigestToResults_def
  by (intro si.rules si_files [OF readFile_fo] si_files [OF osMkdirAll_fo] si_files [OF writeFile_fo])+

lemma rn_recordImage: "runsNothing (recordImage ia)"
  unfolding recordImage_def WriteJsonArtifact_def
  by (intro si.rules rn_digest rn_print si_files [OF osMkdirAll_fo] si_files [OF writeFile_fo])

lemma rn_ListFiles: "runsNothing (directory_ListFiles d)"
  unfolding directory_ListFiles_def by (intro si.rules si_files [OF readDir_fo] rn_print)

section \<open>Operations that run a command\<close>

lemma registry_runs:
  assumes "attempt (getImageDigestFromRegistry sv img opts) w = (Ok r, w')"
  shows "emits isExec w [inspectCall opts img] w' \<and> (\<forall>d. r = Inr d \<longrightarrow> succeeded sv w' (inspectCall opts img) d)"
  using attempt_outputOr_runs [OF assms [unfolded getImageDigestFromRegistry_def Let_def]]
  by (simp add: inspectCall_def)

lemma bud_runs:
  assumes "buildahBuild sv opts img w = (Ok out, w')"
  shows "\<exists>extra nexusArgs. sv_Shlex sv (bo_buildahBuildExtraArgs opts) = Inr extra \<and> nexusBuildArgs opts = Inr nexusArgs \<and>
     emits isExec w [budCall opts extra nexusArgs img] w' \<and> succeeded sv w' (budCall opts extra nexusArgs img) out"
proof -
  from assms obtain extra nexusArgs where args: "sv_Shlex sv (bo_buildahBuildExtraArgs opts) = Inr extra" "nexusBuildArgs opts = Inr nexusArgs"
    and run: "outputOr (\<lambda>err e. e) (command_Run sv ''buildah''
      (([''--storage-driver='' @ bo_storageDriver opts, ''bud'', ''--format='' @ bo_format opts,
                 ''--tls-verify='' @ fmtBool (bo_tlsVerify opts), ''--cert-dir='' @ bo_certDir opts, ''--no-cache'',
                 ''--file='' @ bo_dockerfile opts, ''--tag='' @ img] @ extra @ nexusArgs @
                (if bo_debug opts then [''--log-level=debug''] else [])) @ [bo_contextDir opts])) w = (Ok out, w')"
    unfolding buildahBuild_def Let_def
    by (cases "sv_Shlex sv (bo_buildahBuildExtraArgs opts)"; cases "nexusBuildArgs opts") (auto simp: failE_def)
  from outputOr_runs [OF run] args show ?thesis by (simp add: budCall_def)
qed

lemma push_runs:
  assumes "buildahPush sv opts ''.'' img w = (Ok out, w')"
  shows "\<exists>extra. emits isExec w [pushCall opts extra img] w' \<and> succeeded sv w' (pushCall opts extra img) out"
  using outputOr_runs [OF assms [unfolded buildahPush_def Let_def]] by (auto simp: pushCall_def)

lemma scan_runs:
  assumes "scanImage sv opts ctxt ''.'' img w = (Ok u, w')"
  shows "emits isExec w [scanCall opts img] w' \<and> (bo_aquasecGate opts \<longrightarrow> (\<exists>out. succeeded sv w' (scanCall opts img) out))"
proof -
  let ?html = "filepathJoin [''.'', ''report.html'']" and ?json = "filepathJoin [''.'', ''report.json'']"
  from assms obtain v w1 out err x w2 where 1: "printLn ''Scanning image with Aqua scanner ...'' w = (Ok v, w1)"
    and 2: "aquaScan sv opts img ?html ?json w1 = (Ok (out, err, x), w2)"
    and 3: "(if x \<noteq> None \<and> bo_aquasecGate opts then exitP 1
        else bindP (printLn out) (\<lambda>_.
             let aquaScanUrl = bo_aquaURL opts @ ''/#/images/'' @ QueryEscape (bo_aquaRegistry opts) @ ''/'' @ QueryEscape img @ ''/vulns''
             in bindP (printLn (''Aqua vulnerability report is at '' @ aquaScanUrl @ '' ...'')) (\<lambda>_.
                bindP (fatal (copyAquaReportsToArtifacts ?html ?json)) (\<lambda>_.
                bindP (printLn ''Creating Bitbucket code insight report ...'') (\<lambda>_.
                fatal (createBitbucketInsightReport sv aquaScanUrl (x = None) ctxt)))))) w2 = (Ok u, w')"
    unfolding scanImage_def by (auto simp: Let_def elim!: bindP_OkE)
  from silent_emits [OF rn_print 1] have e1: "emits isExec w [] w1" .
  from runs_one [OF 2 [unfolded aquaScan_def]]
  have e2: "emits isExec w1 [scanCall opts img] w2" and ok: "x = None \<longrightarrow> succeeded sv w2 (scanCall opts img) out"
    by (simp_all add: scanCall_def)
  have gate: "\<not> (x \<noteq> None \<and> bo_aquasecGate opts)" using 3 by (auto simp: exitP_def split: if_splits)
  have "runsNothing (if x \<noteq> None \<and> bo_aquasecGate opts then exitP 1
        else bindP (printLn out) (\<lambda>_.
             let aquaScanUrl = bo_aquaURL opts @ ''/#/images/'' @ QueryEscape (bo_aquaRegistry opts) @ ''/'' @ QueryEscape img @ ''/vulns''
             in bindP (printLn (''Aqua vulnerability report is at '' @ aquaScanUrl @ '' ...'')) (\<lambda>_.
                bindP (fatal (copyAquaReportsToArtifacts ?html ?json)) (\<lambda>_.
                bindP (printLn ''Creating Bitbucket code insight report ...'') (\<lambda>_.
                fatal (createBitbucketInsightReport sv aquaScanUrl (x = None) ctxt))))))"
    unfolding Let_def by (intro si.rules rn_print rn_copyReport rn_report)
  from silent_emits [OF this 3] have e3: "emits isExec w2 [] w'" .
  from emits_trans [OF e1 emits_trans [OF e2 e3]] gate ok succeeded_later [OF _ e3] show ?thesis by auto
qed

lemma buildImage_runs:
  assumes "buildImage sv opts ctxt ''.'' w = (Ok d, w')"
  shows "\<exists>extra nexusArgs pushExtra. let img = im_Image (builtImage opts ctxt []);
       aquaImage = im_Repository (builtImage opts ctxt []) @ ''/'' @ im_Name (builtImage opts ctxt []) @ '':'' @ im_Tag (builtImage opts ctxt []);
       scan = (if aquasecInstalled sv then [scanCall opts aquaImage] else [])
     in nexusBuildArgs opts = Inr nexusArgs \<and>
       emits isExec w ([budCall opts extra nexusArgs img, pushCall opts pushExtra img] @ scan) w' \<and>
       (\<exists>out. succeeded sv w' (budCall opts extra nexusArgs img) out) \<and> (\<exists>out. succeeded sv w' (pushCall opts pushExtra img) out) \<and>
       (bo_aquasecGate opts \<longrightarrow> (\<forall>c\<in>set scan. \<exists>out. succeeded sv w' c out))"
proof -
  let ?ia = "builtImage opts ctxt []"
  let ?aqua = "im_Repository ?ia @ ''/'' @ im_Name ?ia @ '':'' @ im_Tag ?ia"
  let ?scan = "if aquasecInstalled sv then [scanCall opts ?aqua] else []"
  from assms obtain u1 w1 out1 w2 u3 w3 u4 w4 out5 w5 u6 w6 d7 w7 u8 w8 where
    1: "printLn (''Building image '' @ (im_Name ?ia @ '':'' @ im_Tag ?ia) @ '' ...'') w = (Ok u1, w1)"
    and 2: "buildahBuild sv opts (im_Image ?ia) w1 = (Ok out1, w2)"
    and 3: "printLn out1 w2 = (Ok u3, w3)"
    and 4: "printLn (''Pushing image '' @ im_Image ?ia @ '' ...'') w3 = (Ok u4, w4)"
    and 5: "buildahPush sv opts ''.'' (im_Image ?ia) w4 = (Ok out5, w5)"
    and 6: "printLn out5 w5 = (Ok u6, w6)"
    and 7: "getImageDigestFromFile ''.'' w6 = (Ok d7, w7)"
    and 8: "(if aquasecInstalled sv then scanImage sv opts ctxt ''.'' ?aqua
             else printLn ''Aqua is not configured, image will not be scanned for vulnerabilities.'') w7 = (Ok u8, w8)"
    and 9: "ret d7 w8 = (Ok d, w')"
    unfolding buildImage_def Let_def by (elim bindP_OkE) (simp only: fatal_Ok)
  from bud_runs [OF 2] obtain extra nexusArgs where n: "nexusBuildArgs opts = Inr nexusArgs"
    and e2: "emits isExec w1 [budCall opts extra nexusArgs (im_Image ?ia)] w2"
    and s2: "succeeded sv w2 (budCall opts extra nexusArgs (im_Image ?ia)) out1" by blast
  from push_runs [OF 5] obtain pushExtra where e5: "emits isExec w4 [pushCall opts pushExtra (im_Image ?ia)] w5"
    and s5: "succeeded sv w5 (pushCall opts pushExtra (im_Image ?ia)) out5" by blast
  have e8: "emits isExec w7 ?scan w8" and s8: "bo_aquasecGate opts \<longrightarrow> (\<forall>c\<in>set ?scan. \<exists>out. succeeded sv w8 c out)"
    using 8 scan_runs [of sv opts ctxt ?aqua w7 u8 w8] silent_emits [OF rn_print] by (cases "aquasecInstalled sv"; simp)+
  have w': "w' = w8" using 9 by (simp add: ret_def)
  note p = silent_emits [OF rn_print 1] silent_emits [OF rn_print 3] silent_emits [OF rn_print 4]
    silent_emits [OF rn_print 6] silent_emits [OF rn_digest(1) 7]
  note after = emits_trans [OF p(4) emits_trans [OF p(5) e8]]
  note s2' = succeeded_later [OF s2 emits_trans [OF p(2) emits_trans [OF p(3) emits_trans [OF e5 after]]]]
  have "emits isExec w ([budCall opts extra nexusArgs (im_Image ?ia), pushCall opts pushExtra (im_Image ?ia)] @ ?scan) w'"
    using emits_trans [OF p(1) emits_trans [OF e2 emits_trans [OF p(2) emits_trans [OF p(3) emits_trans [OF e5
      emits_trans [OF p(4) emits_trans [OF p(5) e8]]]]]]] by (simp add: w')
  with n s2' succeeded_later [OF s5 after] s8 show ?thesis unfolding Let_def w' by blast
qed

section \<open>Property\<close>


subsection \<open>Example\<close>

text \<open>The registry does not have the image; building, pushing and the gated scan succeed.\<close>

definition scannedServices :: services where
  "scannedServices = noServices\<lparr>sv_Exec := (\<lambda>h e a x d r. (r, ''done'', [], if e = ''skopeo'' then Some ''unknown'' else None)),
     sv_Shlex := (\<lambda>_. Inr []), sv_LookPath := (\<lambda>_. True), sv_InsightReportCreate := (\<lambda>_ _ _ _ _ _. Inr ())\<rparr>"

definition gatedBuild :: buildOptions where
  "gatedBuild = buildExample\<lparr>bo_aquasecGate := True\<rparr>"

definition builtWorld :: world where
  "builtWorld = emptyWorld\<lparr>w_root := (case cachedContext of Dir es \<Rightarrow> Dir ((''image-digest'', File ''sha256:1'' 0) # es) | n \<Rightarrow> n)\<rparr>"


end
