(* ===== verification/DeployHelm.thy ===== *)
theory DeployHelm
  imports Start ImageArtifact
begin

text \<open>
  \<open>cmd/deploy-with-helm/main.go\<close>: the task that copies the images of a run into the target
  registry, packages the Helm charts of the repository and its subrepositories, compares the
  release with the cluster, and upgrades it if they differ.  \<open>log\<close> messages are not modelled,
  lines printed with \<open>fmt\<close> are.
\<close>

section \<open>Constants and options\<close>

definition tokenFile :: string where "tokenFile = ''/var/run/secrets/kubernetes.io/serviceaccount/token''"
definition helmBin :: string where "helmBin = ''helm''"
definition ageKeyFilePath :: string where "ageKeyFilePath = ''./key.txt''"

definition newline :: string where "newline = [CHR 0x0A]"

definition quoted :: "string \<Rightarrow> string" where
  "quoted s = [CHR 0x22] @ s @ [CHR 0x22]"

definition confusingHelmDiffMessage :: string where
  "confusingHelmDiffMessage =
     ''Error: identified at least one change, exiting with non-zero exit code (detailed-exitcode parameter enabled)'' @ newline @
     ''Error: plugin '' @ quoted ''diff'' @ '' exited with error'' @ newline @
     ''Error: plugin '' @ quoted ''secrets'' @ '' exited with error''"

definition confusingHelmDiffDecryptionMessage :: string where
  "confusingHelmDiffDecryptionMessage =
     ''Error: identified at least one change, exiting with non-zero exit code (detailed-exitcode parameter enabled)'' @ newline @
     ''Error: plugin '' @ quoted ''diff'' @ '' exited with error'' @ newline @ newline @
     ''/usr/local/helm/plugins/helm-secrets/scripts/commands/helm.sh: line 34: xargs: command not found'' @ newline @
     ''Error: plugin '' @ quoted ''secrets'' @ '' exited with error''"

record helmOptions =
  ho_chartDir :: string
  ho_releaseName :: string
  ho_diffFlags :: string
  ho_upgradeFlags :: string
  ho_ageKeySecret :: string
  ho_ageKeySecretField :: string
  ho_certDir :: string
  ho_srcRegistryTLSVerify :: bool
  ho_debug :: bool

definition helmDefaults :: "(string \<Rightarrow> string) \<Rightarrow> helmOptions" where
  "helmDefaults getenv =
     \<lparr>ho_chartDir = [], ho_releaseName = [], ho_diffFlags = [], ho_upgradeFlags = [], ho_ageKeySecret = [],
      ho_ageKeySecretField = ''key.txt'', ho_certDir = ''/etc/containers/certs.d'', ho_srcRegistryTLSVerify = True,
      ho_debug = (getenv ''DEBUG'' = ''true'')\<rparr>"

section \<open>Helpers\<close>

definition getHelmChart :: "services \<Rightarrow> string \<Rightarrow> helmChart option prog_w" where
  "getHelmChart sv filename =
     bindP (wrapErr ''could not read chart: '' (readFile filename)) (\<lambda>y.
     wrapErr ''could not unmarshal: '' (liftE (sv_YamlChart sv y)))"

text \<open>\<open>None\<close>: the version of a nil chart is asked for.\<close>

definition getChartVersion :: "string \<Rightarrow> helmChart option \<Rightarrow> string option" where
  "getChartVersion contextVersion hc =
     (if contextVersion \<noteq> [] \<and> contextVersion \<noteq> WIP then Some contextVersion else map_option hc_Version hc)"

definition replaceConfusingHelmLogMessages :: "string \<Rightarrow> string" where
  "replaceConfusingHelmLogMessages logs =
     (let change = ''plugin '' @ quoted ''diff'' @ '' identified at least one change''
      in Replace 1 (Replace 1 logs confusingHelmDiffMessage change) confusingHelmDiffDecryptionMessage change)"

definition artifactFilename :: "string \<Rightarrow> string \<Rightarrow> string \<Rightarrow> string" where
  "artifactFilename filename chartDir targetEnv =
     (let trimmedChartDir = TrimPrefix chartDir ''./'';
          f = (if trimmedChartDir \<noteq> ''chart'' then ReplaceAll trimmedChartDir ''/'' ''-'' @ ''-'' @ filename else filename)
      in f @ ''-'' @ targetEnv)"

definition writeDeploymentArtifact :: "string \<Rightarrow> string \<Rightarrow> string \<Rightarrow> string \<Rightarrow> unit prog_w" where
  "writeDeploymentArtifact content filename chartDir targetEnv =
     bindP (osMkdirAll DeploymentsPath) (\<lambda>_.
     writeFile (filepathJoin [DeploymentsPath, artifactFilename filename chartDir targetEnv @ ''.txt'']) content)"

definition storeAgeKey :: "labels \<Rightarrow> string \<Rightarrow> unit prog_w" where
  "storeAgeKey secret ageKeySecretField =
     bindP (osCreate ageKeyFilePath) (\<lambda>_. writeFile ageKeyFilePath (lookupS secret ageKeySecretField))"

definition runHelmCmd ::
  "services \<Rightarrow> string list \<Rightarrow> environment \<Rightarrow> bool \<Rightarrow> (string \<times> string \<times> string option) prog_w" where
  "runHelmCmd sv args0 targetConfig debug =
     (let args = (if debug then ''--debug'' # args0 else args0);
          server = ''--kube-apiserver='' @ en_APIServer targetConfig;
          printableArgs = (if en_APIServer targetConfig \<noteq> [] then [server, ''--kube-token=***''] @ args else args);
          args' = (if en_APIServer targetConfig \<noteq> [] then [server, ''--kube-token='' @ en_APIToken targetConfig] @ args else args)
      in bindP (printLn (helmBin @ '' '' @ Join printableArgs '' '')) (\<lambda>_.
         command_RunWithExtraEnvs sv helmBin args' [''SOPS_AGE_KEY_FILE='' @ ageKeyFilePath]))"

definition tokenFromSecret :: "services \<Rightarrow> string \<Rightarrow> string \<Rightarrow> string prog_w" where
  "tokenFromSecret sv namespace name =
     bindP (perform (CGetSecret namespace name) (\<lambda>h. sv_GetSecret sv h namespace name)) (\<lambda>secret.
     ret (lookupS secret ''token''))"

definition helm_getTrimmedFileContent :: "string \<Rightarrow> string prog_w" where
  "helm_getTrimmedFileContent filename = bindP (readFile filename) (\<lambda>content. ret (TrimSpace content))"

definition packageHelmChart :: "services \<Rightarrow> string \<Rightarrow> string \<Rightarrow> string \<Rightarrow> bool \<Rightarrow> string prog_w" where
  "packageHelmChart sv chartDir ctxtVersion gitCommitSHA debug =
     bindP (wrapErr ''could not read chart: '' (getHelmChart sv (filepathJoin [chartDir, ''Chart.yaml'']))) (\<lambda>hc.
     bindP (liftPanic ''nil pointer dereference'' (getChartVersion ctxtVersion hc)) (\<lambda>chartVersion.
     let packageVersion = chartVersion @ ''+'' @ gitCommitSHA;
         helmPackageArgs = [''package'', ''--app-version='' @ gitCommitSHA, ''--version='' @ packageVersion] @
           (if debug then [''--debug''] else [])
     in bindP (outputOr (\<lambda>err e. ''could not package chart '' @ chartDir @ ''. stderr: '' @ err @ '', err: '' @ e)
                (command_Run sv helmBin (helmPackageArgs @ [chartDir]))) (\<lambda>stdout.
        bindP (printLn stdout) (\<lambda>_.
        bindP (liftPanic ''nil pointer dereference'' hc) (\<lambda>c.
        ret (hc_Name c @ ''-'' @ packageVersion @ ''.tgz''))))))"

definition collectImageDigests :: "string \<Rightarrow> string list prog_w" where
  "collectImageDigests imageDigestsDir =
     bindP (gets (osStat imageDigestsDir)) (\<lambda>r.
     if StatSucceeds r
     then bindP (wrapErr ''could not read image digests dir: '' (readDir imageDigestsDir)) (\<lambda>f.
          ret (map (\<lambda>fi. filepathJoin [imageDigestsDir, fst fi]) f))
     else ret [])"

section \<open>Copying images\<close>

definition srcRegistryVerified :: "helmOptions \<Rightarrow> imageArtifact \<Rightarrow> bool" where
  "srcRegistryVerified opts a = (if HasPrefix (im_Registry a) ''kind-registry.kind'' then False else ho_srcRegistryTLSVerify opts)"

text \<open>The address of the copy and whether its registry is verified.\<close>

definition imageDestination :: "helmOptions \<Rightarrow> environment \<Rightarrow> string \<Rightarrow> imageArtifact \<Rightarrow> string \<times> bool" where
  "imageDestination opts targetConfig releaseNamespace a =
     (if en_RegistryHost targetConfig \<noteq> []
      then (en_RegistryHost targetConfig @ ''/'' @ releaseNamespace @ ''/'' @ im_Name a,
            case en_RegistryTLSVerify targetConfig of Some b \<Rightarrow> b | None \<Rightarrow> ho_srcRegistryTLSVerify opts)
      else (ReplaceAll (im_Image a) (''/'' @ im_Repository a @ ''/'') (''/'' @ releaseNamespace @ ''/''),
            ho_srcRegistryTLSVerify opts))"

definition skopeoCopyArgs :: "helmOptions \<Rightarrow> environment \<Rightarrow> string \<Rightarrow> string \<Rightarrow> imageArtifact \<Rightarrow> string list" where
  "skopeoCopyArgs opts targetConfig releaseNamespace destRegistryToken a =
     (let src = srcRegistryVerified opts a;
          (destImageURL, dest) = imageDestination opts targetConfig releaseNamespace a
      in [''copy'', ''--src-tls-verify='' @ fmtBool src, ''--dest-tls-verify='' @ fmtBool dest] @
         (if src then [''--src-cert-dir='' @ ho_certDir opts] else []) @
         (if dest then [''--dest-cert-dir='' @ ho_certDir opts] else []) @
         (if destRegistryToken \<noteq> [] then [''--dest-registry-token'', destRegistryToken] else []) @
         (if ho_debug opts then [''--debug''] else []) @
         [''docker://'' @ im_Image a, ''docker://'' @ destImageURL])"

definition copyImage ::
  "services \<Rightarrow> helmOptions \<Rightarrow> environment \<Rightarrow> string \<Rightarrow> string \<Rightarrow> string \<Rightarrow> unit prog_w" where
  "copyImage sv opts targetConfig releaseNamespace destRegistryToken artifactFile =
     bindP (fatal (readFile artifactFile)) (\<lambda>artifactContent.
     bindP (fatal (liftE (unmarshalImage artifactContent))) (\<lambda>a.
     bindP (printLn (''Copying image '' @ im_Name a @ '' ...'')) (\<lambda>_.
     bindP (printLn (''src='' @ im_Image a)) (\<lambda>_.
     bindP (printLn (''dest='' @ fst (imageDestination opts targetConfig releaseNamespace a))) (\<lambda>_.
     bindP (runOrFatal (command_Run sv ''skopeo'' (skopeoCopyArgs opts targetConfig releaseNamespace destRegistryToken a))) (\<lambda>stdout.
     printLn stdout))))))"

definition copyImages ::
  "services \<Rightarrow> helmOptions \<Rightarrow> environment \<Rightarrow> string \<Rightarrow> string list \<Rightarrow> unit prog_w" where
  "copyImages sv opts targetConfig releaseNamespace files =
     (if files = [] then ret ()
      else bindP (if en_APIToken targetConfig \<noteq> [] then ret (en_APIToken targetConfig)
                  else fatal (helm_getTrimmedFileContent tokenFile)) (\<lambda>destRegistryToken.
           bindP (printLn ''Copying images into release namespace ...'') (\<lambda>_.
           forEach files (copyImage sv opts targetConfig releaseNamespace destRegistryToken))))"

section \<open>Charts and values\<close>

text \<open>One subrepository: its chart, if it has one, is packaged into the charts directory.\<close>

definition addSubchart ::
  "services \<Rightarrow> helmOptions \<Rightarrow> ODSContext \<Rightarrow> string \<Rightarrow> string \<Rightarrow> string list \<Rightarrow> string \<times> bool \<Rightarrow> string list prog_w" where
  "addSubchart sv opts ctxt releaseName chartsDir cliValues r =
     (let subrepo = filepathJoin [SubreposPath, fst r];
          subchart = filepathJoin [subrepo, ho_chartDir opts]
      in bindP (gets (osStat subchart)) (\<lambda>st.
         if IsNotExist st then bindP (printLn (''no chart in '' @ fst r)) (\<lambda>_. ret cliValues)
         else bindP (fatal (helm_getTrimmedFileContent (filepathJoin [subrepo, ''.ods'', ''git-commit-sha'']))) (\<lambda>gitCommitSHA.
              bindP (fatal (getHelmChart sv (filepathJoin [subchart, ''Chart.yaml'']))) (\<lambda>hcp.
              bindP (liftPanic ''nil pointer dereference'' hcp) (\<lambda>hc.
              let cliValues' = cliValues @ [''--set='' @ hc_Name hc @ ''.image.tag='' @ gitCommitSHA] @
                    (if releaseName = oc_Component ctxt
                     then [''--set='' @ hc_Name hc @ ''.fullnameOverride='' @ hc_Name hc] else [])
              in bindP (fatal (packageHelmChart sv subchart (oc_Version ctxt) gitCommitSHA (ho_debug opts))) (\<lambda>helmArchive.
                 let helmArchiveName = Base helmArchive
                 in bindP (printLn (''copying '' @ helmArchiveName @ '' into '' @ chartsDir)) (\<lambda>_.
                    bindP (fatal (file_Copy helmArchive (filepathJoin [chartsDir, helmArchiveName]))) (\<lambda>_.
                    ret cliValues')))))))) "

definition valuesFilesCandidates :: "helmOptions \<Rightarrow> environment \<Rightarrow> string list" where
  "valuesFilesCandidates opts targetConfig =
     [ho_chartDir opts @ ''/secrets.yaml'',
      ho_chartDir opts @ ''/values.'' @ en_Stage targetConfig @ ''.yaml'',
      ho_chartDir opts @ ''/secrets.'' @ en_Stage targetConfig @ ''.yaml''] @
     (if en_Stage targetConfig \<noteq> en_Name targetConfig
      then [ho_chartDir opts @ ''/values.'' @ en_Name targetConfig @ ''.yaml'',
            ho_chartDir opts @ ''/secrets.'' @ en_Name targetConfig @ ''.yaml'']
      else [])"

definition addValuesFile :: "string list \<Rightarrow> string \<Rightarrow> string list prog_w" where
  "addValuesFile valuesFiles vfc =
     bindP (gets (osStat vfc)) (\<lambda>r.
     if IsNotExist r then bindP (printLn (vfc @ '' is not present, skipping.'')) (\<lambda>_. ret valuesFiles)
     else bindP (printLn (vfc @ '' is present, adding.'')) (\<lambda>_. ret (valuesFiles @ [vfc])))"

definition importAgeKey :: "services \<Rightarrow> helmOptions \<Rightarrow> ODSContext \<Rightarrow> unit prog_w" where
  "importAgeKey sv opts ctxt =
     (if ho_ageKeySecret opts = []
      then printLn ''Skipping import of age key for helm-secrets as parameter is not set ...''
      else bindP (printLn ''Storing age key for helm-secrets ...'') (\<lambda>_.
           bindP (attempt (perform (CGetSecret (oc_Namespace ctxt) (ho_ageKeySecret opts))
                    (\<lambda>h. sv_GetSecret sv h (oc_Namespace ctxt) (ho_ageKeySecret opts)))) (\<lambda>r.
           case r of
             Inl e \<Rightarrow> printLn (''No secret '' @ ho_ageKeySecret opts @ '' found, skipping.'')
           | Inr secret \<Rightarrow>
               bindP (attempt (storeAgeKey secret (ho_ageKeySecretField opts))) (\<lambda>res.
               case res of
                 Inl e \<Rightarrow> bindP (printLn []) (\<lambda>_. exitP 1)
               | Inr _ \<Rightarrow> printLn (''Age key secret '' @ ho_ageKeySecret opts @ '' stored.'')))))"

section \<open>Diff and upgrade\<close>

definition helmReleaseArgs :: "string list \<Rightarrow> string list \<Rightarrow> string list \<Rightarrow> string \<Rightarrow> string \<Rightarrow> string list" where
  "helmReleaseArgs flags valuesFiles cliValues releaseName helmArchive =
     flags @ map (\<lambda>vf. ''--values='' @ vf) valuesFiles @ cliValues @ [releaseName, helmArchive]"

definition diffRelease ::
  "services \<Rightarrow> helmOptions \<Rightarrow> environment \<Rightarrow> string \<Rightarrow> string list \<Rightarrow> string list \<Rightarrow> string \<Rightarrow> string \<Rightarrow> unit prog_w" where
  "diffRelease sv opts targetConfig releaseNamespace valuesFiles cliValues releaseName helmArchive =
     bindP (printLn (''Diffing Helm release against '' @ helmArchive @ ''...'')) (\<lambda>_.
     bindP (fatal (liftE (sv_Shlex sv (ho_diffFlags opts)))) (\<lambda>helmDiffFlags.
     let helmDiffArgs = [''--namespace='' @ releaseNamespace, ''secrets'', ''diff'', ''upgrade'', ''--detailed-exitcode'', ''--no-color''] @
           helmReleaseArgs helmDiffFlags valuesFiles cliValues releaseName helmArchive
     in bindP (runHelmCmd sv helmDiffArgs targetConfig (ho_debug opts)) (\<lambda>(stdout, stderr, err).
        if err = None then bindP (printLn ''no diff ...'') (\<lambda>_. exitP 0)
        else bindP (printLn stdout) (\<lambda>_.
             bindP (printLn (replaceConfusingHelmLogMessages stderr)) (\<lambda>_.
             fatal (writeDeploymentArtifact stdout ''diff'' (ho_chartDir opts) (en_Name targetConfig)))))))"

definition upgradeRelease ::
  "services \<Rightarrow> helmOptions \<Rightarrow> environment \<Rightarrow> string \<Rightarrow> string list \<Rightarrow> string list \<Rightarrow> string \<Rightarrow> string \<Rightarrow> unit prog_w" where
  "upgradeRelease sv opts targetConfig releaseNamespace valuesFiles cliValues releaseName helmArchive =
     bindP (printLn (''Upgrading Helm release to '' @ helmArchive @ ''...'')) (\<lambda>_.
     bindP (fatal (liftE (sv_Shlex sv (ho_upgradeFlags opts)))) (\<lambda>helmUpgradeFlags.
     let helmUpgradeArgs = [''--namespace='' @ releaseNamespace, ''secrets'', ''upgrade''] @
           helmReleaseArgs helmUpgradeFlags valuesFiles cliValues releaseName helmArchive
     in bindP (runOrFatal (runHelmCmd sv helmUpgradeArgs targetConfig (ho_debug opts))) (\<lambda>stdout.
        bindP (printLn stdout) (\<lambda>_.
        fatal (writeDeploymentArtifact stdout ''release'' (ho_chartDir opts) (en_Name targetConfig))))))"

text \<open>
  Any failure of \<open>helm diff\<close> is taken for a difference: the exit code is not looked at.
\<close>

definition diffAndUpgrade ::
  "services \<Rightarrow> helmOptions \<Rightarrow> environment \<Rightarrow> string \<Rightarrow> string list \<Rightarrow> string list \<Rightarrow> string \<Rightarrow> string \<Rightarrow> unit prog_w" where
  "diffAndUpgrade sv opts targetConfig releaseNamespace valuesFiles cliValues releaseName helmArchive =
     bindP (diffRelease sv opts targetConfig releaseNamespace valuesFiles cliValues releaseName helmArchive) (\<lambda>_.
     upgradeRelease sv opts targetConfig releaseNamespace valuesFiles cliValues releaseName helmArchive)"

section \<open>The task\<close>

definition releaseNameOf :: "helmOptions \<Rightarrow> ODSContext \<Rightarrow> string" where
  "releaseNameOf opts ctxt = (if ho_releaseName opts \<noteq> [] then ho_releaseName opts else oc_Component ctxt)"

definition releaseNamespaceOf :: "ODSContext \<Rightarrow> environment \<Rightarrow> string" where
  "releaseNamespaceOf ctxt targetConfig =
     (if en_Namespace targetConfig = [] then oc_Project ctxt @ ''-'' @ en_Name targetConfig else en_Namespace targetConfig)"

definition findSubrepos :: "(string \<times> bool) list prog_w" where
  "findSubrepos = bindP (gets (osStat SubreposPath)) (\<lambda>r. if StatSucceeds r then fatal (readDir SubreposPath) else ret [])"

definition findImages :: "(string \<times> bool) list \<Rightarrow> string list prog_w" where
  "findImages subrepos =
     bindP (fatal (collectImageDigests ImageDigestsPath)) (\<lambda>own.
     foldP (\<lambda>files s. bindP (fatal (collectImageDigests (filepathJoin [SubreposPath, fst s, ImageDigestsPath]))) (\<lambda>more.
       ret (files @ more))) own subrepos)"

text \<open>Packaging: the values to set, and the archive of the main chart.\<close>

definition packageCharts ::
  "services \<Rightarrow> helmOptions \<Rightarrow> ODSContext \<Rightarrow> string \<Rightarrow> (string \<times> bool) list \<Rightarrow> (string list \<times> string) prog_w" where
  "packageCharts sv opts ctxt releaseName subrepos =
     (let chartsDir = filepathJoin [ho_chartDir opts, ''charts'']
      in bindP (printLn ''Adding dependencies from subrepos into the charts/ directory ...'') (\<lambda>_.
         bindP (gets (osStat chartsDir)) (\<lambda>r.
         bindP (if IsNotExist r then fatal (osMkdir chartsDir) else ret ()) (\<lambda>_.
         bindP (foldP (addSubchart sv opts ctxt releaseName chartsDir) [''--set=image.tag='' @ oc_GitCommitSHA ctxt] subrepos) (\<lambda>cliValues.
         bindP (fatal (readDir chartsDir)) (\<lambda>subcharts.
         bindP (if subcharts \<noteq> []
                then bindP (printLn (''Contents of '' @ chartsDir @ '':'')) (\<lambda>_. forEach subcharts (\<lambda>sc. printLn (fst sc)))
                else ret ()) (\<lambda>_.
         bindP (printLn ''Packaging Helm chart ...'') (\<lambda>_.
         bindP (fatal (packageHelmChart sv (ho_chartDir opts) (oc_Version ctxt) (oc_GitCommitSHA ctxt) (ho_debug opts))) (\<lambda>helmArchive.
         ret (cliValues, helmArchive))))))))))"

definition deployRelease ::
  "services \<Rightarrow> helmOptions \<Rightarrow> ODSContext \<Rightarrow> environment \<Rightarrow> (string \<times> bool) list \<Rightarrow> unit prog_w" where
  "deployRelease sv opts ctxt targetConfig subrepos =
     (let releaseName = releaseNameOf opts ctxt; releaseNamespace = releaseNamespaceOf ctxt targetConfig
      in bindP (printLn ''List Helm plugins...'') (\<lambda>_.
         bindP (runOrFatal (command_Run sv helmBin ([''plugin'', ''list''] @ (if ho_debug opts then [''--debug''] else [])))) (\<lambda>stdout.
         bindP (printLn stdout) (\<lambda>_.
         bindP (packageCharts sv opts ctxt releaseName subrepos) (\<lambda>(cliValues, helmArchive).
         bindP (printLn ''Collecting Helm values files ...'') (\<lambda>_.
         bindP (foldP addValuesFile [] (valuesFilesCandidates opts targetConfig)) (\<lambda>valuesFiles.
         bindP (importAgeKey sv opts ctxt) (\<lambda>_.
         diffAndUpgrade sv opts targetConfig releaseNamespace valuesFiles cliValues releaseName helmArchive))))))))"

definition DeployHelm_main :: "services \<Rightarrow> rangeOrder \<Rightarrow> helmOptions \<Rightarrow> unit prog_w" where
  "DeployHelm_main sv ord opts0 =
     (let checkoutDir = ''.''
      in bindP (gets w_trace) (\<lambda>h.
         bindP (fatal (ReadCache (ord h) emptyContext checkoutDir)) (\<lambda>ctxt.
         if oc_Environment ctxt = [] then printLn ''No environment to deploy to selected. Skipping deployment ...''
         else
         bindP (gets (osStat kubernetesServiceaccountDir)) (\<lambda>sa.
         let opts = (if StatSucceeds sa then opts0\<lparr>ho_certDir := kubernetesServiceaccountDir\<rparr> else opts0)
         in bindP (if ho_debug opts then directory_ListFiles (ho_certDir opts) else ret ()) (\<lambda>_.
         bindP (printLn (''releaseName='' @ releaseNameOf opts ctxt)) (\<lambda>_.
         bindP (fatal (ReadFromDir sv checkoutDir)) (\<lambda>odsConfig.
         bindP (fatal (liftE (ODS_Environment odsConfig (oc_Environment ctxt)))) (\<lambda>targetConfig0.
         bindP (printLn (''releaseNamespace='' @ releaseNamespaceOf ctxt targetConfig0)) (\<lambda>_.
         bindP findSubrepos (\<lambda>subrepos.
         bindP (findImages subrepos) (\<lambda>files.
         bindP (fatal (liftE (sv_KubeNew sv []))) (\<lambda>_.
         bindP (if en_APIServer targetConfig0 \<noteq> []
                then bindP (fatal (tokenFromSecret sv (oc_Namespace ctxt) (en_APICredentialsSecret targetConfig0))) (\<lambda>token.
                     ret (targetConfig0\<lparr>en_APIToken := token\<rparr>))
                else ret targetConfig0) (\<lambda>targetConfig.
         bindP (copyImages sv opts targetConfig (releaseNamespaceOf ctxt targetConfig) files) (\<lambda>_.
         deployRelease sv opts ctxt targetConfig subrepos))))))))))))))"

section \<open>Facts\<close>

definition helmCommand :: "environment \<Rightarrow> bool \<Rightarrow> string \<Rightarrow> string list \<Rightarrow> string list" where
  "helmCommand e debug token args =
     (if en_APIServer e = [] then [] else [''--kube-apiserver='' @ en_APIServer e, ''--kube-token='' @ token]) @
     (if debug then [''--debug''] else []) @ args"

lemma runHelmCmd_result:
  "runHelmCmd sv args e debug w =
     runCommand sv ''helm'' (helmCommand e debug (en_APIToken e) args) [''SOPS_AGE_KEY_FILE=./key.txt''] []
       (w\<lparr>w_trace := w_trace w @ [CPrint (''helm '' @ Join (helmCommand e debug ''***'' args) '' '')]\<rparr>)"
  by (simp add: runHelmCmd_def Let_def bind_printLn helmCommand_def helmBin_def ageKeyFilePath_def command_RunWithExtraEnvs_def)

lemma writeDeploymentArtifact_fo: "preserves only_files (writeDeploymentArtifact c f d e)"
  unfolding writeDeploymentArtifact_def by (intro fo.rules osMkdirAll_fo writeFile_fo)

lemma writeDeploymentArtifact_returns: "fst (writeDeploymentArtifact c f d e w) \<in> range Ok \<union> range Err"
  unfolding writeDeploymentArtifact_def
  by (auto simp: bindP_def osMkdirAll_def writeFile_def split: option.split statRes.split node.split outcome.split prod.split)

section \<open>Properties\<close>

text \<open>
  Running Helm prints one line and starts one process.  The process gets the credentials of
  the target cluster, while the line printed is the same for every token: the command with the
  token masked.
\<close>

theorem runHelmCmd_masks_token:
  "w_trace (snd (runHelmCmd sv args (e\<lparr>en_APIToken := token\<rparr>) debug w)) =
     w_trace w @
       [CPrint (''helm '' @ Join ((if en_APIServer e = [] then [] else [''--kube-apiserver='' @ en_APIServer e, ''--kube-token=***'']) @
            (if debug then [''--debug''] else []) @ args) '' ''),
        CExec ''helm'' ((if en_APIServer e = [] then [] else [''--kube-apiserver='' @ en_APIServer e, ''--kube-token='' @ token]) @
            (if debug then [''--debug''] else []) @ args) [''SOPS_AGE_KEY_FILE=./key.txt''] []]"
  by (simp add: runHelmCmd_result runCommand_def helmCommand_def split: prod.split)

lemma diffRelease_result:
  assumes "sv_Shlex sv (ho_diffFlags opts) = Inr flags"
    and "diffRelease sv opts e ns vfs cli rel ar w = (r, w')"
  defines "args \<equiv> helmCommand e (ho_debug opts) (en_APIToken e)
      ([''--namespace='' @ ns, ''secrets'', ''diff'', ''upgrade'', ''--detailed-exitcode'', ''--no-color''] @ helmReleaseArgs flags vfs cli rel ar)"
  shows "\<exists>h root out err x t. sv_Exec sv h ''helm'' args [''SOPS_AGE_KEY_FILE=./key.txt''] [] (w_root w) = (root, out, err, x) \<and>
     w_trace w' = w_trace w @ t \<and> filter isExec t = [CExec ''helm'' args [''SOPS_AGE_KEY_FILE=./key.txt''] []] \<and>
     (if x = None then r = Exit 0 else r \<in> {Ok (), Exit 1})"
proof -
  define w1 where "w1 = w\<lparr>w_trace := w_trace w @ [CPrint (''Diffing Helm release against '' @ ar @ ''...''),
      CPrint (''helm '' @ Join (helmCommand e (ho_debug opts) ''***''
      ([''--namespace='' @ ns, ''secrets'', ''diff'', ''upgrade'', ''--detailed-exitcode'', ''--no-color''] @ helmReleaseArgs flags vfs cli rel ar)) '' '')]\<rparr>"
  obtain root out err x where ex: "sv_Exec sv (w_trace w1) ''helm'' args [''SOPS_AGE_KEY_FILE=./key.txt''] [] (w_root w) = (root, out, err, x)"
    by (cases "sv_Exec sv (w_trace w1) ''helm'' args [''SOPS_AGE_KEY_FILE=./key.txt''] [] (w_root w)")
  define c where "c = CExec ''helm'' args [''SOPS_AGE_KEY_FILE=./key.txt''] []"
  define w2 where "w2 = w1\<lparr>w_root := root, w_trace := w_trace w1 @ [c]\<rparr>"
  have run: "diffRelease sv opts e ns vfs cli rel ar w =
      (if x = None then bindP (printLn ''no diff ...'') (\<lambda>_. exitP 0)
       else bindP (printLn out) (\<lambda>_. bindP (printLn (replaceConfusingHelmLogMessages err)) (\<lambda>_.
             fatal (writeDeploymentArtifact out ''diff'' (ho_chartDir opts) (en_Name e))))) w2"
    using ex unfolding w2_def c_def
    by (simp add: diffRelease_def bind_printLn assms(1) Let_def runHelmCmd_result runCommand_def bindP_def [of "runHelmCmd _ _ _ _"]
        w1_def args_def)
  obtain ps where w1: "w_trace w1 = w_trace w @ ps" "filter isExec ps = []"
    by (simp add: w1_def)
  have "\<exists>t. w_trace w' = w_trace w2 @ t \<and> filter isExec t = [] \<and> (if x = None then r = Exit 0 else r \<in> {Ok (), Exit 1})"
  proof (cases x)
    case None
    with run assms(2) show ?thesis by (auto simp: bind_printLn exitP_def)
  next
    case (Some y)
    define w3 where "w3 = w2\<lparr>w_trace := w_trace w2 @ [CPrint out, CPrint (replaceConfusingHelmLogMessages err)]\<rparr>"
    from run assms(2) Some have k: "fatal (writeDeploymentArtifact out ''diff'' (ho_chartDir opts) (en_Name e)) w3 = (r, w')"
      by (simp add: bind_printLn w3_def)
    with preservesD [OF fo.fatal [OF writeDeploymentArtifact_fo] k] have "w_trace w' = w_trace w3"
      by (simp add: only_files_frame)
    moreover have "r \<in> {Ok (), Exit 1}"
      using k writeDeploymentArtifact_returns [of out "''diff''" "ho_chartDir opts" "en_Name e" w3]
      by (auto simp: fatal_def split: prod.splits outcome.splits)
    ultimately show ?thesis using Some by (simp add: w3_def)
  qed
  then obtain t where "w_trace w' = w_trace w2 @ t" "filter isExec t = []" "if x = None then r = Exit 0 else r \<in> {Ok (), Exit 1}"
    by blast
  moreover have "w_trace w2 = w_trace w1 @ [c]" by (simp add: w2_def)
  ultimately have "w_trace w' = w_trace w @ (ps @ c # t)" "filter isExec (ps @ c # t) = [c]"
    "if x = None then r = Exit 0 else r \<in> {Ok (), Exit 1}"
    using w1 by (simp_all add: c_def)
  with ex show ?thesis unfolding c_def by blast
qed

lemma runOrFatal_runCommand:
  "runOrFatal (runCommand sv e a x d) w = (case sv_Exec sv (w_trace w) e a x d (w_root w) of
     (root, out, err, res) \<Rightarrow> (case res of
        None \<Rightarrow> (Ok out, w\<lparr>w_root := root, w_trace := w_trace w @ [CExec e a x d]\<rparr>)
      | Some m \<Rightarrow> (Exit 1, w\<lparr>w_root := root, w_trace := w_trace w @ [CExec e a x d, CPrint err]\<rparr>)))"
  by (simp add: runOrFatal_def runCommand_def bindP_def printLn_result exitP_def ret_def split: prod.split option.split)

lemma upgradeRelease_calls:
  assumes "sv_Shlex sv (ho_upgradeFlags opts) = Inr flags"
    and "upgradeRelease sv opts e ns vfs cli rel ar w = (r, w')"
  shows "\<exists>t. w_trace w' = w_trace w @ t \<and> filter isExec t =
     [CExec ''helm'' (helmCommand e (ho_debug opts) (en_APIToken e)
        ([''--namespace='' @ ns, ''secrets'', ''upgrade''] @ helmReleaseArgs flags vfs cli rel ar)) [''SOPS_AGE_KEY_FILE=./key.txt''] []]"
proof -
  let ?args = "[''--namespace='' @ ns, ''secrets'', ''upgrade''] @ helmReleaseArgs flags vfs cli rel ar"
  let ?cmd = "helmCommand e (ho_debug opts) (en_APIToken e) ?args"
  define w1 where "w1 = w\<lparr>w_trace := w_trace w @ [CPrint (''Upgrading Helm release to '' @ ar @ ''...''),
      CPrint (''helm '' @ Join (helmCommand e (ho_debug opts) ''***'' ?args) '' '')]\<rparr>"
  have "upgradeRelease sv opts e ns vfs cli rel ar w =
      bindP (runOrFatal (runHelmCmd sv ?args e (ho_debug opts))) (\<lambda>stdout. bindP (printLn stdout) (\<lambda>_.
        fatal (writeDeploymentArtifact stdout ''release'' (ho_chartDir opts) (en_Name e))))
        (w\<lparr>w_trace := w_trace w @ [CPrint (''Upgrading Helm release to '' @ ar @ ''...'')]\<rparr>)"
    by (simp add: upgradeRelease_def bind_printLn assms(1))
  moreover have "runOrFatal (runHelmCmd sv ?args e (ho_debug opts))
        (w\<lparr>w_trace := w_trace w @ [CPrint (''Upgrading Helm release to '' @ ar @ ''...'')]\<rparr>) =
      runOrFatal (runCommand sv ''helm'' ?cmd [''SOPS_AGE_KEY_FILE=./key.txt''] []) w1"
    by (simp add: runOrFatal_def bindP_def runHelmCmd_result w1_def)
  ultimately have run: "upgradeRelease sv opts e ns vfs cli rel ar w =
      bindP (runOrFatal (runCommand sv ''helm'' ?cmd [''SOPS_AGE_KEY_FILE=./key.txt''] [])) (\<lambda>stdout. bindP (printLn stdout) (\<lambda>_.
        fatal (writeDeploymentArtifact stdout ''release'' (ho_chartDir opts) (en_Name e)))) w1"
    by (simp add: bindP_def)
  obtain root out err res where ex: "sv_Exec sv (w_trace w1) ''helm'' ?cmd [''SOPS_AGE_KEY_FILE=./key.txt''] [] (w_root w1) = (root, out, err, res)"
    by (cases "sv_Exec sv (w_trace w1) ''helm'' ?cmd [''SOPS_AGE_KEY_FILE=./key.txt''] [] (w_root w1)")
  have "\<exists>t. w_trace w' = w_trace w1 @ CExec ''helm'' ?cmd [''SOPS_AGE_KEY_FILE=./key.txt''] [] # t \<and> filter isExec t = []"
  proof (cases res)
    case (Some m)
    with run ex assms(2) show ?thesis by (auto simp: bindP_def runOrFatal_runCommand)
  next
    case None
    define w3 where "w3 = w1\<lparr>w_root := root, w_trace := w_trace w1 @ [CExec ''helm'' ?cmd [''SOPS_AGE_KEY_FILE=./key.txt''] [], CPrint out]\<rparr>"
    from run ex None assms(2) have "fatal (writeDeploymentArtifact out ''release'' (ho_chartDir opts) (en_Name e)) w3 = (r, w')"
      by (simp add: bindP_def [of "runOrFatal _"] runOrFatal_runCommand bind_printLn w3_def)
    from preservesD [OF fo.fatal [OF writeDeploymentArtifact_fo] this] have "w_trace w' = w_trace w3"
      by (simp add: only_files_frame)
    then show ?thesis by (simp add: w3_def)
  qed
  then obtain t where "w_trace w' = w_trace w1 @ CExec ''helm'' ?cmd [''SOPS_AGE_KEY_FILE=./key.txt''] [] # t" "filter isExec t = []"
    by blast
  then show ?thesis by (simp add: w1_def)
qed

text \<open>
  C27: Helm first compares the release, and is then started a second time, to upgrade the same
  release in the same namespace from the same archive with the same values, only if the
  comparison did not succeed.  If it did, the task ends successfully without an upgrade.
\<close>

theorem upgrade_only_after_difference:
  assumes "sv_Shlex sv (ho_diffFlags opts) = Inr df" and "sv_Shlex sv (ho_upgradeFlags opts) = Inr uf"
    and "diffAndUpgrade sv opts e ns vfs cli rel ar w = (r, w')"
  shows "\<exists>h root out err x t.
    let helm = (\<lambda>args. helmCommand e (ho_debug opts) (en_APIToken e) (args @ map (\<lambda>f. ''--values='' @ f) vfs @ cli @ [rel, ar]));
        age = [''SOPS_AGE_KEY_FILE=./key.txt''];
        compare = helm ([''--namespace='' @ ns, ''secrets'', ''diff'', ''upgrade'', ''--detailed-exitcode'', ''--no-color''] @ df);
        upgrade = helm ([''--namespace='' @ ns, ''secrets'', ''upgrade''] @ uf)
    in sv_Exec sv h ''helm'' compare age [] (w_root w) = (root, out, err, x) \<and> w_trace w' = w_trace w @ t \<and>
       (if x = None then r = Exit 0 \<and> filter isExec t = [CExec ''helm'' compare age []]
        else r = Exit 1 \<and> filter isExec t = [CExec ''helm'' compare age []] \<or>
             filter isExec t = [CExec ''helm'' compare age [], CExec ''helm'' upgrade age []])"
proof -
  obtain r1 w1 where d: "diffRelease sv opts e ns vfs cli rel ar w = (r1, w1)" by (cases "diffRelease sv opts e ns vfs cli rel ar w")
  from diffRelease_result [OF assms(1) d] obtain h root out err x t where
    1: "sv_Exec sv h ''helm'' (helmCommand e (ho_debug opts) (en_APIToken e)
      ([''--namespace='' @ ns, ''secrets'', ''diff'', ''upgrade'', ''--detailed-exitcode'', ''--no-color''] @ helmReleaseArgs df vfs cli rel ar))
      [''SOPS_AGE_KEY_FILE=./key.txt''] [] (w_root w) = (root, out, err, x)"
    and t: "w_trace w1 = w_trace w @ t" "filter isExec t = [CExec ''helm'' (helmCommand e (ho_debug opts) (en_APIToken e)
      ([''--namespace='' @ ns, ''secrets'', ''diff'', ''upgrade'', ''--detailed-exitcode'', ''--no-color''] @ helmReleaseArgs df vfs cli rel ar))
      [''SOPS_AGE_KEY_FILE=./key.txt''] []]"
    and r1: "if x = None then r1 = Exit 0 else r1 \<in> {Ok (), Exit 1}" by blast
  show ?thesis
  proof (cases "r1 = Ok ()")
    case True
    with d assms(3) have "upgradeRelease sv opts e ns vfs cli rel ar w1 = (r, w')" by (simp add: diffAndUpgrade_def)
    from upgradeRelease_calls [OF assms(2) this] obtain t2 where
      "w_trace w' = w_trace w1 @ t2" "filter isExec t2 =
       [CExec ''helm'' (helmCommand e (ho_debug opts) (en_APIToken e)
        ([''--namespace='' @ ns, ''secrets'', ''upgrade''] @ helmReleaseArgs uf vfs cli rel ar)) [''SOPS_AGE_KEY_FILE=./key.txt''] []]"
      by blast
    moreover from True r1 have "x \<noteq> None" by (cases x) auto
    ultimately show ?thesis using 1 t
      by (intro exI [of _ h] exI [of _ root] exI [of _ out] exI [of _ err] exI [of _ x] exI [of _ "t @ t2"])
        (simp add: Let_def helmReleaseArgs_def)
  next
    case False
    with r1 have "r1 = (if x = None then Exit 0 else Exit 1)" by (auto split: if_splits)
    with d assms(3) have "r = (if x = None then Exit 0 else Exit 1)" "w' = w1" by (auto simp: diffAndUpgrade_def split: if_splits)
    with 1 t show ?thesis
      by (intro exI [of _ h] exI [of _ root] exI [of _ out] exI [of _ err] exI [of _ x] exI [of _ t])
        (simp add: Let_def helmReleaseArgs_def)
  qed
qed

text \<open>A cluster that differs from the release.\<close>

definition helmServices :: services where
  "helmServices = noServices\<lparr>sv_Shlex := (\<lambda>s. Inr [s]),
     sv_Exec := (\<lambda>h e a x d r. (r, ''out'', [], if ''diff'' \<in> set a then Some ''exit status 1'' else None))\<rparr>"

definition helmExample :: helmOptions where
  "helmExample = (helmDefaults (\<lambda>_. []))\<lparr>ho_chartDir := ''chart'', ho_diffFlags := ''-d'', ho_upgradeFlags := ''-u''\<rparr>"

lemma upgrade_witness:
  "filter isExec (w_trace (snd (diffAndUpgrade helmServices helmExample (stageEnvironment QAStage) ''ns'' [''v''] [''c''] ''rel'' ''a.tgz'' emptyWorld))) =
     [CExec ''helm'' [''--namespace=ns'', ''secrets'', ''diff'', ''upgrade'', ''--detailed-exitcode'', ''--no-color'', ''-d'', ''--values=v'', ''c'', ''rel'', ''a.tgz'']
        [''SOPS_AGE_KEY_FILE=./key.txt''] [],
      CExec ''helm'' [''--namespace=ns'', ''secrets'', ''upgrade'', ''-u'', ''--values=v'', ''c'', ''rel'', ''a.tgz''] [''SOPS_AGE_KEY_FILE=./key.txt''] []]"
proof -
  let ?m = "diffAndUpgrade helmServices helmExample (stageEnvironment QAStage) ''ns'' [''v''] [''c''] ''rel'' ''a.tgz'' emptyWorld"
  have ok: "fst ?m = Ok ()" by code_simp
  obtain r w' where m: "?m = (r, w')" by (cases ?m)
  have "sv_Shlex helmServices (ho_diffFlags helmExample) = Inr [''-d'']" "sv_Shlex helmServices (ho_upgradeFlags helmExample) = Inr [''-u'']"
    by (simp_all add: helmServices_def helmExample_def)
  from upgrade_only_after_difference [OF this m] ok m
  show ?thesis
    by (auto simp: Let_def helmCommand_def stageEnvironment_def helmExample_def helmDefaults_def emptyWorld_def split: if_splits)
qed

section \<open>Copying images\<close>

lemma Index_slash:
  assumes "CHR ''/'' \<notin> set a"
  shows "Index (a @ CHR ''/'' # b) (CHR ''/'' # c) =
     (if prefix c b then Some (length a) else map_option (\<lambda>i. i + Suc (length a)) (Index b (CHR ''/'' # c)))"
  using assms by (induction a) (auto simp: option.map_comp comp_def)

lemma Index_slash_None: "CHR ''/'' \<notin> set a \<Longrightarrow> Index a (CHR ''/'' # c) = None"
  by (induction a) auto

lemma ReplaceAll_namespace:
  assumes "CHR ''/'' \<notin> set reg" "CHR ''/'' \<notin> set name"
  shows "ReplaceAll (reg @ ''/'' @ repo @ ''/'' @ name) (''/'' @ repo @ ''/'') (''/'' @ ns @ ''/'') = reg @ ''/'' @ ns @ ''/'' @ name"
proof -
  let ?s = "reg @ ''/'' @ repo @ ''/'' @ name"
  have "Index ?s (''/'' @ repo @ ''/'') = Some (length reg)"
    using Index_slash [OF assms(1), of "repo @ ''/'' @ name" "repo @ ''/''"] by simp
  then show ?thesis using Index_slash_None [OF assms(2), of "repo @ ''/''"] by (simp add: ReplaceAll_def)
qed

text \<open>
  \<open>copiesTo\<close>: the call copies the image to the registry host of the environment, if it has one, and
  else to the namespace of the release in the registry of the image; the token is handed over.
\<close>

definition copiesTo :: "environment \<Rightarrow> string \<Rightarrow> string \<Rightarrow> imageArtifact \<Rightarrow> call \<Rightarrow> bool" where
  "copiesTo e ns token a c \<longleftrightarrow> (\<exists>flags dest.
     c = CExec ''skopeo'' (''copy'' # flags @ [''docker://'' @ im_Image a, ''docker://'' @ dest]) [] [] \<and>
     (token = [] \<or> (\<exists>xs ys. flags = xs @ [''--dest-registry-token'', token] @ ys)) \<and>
     (if en_RegistryHost e \<noteq> [] then dest = en_RegistryHost e @ ''/'' @ ns @ ''/'' @ im_Name a
      else \<forall>reg name. im_Image a = reg @ ''/'' @ im_Repository a @ ''/'' @ name \<and> CHR ''/'' \<notin> set reg \<and> CHR ''/'' \<notin> set name
             \<longrightarrow> dest = reg @ ''/'' @ ns @ ''/'' @ name))"

lemma copiesTo_skopeo: "copiesTo e ns token a (CExec ''skopeo'' (skopeoCopyArgs opts e ns token a) [] [])"
proof -
  obtain dest v where d: "imageDestination opts e ns a = (dest, v)" by (cases "imageDestination opts e ns a")
  define pre where "pre = [''--src-tls-verify='' @ fmtBool (srcRegistryVerified opts a), ''--dest-tls-verify='' @ fmtBool v] @
      (if srcRegistryVerified opts a then [''--src-cert-dir='' @ ho_certDir opts] else []) @
      (if v then [''--dest-cert-dir='' @ ho_certDir opts] else [])"
  have args: "skopeoCopyArgs opts e ns token a = ''copy'' # (pre @ (if token \<noteq> [] then [''--dest-registry-token'', token] else []) @
      (if ho_debug opts then [''--debug''] else [])) @ [''docker://'' @ im_Image a, ''docker://'' @ dest]"
    by (simp add: skopeoCopyArgs_def Let_def d pre_def)
  have "if en_RegistryHost e \<noteq> [] then dest = en_RegistryHost e @ ''/'' @ ns @ ''/'' @ im_Name a
      else \<forall>reg name. im_Image a = reg @ ''/'' @ im_Repository a @ ''/'' @ name \<and> CHR ''/'' \<notin> set reg \<and> CHR ''/'' \<notin> set name
             \<longrightarrow> dest = reg @ ''/'' @ ns @ ''/'' @ name"
    using d ReplaceAll_namespace [of _ _ "im_Repository a" ns] by (auto simp: imageDestination_def)
  moreover have "token = [] \<or> (\<exists>xs ys. pre @ (if token \<noteq> [] then [''--dest-registry-token'', token] else []) @
      (if ho_debug opts then [''--debug''] else []) = xs @ [''--dest-registry-token'', token] @ ys)"
    by (cases "token = []") auto
  ultimately show ?thesis unfolding copiesTo_def args by (intro exI conjI) (rule refl)
qed

lemma copyImage_Ok:
  assumes keeps: "\<And>h a x d root. fst (sv_Exec sv h ''skopeo'' a x d root) = root"
    and run: "copyImage sv opts e ns token f w = (Ok u, w')"
  shows "\<exists>content a t. contentAt f w = Some content \<and> unmarshalImage content = Inr a \<and>
     adds w t w' \<and> filter isExec t = [CExec ''skopeo'' (skopeoCopyArgs opts e ns token a) [] []]"
proof -
  from run obtain content w0 where r: "readFile f w = (Ok content, w0)"
    and k: "bindP (fatal (liftE (unmarshalImage content))) (\<lambda>a.
     bindP (printLn (''Copying image '' @ im_Name a @ '' ...'')) (\<lambda>_.
     bindP (printLn (''src='' @ im_Image a)) (\<lambda>_.
     bindP (printLn (''dest='' @ fst (imageDestination opts e ns a))) (\<lambda>_.
     bindP (runOrFatal (command_Run sv ''skopeo'' (skopeoCopyArgs opts e ns token a))) (\<lambda>stdout.
     printLn stdout))))) w0 = (Ok u, w')"
    unfolding copyImage_def by (rule bindP_OkE) (simp only: fatal_Ok)
  from r have w0: "w0 = w" by (rule readFile_state)
  from k obtain a where a: "unmarshalImage content = Inr a" by (cases "unmarshalImage content") (simp_all add: exitP_def)
  define w1 where "w1 = w\<lparr>w_trace := w_trace w @ [CPrint (''Copying image '' @ im_Name a @ '' ...''), CPrint (''src='' @ im_Image a),
      CPrint (''dest='' @ fst (imageDestination opts e ns a))]\<rparr>"
  let ?c = "CExec ''skopeo'' (skopeoCopyArgs opts e ns token a) [] []"
  from k have k1: "bindP (runOrFatal (command_Run sv ''skopeo'' (skopeoCopyArgs opts e ns token a))) printLn w1 = (Ok u, w')"
    unfolding w0 by (simp add: a bind_printLn w1_def)
  obtain root out err res where ex: "sv_Exec sv (w_trace w1) ''skopeo'' (skopeoCopyArgs opts e ns token a) [] [] (w_root w1) = (root, out, err, res)"
    by (cases "sv_Exec sv (w_trace w1) ''skopeo'' (skopeoCopyArgs opts e ns token a) [] [] (w_root w1)")
  with keeps [of "w_trace w1" "skopeoCopyArgs opts e ns token a" "[]" "[]" "w_root w1"] have root: "root = w_root w" by (simp add: w1_def)
  from k1 ex have res: "res = None" by (cases res) (simp_all add: command_Run_def runOrFatal_runCommand bindP_def)
  from k1 ex res root have "w' = w1\<lparr>w_trace := w_trace w1 @ [?c, CPrint out]\<rparr>"
    by (simp add: command_Run_def runOrFatal_runCommand bindP_def printLn_result w1_def)
  then have "adds w ([CPrint (''Copying image '' @ im_Name a @ '' ...''), CPrint (''src='' @ im_Image a),
      CPrint (''dest='' @ fst (imageDestination opts e ns a))] @ [?c, CPrint out]) w'"
    by (simp add: adds_def w1_def)
  moreover have "contentAt f w = Some content" using r w0 by (simp add: readFile_contentAt)
  ultimately show ?thesis using a
    by (intro exI [of _ content] exI [of _ a] exI conjI) (assumption | simp)+
qed

lemma copyImages_loop:
  assumes keeps: "\<And>h a x d root. fst (sv_Exec sv h ''skopeo'' a x d root) = root"
    and run: "forEach files (copyImage sv opts e ns token) w = (Ok u, w')"
  shows "\<exists>images t. list_all2 (\<lambda>f a. \<exists>c. contentAt f w = Some c \<and> unmarshalImage c = Inr a) files images \<and>
     adds w t w' \<and> filter isExec t = map (\<lambda>a. CExec ''skopeo'' (skopeoCopyArgs opts e ns token a) [] []) images"
  using run
proof (induction files arbitrary: w)
  case Nil
  then show ?case by (auto simp: ret_def intro!: exI [of _ "[]"])
next
  case (Cons f fs)
  from Cons.prems obtain v w1 where 1: "copyImage sv opts e ns token f w = (Ok v, w1)"
    and 2: "forEach fs (copyImage sv opts e ns token) w1 = (Ok u, w')" by (auto elim: bindP_OkE)
  from copyImage_Ok [OF keeps 1] obtain content a t where c: "contentAt f w = Some content" "unmarshalImage content = Inr a"
    "adds w t w1" "filter isExec t = [CExec ''skopeo'' (skopeoCopyArgs opts e ns token a) [] []]" by blast
  from Cons.IH [OF 2] obtain images t2 where
    l: "list_all2 (\<lambda>f a. \<exists>c. contentAt f w1 = Some c \<and> unmarshalImage c = Inr a) fs images"
    and t2: "adds w1 t2 w'" "filter isExec t2 = map (\<lambda>a. CExec ''skopeo'' (skopeoCopyArgs opts e ns token a) [] []) images" by blast
  from l have "list_all2 (\<lambda>f a. \<exists>c. contentAt f w = Some c \<and> unmarshalImage c = Inr a) (f # fs) (a # images)"
    using c by (simp add: contentAt_adds [OF c(3)])
  with adds_trans [OF c(3) t2(1)] c(4) t2(2) show ?case
    by (intro exI [of _ "a # images"] exI [of _ "t @ t2"]) simp
qed

text \<open>
  C30: when copying the images succeeds, every image file is read as it was before the step, and
  one copy per image is made, in order, from the address the file records to the registry of the
  environment or the namespace of the release, with the API token of the target or that of the
  service account.  Apart from the trace nothing changes.  Hypothesis: skopeo does not touch the
  files of the workspace.
\<close>

theorem copyImages_copies_each:
  assumes "\<And>h a x d root. fst (sv_Exec sv h ''skopeo'' a x d root) = root"
    and "copyImages sv opts e ns files w = (Ok (), w')" and "files \<noteq> []"
  shows "\<exists>token images t.
     (if en_APIToken e \<noteq> [] then token = en_APIToken e
      else \<exists>c. contentAt ''/var/run/secrets/kubernetes.io/serviceaccount/token'' w = Some c \<and> token = TrimSpace c) \<and>
     list_all2 (\<lambda>f a. \<exists>c. contentAt f w = Some c \<and> unmarshalImage c = Inr a) files images \<and>
     adds w t w' \<and> list_all2 (copiesTo e ns token) images (filter isExec t)"
proof -
  have "\<exists>token. (if en_APIToken e \<noteq> [] then token = en_APIToken e
      else \<exists>c. contentAt ''/var/run/secrets/kubernetes.io/serviceaccount/token'' w = Some c \<and> token = TrimSpace c) \<and>
      bindP (printLn ''Copying images into release namespace ...'') (\<lambda>_. forEach files (copyImage sv opts e ns token)) w = (Ok (), w')"
  proof (cases "en_APIToken e = []")
    case False
    with assms(2,3) show ?thesis by (simp add: copyImages_def)
  next
    case True
    with assms(2,3) have "bindP (fatal (helm_getTrimmedFileContent tokenFile)) (\<lambda>token.
       bindP (printLn ''Copying images into release namespace ...'') (\<lambda>_. forEach files (copyImage sv opts e ns token))) w = (Ok (), w')"
      by (simp add: copyImages_def)
    then obtain token w1 where 1: "helm_getTrimmedFileContent tokenFile w = (Ok token, w1)"
      and 2: "bindP (printLn ''Copying images into release namespace ...'') (\<lambda>_. forEach files (copyImage sv opts e ns token)) w1 = (Ok (), w')"
      by (rule bindP_OkE) (simp only: fatal_Ok)
    from 1 obtain c w2 where c: "readFile tokenFile w = (Ok c, w2)" "token = TrimSpace c" "w1 = w2"
      unfolding helm_getTrimmedFileContent_def by (rule bindP_OkE) (simp add: ret_def)
    from readFile_state [OF c(1)] have "w2 = w" .
    with c 2 True show ?thesis by (auto simp: readFile_contentAt tokenFile_def intro!: exI [of _ token])
  qed
  then obtain token where tok: "if en_APIToken e \<noteq> [] then token = en_APIToken e
      else \<exists>c. contentAt ''/var/run/secrets/kubernetes.io/serviceaccount/token'' w = Some c \<and> token = TrimSpace c"
    and k: "bindP (printLn ''Copying images into release namespace ...'') (\<lambda>_. forEach files (copyImage sv opts e ns token)) w = (Ok (), w')"
    by blast
  let ?p = "CPrint ''Copying images into release namespace ...''"
  have p: "adds w [?p] (w\<lparr>w_trace := w_trace w @ [?p]\<rparr>)" by (simp add: adds_def)
  from k have "forEach files (copyImage sv opts e ns token) (w\<lparr>w_trace := w_trace w @ [?p]\<rparr>) = (Ok (), w')"
    by (simp add: bind_printLn)
  from copyImages_loop [OF assms(1) this] obtain images t where
    "list_all2 (\<lambda>f a. \<exists>c. contentAt f w = Some c \<and> unmarshalImage c = Inr a) files images"
    "adds (w\<lparr>w_trace := w_trace w @ [?p]\<rparr>) t w'"
    "filter isExec t = map (\<lambda>a. CExec ''skopeo'' (skopeoCopyArgs opts e ns token a) [] []) images"
    unfolding contentAt_adds [OF p] by blast
  moreover from this(3) have "list_all2 (copiesTo e ns token) images (filter isExec ([?p] @ t))"
    by (simp add: list.rel_map list_all2_same copiesTo_skopeo)
  moreover note tok adds_trans [OF p calculation(2)]
  ultimately show ?thesis by blast
qed

text \<open>One image in the registry of the cluster, and a token in the environment.\<close>

definition exampleImage :: imageArtifact where
  "exampleImage = \<lparr>im_Image = ''registry:5000/foo-cd/app:abc'', im_Registry = ''registry:5000'', im_Repository = ''foo-cd'',
     im_Name = ''app'', im_Tag = ''abc'', im_Digest = ''sha256:0''\<rparr>"

definition imageWorld :: world where
  "imageWorld = emptyWorld\<lparr>w_root := Dir [(''app.json'', File (Marshal (imageArtifactJson exampleImage)) 0)]\<rparr>"

definition imageTarget :: environment where
  "imageTarget = (stageEnvironment QAStage)\<lparr>en_APIToken := ''tok''\<rparr>"

lemma copyImages_witness:
  "\<exists>flags xs ys. filter isExec (w_trace (snd (copyImages helmServices helmExample imageTarget ''foo-qa'' [''app.json''] imageWorld))) =
     [CExec ''skopeo'' (''copy'' # flags @ [''docker://registry:5000/foo-cd/app:abc'', ''docker://registry:5000/foo-qa/app:abc'']) [] []] \<and>
     flags = xs @ [''--dest-registry-token'', ''tok''] @ ys"
proof -
  let ?m = "copyImages helmServices helmExample imageTarget ''foo-qa'' [''app.json''] imageWorld"
  have "fst ?m = Ok ()" by code_simp
  then obtain w' where m: "?m = (Ok (), w')" by (metis prod.collapse)
  have keeps: "fst (sv_Exec helmServices h ''skopeo'' a x d root) = root" for h a x d root
    by (simp add: helmServices_def)
  obtain token images t where
    tok: "if en_APIToken imageTarget \<noteq> [] then token = en_APIToken imageTarget
      else \<exists>c. contentAt ''/var/run/secrets/kubernetes.io/serviceaccount/token'' imageWorld = Some c \<and> token = TrimSpace c"
    and l: "list_all2 (\<lambda>f a. \<exists>c. contentAt f imageWorld = Some c \<and> unmarshalImage c = Inr a) [''app.json''] images"
    and t: "adds imageWorld t w'" "list_all2 (copiesTo imageTarget ''foo-qa'' token) images (filter isExec t)"
    using copyImages_copies_each [OF keeps m] by blast
  have content: "case contentAt ''app.json'' imageWorld of Some c \<Rightarrow> unmarshalImage c = Inr exampleImage | None \<Rightarrow> False" by code_simp
  from l obtain a where "images = [a]" "\<exists>c. contentAt ''app.json'' imageWorld = Some c \<and> unmarshalImage c = Inr a"
    by (auto simp: list_all2_Cons1)
  with content have "images = [exampleImage]" by auto
  moreover from tok have "token = ''tok''" by (simp add: imageTarget_def)
  ultimately obtain c where c: "filter isExec t = [c]" "copiesTo imageTarget ''foo-qa'' ''tok'' exampleImage c"
    using t(2) by (auto simp: list_all2_Cons1)
  moreover have "en_RegistryHost imageTarget = []" by (simp add: imageTarget_def stageEnvironment_def)
  ultimately obtain flags dest where d: "c = CExec ''skopeo'' (''copy'' # flags @ [''docker://'' @ im_Image exampleImage, ''docker://'' @ dest]) [] []"
    "\<exists>xs ys. flags = xs @ [''--dest-registry-token'', ''tok''] @ ys"
    "\<forall>reg name. im_Image exampleImage = reg @ ''/'' @ im_Repository exampleImage @ ''/'' @ name \<and> CHR ''/'' \<notin> set reg \<and> CHR ''/'' \<notin> set name
             \<longrightarrow> dest = reg @ ''/'' @ ''foo-qa'' @ ''/'' @ name"
    unfolding copiesTo_def by auto
  have "dest = ''registry:5000'' @ ''/'' @ ''foo-qa'' @ ''/'' @ ''app:abc''"
    by (rule d(3) [THEN spec, THEN spec, THEN mp]) (simp add: exampleImage_def)
  with d(1) have "c = CExec ''skopeo'' (''copy'' # flags @ [''docker://registry:5000/foo-cd/app:abc'', ''docker://registry:5000/foo-qa/app:abc'']) [] []"
    by (simp add: exampleImage_def)
  moreover have "w_trace (snd ?m) = t" using m t(1) by (simp add: adds_def imageWorld_def emptyWorld_def)
  ultimately show ?thesis using c(1) d(2) by blast
qed

end
