(* ===== verification/Docs.thy ===== *)
theory Docs
  imports PipelineCtxt
begin

text \<open>
  \<open>internal/docs/tasks.go\<close>: the documentation of the tasks, one file per task, rendered from the
  output of \<open>helm template\<close>.  Decoding YAML and executing a text template are third-party or
  library code with a language of their own: they are parameters.
\<close>

section \<open>Tasks and their documentation\<close>

record docParam =
  dp_Name :: string
  dp_Default :: string
  dp_Description :: string

record docResult =
  dr_Name :: string
  dr_Description :: string

record docTask =
  dt_Name :: string
  dt_Description :: string
  dt_Params :: "docParam list"
  dt_Results :: "docResult list"

text \<open>The part of a Tekton task that is read; a default is absent or has a text.\<close>

record tektonParam =
  tp_Name :: string
  tp_Default :: "string option"
  tp_Description :: string

record tektonTask =
  tt_Name :: string
  tt_Description :: string
  tt_Params :: "tektonParam list"
  tt_Results :: "docResult list"

text \<open>
  A template is given by its text: whether it parses, and what it writes for a task before it
  ends or fails.
\<close>

record templates =
  te_Parse :: "string \<Rightarrow> string + unit"
  te_Execute :: "string \<Rightarrow> docTask \<Rightarrow> string \<times> string option"

section \<open>Rendering\<close>

definition templateName :: string where "templateName = ''template.adoc.tmpl''"

definition docHeader :: "string \<Rightarrow> string" where
  "docHeader displayname =
     ''// Document generated by internal/documentation/tasks.go from '' @ displayname @ ''; DO NOT EDIT.'' @ [CHR 0x0A, CHR 0x0A]"

definition renderTemplate :: "templates \<Rightarrow> string \<Rightarrow> string \<Rightarrow> docTask \<Rightarrow> unit prog_w" where
  "renderTemplate te targetDir targetFilename data =
     bindP (osCreate targetFilename) (\<lambda>_.
     let templateFilename = filepathJoin [targetDir, templateName];
         header = docHeader (last (Split templateFilename ''/''))
     in bindP (writeFile targetFilename header) (\<lambda>_.
        bindP (readFile templateFilename) (\<lambda>tmpl.
        bindP (liftE (te_Parse te tmpl)) (\<lambda>_.
        case te_Execute te tmpl data of (body, e) \<Rightarrow>
          bindP (writeFile targetFilename (header @ body)) (\<lambda>_.
          case e of None \<Rightarrow> ret () | Some msg \<Rightarrow> failE msg)))))"

fun parseDocuments :: "(string \<Rightarrow> string + tektonTask) \<Rightarrow> string list \<Rightarrow> string + tektonTask list" where
  "parseDocuments unmarshal [] = Inr []"
| "parseDocuments unmarshal (d # ds) = (case unmarshal d of
       Inl e \<Rightarrow> Inl e
     | Inr t \<Rightarrow> (case parseDocuments unmarshal ds of
           Inl e \<Rightarrow> Inl e
         | Inr ts \<Rightarrow> Inr (if tt_Name t \<noteq> [] then t # ts else ts)))"

definition parseTasks :: "(string \<Rightarrow> string + tektonTask) \<Rightarrow> string \<Rightarrow> string + tektonTask list" where
  "parseTasks unmarshal helmTemplateOutput = parseDocuments unmarshal (Split helmTemplateOutput ''---'')"

definition taskDoc :: "tektonTask \<Rightarrow> docTask" where
  "taskDoc t =
     \<lparr>dt_Name = tt_Name t, dt_Description = tt_Description t,
      dt_Params = map (\<lambda>p. \<lparr>dp_Name = tp_Name p, dp_Default = (case tp_Default p of Some d \<Rightarrow> d | None \<Rightarrow> []),
                            dp_Description = tp_Description p\<rparr>) (tt_Params t),
      dt_Results = tt_Results t\<rparr>"

definition docTarget :: "string \<Rightarrow> tektonTask \<Rightarrow> string" where
  "docTarget targetDir t = filepathJoin [targetDir, tt_Name t @ ''.adoc'']"

definition RenderTasks ::
  "services \<Rightarrow> templates \<Rightarrow> (string \<Rightarrow> string + tektonTask) \<Rightarrow> string \<Rightarrow> string \<Rightarrow> unit prog_w" where
  "RenderTasks sv te unmarshal sourceDir targetDir =
     bindP (gets (\<lambda>w. IsNotExist (osStat sourceDir w))) (\<lambda>missing.
     if missing then failE (''stat '' @ sourceDir @ '': no such file or directory'')
     else
       bindP (command_RunInDir sv ''helm'' [''template'', ''--values=values.docs.yaml'', ''.''] sourceDir) (\<lambda>(stdout, stderr, err).
       bindP (case err of None \<Rightarrow> ret () | Some e \<Rightarrow> bindP (printLn stderr) (\<lambda>_. exitP 1)) (\<lambda>_.
       bindP (fatal (liftE (parseTasks unmarshal stdout))) (\<lambda>tasks.
       forEach tasks (\<lambda>t. fatal (renderTemplate te targetDir (docTarget targetDir t) (taskDoc t)))))))"

text \<open>The program of \<open>cmd/docs\<close>; \<open>projectRoot\<close> is the directory the project was built in.\<close>

definition Docs_main :: "services \<Rightarrow> templates \<Rightarrow> (string \<Rightarrow> string + tektonTask) \<Rightarrow> string \<Rightarrow> unit prog_w" where
  "Docs_main sv te unmarshal projectRoot =
     fatal (RenderTasks sv te unmarshal (filepathJoin [projectRoot, ''deploy/ods-pipeline/charts/tasks'']) (filepathJoin [projectRoot, ''docs/tasks'']))"

section \<open>Facts: parsing\<close>

lemma parseDocuments_Inr:
  "parseDocuments u ds = Inr ts \<longleftrightarrow>
     (\<forall>d\<in>set ds. \<exists>t. u d = Inr t) \<and> ts = filter (\<lambda>t. tt_Name t \<noteq> []) (map (\<lambda>d. projr (u d)) ds)"
proof (induction ds arbitrary: ts)
  case Nil
  then show ?case by auto
next
  case (Cons d ds)
  from Cons.IH [of "filter (\<lambda>t. tt_Name t \<noteq> []) (map (\<lambda>d. projr (u d)) ds)"] Cons.IH [of "projr (parseDocuments u ds)"]
  show ?case by (cases "u d"; cases "parseDocuments u ds") auto
qed

lemma parseTasks_named: "parseTasks u out = Inr ts \<Longrightarrow> t \<in> set ts \<Longrightarrow> tt_Name t \<noteq> []"
  by (auto simp: parseTasks_def parseDocuments_Inr)

section \<open>Facts: the files written\<close>

text \<open>The files of tasks with different names are a store, and the template is not among them.\<close>

lemma resolve_docFile:
  assumes "targetDir \<noteq> []" "legalName n"
  shows "resolve w (filepathJoin [targetDir, n]) = resolve w targetDir @ [n]"
  by (rule Join_resolve [OF assms(2,1)])

lemma docName_legal: "n \<noteq> [] \<Longrightarrow> CHR ''/'' \<notin> set n \<Longrightarrow> legalName (n @ ''.adoc'')"
  by (auto simp: legalName_def plainElem_def append_eq_Cons_conv)

lemma template_legal: "legalName templateName"
  by (simp add: legalName_def plainElem_def templateName_def)

lemma docName_template: "n @ ''.adoc'' \<noteq> templateName"
proof
  assume "n @ ''.adoc'' = templateName"
  then have "last (n @ ''.adoc'') = last templateName" by simp
  then show False by (simp add: templateName_def)
qed

definition named :: "tektonTask \<Rightarrow> bool" where
  "named t \<longleftrightarrow> tt_Name t \<noteq> [] \<and> CHR ''/'' \<notin> set (tt_Name t)"

text \<open>What rendering one task does: its file has the header and what the template wrote, others are as they were.\<close>

lemma renderTemplate_Ok:
  assumes "renderTemplate te targetDir f data w = (Ok (), w')"
    and f: "resolve w f = d @ [n]" and tmpl: "resolve w (filepathJoin [targetDir, templateName]) = d @ [templateName]" "n \<noteq> templateName"
  defines "header \<equiv> docHeader (last (Split (filepathJoin [targetDir, templateName]) ''/''))"
  shows "\<exists>t body. contentAt (filepathJoin [targetDir, templateName]) w = Some t \<and> te_Parse te t = Inr () \<and>
      te_Execute te t data = (body, None) \<and> contentAt f w' = Some (header @ body)"
    and "only_files w w'" "\<And>g. \<not> prefix (resolve w f) (resolve w g) \<Longrightarrow> \<not> prefix (resolve w g) (resolve w f) \<Longrightarrow> contentAt g w' = contentAt g w"
proof -
  let ?t = "filepathJoin [targetDir, templateName]"
  from assms(1) obtain w1 w2 t w3 where
    1: "writeFile f [] w = (Ok (), w1)" and 2: "writeFile f header w1 = (Ok (), w2)" and rd: "readFile ?t w2 = (Ok t, w3)" and
    rest: "bindP (liftE (te_Parse te t)) (\<lambda>_. case te_Execute te t data of (body, e) \<Rightarrow>
       bindP (writeFile f (header @ body)) (\<lambda>_. case e of None \<Rightarrow> ret () | Some msg \<Rightarrow> failE msg)) w3 = (Ok (), w')"
    unfolding renderTemplate_def Let_def osCreate_def header_def by (elim bindP_OkE) auto
  have w3: "w3 = w2" using rd by (rule readFile_state)
  obtain body e where ex: "te_Execute te t data = (body, e)" by fastforce
  have parse: "te_Parse te t = Inr ()" using rest by (cases "te_Parse te t") (simp_all add: failE_def)
  have e: "e = None" and 3: "writeFile f (header @ body) w2 = (Ok (), w')"
    using rest unfolding parse ex w3
    by (auto simp: ret_def failE_def elim!: bindP_OkE split: option.splits)
  have fo: "only_files w w1" "only_files w1 w2" "only_files w2 w'"
    using writeFile_OkD(2) [OF 1] writeFile_OkD(2) [OF 2] writeFile_OkD(2) [OF 3] by (auto simp: only_files_def)
  then have res: "resolve w1 g = resolve w g" "resolve w2 g = resolve w g" for g by (auto simp: only_files_def)
  have other: "contentAt g w' = contentAt g w2 \<and> contentAt g w2 = contentAt g w"
    if "\<not> prefix (resolve w f) (resolve w g)" "\<not> prefix (resolve w g) (resolve w f)" for g
    using contentAt_write_other [OF 1 that] contentAt_write_other [OF 2, of g] contentAt_write_other [OF 3, of g] that res by simp
  show "\<And>g. \<not> prefix (resolve w f) (resolve w g) \<Longrightarrow> \<not> prefix (resolve w g) (resolve w f) \<Longrightarrow> contentAt g w' = contentAt g w"
    using other by simp
  show "only_files w w'" using fo fo.trans by blast
  have "contentAt ?t w2 = contentAt ?t w" using other [of ?t] f tmpl by simp
  then have "contentAt ?t w = Some t" using rd w3 readFile_contentAt [of ?t w2 t] by simp
  then show "\<exists>t body. contentAt ?t w = Some t \<and> te_Parse te t = Inr () \<and>
      te_Execute te t data = (body, None) \<and> contentAt f w' = Some (header @ body)"
    using parse ex e contentAt_write_same [OF 3] by auto
qed

lemma docTarget_resolve:
  assumes "targetDir \<noteq> []" "named t"
  shows "resolve w (docTarget targetDir t) = resolve w targetDir @ [tt_Name t @ ''.adoc'']"
  using resolve_docFile [OF assms(1) docName_legal] assms(2) by (simp add: docTarget_def named_def)

lemma renderAll_Ok:
  assumes "targetDir \<noteq> []"
  defines "tf \<equiv> filepathJoin [targetDir, templateName]"
  defines "header \<equiv> docHeader (last (Split tf ''/''))"
  shows "forEach ts (\<lambda>t. fatal (renderTemplate te targetDir (docTarget targetDir t) (taskDoc t))) w = (Ok (), w') \<Longrightarrow>
      \<forall>t\<in>set ts. named t \<Longrightarrow> distinct (map tt_Name ts) \<Longrightarrow>
      only_files w w' \<and> contentAt tf w' = contentAt tf w \<and>
      (\<forall>t\<in>set ts. \<exists>tmpl body. contentAt tf w = Some tmpl \<and> te_Parse te tmpl = Inr () \<and>
         te_Execute te tmpl (taskDoc t) = (body, None) \<and> contentAt (docTarget targetDir t) w' = Some (header @ body)) \<and>
      (\<forall>g. (\<forall>t\<in>set ts. \<not> prefix (resolve w targetDir @ [tt_Name t @ ''.adoc'']) (resolve w g) \<and>
            \<not> prefix (resolve w g) (resolve w targetDir @ [tt_Name t @ ''.adoc''])) \<longrightarrow> contentAt g w' = contentAt g w)"
proof (induction ts arbitrary: w)
  case Nil
  then show ?case by (simp add: prog_simps fo.refl)
next
  case (Cons t ts)
  let ?d = "resolve w targetDir"
  from Cons.prems(1) obtain w1 where
    1: "renderTemplate te targetDir (docTarget targetDir t) (taskDoc t) w = (Ok (), w1)" and
    2: "forEach ts (\<lambda>t. fatal (renderTemplate te targetDir (docTarget targetDir t) (taskDoc t))) w1 = (Ok (), w')"
    by (auto elim!: bindP_OkE)
  have t: "resolve w (docTarget targetDir t) = ?d @ [tt_Name t @ ''.adoc'']"
    using docTarget_resolve [OF assms(1)] Cons.prems(2) by simp
  have tmpl: "resolve w tf = ?d @ [templateName]"
    unfolding tf_def by (rule resolve_docFile [OF assms(1) template_legal])
  note one = renderTemplate_Ok [OF 1 t tmpl [unfolded tf_def] docName_template, folded tf_def, folded header_def]
  have res: "resolve w1 g = resolve w g" for g using one(2) by (auto simp: only_files_def)
  from Cons.IH [OF 2] Cons.prems(2,3) have rest:
    "only_files w1 w'" "contentAt tf w' = contentAt tf w1"
    "\<forall>t\<in>set ts. \<exists>tmpl body. contentAt tf w1 = Some tmpl \<and> te_Parse te tmpl = Inr () \<and>
       te_Execute te tmpl (taskDoc t) = (body, None) \<and> contentAt (docTarget targetDir t) w' = Some (header @ body)"
    "\<forall>g. (\<forall>t\<in>set ts. \<not> prefix (?d @ [tt_Name t @ ''.adoc'']) (resolve w g) \<and>
       \<not> prefix (resolve w g) (?d @ [tt_Name t @ ''.adoc''])) \<longrightarrow> contentAt g w' = contentAt g w1"
    by (auto simp: res)
  have tf1: "contentAt tf w1 = contentAt tf w"
    using one(3) [of tf] t tmpl docName_template [of "tt_Name t"] by auto
  have "contentAt (docTarget targetDir t) w' = contentAt (docTarget targetDir t) w1"
  proof -
    have "\<not> prefix (?d @ [x]) ?d" for x by (auto dest: prefix_length_le)
    with spec [OF rest(4), of "docTarget targetDir t"] t Cons.prems(3) show ?thesis by (auto simp: image_iff)
  qed
  with one(1) have "\<exists>tmpl body. contentAt tf w = Some tmpl \<and> te_Parse te tmpl = Inr () \<and>
       te_Execute te tmpl (taskDoc t) = (body, None) \<and> contentAt (docTarget targetDir t) w' = Some (header @ body)" by simp
  moreover have "contentAt g w1 = contentAt g w"
    if "\<not> prefix (?d @ [tt_Name t @ ''.adoc'']) (resolve w g)" "\<not> prefix (resolve w g) (?d @ [tt_Name t @ ''.adoc''])" for g
    using one(3) that t by simp
  ultimately show ?case using rest fo.trans [OF one(2) rest(1)] tf1 by auto
qed

text \<open>
  C37: if the documentation is rendered, then \<open>helm\<close> succeeded and every document of its output is
  a task that decodes; for every task with a name (no two the same) the target directory has a file that starts
  with the generated-file notice and goes on with what the template makes of the task's name,
  description, parameters (an absent default is empty) and results; and every other file is as
  \<open>helm\<close> left it.
\<close>

theorem RenderTasks_files:
  assumes run: "RenderTasks sv te unmarshal sourceDir targetDir w = (Ok (), w')" and "targetDir \<noteq> []"
    and helm: "command_RunInDir sv ''helm'' [''template'', ''--values=values.docs.yaml'', ''.''] sourceDir w = (Ok (stdout, stderr, err), w1)"
    and names: "\<forall>ts. parseTasks unmarshal stdout = Inr ts \<longrightarrow> (\<forall>t\<in>set ts. CHR ''/'' \<notin> set (tt_Name t)) \<and> distinct (map tt_Name ts)"
  shows "\<exists>ts. err = None \<and> parseTasks unmarshal stdout = Inr ts \<and>
     ts = filter (\<lambda>t. tt_Name t \<noteq> []) (map (\<lambda>d. projr (unmarshal d)) (Split stdout ''---'')) \<and>
     (\<forall>t\<in>set ts. \<exists>tmpl body.
        contentAt (filepathJoin [targetDir, templateName]) w1 = Some tmpl \<and> te_Execute te tmpl (taskDoc t) = (body, None) \<and>
        contentAt (filepathJoin [targetDir, tt_Name t @ ''.adoc'']) w' =
          Some (docHeader (last (Split (filepathJoin [targetDir, templateName]) ''/'')) @ body)) \<and>
     (\<forall>g. (\<forall>t\<in>set ts. \<not> prefix (resolve w targetDir @ [tt_Name t @ ''.adoc'']) (resolve w g) \<and>
           \<not> prefix (resolve w g) (resolve w targetDir @ [tt_Name t @ ''.adoc''])) \<longrightarrow> contentAt g w' = contentAt g w1)"
proof -
  from run obtain ts where none: "err = None" and ts: "parseTasks unmarshal stdout = Inr ts" and
    each: "forEach ts (\<lambda>t. fatal (renderTemplate te targetDir (docTarget targetDir t) (taskDoc t))) w1 = (Ok (), w')"
    unfolding RenderTasks_def
    by (cases "parseTasks unmarshal stdout")
      (auto simp: helm gets_def failE_def exitP_def ret_def elim!: bindP_OkE split: if_splits option.splits)
  have w1: "resolve w1 g = resolve w g" for g
    using helm by (auto simp: command_RunInDir_def runCommand_def resolve_def split: prod.splits)
  have named: "\<forall>t\<in>set ts. named t" using names ts parseTasks_named [OF ts] by (auto simp: named_def)
  have "distinct (map tt_Name ts)" using names ts by blast
  with renderAll_Ok [OF assms(2) each named] none ts show ?thesis
    by (auto simp: w1 docTarget_def parseTasks_def parseDocuments_Inr)
qed

definition docsServices :: services where
  "docsServices = noServices\<lparr>sv_Exec := (\<lambda>h e a x d r. (r, ''---A---B'', [], None))\<rparr>"

definition docsTemplates :: templates where
  "docsTemplates = \<lparr>te_Parse = (\<lambda>s. Inr ()), te_Execute = (\<lambda>s t. (s @ dt_Name t, None))\<rparr>"

definition docsTask :: "string \<Rightarrow> tektonTask" where
  "docsTask n = \<lparr>tt_Name = n, tt_Description = [], tt_Params = [], tt_Results = []\<rparr>"

definition docsYaml :: "string \<Rightarrow> string + tektonTask" where
  "docsYaml d = Inr (docsTask d)"

definition docsWorld :: world where
  "docsWorld = \<lparr>w_root = Dir [(''charts'', Dir []), (''docs'', Dir [(templateName, File ''= '' 0)])],
     w_cwd = [], w_faulty = (\<lambda>_. False), w_getenv = (\<lambda>_. []), w_now = 0, w_trace = []\<rparr>"

lemma RenderTasks_witness:
  "contentAt ''/docs/A.adoc'' (snd (RenderTasks docsServices docsTemplates docsYaml ''/charts'' ''/docs'' docsWorld)) =
     Some (docHeader templateName @ ''= A'')"
proof -
  let ?w1 = "docsWorld\<lparr>w_trace := [CExec ''helm'' [''template'', ''--values=values.docs.yaml'', ''.''] [] ''/charts'']\<rparr>"
  have "fst (RenderTasks docsServices docsTemplates docsYaml ''/charts'' ''/docs'' docsWorld) = Ok ()" by code_simp
  then obtain w' where run: "RenderTasks docsServices docsTemplates docsYaml ''/charts'' ''/docs'' docsWorld = (Ok (), w')"
    by (cases "RenderTasks docsServices docsTemplates docsYaml ''/charts'' ''/docs'' docsWorld") simp
  have helm: "command_RunInDir docsServices ''helm'' [''template'', ''--values=values.docs.yaml'', ''.''] ''/charts'' docsWorld =
      (Ok (''---A---B'', [], None), ?w1)"
    by (simp add: command_RunInDir_def runCommand_def docsServices_def docsWorld_def)
  have parse: "parseTasks docsYaml ''---A---B'' = Inr [docsTask ''A'', docsTask ''B'']" by code_simp
  have tmpl: "contentAt (filepathJoin [''/docs'', templateName]) ?w1 = Some ''= ''" by code_simp
  have path: "filepathJoin [''/docs'', ''A.adoc''] = ''/docs/A.adoc''" "last (Split (filepathJoin [''/docs'', templateName]) ''/'') = templateName"
    by code_simp+
  have "\<exists>tmpl body. contentAt (filepathJoin [''/docs'', templateName]) ?w1 = Some tmpl \<and> te_Execute docsTemplates tmpl (taskDoc (docsTask ''A'')) = (body, None) \<and>
      contentAt (filepathJoin [''/docs'', tt_Name (docsTask ''A'') @ ''.adoc'']) w' =
        Some (docHeader (last (Split (filepathJoin [''/docs'', templateName]) ''/'')) @ body)"
    using RenderTasks_files [OF run _ helm] unfolding parse by (auto simp: docsTask_def)
  with tmpl path run show ?thesis by (auto simp: docsTask_def docsTemplates_def taskDoc_def)
qed

end
