(* ===== verification/Directory.thy ===== *)
theory Directory
  imports PipelineCtxt
begin

text \<open>
  \<open>internal/directory/copy.go\<close>: copying a directory, and copying it to a fresh temporary directory.
  A copy into a directory inside its source does not return, so the recursion is one into the
  option type: \<open>None\<close> is not to return.  Owners and modes are not part of the file tree; whether
  they may be set is a parameter.  Symbolic links are not part of it either: \<open>os.Stat\<close> follows
  them, so the case of the code for links is never reached.
\<close>

section \<open>Programs that may not return\<close>

type_synonym ('w, 'a) maybe_returns = "'w \<Rightarrow> ('a outcome \<times> 'w) option"

type_synonym 'a may = "(world, 'a) maybe_returns"

definition total :: "('w, 'a) prog \<Rightarrow> ('w, 'a) maybe_returns" where
  "total m w = Some (m w)"

definition bindM :: "('w, 'a) maybe_returns \<Rightarrow> ('a \<Rightarrow> ('w, 'b) maybe_returns) \<Rightarrow> ('w, 'b) maybe_returns" where
  "bindM m f w = Option.bind (m w) (\<lambda>(r, w'). case r of
       Ok x \<Rightarrow> f x w' | Err e \<Rightarrow> Some (Err e, w') | Exit n \<Rightarrow> Some (Exit n, w') | Panic e \<Rightarrow> Some (Panic e, w'))"

lemma bindM_mono [partial_function_mono]:
  assumes "\<And>w. mono_option (\<lambda>f. m f w)" "\<And>x w. mono_option (\<lambda>f. g x f w)"
  shows "mono_option (\<lambda>f. bindM (m f) (\<lambda>x. g x f) w)"
proof -
  have "mono_option (\<lambda>f. (\<lambda>(r, w'). case r of
       Ok x \<Rightarrow> g x f w' | Err e \<Rightarrow> Some (Err e, w') | Exit n \<Rightarrow> Some (Exit n, w') | Panic e \<Rightarrow> Some (Panic e, w')) rw)" for rw
    by (cases rw; cases "fst rw") (auto intro!: assms(2) option.const_mono)
  then show ?thesis unfolding bindM_def by (intro bind_mono assms(1))
qed

lemma bindM_total [simp]:
  "m w = (Ok x, w') \<Longrightarrow> bindM (total m) f w = f x w'"
  "m w = (Err e, w') \<Longrightarrow> bindM (total m) f w = Some (Err e, w')"
  by (simp_all add: bindM_def total_def)

lemma bindM_Some [simp]:
  "m w = Some (Ok x, w') \<Longrightarrow> bindM m f w = f x w'"
  "m w = Some (Err e, w') \<Longrightarrow> bindM m f w = Some (Err e, w')"
  by (simp_all add: bindM_def)

section \<open>Copying\<close>

text \<open>\<open>os.Lchown\<close> and \<open>os.Chmod\<close>: they need a file, and the permission.\<close>

type_synonym permission = "world \<Rightarrow> string list \<Rightarrow> bool"

definition setAttribute :: "string \<Rightarrow> permission \<Rightarrow> string \<Rightarrow> unit prog_w" where
  "setAttribute op own s w = (case osStat s w of
       StatOk n \<Rightarrow> ((if own w (resolve w s) then Ok () else Err (op @ '' '' @ s @ '': operation not permitted'')), w)
     | NotExist \<Rightarrow> (Err (op @ '' '' @ s @ '': no such file or directory''), w)
     | StatErr e \<Rightarrow> (Err e, w))"

definition osLchown :: "permission \<Rightarrow> string \<Rightarrow> unit prog_w" where
  "osLchown own s = setAttribute ''lchown'' own s"

definition osChmod :: "permission \<Rightarrow> string \<Rightarrow> unit prog_w" where
  "osChmod own s = setAttribute ''chmod'' own s"

definition directory_copyFile :: "string \<Rightarrow> string \<Rightarrow> unit prog_w" where
  "directory_copyFile srcFile dstFile =
     bindP (osCreate dstFile) (\<lambda>_.
     bindP (osOpen srcFile) (\<lambda>_.
     bindP (readFile srcFile) (\<lambda>content.
     writeFile dstFile content)))"

definition directory_exists :: "string \<Rightarrow> world \<Rightarrow> bool" where
  "directory_exists filePath w \<longleftrightarrow> \<not> IsNotExist (osStat filePath w)"

definition createIfNotExists :: "string \<Rightarrow> unit prog_w" where
  "createIfNotExists dir =
     bindP (gets (directory_exists dir)) (\<lambda>ex.
     if ex then ret ()
     else wrapErr (''failed to create directory: '' @ [CHR 0x27] @ dir @ [CHR 0x27] @ '', error: '') (osMkdirAll dir))"

text \<open>\<open>os.Stat\<close> where its result is looked at: whether the file is a directory.\<close>

definition statIsDir :: "string \<Rightarrow> bool prog_w" where
  "statIsDir s w = (case osStat s w of
       StatOk n \<Rightarrow> (Ok (isDirNode n), w)
     | NotExist \<Rightarrow> (Err (''stat '' @ s @ '': no such file or directory''), w)
     | StatErr e \<Rightarrow> (Err e, w))"

text \<open>The loop of \<open>Copy\<close> over the entries of a directory.\<close>

partial_function (option) copyEntries ::
  "permission \<Rightarrow> string \<Rightarrow> string \<Rightarrow> (string \<times> bool) list \<Rightarrow> unit may" where
  "copyEntries own scrDir dest entries w = (case entries of
       [] \<Rightarrow> total (ret ()) w
     | entry # rest \<Rightarrow>
         (let sourcePath = filepathJoin [scrDir, fst entry]; destPath = filepathJoin [dest, fst entry]
          in bindM (total (statIsDir sourcePath)) (\<lambda>isDir.
             bindM (\<lambda>w. if isDir
                    then bindM (total (createIfNotExists destPath)) (\<lambda>_.
                         bindM (total (readDir sourcePath)) (\<lambda>subEntries.
                         copyEntries own sourcePath destPath subEntries)) w
                    else total (directory_copyFile sourcePath destPath) w) (\<lambda>_.
             bindM (total (osLchown own destPath)) (\<lambda>_.
             bindM (total (osChmod own destPath)) (\<lambda>_.
             copyEntries own scrDir dest rest)))) w))"

definition directory_Copy :: "permission \<Rightarrow> string \<Rightarrow> string \<Rightarrow> unit may" where
  "directory_Copy own scrDir dest = bindM (total (readDir scrDir)) (\<lambda>entries. copyEntries own scrDir dest entries)"

text \<open>
  \<open>ioutil.TempDir\<close>: names with a random number in place of the last star of the pattern, or at its
  end, are tried until one is free, at most 10000 times; \<open>rnd i\<close> is the number of attempt \<open>i\<close>.
\<close>

definition prefixAndSuffix :: "string \<Rightarrow> string + string \<times> string" where
  "prefixAndSuffix pattern =
     (if Contains pattern ''/'' then Inl ''pattern contains path separator''
      else if CHR ''*'' \<in> set pattern
      then Inr (rev (tl (dropWhile (\<lambda>c. c \<noteq> CHR ''*'') (rev pattern))), rev (takeWhile (\<lambda>c. c \<noteq> CHR ''*'') (rev pattern)))
      else Inr (pattern, []))"

function tempDirLoop :: "(nat \<Rightarrow> string) \<Rightarrow> string \<Rightarrow> string \<Rightarrow> nat \<Rightarrow> string prog_w" where
  "tempDirLoop rnd pre suf try =
     (let name = pre @ rnd try @ suf
      in bindP (gets (osStat name)) (\<lambda>r.
         if StatSucceeds r
         then (if try + 1 < 10000 then tempDirLoop rnd pre suf (try + 1)
               else failE (''mkdirtemp '' @ pre @ ''*'' @ suf @ '': file already exists''))
         else bindP (osMkdir name) (\<lambda>_. ret name)))"
  by pat_completeness auto
termination by (relation "measure (\<lambda>(rnd, pre, suf, try). 10000 - try)") auto

declare tempDirLoop.simps [simp del]

definition osTempDir :: "world \<Rightarrow> string" where
  "osTempDir w = (if w_getenv w ''TMPDIR'' = [] then ''/tmp'' else w_getenv w ''TMPDIR'')"

definition joinPath :: "string \<Rightarrow> string \<Rightarrow> string" where
  "joinPath dir name = (if HasSuffix dir ''/'' then dir @ name else dir @ ''/'' @ name)"

definition ioutilTempDir :: "(nat \<Rightarrow> string) \<Rightarrow> string \<Rightarrow> string \<Rightarrow> string prog_w" where
  "ioutilTempDir rnd dir pattern =
     bindP (gets (\<lambda>w. if dir = [] then osTempDir w else dir)) (\<lambda>dir'.
     bindP (liftE (prefixAndSuffix pattern)) (\<lambda>(pre, suf).
     tempDirLoop rnd (joinPath dir' pre) suf 0))"

definition CopyToTempDir :: "permission \<Rightarrow> (nat \<Rightarrow> string) \<Rightarrow> string \<Rightarrow> string \<Rightarrow> string \<Rightarrow> string may" where
  "CopyToTempDir own rnd sourceDir destinationBaseDir pattern =
     bindM (total (wrapErr ''could not create temporary directory: '' (ioutilTempDir rnd destinationBaseDir pattern))) (\<lambda>tempDir.
     bindM (\<lambda>w. map_option (\<lambda>(r, w'). (case r of Err e \<Rightarrow> Err (''could not copy source directory: '' @ e) | _ \<Rightarrow> r, w'))
              (directory_Copy own sourceDir tempDir w)) (\<lambda>_.
     total (ret tempDir)))"

section \<open>The shape of a tree\<close>

text \<open>What a path of a tree shows: nothing, a directory, or the content of a file.\<close>

datatype shape = Missing | Directory | Content string

definition shapeOf :: "node option \<Rightarrow> shape" where
  "shapeOf n = (case n of None \<Rightarrow> Missing | Some (Dir es) \<Rightarrow> Directory | Some (File c t) \<Rightarrow> Content c)"

definition shapeAt :: "string list \<Rightarrow> node \<Rightarrow> shape" where
  "shapeAt p n = shapeOf (fs_get p n)"

lemma shapeAt_simps:
  "shapeAt p n = Missing \<longleftrightarrow> fs_get p n = None"
  "shapeAt p n = Directory \<longleftrightarrow> (\<exists>es. fs_get p n = Some (Dir es))"
  "shapeAt p n = Content c \<longleftrightarrow> (\<exists>t. fs_get p n = Some (File c t))"
  by (auto simp: shapeAt_def shapeOf_def split: option.splits node.splits)

lemma leaf_below: "shapeAt p n \<noteq> Directory \<Longrightarrow> strict_prefix p q \<Longrightarrow> fs_get q n = None"
proof -
  assume s: "shapeAt p n \<noteq> Directory"
  assume "strict_prefix p q"
  then obtain a r where q: "q = p @ a # r" by (rule strict_prefixE')
  show "fs_get q n = None"
  proof (cases "fs_get p n")
    case (Some m)
    with s obtain c t where "m = File c t" by (cases m) (auto simp: shapeAt_simps)
    with Some show ?thesis by (simp add: q fs_get_above)
  qed (simp add: q fs_get_above)
qed

text \<open>Putting a file or an empty directory where there is no directory changes the shape there only.\<close>

lemma shapeAt_put:
  assumes "fs_put p v n = Some n'" "shapeAt p n \<noteq> Directory" "v = Dir [] \<or> (\<exists>c t. v = File c t)"
  shows "shapeAt q n' = (if q = p then shapeOf (Some v) else shapeAt q n)"
proof -
  have same: "fs_get p n' = Some v" by (rule fs_get_put_same [OF assms(1)])
  consider "q = p" | "strict_prefix q p" | "strict_prefix p q" | "\<not> prefix p q" "\<not> prefix q p"
    by (auto simp: strict_prefix_def)
  then show ?thesis
  proof cases
    case 1
    with same show ?thesis by (simp add: shapeAt_def)
  next
    case 2
    then show ?thesis using fs_get_put_above [OF assms(1), of q] by (auto simp: shapeAt_def shapeOf_def strict_prefix_def)
  next
    case 3
    then obtain a r where q: "q = p @ a # r" by (rule strict_prefixE')
    have "fs_get q n' = None" using assms(3) same by (auto simp: q fs_get_above)
    moreover have "fs_get q n = None" by (rule leaf_below [OF assms(2) 3])
    ultimately show ?thesis using 3 by (auto simp: shapeAt_def strict_prefix_def)
  next
    case 4
    then show ?thesis using fs_get_put_other [OF assms(1)] by (auto simp: shapeAt_def)
  qed
qed

lemma fs_mkdirs_put:
  "fs_get q n = Some (Dir es) \<Longrightarrow> fs_get (q @ [a]) n = None \<Longrightarrow> fs_mkdirs (q @ [a]) n = fs_put (q @ [a]) (Dir []) n"
proof (induction q arbitrary: n)
  case Nil
  then show ?case by (auto split: option.splits)
next
  case (Cons b q)
  then show ?case by (cases n) (auto split: option.splits)
qed

section \<open>Facts: the steps of a copy\<close>

lemma osStat_get: "\<not> w_faulty w (resolve w s) \<Longrightarrow> osStat s w = StatOk n \<longleftrightarrow> fs_get (resolve w s) (w_root w) = Some n"
  by (simp add: osStat_def fs_get_stat)

lemma missing_stat:
  assumes "\<not> w_faulty w (resolve w d)" "resolve w d = q @ [a]" "shapeAt q (w_root w) = Directory" "shapeAt (q @ [a]) (w_root w) = Missing"
  shows "osStat d w = NotExist"
proof -
  obtain es where es: "fs_stat q (w_root w) = StatOk (Dir es)" using assms(3) by (auto simp: shapeAt_simps fs_get_stat)
  have "fs_get (q @ [a]) (w_root w) = None" using assms(4) by (simp add: shapeAt_simps)
  with es show ?thesis using assms(1) by (auto simp: osStat_def assms(2) fs_stat_append fs_get_def split: option.splits)
qed

lemma createIfNotExists_run:
  assumes "\<not> w_faulty w (resolve w d)" "resolve w d = q @ [a]" "shapeAt q (w_root w) = Directory" "shapeAt (q @ [a]) (w_root w) = Missing"
  shows "\<exists>r. createIfNotExists d w = (Ok (), w\<lparr>w_root := r\<rparr>) \<and> fs_put (q @ [a]) (Dir []) (w_root w) = Some r"
proof -
  obtain es where es: "fs_get q (w_root w) = Some (Dir es)" using assms(3) by (auto simp: shapeAt_simps)
  have none: "fs_get (q @ [a]) (w_root w) = None" using assms(4) by (simp add: shapeAt_simps)
  obtain r where "fs_put (q @ [a]) (Dir []) (w_root w) = Some r" using fs_put_ok [OF es] by blast
  with missing_stat [OF assms] fs_mkdirs_put [OF es none] assms(1,2) show ?thesis
    by (simp add: createIfNotExists_def directory_exists_def IsNotExist_def gets_def bindP_def ret_def osMkdirAll_def wrapErr_def)
qed

lemma writeFile_run:
  assumes "\<not> w_faulty w (resolve w d)" "resolve w d = q @ [a]" "shapeAt q (w_root w) = Directory" "shapeAt (q @ [a]) (w_root w) \<noteq> Directory"
  shows "\<exists>r. writeFile d c w = (Ok (), w\<lparr>w_root := r\<rparr>) \<and> fs_put (q @ [a]) (File c (w_now w)) (w_root w) = Some r"
proof -
  obtain es where es: "fs_get q (w_root w) = Some (Dir es)" using assms(3) by (auto simp: shapeAt_simps)
  obtain r where r: "fs_put (q @ [a]) (File c (w_now w)) (w_root w) = Some r" using fs_put_ok [OF es] by blast
  show ?thesis
  proof (cases "shapeAt (q @ [a]) (w_root w)")
    case Missing
    from missing_stat [OF assms(1-3) this] r assms(2) show ?thesis by (simp add: writeFile_def)
  next
    case (Content x)
    then obtain t where "fs_get (resolve w d) (w_root w) = Some (File x t)" by (auto simp: shapeAt_simps assms(2))
    then have "osStat d w = StatOk (File x t)" using osStat_get [OF assms(1)] by simp
    with r assms(2) show ?thesis by (simp add: writeFile_def)
  qed (use assms(4) in simp)
qed

text \<open>A file copied to where nothing was: the target has its content, and nothing else changes.\<close>

lemma copyFile_run:
  assumes "\<not> w_faulty w (resolve w d)" "resolve w d = q @ [a]" "shapeAt q (w_root w) = Directory" "shapeAt (q @ [a]) (w_root w) = Missing"
    and src: "fs_get (resolve w s) (w_root w) = Some (File c t)" and apart: "\<not> prefix (q @ [a]) (resolve w s)"
  shows "\<exists>r v. directory_copyFile s d w = (v, w\<lparr>w_root := r\<rparr>) \<and>
     (\<forall>p. p \<noteq> q @ [a] \<longrightarrow> shapeAt p r = shapeAt p (w_root w)) \<and>
     (\<forall>p. \<not> prefix (q @ [a]) p \<longrightarrow> \<not> prefix p (q @ [a]) \<longrightarrow> fs_get p r = fs_get p (w_root w)) \<and>
     (v = Ok () \<longrightarrow> shapeAt (q @ [a]) r = Content c) \<and> (\<not> w_faulty w (resolve w s) \<longrightarrow> v = Ok ()) \<and> (\<exists>e. v = Err e \<or> v = Ok ())"
proof -
  have "shapeAt (q @ [a]) (w_root w) \<noteq> Directory" using assms(4) by simp
  from writeFile_run [OF assms(1-3) this, of "[]"] obtain r1 where
    1: "osCreate d w = (Ok (), w\<lparr>w_root := r1\<rparr>)" and p1: "fs_put (q @ [a]) (File [] (w_now w)) (w_root w) = Some r1"
    by (auto simp: osCreate_def)
  let ?w1 = "w\<lparr>w_root := r1\<rparr>"
  have sh1: "shapeAt p r1 = (if p = q @ [a] then Content [] else shapeAt p (w_root w))" for p
    using shapeAt_put [OF p1 \<open>shapeAt (q @ [a]) (w_root w) \<noteq> Directory\<close>] by (simp add: shapeOf_def)
  have up: "\<not> prefix (resolve w s) (q @ [a])"
  proof
    assume "prefix (resolve w s) (q @ [a])"
    with apart have "strict_prefix (resolve w s) (q @ [a])" by (auto simp: strict_prefix_def)
    then have "prefix (resolve w s) q" by (auto simp: strict_prefix_def prefix_snoc)
    moreover have "shapeAt (resolve w s) (w_root w) \<noteq> Directory" using src by (auto simp: shapeAt_simps)
    ultimately show False using leaf_below [of "resolve w s" "w_root w" q] assms(3)
      by (cases "resolve w s = q") (auto simp: shapeAt_simps strict_prefix_def)
  qed
  have src1: "fs_get (resolve w s) r1 = Some (File c t)"
    using fs_get_put_other [OF p1 apart up] src by simp
  have q1: "shapeAt q r1 = Directory" using sh1 assms(3) by auto
  show ?thesis
  proof (cases "w_faulty w (resolve w s)")
    case True
    then have "\<exists>e. directory_copyFile s d w = (Err e, ?w1)"
      using 1 by (simp add: directory_copyFile_def osOpen_def osStat_def)
    then obtain e where run: "directory_copyFile s d w = (Err e, ?w1)" ..
    moreover have "\<forall>p. \<not> prefix (q @ [a]) p \<longrightarrow> \<not> prefix p (q @ [a]) \<longrightarrow> fs_get p r1 = fs_get p (w_root w)"
      using fs_get_put_other [OF p1] by simp
    ultimately show ?thesis using True sh1 by (intro exI [of _ r1] exI [of _ "Err e"]) simp
  next
    case False
    then have st: "osStat s ?w1 = StatOk (File c t)" using osStat_get [of ?w1 s] src1 by simp
    have "shapeAt (q @ [a]) (w_root ?w1) \<noteq> Directory" using sh1 by simp
    from writeFile_run [of ?w1 d q a c] this obtain r2 where
      2: "writeFile d c ?w1 = (Ok (), w\<lparr>w_root := r2\<rparr>)" and p2: "fs_put (q @ [a]) (File c (w_now w)) r1 = Some r2"
      using assms(1,2) q1 by auto
    have run: "directory_copyFile s d w = (Ok (), w\<lparr>w_root := r2\<rparr>)"
      using 1 st 2 by (simp add: directory_copyFile_def osOpen_def readFile_def)
    have "shapeAt p r2 = (if p = q @ [a] then Content c else shapeAt p (w_root w))" for p
      using shapeAt_put [OF p2] sh1 by (simp add: shapeOf_def)
    moreover have "\<forall>p. \<not> prefix (q @ [a]) p \<longrightarrow> \<not> prefix p (q @ [a]) \<longrightarrow> fs_get p r2 = fs_get p (w_root w)"
      using fs_get_put_other [OF p1] fs_get_put_other [OF p2] by simp
    ultimately show ?thesis using run by (intro exI [of _ r2] exI [of _ "Ok ()"]) simp
  qed
qed

lemma setAttribute_run:
  assumes "\<not> w_faulty w (resolve w s)" "shapeAt (resolve w s) (w_root w) \<noteq> Missing"
  shows "\<exists>v. setAttribute op own s w = (v, w) \<and> (own w (resolve w s) \<longrightarrow> v = Ok ()) \<and> (\<exists>e. v = Err e \<or> v = Ok ())"
proof -
  obtain n where "fs_get (resolve w s) (w_root w) = Some n" using assms(2) by (cases "fs_get (resolve w s) (w_root w)") (auto simp: shapeAt_simps)
  then have "osStat s w = StatOk n" using osStat_get [OF assms(1)] by simp
  then show ?thesis by (auto simp: setAttribute_def)
qed

section \<open>Facts: what a copy does\<close>

text \<open>
  \<open>copies own S D N w r w'\<close>: of the directory \<open>S\<close> the entries named in \<open>N\<close> were copied to the
  directory \<open>D\<close>, with the result \<open>r\<close>.  Nothing but the copies changed; a copy that succeeded has
  the shape of its source, and without faults and with all permissions it succeeds.
\<close>

definition copies :: "permission \<Rightarrow> string list \<Rightarrow> string list \<Rightarrow> string set \<Rightarrow> world \<Rightarrow> unit outcome \<Rightarrow> world \<Rightarrow> bool" where
  "copies own S D N w r w' \<longleftrightarrow> only_files w w' \<and>
     (\<forall>p. (\<forall>n\<in>N. \<not> prefix (D @ [n]) p) \<longrightarrow> shapeAt p (w_root w') = shapeAt p (w_root w)) \<and>
     (\<forall>p. \<not> prefix D p \<longrightarrow> \<not> prefix p D \<longrightarrow> fs_get p (w_root w') = fs_get p (w_root w)) \<and>
     (r = Ok () \<longrightarrow> (\<forall>n\<in>N. \<forall>q. shapeAt (D @ n # q) (w_root w') = shapeAt (S @ n # q) (w_root w))) \<and>
     ((\<forall>p. \<not> w_faulty w p) \<longrightarrow> (\<forall>v p. own v p) \<longrightarrow> r = Ok ()) \<and> (\<exists>e. r = Err e \<or> r = Ok ())"

abbreviation apart :: "string list \<Rightarrow> string list \<Rightarrow> bool" where
  "apart p q \<equiv> \<not> prefix p q \<and> \<not> prefix q p"

lemma apart_below1: "apart p q \<Longrightarrow> \<not> prefix (p @ x) (q @ y)"
  using prefix_same_cases [of p "q @ y" q] by (auto dest: append_prefixD)

lemma apart_below: "apart p q \<Longrightarrow> apart (p @ x) (q @ y)"
  by (simp add: apart_below1)

lemma copies_none: "copies own S D {} w (Ok ()) w"
  by (simp add: copies_def fo.refl)

lemma copies_failed: "copies own S D {n} w (Err e) w' \<Longrightarrow> copies own S D (insert n N) w (Err e) w'"
  by (auto simp: copies_def)

lemma copies_Cons:
  assumes one: "copies own S D {n} w (Ok ()) w1" and rest: "copies own S D N w1 r w'" and "n \<notin> N" "apart S D"
  shows "copies own S D (insert n N) w r w'"
proof -
  have f: "w_faulty w1 = w_faulty w" using one by (auto simp: copies_def only_files_def)
  have src: "shapeAt (S @ q) (w_root w1) = shapeAt (S @ q) (w_root w)" for q
    using one apart_below1 [of D S "[n]" q] assms(4) by (auto simp: copies_def)
  have "\<forall>m\<in>N. \<not> prefix (D @ [m]) (D @ n # q)" for q using assms(3) by auto
  then have fst: "shapeAt (D @ n # q) (w_root w') = shapeAt (D @ n # q) (w_root w1)" for q
    using rest unfolding copies_def by blast
  show ?thesis
    using one rest fo.trans [of w w1 w'] src fst unfolding copies_def f by auto
qed

text \<open>One entry, and the loop as one entry after the other.\<close>

definition copyEntry :: "permission \<Rightarrow> string \<Rightarrow> string \<Rightarrow> string \<times> bool \<Rightarrow> unit may" where
  "copyEntry own scrDir dest entry =
     (let sourcePath = filepathJoin [scrDir, fst entry]; destPath = filepathJoin [dest, fst entry]
      in bindM (total (statIsDir sourcePath)) (\<lambda>isDir.
         bindM (\<lambda>w. if isDir
                then bindM (total (createIfNotExists destPath)) (\<lambda>_.
                     bindM (total (readDir sourcePath)) (\<lambda>subEntries.
                     copyEntries own sourcePath destPath subEntries)) w
                else total (directory_copyFile sourcePath destPath) w) (\<lambda>_.
         bindM (total (osLchown own destPath)) (\<lambda>_.
         total (osChmod own destPath)))))"

lemma attributes_run:
  assumes "\<not> w_faulty w (resolve w s)" "shapeAt (resolve w s) (w_root w) \<noteq> Missing"
  shows "\<exists>v. bindM (total (osLchown own s)) (\<lambda>_. total (osChmod own s)) w = Some (v, w) \<and>
    ((\<forall>v p. own v p) \<longrightarrow> v = Ok ()) \<and> (\<exists>e. v = Err e \<or> v = Ok ())"
proof -
  obtain v1 v2 where "osLchown own s w = (v1, w)" "osChmod own s w = (v2, w)"
    "own w (resolve w s) \<longrightarrow> v1 = Ok () \<and> v2 = Ok ()" "\<exists>e. v1 = Err e \<or> v1 = Ok ()" "\<exists>e. v2 = Err e \<or> v2 = Ok ()"
    unfolding osLchown_def osChmod_def
    using setAttribute_run [OF assms, of "''lchown''" own] setAttribute_run [OF assms, of "''chmod''" own] by blast
  then show ?thesis by (auto simp: total_def)
qed

lemma bindM_assoc: "bindM (bindM m f) g = bindM m (\<lambda>x. bindM (f x) g)"
  by (auto simp: bindM_def fun_eq_iff bind_eq_None_conv split: Option.bind_splits outcome.splits)

lemma copyEntries_Cons:
  "copyEntries own s d (e # es) = bindM (copyEntry own s d e) (\<lambda>_. copyEntries own s d es)"
proof (rule ext)
  fix w
  show "copyEntries own s d (e # es) w = bindM (copyEntry own s d e) (\<lambda>_. copyEntries own s d es) w"
    unfolding copyEntry_def Let_def bindM_assoc copyEntries.simps [of own s d "e # es"] list.case by (rule refl)
qed

lemma copyEntries_Nil: "copyEntries own s d [] w = Some (Ok (), w)"
  by (subst copyEntries.simps) (simp add: total_def ret_def)

definition ready :: "string \<Rightarrow> string \<Rightarrow> string list \<Rightarrow> string list \<Rightarrow> world \<Rightarrow> bool" where
  "ready s d S D w \<longleftrightarrow> s \<noteq> [] \<and> d \<noteq> [] \<and> resolve w s = S \<and> resolve w d = D \<and> apart S D \<and>
     (\<forall>p. prefix D p \<longrightarrow> \<not> w_faulty w p) \<and> shapeAt D (w_root w) = Directory"

lemma ready_paths:
  assumes "ready s d S D w" "legalName n"
  shows "resolve w (filepathJoin [s, n]) = S @ [n]" "resolve w (filepathJoin [d, n]) = D @ [n]"
    "filepathJoin [s, n] \<noteq> []" "filepathJoin [d, n] \<noteq> []"
  using assms Join_resolve [OF assms(2)] legal_ne [OF assms(2)]
  by (auto simp: ready_def filepathJoin_def Clean_ne)

lemma ready_sub:
  assumes "ready s d S D w" "legalName n" "shapeAt (D @ [n]) root = Directory"
  shows "ready (filepathJoin [s, n]) (filepathJoin [d, n]) (S @ [n]) (D @ [n]) (w\<lparr>w_root := root\<rparr>)"
  using assms ready_paths [OF assms(1,2)] apart_below [of S D "[n]" "[n]"] unfolding ready_def
  by (auto dest: append_prefixD)

text \<open>All entries of a directory copied into an empty one: the two have the same shape throughout.\<close>

lemma copies_whole:
  assumes cp: "copies own S D (fst ` set es) w (Ok ()) w'" and src: "fs_get S (w_root w) = Some (Dir es)"
    and free: "\<forall>k. shapeAt (D @ [k]) (w_root w) = Missing" and D: "shapeAt D (w_root w) = Directory"
  shows "shapeAt (D @ q) (w_root w') = shapeAt (S @ q) (w_root w)"
proof -
  have frame: "shapeAt p (w_root w') = shapeAt p (w_root w)" if "\<forall>k\<in>fst ` set es. \<not> prefix (D @ [k]) p" for p
    using cp that by (simp add: copies_def)
  show ?thesis
  proof (cases q)
    case Nil
    moreover have "shapeAt S (w_root w) = Directory" using src by (simp add: shapeAt_simps)
    ultimately show ?thesis using frame [of D] D by simp
  next
    case (Cons k x)
    show ?thesis
    proof (cases "k \<in> fst ` set es")
      case True
      then show ?thesis using cp Cons by (auto simp: copies_def)
    next
      case False
      then have "shapeAt (D @ q) (w_root w') = shapeAt (D @ q) (w_root w)" using frame [of "D @ q"] Cons by auto
      moreover have "map_of es k = None" using False by (simp add: map_of_eq_None_iff)
      then have "fs_get (S @ q) (w_root w) = None" using fs_get_above [of S q "w_root w"] src Cons by simp
      moreover have "fs_get (D @ q) (w_root w) = None"
        using fs_get_above [of "D @ [k]" x "w_root w"] free Cons by (simp add: shapeAt_simps)
      ultimately show ?thesis by (simp add: shapeAt_def)
    qed
  qed
qed

lemma copyDir_copies:
  assumes rd: "ready s d S D w" and n: "legalName n" and free: "shapeAt (D @ [n]) (w_root w) = Missing"
    and src: "fs_get (S @ [n]) (w_root w) = Some (Dir es)" "\<not> w_faulty w (S @ [n])"
  defines "s' \<equiv> filepathJoin [s, n]" and "d' \<equiv> filepathJoin [d, n]"
  assumes sub: "\<And>w1. ready s' d' (S @ [n]) (D @ [n]) w1 \<Longrightarrow> fs_get (S @ [n]) (w_root w1) = Some (Dir es) \<Longrightarrow>
      \<forall>k. shapeAt (D @ [n, k]) (w_root w1) = Missing \<Longrightarrow>
      \<exists>r w'. copyEntries own s' d' (dirEntries es) w1 = Some (r, w') \<and> copies own (S @ [n]) (D @ [n]) (fst ` set es) w1 r w'"
  shows "\<exists>r w'. bindM (total (createIfNotExists d')) (\<lambda>_. bindM (total (readDir s')) (copyEntries own s' d')) w = Some (r, w') \<and>
      copies own S D {n} w r w'"
proof -
  note paths = ready_paths [OF rd n, folded s'_def d'_def]
  have ap: "apart S D" and ok: "\<And>p. prefix D p \<Longrightarrow> \<not> w_faulty w p" and D: "shapeAt D (w_root w) = Directory"
    using rd by (simp_all add: ready_def)
  obtain r1 where c: "createIfNotExists d' w = (Ok (), w\<lparr>w_root := r1\<rparr>)" and p: "fs_put (D @ [n]) (Dir []) (w_root w) = Some r1"
    using createIfNotExists_run [of w d', OF _ paths(2) D free] ok paths(2) by auto
  let ?w1 = "w\<lparr>w_root := r1\<rparr>"
  have sh1: "shapeAt q r1 = (if q = D @ [n] then Directory else shapeAt q (w_root w))" for q
    using shapeAt_put [OF p] free by (simp add: shapeOf_def)
  have same: "fs_get q r1 = fs_get q (w_root w)" if "apart q (D @ [n])" for q
    using fs_get_put_other [OF p] that by blast
  have src1: "fs_get (S @ [n]) r1 = Some (Dir es)" using same src(1) apart_below [OF ap] by metis
  have "osStat s' ?w1 = StatOk (Dir es)" using osStat_get [of ?w1 s'] src1 src(2) paths(1) by simp
  then have ent: "readDir s' ?w1 = (Ok (dirEntries es), ?w1)" by (simp add: readDir_def)
  have below: "fs_get (D @ n # x) (w_root w) = None" for x
    using leaf_below [of "D @ [n]" "w_root w" "D @ n # x"] free by (cases x) (auto simp: shapeAt_simps strict_prefix_def)
  have free1: "\<forall>k. shapeAt (D @ [n, k]) r1 = Missing"
    using below unfolding sh1 by (simp add: shapeAt_simps)
  with sub [of ?w1] ready_sub [OF rd n, of r1] sh1 src1 obtain r w' where
    run: "copyEntries own s' d' (dirEntries es) ?w1 = Some (r, w')" and
    cp: "copies own (S @ [n]) (D @ [n]) (fst ` set es) ?w1 r w'" by (auto simp: s'_def d'_def)
  have outside: "shapeAt q (w_root w') = shapeAt q (w_root w)" if "\<not> prefix (D @ [n]) q" for q
  proof -
    have "\<forall>k. \<not> prefix (D @ [n, k]) q" using that append_prefixD [of "D @ [n]"] by auto
    then have "shapeAt q (w_root w') = shapeAt q r1" using cp by (simp add: copies_def)
    then show ?thesis using sh1 that by auto
  qed
  have inside: "shapeAt (D @ n # q) (w_root w') = shapeAt (S @ n # q) (w_root w)" if "r = Ok ()" for q
  proof -
    have "shapeAt (D @ n # q) (w_root w') = shapeAt (S @ n # q) r1"
      using copies_whole [OF cp [unfolded that], of q] src1 free1 sh1 by simp
    also have "\<dots> = shapeAt (S @ n # q) (w_root w)"
      using same [of "S @ n # q"] apart_below [OF ap, of "n # q" "[n]"] by (simp add: shapeAt_def)
    finally show ?thesis .
  qed
  have far: "fs_get q (w_root w') = fs_get q (w_root w)" if "apart D q" for q
    using cp same [of q] apart_below [OF that, of "[n]" "[]"] by (auto simp: copies_def)
  have "copies own S D {n} w r w'"
    using cp outside inside far by (auto simp: copies_def only_files_def)
  moreover have "bindM (total (createIfNotExists d')) (\<lambda>_. bindM (total (readDir s')) (copyEntries own s' d')) w = Some (r, w')"
    using c ent run by simp
  ultimately show ?thesis by blast
qed

lemma copied_file:
  assumes "apart S D" "shapeAt (D @ [n]) (w_root w) = Missing" "fs_get (S @ [n]) (w_root w) = Some (File c t)"
    and sh: "\<forall>p. p \<noteq> D @ [n] \<longrightarrow> shapeAt p root = shapeAt p (w_root w)"
    and far: "\<forall>p. apart p (D @ [n]) \<longrightarrow> fs_get p root = fs_get p (w_root w)" and new: "shapeAt (D @ [n]) root = Content c"
  shows "copies own S D {n} w (Ok ()) (w\<lparr>w_root := root\<rparr>)"
proof -
  have "shapeAt (D @ n # q) root = shapeAt (S @ n # q) (w_root w)" for q
  proof (cases q)
    case Nil
    then show ?thesis using new assms(3) by (simp add: shapeAt_def shapeOf_def)
  next
    case (Cons k x)
    then have "fs_get (D @ n # q) root = None" "fs_get (S @ n # q) (w_root w) = None"
      using leaf_below [of "D @ [n]" root "D @ n # q"] new fs_get_above [of "S @ [n]" q "w_root w"] assms(3)
      by (auto simp: strict_prefix_def)
    then show ?thesis by (simp add: shapeAt_def)
  qed
  moreover have "shapeAt p root = shapeAt p (w_root w)" if "\<not> prefix (D @ [n]) p" for p
    using sh that by auto
  moreover have "apart p (D @ [n])" if "apart D p" for p
    using apart_below [OF that, of "[n]" "[]"] by simp
  ultimately show ?thesis using far by (auto simp: copies_def only_files_def)
qed

lemma copyEntry_copies:
  assumes rd: "ready s d S D w" and n: "legalName n" and free: "shapeAt (D @ [n]) (w_root w) = Missing"
    and src: "fs_get (S @ [n]) (w_root w) = Some m"
    and sub: "\<And>es w1. m = Dir es \<Longrightarrow> ready (filepathJoin [s, n]) (filepathJoin [d, n]) (S @ [n]) (D @ [n]) w1 \<Longrightarrow>
      fs_get (S @ [n]) (w_root w1) = Some (Dir es) \<Longrightarrow> \<forall>k. shapeAt (D @ [n, k]) (w_root w1) = Missing \<Longrightarrow>
      \<exists>r w'. copyEntries own (filepathJoin [s, n]) (filepathJoin [d, n]) (dirEntries es) w1 = Some (r, w') \<and>
        copies own (S @ [n]) (D @ [n]) (fst ` set es) w1 r w'"
  shows "\<exists>r w'. copyEntry own s d (n, b) w = Some (r, w') \<and> copies own S D {n} w r w'"
proof -
  define s' d' where "s' = filepathJoin [s, n]" and "d' = filepathJoin [d, n]"
  note paths = ready_paths [OF rd n, folded s'_def d'_def]
  have ap: "apart S D" and ok: "\<And>p. prefix D p \<Longrightarrow> \<not> w_faulty w p" and D: "shapeAt D (w_root w) = Directory"
    using rd by (simp_all add: ready_def)
  have up: "\<not> prefix (D @ [n]) (S @ [n])" using apart_below1 ap by blast
  let ?body = "\<lambda>isDir w. if isDir then bindM (total (createIfNotExists d')) (\<lambda>_. bindM (total (readDir s')) (copyEntries own s' d')) w
     else total (directory_copyFile s' d') w"
  let ?attrs = "bindM (total (osLchown own d')) (\<lambda>_. total (osChmod own d'))"
  have split: "copyEntry own s d (n, b) = bindM (total (statIsDir s')) (\<lambda>isDir. bindM (?body isDir) (\<lambda>_. ?attrs))"
    unfolding copyEntry_def s'_def d'_def Let_def fst_conv by (rule refl)
  show ?thesis
  proof (cases "w_faulty w (S @ [n])")
    case True
    then obtain e where "statIsDir s' w = (Err e, w)" using paths(1) by (auto simp: statIsDir_def osStat_def)
    then show ?thesis using True unfolding split by (auto simp: copies_def fo.refl)
  next
    case False
    then have "osStat s' w = StatOk m" using osStat_get [of w s'] src paths(1) by simp
    then have st: "statIsDir s' w = (Ok (isDirNode m), w)" by (simp add: statIsDir_def)
    obtain r w1 where body: "?body (isDirNode m) w = Some (r, w1)" and cp: "copies own S D {n} w r w1"
    proof (cases m)
      case (File c t)
      have okd: "\<not> w_faulty w (resolve w d')" using ok paths(2) by simp
      obtain root v where "directory_copyFile s' d' w = (v, w\<lparr>w_root := root\<rparr>)"
        and "\<forall>p. p \<noteq> D @ [n] \<longrightarrow> shapeAt p root = shapeAt p (w_root w)"
        and "\<forall>p. \<not> prefix (D @ [n]) p \<longrightarrow> \<not> prefix p (D @ [n]) \<longrightarrow> fs_get p root = fs_get p (w_root w)"
        and "shapeAt (D @ [n]) root = Content c" "v = Ok ()"
        using copyFile_run [OF okd paths(2) D free, of s' c t] src File False up paths(1) by auto
      moreover from this have "copies own S D {n} w (Ok ()) (w\<lparr>w_root := root\<rparr>)"
        using copied_file [OF ap free src [unfolded File]] by blast
      ultimately show thesis using File by (intro that [of "Ok ()" "w\<lparr>w_root := root\<rparr>"]) (simp_all add: total_def)
    next
      case (Dir es)
      have "fs_get (S @ [n]) (w_root w) = Some (Dir es)" using src Dir by simp
      from copyDir_copies [OF rd n free this False sub [OF Dir]] obtain r w1 where
        "bindM (total (createIfNotExists d')) (\<lambda>_. bindM (total (readDir s')) (copyEntries own s' d')) w = Some (r, w1)"
        "copies own S D {n} w r w1" unfolding s'_def d'_def by blast
      then show thesis using Dir by (intro that [of r w1]) simp_all
    qed
    show ?thesis
    proof (cases "r = Ok ()")
      case True
      then have "shapeAt (D @ [n]) (w_root w1) = shapeAt (S @ [n]) (w_root w)" "only_files w w1"
        using cp unfolding copies_def by (metis insertI1, blast)
      moreover have "shapeAt (S @ [n]) (w_root w) \<noteq> Missing" using src by (simp add: shapeAt_simps)
      ultimately have ex: "shapeAt (resolve w1 d') (w_root w1) \<noteq> Missing" "resolve w1 d' = D @ [n]" "w_faulty w1 = w_faulty w"
        using paths by (auto simp: only_files_def)
      with ok have "\<not> w_faulty w1 (resolve w1 d')" by simp
      from attributes_run [OF this ex(1)] obtain v where
        "?attrs w1 = Some (v, w1)" "(\<forall>v p. own v p) \<longrightarrow> v = Ok ()" "\<exists>e. v = Err e \<or> v = Ok ()"
        by blast
      with st body cp True show ?thesis unfolding split by (auto simp: copies_def)
    next
      case False
      then obtain e where "r = Err e" using cp unfolding copies_def by blast
      with st body cp show ?thesis unfolding split by auto
    qed
  qed
qed

text \<open>The loop, for entries not copied yet; the copies of the directories are the induction hypothesis.\<close>

lemma copyEntries_loop:
  assumes "ready s d S D w" "fs_get S (w_root w) = Some (Dir es)" "legalTree (Dir es)"
    and "distinct (map fst ns)" "fst ` set ns \<subseteq> fst ` set es" "\<forall>n\<in>fst ` set ns. shapeAt (D @ [n]) (w_root w) = Missing"
    and sub: "\<And>n m es' s d S D w. (n, m) \<in> set es \<Longrightarrow> m = Dir es' \<Longrightarrow> ready s d S D w \<Longrightarrow> fs_get S (w_root w) = Some (Dir es') \<Longrightarrow>
      \<forall>k. shapeAt (D @ [k]) (w_root w) = Missing \<Longrightarrow>
      \<exists>r w'. copyEntries own s d (dirEntries es') w = Some (r, w') \<and> copies own S D (fst ` set es') w r w'"
  shows "\<exists>r w'. copyEntries own s d ns w = Some (r, w') \<and> copies own S D (fst ` set ns) w r w'"
  using assms(1,2,4-6)
proof (induction ns arbitrary: w)
  case Nil
  show ?case by (simp add: copyEntries_Nil copies_none)
next
  case (Cons e ns)
  obtain n b where e: "e = (n, b)" by (cases e)
  with Cons.prems(4) obtain m where m: "map_of es n = Some m" by (cases "map_of es n") (auto simp: map_of_eq_None_iff)
  then have mem: "(n, m) \<in> set es" by (rule map_of_SomeD)
  have n: "legalName n" using assms(3) mem by auto
  have ap: "apart S D" using Cons.prems(1) by (simp add: ready_def)
  have src: "fs_get (S @ [n]) (w_root w) = Some m" using Cons.prems(2) m by (simp add: fs_get_above)
  have "\<exists>r w'. copyEntry own s d (n, b) w = Some (r, w') \<and> copies own S D {n} w r w'"
    using Cons.prems(5) e by (intro copyEntry_copies [OF Cons.prems(1) n _ src] sub [OF mem]) auto
  then obtain r w1 where one: "copyEntry own s d e w = Some (r, w1)" and cp: "copies own S D {n} w r w1"
    unfolding e by blast
  show ?case
  proof (cases "r = Ok ()")
    case True
    have fo: "only_files w w1" and sh: "\<And>p. \<not> prefix (D @ [n]) p \<Longrightarrow> shapeAt p (w_root w1) = shapeAt p (w_root w)"
      and far: "\<And>p. apart D p \<Longrightarrow> fs_get p (w_root w1) = fs_get p (w_root w)" using cp by (auto simp: copies_def)
    have "ready s d S D w1" using Cons.prems(1) fo sh [of D] by (auto simp: ready_def only_files_def)
    moreover have "fs_get S (w_root w1) = Some (Dir es)" using far [of S] ap Cons.prems(2) by simp
    moreover have "shapeAt (D @ [k]) (w_root w1) = Missing" if "k \<in> fst ` set ns" for k
    proof -
      from that Cons.prems(3) e have "k \<noteq> n" by auto
      then show ?thesis using sh [of "D @ [k]"] that Cons.prems(5) by auto
    qed
    ultimately obtain r' w' where "copyEntries own s d ns w1 = Some (r', w')" "copies own S D (fst ` set ns) w1 r' w'"
      using Cons.IH [of w1] Cons.prems(3,4) by auto
    moreover from this(2) have "copies own S D (insert n (fst ` set ns)) w r' w'"
      using Cons.prems(3) e by (intro copies_Cons [OF cp [unfolded True] _ _ ap]) auto
    ultimately show ?thesis using one True e by (simp add: copyEntries_Cons)
  next
    case False
    then obtain x where "r = Err x" using cp by (auto simp: copies_def)
    with one cp e copies_failed show ?thesis by (auto simp: copyEntries_Cons)
  qed
qed

lemma dirEntries_distinct: "distinct (map fst (dirEntries es))"
  by (simp add: dirEntries_def comp_def)

lemma dirEntries_fst: "fst ` set (dirEntries es) = fst ` set es"
  by (force simp: dirEntries_def)

lemma copyEntries_copies:
  assumes "legalTree m" "m = Dir es" "ready s d S D w" "fs_get S (w_root w) = Some m" "\<forall>k. shapeAt (D @ [k]) (w_root w) = Missing"
  shows "\<exists>r w'. copyEntries own s d (dirEntries es) w = Some (r, w') \<and> copies own S D (fst ` set es) w r w'"
  using assms
proof (induction m arbitrary: es s d S D w)
  case (File c t)
  then show ?case by simp
next
  case (Dir es0)
  from Dir.prems(2) have es: "es0 = es" by simp
  have "\<exists>r w'. copyEntries own s d (dirEntries es) w = Some (r, w') \<and> copies own S D (fst ` set (dirEntries es)) w r w'"
  proof (rule copyEntries_loop)
    show "ready s d S D w" "fs_get S (w_root w) = Some (Dir es)" "legalTree (Dir es)" using Dir.prems es by simp_all
    show "distinct (map fst (dirEntries es))" by (rule dirEntries_distinct)
    show "fst ` set (dirEntries es) \<subseteq> fst ` set es" by (simp add: dirEntries_fst)
    show "\<forall>n\<in>fst ` set (dirEntries es). shapeAt (D @ [n]) (w_root w) = Missing" using Dir.prems(5) by simp
    show "\<exists>r w'. copyEntries own s d (dirEntries es') w = Some (r, w') \<and> copies own S D (fst ` set es') w r w'"
      if "(n, m) \<in> set es" "m = Dir es'" "ready s d S D w" "fs_get S (w_root w) = Some (Dir es')"
        "\<forall>k. shapeAt (D @ [k]) (w_root w) = Missing" for n m es' s d S D w
    proof -
      have "legalTree m" using Dir.prems(1) that(1) es by auto
      with Dir.IH [of "(n, m)" m es' s d S D w] that es show ?thesis by simp
    qed
  qed
  then show ?case by (simp add: dirEntries_fst)
qed

text \<open>The temporary directory: a new, empty one, or none because all names tried are taken.\<close>

lemma tempDirLoop_run:
  assumes base: "base \<noteq> []" "shapeAt B (w_root w) = Directory" "resolve w base = B" "\<forall>p. prefix B p \<longrightarrow> \<not> w_faulty w p"
    and names: "\<And>i. legalName (pre @ rnd i @ suf)"
  shows "(\<exists>e. tempDirLoop rnd (base @ ''/'' @ pre) suf i w = (Err e, w) \<and>
       (\<forall>j. i \<le> j \<longrightarrow> j < 10000 \<longrightarrow> shapeAt (B @ [pre @ rnd j @ suf]) (w_root w) \<noteq> Missing)) \<or>
    (\<exists>j root. tempDirLoop rnd (base @ ''/'' @ pre) suf i w = (Ok (base @ ''/'' @ pre @ rnd j @ suf), w\<lparr>w_root := root\<rparr>) \<and>
       shapeAt (B @ [pre @ rnd j @ suf]) (w_root w) = Missing \<and> fs_put (B @ [pre @ rnd j @ suf]) (Dir []) (w_root w) = Some root)"
    (is "?full i \<or> ?made i")
proof (induction "10000 - i" arbitrary: i rule: less_induct)
  case less
  let ?n = "pre @ rnd i @ suf" and ?p = "(base @ ''/'' @ pre) @ rnd i @ suf"
  have at: "resolve w ?p = B @ [?n]"
    using resolve_append [OF base(1), of w ?n] stepInto_plain1 [of ?n B] names [of i] base(3)
    by (simp add: legalName_def)
  have ok: "\<not> w_faulty w (resolve w ?p)" using base(4) at by simp
  have step: "tempDirLoop rnd (base @ ''/'' @ pre) suf i w = (if StatSucceeds (osStat ?p w)
      then (if i + 1 < 10000 then tempDirLoop rnd (base @ ''/'' @ pre) suf (i + 1) w
            else (Err (''mkdirtemp '' @ (base @ ''/'' @ pre) @ ''*'' @ suf @ '': file already exists''), w))
      else bindP (osMkdir ?p) (\<lambda>_. ret ?p) w)"
    by (subst tempDirLoop.simps) (simp add: Let_def gets_def bindP_def failE_def)
  show ?case
  proof (cases "shapeAt (B @ [?n]) (w_root w) = Missing")
    case True
    obtain es where es: "fs_get B (w_root w) = Some (Dir es)" using base(2) by (auto simp: shapeAt_simps)
    from fs_put_ok [OF this] obtain root where root: "fs_put (B @ [?n]) (Dir []) (w_root w) = Some root" by blast
    have none: "osStat ?p w = NotExist" by (rule missing_stat [OF ok at base(2) True])
    have "tempDirLoop rnd (base @ ''/'' @ pre) suf i w = (Ok (base @ ''/'' @ ?n), w\<lparr>w_root := root\<rparr>)"
      unfolding step using none root at by (simp add: StatSucceeds_def osMkdir_def bindP_def ret_def)
    with True root show ?thesis by blast
  next
    case False
    then obtain n where "fs_get (resolve w ?p) (w_root w) = Some n" unfolding at by (auto simp: shapeAt_simps)
    then have st: "osStat ?p w = StatOk n" using osStat_get [OF ok] by simp
    show ?thesis
    proof (cases "i + 1 < 10000")
      case True
      then have "?full (i + 1) \<or> ?made (i + 1)" by (intro less) simp
      moreover have "tempDirLoop rnd (base @ ''/'' @ pre) suf i w = tempDirLoop rnd (base @ ''/'' @ pre) suf (i + 1) w"
        using True st unfolding step by (simp add: StatSucceeds_def)
      moreover have "j = i \<or> i + 1 \<le> j" if "i \<le> j" for j using that by auto
      ultimately show ?thesis using False by metis
    next
      case last: False
      have eq: "j = i" if "i \<le> j" "j < 10000" for j using that last by auto
      have "\<forall>j. i \<le> j \<longrightarrow> j < 10000 \<longrightarrow> shapeAt (B @ [pre @ rnd j @ suf]) (w_root w) \<noteq> Missing" using eq False by auto
      with last show ?thesis using st unfolding step by (auto simp: StatSucceeds_def)
    qed
  qed
qed

lemma legal_digits: "x \<noteq> [] \<Longrightarrow> set x \<subseteq> set ''0123456789'' \<Longrightarrow> CHR ''/'' \<notin> set (a @ b) \<Longrightarrow> legalName (a @ x @ b)"
proof -
  assume x: "x \<noteq> []" "set x \<subseteq> set ''0123456789''" and ab: "CHR ''/'' \<notin> set (a @ b)"
  from x obtain d where d: "d \<in> set (a @ x @ b)" "d \<in> set ''0123456789''" by (cases x) auto
  have "set t \<subseteq> {CHR ''.''} \<Longrightarrow> d \<notin> set t" for t using d(2) by auto
  with d(1) have "\<not> set (a @ x @ b) \<subseteq> {CHR ''.''}" by blast
  moreover have "\<not> set t \<subseteq> {CHR ''.''} \<Longrightarrow> plainElem t" for t by (auto simp: plainElem_def)
  ultimately have "plainElem (a @ x @ b)" by blast
  moreover have "CHR ''/'' \<notin> set x" using x(2) by auto
  ultimately show ?thesis using ab by (simp add: legalName_def)
qed

lemma prefixAndSuffix_Inr: "prefixAndSuffix pattern = Inr (pre, suf) \<Longrightarrow> CHR ''/'' \<notin> set (pre @ suf)"
proof -
  assume p: "prefixAndSuffix pattern = Inr (pre, suf)"
  then have "CHR ''/'' \<notin> set pattern" by (auto simp: prefixAndSuffix_def Contains_iff in_set_conv_decomp split: if_splits)
  moreover have "set (pre @ suf) \<subseteq> set pattern"
  proof -
    have t: "set (tl xs) \<subseteq> set xs" for xs :: string by (cases xs) auto
    have "x \<in> set pattern" if "x \<in> set (tl (dropWhile P (rev pattern))) \<or> x \<in> set (takeWhile P (rev pattern))" for x P
      using that subsetD [OF t] set_dropWhileD [of x P "rev pattern"] set_takeWhileD [of x P "rev pattern"] by auto
    from this [of _ "\<lambda>c. c \<noteq> CHR ''*''"] p show ?thesis by (auto simp: prefixAndSuffix_def split: if_splits)
  qed
  ultimately show ?thesis by blast
qed

section \<open>Facts: a copy to a temporary directory\<close>

lemma Copy_into_fresh:
  assumes src: "s \<noteq> []" "fs_get S (w_root w) = Some (Dir es)" "legalTree (Dir es)" "resolve w s = S"
    and "\<not> prefix S B" and faults: "\<forall>p. prefix B p \<longrightarrow> \<not> w_faulty w p" and d: "d \<noteq> []" "resolve w d = B @ [n]"
    and free: "shapeAt (B @ [n]) (w_root w) = Missing" and p: "fs_put (B @ [n]) (Dir []) (w_root w) = Some root"
  shows "\<exists>r w'. directory_Copy own s d (w\<lparr>w_root := root\<rparr>) = Some (r, w') \<and> (\<exists>e. r = Err e \<or> r = Ok ()) \<and> only_files w w' \<and>
     (r = Ok () \<longrightarrow> (\<forall>q. shapeAt ((B @ [n]) @ q) (w_root w') = shapeAt (S @ q) (w_root w))) \<and>
     (\<forall>p. \<not> prefix (B @ [n]) p \<longrightarrow> shapeAt p (w_root w') = shapeAt p (w_root w)) \<and>
     ((\<forall>p. \<not> w_faulty w p) \<longrightarrow> (\<forall>v p. own v p) \<longrightarrow> r = Ok ())"
proof -
  define D where "D = B @ [n]"
  let ?w1 = "w\<lparr>w_root := root\<rparr>"
  have none: "fs_get D (w_root w) = None" using free by (simp add: D_def shapeAt_simps)
  have "\<not> prefix D S"
  proof
    assume "prefix D S"
    then obtain x where "S = D @ x" by (rule prefixE)
    then show False using fs_get_above [of D x "w_root w"] none src(2) by simp
  qed
  moreover have "S \<noteq> D" using none src(2) by auto
  then have "\<not> prefix S D" using assms(5) by (auto simp: D_def prefix_snoc)
  ultimately have ap: "apart S D" by simp
  have sh1: "shapeAt q root = (if q = D then Directory else shapeAt q (w_root w))" for q
    using shapeAt_put [OF p] free by (simp add: shapeOf_def D_def)
  have src1: "fs_get S root = Some (Dir es)" using fs_get_put_other [OF p, of S] ap src(2) by (simp add: D_def)
  have rd: "ready s d S D ?w1"
    using src d ap faults sh1 by (auto simp: ready_def D_def dest: append_prefixD)
  have free1: "\<forall>k. shapeAt (D @ [k]) root = Missing"
    using fs_get_above [of D _ "w_root w"] none unfolding sh1 by (simp add: shapeAt_simps)
  show ?thesis
  proof (cases "w_faulty w S")
    case True
    then obtain e where "readDir s ?w1 = (Err e, ?w1)" using src(4) by (auto simp: readDir_def osStat_def)
    then show ?thesis using True sh1 by (auto simp: directory_Copy_def D_def only_files_def)
  next
    case False
    then have "osStat s ?w1 = StatOk (Dir es)" using osStat_get [of ?w1 s] src1 src(4) by simp
    then have ent: "readDir s ?w1 = (Ok (dirEntries es), ?w1)" by (simp add: readDir_def)
    from copyEntries_copies [OF src(3) refl rd, of own] src1 free1 obtain r w' where
      run: "copyEntries own s d (dirEntries es) ?w1 = Some (r, w')" and cp: "copies own S D (fst ` set es) ?w1 r w'" by auto
    have "shapeAt (D @ q) (w_root w') = shapeAt (S @ q) (w_root w)" if "r = Ok ()" for q
    proof -
      have "shapeAt (D @ q) (w_root w') = shapeAt (S @ q) root"
        using copies_whole [OF cp [unfolded that], of q] src1 free1 sh1 by simp
      then show ?thesis using fs_get_put_other [OF p, of "S @ q"] apart_below [OF ap, of q "[]"] by (simp add: D_def shapeAt_def)
    qed
    moreover have "shapeAt q (w_root w') = shapeAt q (w_root w)" if "\<not> prefix D q" for q
    proof -
      have "\<forall>k. \<not> prefix (D @ [k]) q" using that append_prefixD by blast
      then show ?thesis using cp sh1 [of q] that by (auto simp: copies_def)
    qed
    moreover have "directory_Copy own s d ?w1 = Some (r, w')" using ent run by (simp add: directory_Copy_def)
    ultimately show ?thesis using cp unfolding D_def by (auto simp: copies_def only_files_def)
  qed
qed

lemma CopyToTempDir_run:
  assumes src: "s \<noteq> []" "fs_get S (w_root w) = Some (Dir es)" "legalTree (Dir es)" "resolve w s = S"
    and base: "base \<noteq> []" "\<not> HasSuffix base ''/''" "resolve w base = B" "shapeAt B (w_root w) = Directory"
    and "\<not> prefix S B" and faults: "\<forall>p. prefix B p \<longrightarrow> \<not> w_faulty w p"
    and pattern: "prefixAndSuffix pattern = Inr (pre, suf)" and rnd: "\<forall>i. rnd i \<noteq> [] \<and> set (rnd i) \<subseteq> set ''0123456789''"
  shows "\<exists>r w'. CopyToTempDir own rnd s base pattern w = Some (r, w') \<and> only_files w w' \<and>
     (\<forall>d. r = Ok d \<longrightarrow> (\<forall>q. shapeAt (resolve w d @ q) (w_root w') = shapeAt (S @ q) (w_root w))) \<and>
     (w' = w \<and> (\<forall>d. r \<noteq> Ok d) \<or>
      (\<exists>n. shapeAt (B @ [n]) (w_root w) = Missing \<and> (\<forall>d. r = Ok d \<longrightarrow> resolve w d = B @ [n]) \<and>
         (\<forall>p. \<not> prefix (B @ [n]) p \<longrightarrow> shapeAt p (w_root w') = shapeAt p (w_root w)))) \<and>
     ((\<forall>p. \<not> w_faulty w p) \<longrightarrow> (\<forall>v p. own v p) \<longrightarrow>
        (\<exists>i<10000. shapeAt (B @ [pre @ rnd i @ suf]) (w_root w) = Missing) \<longrightarrow> (\<exists>d. r = Ok d))"
proof -
  have names: "legalName (pre @ rnd i @ suf)" for i
    using legal_digits [of "rnd i" pre suf] rnd prefixAndSuffix_Inr [OF pattern] by blast
  have temp: "wrapErr ''could not create temporary directory: '' (ioutilTempDir rnd base pattern) w =
      wrapErr ''could not create temporary directory: '' (tempDirLoop rnd (base @ ''/'' @ pre) suf 0) w"
    using base(1,2) pattern by (simp add: ioutilTempDir_def gets_def liftE_def joinPath_def wrapErr_def bindP_def)
  from tempDirLoop_run [OF base(1,4,3) faults, where rnd = rnd and pre = pre and suf = suf and i = 0, OF names] consider
    (full) e where "tempDirLoop rnd (base @ ''/'' @ pre) suf 0 w = (Err e, w)"
      "\<forall>j. 0 \<le> j \<longrightarrow> j < 10000 \<longrightarrow> shapeAt (B @ [pre @ rnd j @ suf]) (w_root w) \<noteq> Missing"
  | (made) j root where "tempDirLoop rnd (base @ ''/'' @ pre) suf 0 w = (Ok (base @ ''/'' @ pre @ rnd j @ suf), w\<lparr>w_root := root\<rparr>)"
      "shapeAt (B @ [pre @ rnd j @ suf]) (w_root w) = Missing" "fs_put (B @ [pre @ rnd j @ suf]) (Dir []) (w_root w) = Some root"
    by (elim disjE exE conjE) (rule that; assumption)+
  then show ?thesis
  proof cases
    case full
    then have "wrapErr ''could not create temporary directory: '' (ioutilTempDir rnd base pattern) w =
        (Err (''could not create temporary directory: '' @ e), w)" unfolding temp by (simp add: wrapErr_def)
    with full(2) show ?thesis by (auto simp: CopyToTempDir_def fo.refl)
  next
    case made
    define n d D where "n = pre @ rnd j @ suf" and "d = base @ ''/'' @ n" and "D = B @ [n]"
    note made = made [folded n_def d_def, folded D_def]
    have d: "d \<noteq> []" "resolve w d = D"
      using base(1) resolve_append [OF base(1), of w n] stepInto_plain1 [of n B] names [of j] base(3)
      by (simp_all add: d_def D_def n_def legalName_def)
    from Copy_into_fresh [OF src assms(9) faults d [unfolded D_def] made(2,3) [unfolded D_def], of own] obtain r w' where
      run: "directory_Copy own s d (w\<lparr>w_root := root\<rparr>) = Some (r, w')" and
      r: "\<exists>e. r = Err e \<or> r = Ok ()" and
      props: "only_files w w'" "r = Ok () \<longrightarrow> (\<forall>q. shapeAt (D @ q) (w_root w') = shapeAt (S @ q) (w_root w))"
        "\<forall>p. \<not> prefix D p \<longrightarrow> shapeAt p (w_root w') = shapeAt p (w_root w)"
        "(\<forall>p. \<not> w_faulty w p) \<longrightarrow> (\<forall>v p. own v p) \<longrightarrow> r = Ok ()" unfolding D_def by blast
    have t: "wrapErr ''could not create temporary directory: '' (ioutilTempDir rnd base pattern) w = (Ok d, w\<lparr>w_root := root\<rparr>)"
      unfolding temp using made(1) by (simp add: wrapErr_def d_def)
    have "CopyToTempDir own rnd s base pattern w =
        Some (case r of Err e \<Rightarrow> (Err (''could not copy source directory: '' @ e), w') | _ \<Rightarrow> (Ok d, w'))"
      unfolding CopyToTempDir_def bindM_def total_def t using run r by (auto simp: ret_def)
    with r props made(2) d(2) show ?thesis unfolding D_def by (auto split: outcome.splits)
  qed
qed

text \<open>
  C35: copying a directory to a fresh temporary directory returns, provided the base directory of
  the copies is not inside the directory copied; a copy that is returned is a new directory that shows
  at every path what the source showed there, nothing but that directory changes in any case, and
  without faults, with all permissions and a free name among those tried there is a copy.
\<close>

theorem CopyToTempDir_copies:
  assumes src: "s \<noteq> []" "fs_get S (w_root w) = Some (Dir es)" "legalTree (Dir es)" "resolve w s = S"
    and base: "base \<noteq> []" "\<not> HasSuffix base ''/''" "resolve w base = B" "shapeAt B (w_root w) = Directory"
    and "\<not> prefix S B" and faults: "\<forall>p. prefix B p \<longrightarrow> \<not> w_faulty w p"
    and pattern: "prefixAndSuffix pattern = Inr (pre, suf)" and rnd: "\<forall>i. rnd i \<noteq> [] \<and> set (rnd i) \<subseteq> set ''0123456789''"
  shows "\<exists>r w'. CopyToTempDir own rnd s base pattern w = Some (r, w') \<and> only_files w w' \<and>
     (\<forall>d. r = Ok d \<longrightarrow> (\<forall>q. shapeAt (resolve w d @ q) (w_root w') = shapeAt (S @ q) (w_root w))) \<and>
     (w' = w \<and> (\<forall>d. r \<noteq> Ok d) \<or>
      (\<exists>n. shapeAt (B @ [n]) (w_root w) = Missing \<and> (\<forall>d. r = Ok d \<longrightarrow> resolve w d = B @ [n]) \<and>
         (\<forall>p. \<not> prefix (B @ [n]) p \<longrightarrow> shapeAt p (w_root w') = shapeAt p (w_root w)))) \<and>
     ((\<forall>p. \<not> w_faulty w p) \<longrightarrow> (\<forall>v p. own v p) \<longrightarrow>
        (\<exists>i<10000. shapeAt (B @ [pre @ rnd i @ suf]) (w_root w) = Missing) \<longrightarrow> (\<exists>d. r = Ok d))"
  by (rule CopyToTempDir_run [OF assms])

definition copyWorld :: world where
  "copyWorld = \<lparr>w_root = Dir [(''src'', Dir [(''a'', File ''x'' 1), (''sub'', Dir [(''b'', File ''y'' 2)])]), (''tmp'', Dir [])],
     w_cwd = [], w_faulty = (\<lambda>_. False), w_getenv = (\<lambda>_. []), w_now = 0, w_trace = []\<rparr>"

lemma CopyToTempDir_witness:
  "\<exists>d w'. CopyToTempDir (\<lambda>_ _. True) (\<lambda>_. ''7'') ''/src'' ''/tmp'' ''run-'' copyWorld = Some (Ok d, w') \<and>
     shapeAt (resolve copyWorld d @ [''sub'', ''b'']) (w_root w') = Content ''y''"
proof -
  have r: "resolve copyWorld ''/src'' = [''src'']" "resolve copyWorld ''/tmp'' = [''tmp'']" by code_simp+
  have t: "shapeAt [''src'', ''sub'', ''b''] (w_root copyWorld) = Content ''y''"
    "shapeAt [''tmp'', ''run-7''] (w_root copyWorld) = Missing" "shapeAt [''tmp''] (w_root copyWorld) = Directory"
    by (simp_all add: shapeAt_def shapeOf_def copyWorld_def)
  have l: "legalTree (Dir [(''a'', File ''x'' 1), (''sub'', Dir [(''b'', File ''y'' 2)])])"
    by (simp add: legalName_def plainElem_def)
  have p: "prefixAndSuffix ''run-'' = Inr (''run-'', [])" by code_simp
  have src: "fs_get [''src''] (w_root copyWorld) = Some (Dir [(''a'', File ''x'' 1), (''sub'', Dir [(''b'', File ''y'' 2)])])"
    by (simp add: copyWorld_def)
  have nf: "\<And>p. \<not> w_faulty copyWorld p" by (simp add: copyWorld_def)
  have "\<not> HasSuffix ''/tmp'' ''/''" by code_simp
  then obtain o' w' where run: "CopyToTempDir (\<lambda>_ _. True) (\<lambda>_. ''7'') ''/src'' ''/tmp'' ''run-'' copyWorld = Some (o', w')"
    and same: "\<forall>d. o' = Ok d \<longrightarrow> (\<forall>q. shapeAt (resolve copyWorld d @ q) (w_root w') = shapeAt ([''src''] @ q) (w_root copyWorld))"
    and ok: "(\<forall>p. \<not> w_faulty copyWorld p) \<longrightarrow> (\<forall>v p. True) \<longrightarrow>
       (\<exists>i<10000::nat. shapeAt ([''tmp''] @ [''run-'' @ ''7'' @ []]) (w_root copyWorld) = Missing) \<longrightarrow> (\<exists>d. o' = Ok d)"
    using CopyToTempDir_copies [OF _ src l r(1) _ _ r(2) t(3) _ _ p, of "\<lambda>_. ''7''" "\<lambda>_ _. True"] by (auto simp: nf)
  have "\<exists>i<10000::nat. shapeAt ([''tmp''] @ [''run-'' @ ''7'' @ []]) (w_root copyWorld) = Missing" using t(2) by (intro exI [of _ 0]) simp
  with ok nf obtain d where d: "o' = Ok d" by blast
  with same have "shapeAt (resolve copyWorld d @ [''sub'', ''b'']) (w_root w') = shapeAt ([''src''] @ [''sub'', ''b'']) (w_root copyWorld)" by blast
  with t(1) have "shapeAt (resolve copyWorld d @ [''sub'', ''b'']) (w_root w') = Content ''y''" by simp
  with run d show ?thesis by blast
qed

end
