(* ===== verification/BitbucketClient.thy ===== *)
theory BitbucketClient
  imports ArtifactDownload Start
begin

text \<open>
  The HTTP client of \<open>pkg/bitbucket\<close>.  The other theories know Bitbucket as operations of the
  environment; here these operations are the client's, over a transport that sends one request
  and returns the response: every operation builds one request, looks (or does not look) at
  the status, and decodes the body.
\<close>

section \<open>Requests (client.go)\<close>

text \<open>The configuration is the record \<open>bitbucketConfig\<close> of theory ArtifactDownload.\<close>

record clientRequest =
  cr_Method :: string
  cr_URL :: string
  cr_Header :: "(string \<times> string) list"
  cr_Body :: "string option"

text \<open>
  The answer to a request: the error of sending it, or the status and the body, reading which
  may fail.  It may depend on the calls made before.
\<close>

type_synonym transport = "call list \<Rightarrow> clientRequest \<Rightarrow> string + int \<times> (string + string)"

definition bitbucket_do :: "bitbucketConfig \<Rightarrow> clientRequest \<Rightarrow> clientRequest" where
  "bitbucket_do cfg req = req\<lparr>cr_Header := cr_Header req @ [(''Authorization'', ''Bearer '' @ bc_APIToken cfg)]\<rparr>"

definition doRequest :: "transport \<Rightarrow> bitbucketConfig \<Rightarrow> call list \<Rightarrow> clientRequest \<Rightarrow> string + int \<times> string" where
  "doRequest tr cfg h req = (case tr h (bitbucket_do cfg req) of
       Inl e \<Rightarrow> Inl (''got error '' @ e)
     | Inr (status, Inl e) \<Rightarrow> Inl e
     | Inr (status, Inr body) \<Rightarrow> Inr (status, body))"

definition createRequest ::
  "transport \<Rightarrow> bitbucketConfig \<Rightarrow> call list \<Rightarrow> string \<Rightarrow> string \<Rightarrow> string option \<Rightarrow> string + int \<times> string" where
  "createRequest tr cfg h method urlPath payload =
     (let u = bc_BaseURL cfg @ urlPath
      in case urlParse u of
           Inl e \<Rightarrow> Inl (''could not create request: '' @ e)
         | Inr _ \<Rightarrow> doRequest tr cfg h \<lparr>cr_Method = method, cr_URL = u,
               cr_Header = [(''Content-Type'', ''application/json'')], cr_Body = payload\<rparr>)"

definition bitbucket_get :: "transport \<Rightarrow> bitbucketConfig \<Rightarrow> call list \<Rightarrow> string \<Rightarrow> string + int \<times> string" where
  "bitbucket_get tr cfg h urlPath = createRequest tr cfg h ''GET'' urlPath None"

definition bitbucket_post :: "transport \<Rightarrow> bitbucketConfig \<Rightarrow> call list \<Rightarrow> string \<Rightarrow> string \<Rightarrow> string + int \<times> string" where
  "bitbucket_post tr cfg h urlPath payload = createRequest tr cfg h ''POST'' urlPath (Some payload)"

definition bitbucket_put :: "transport \<Rightarrow> bitbucketConfig \<Rightarrow> call list \<Rightarrow> string \<Rightarrow> string \<Rightarrow> string + int \<times> string" where
  "bitbucket_put tr cfg h urlPath payload = createRequest tr cfg h ''PUT'' urlPath (Some payload)"

text \<open>\<open>url.Values.Encode\<close>: the keys in order, names and values escaped.\<close>

definition valuesEncode :: "(string \<times> string) list \<Rightarrow> string" where
  "valuesEncode q = Join (map (\<lambda>(k, v). QueryEscape k @ ''='' @ QueryEscape v) (sort_key fst q)) ''&''"

definition repoPath :: "string \<Rightarrow> string \<Rightarrow> string" where
  "repoPath projectKey repositorySlug = ''/rest/api/1.0/projects/'' @ projectKey @ ''/repos/'' @ repositorySlug"

text \<open>
  The three ways of reading a response: decode whatever the status is; the same, naming the
  operation in errors; decode if the status is one of the documented ones.
\<close>

definition decodeAny :: "'a decoder \<Rightarrow> 'a \<Rightarrow> string + int \<times> string \<Rightarrow> string + 'a" where
  "decodeAny d zero r = (case r of Inl e \<Rightarrow> Inl e | Inr (_, response) \<Rightarrow> Unmarshal d zero response)"

definition unmarshalError :: "string \<Rightarrow> int \<Rightarrow> string \<Rightarrow> string" where
  "unmarshalError e statusCode response =
     ''could not unmarshal response: '' @ e @ ''. status code: '' @ Itoa statusCode @ '', body: '' @ response"

definition decodeWrapped :: "'a decoder \<Rightarrow> 'a \<Rightarrow> string + int \<times> string \<Rightarrow> string + 'a" where
  "decodeWrapped d zero r = (case r of
       Inl e \<Rightarrow> Inl (''request returned error: '' @ e)
     | Inr (statusCode, response) \<Rightarrow> (case Unmarshal d zero response of
           Inl e \<Rightarrow> Inl (unmarshalError e statusCode response)
         | Inr x \<Rightarrow> Inr x))"

definition decodeStatus :: "int list \<Rightarrow> 'a decoder \<Rightarrow> 'a \<Rightarrow> string + int \<times> string \<Rightarrow> string + 'a" where
  "decodeStatus expected d zero r = (case r of
       Inl e \<Rightarrow> Inl (''request returned error: '' @ e)
     | Inr (statusCode, response) \<Rightarrow>
         (if statusCode \<notin> set expected
          then Inl (''request returned unexpected response code: '' @ Itoa statusCode @ '', body: '' @ response)
          else case Unmarshal d zero response of
              Inl e \<Rightarrow> Inl (unmarshalError e statusCode response)
            | Inr x \<Rightarrow> Inr x))"

section \<open>Decoding pages and members\<close>

definition zeroTag :: tag where
  "zeroTag = \<lparr>tg_ID = [], tg_DisplayID = [], tg_Type = [], tg_LatestCommit = [], tg_LatestChangeset = [], tg_Hash = []\<rparr>"

definition decTag :: "tag decoder" where
  "decTag = decStruct
     [(''id'', decField tg_ID (\<lambda>s r. r\<lparr>tg_ID := s\<rparr>) decStr),
      (''displayId'', decField tg_DisplayID (\<lambda>s r. r\<lparr>tg_DisplayID := s\<rparr>) decStr),
      (''type'', decField tg_Type (\<lambda>s r. r\<lparr>tg_Type := s\<rparr>) decStr),
      (''latestCommit'', decField tg_LatestCommit (\<lambda>s r. r\<lparr>tg_LatestCommit := s\<rparr>) decStr),
      (''latestChangeset'', decField tg_LatestChangeset (\<lambda>s r. r\<lparr>tg_LatestChangeset := s\<rparr>) decStr),
      (''hash'', decField tg_Hash (\<lambda>s r. r\<lparr>tg_Hash := s\<rparr>) decStr)]"

definition zeroTagPage :: tagPage where
  "zeroTagPage = \<lparr>tp_Size = 0, tp_Limit = 0, tp_IsLastPage = False, tp_Values = [], tp_Start = 0\<rparr>"

definition decTagPage :: "tagPage decoder" where
  "decTagPage = decStruct
     [(''size'', decField tp_Size (\<lambda>s r. r\<lparr>tp_Size := s\<rparr>) decInt),
      (''limit'', decField tp_Limit (\<lambda>s r. r\<lparr>tp_Limit := s\<rparr>) decInt),
      (''isLastPage'', decField tp_IsLastPage (\<lambda>s r. r\<lparr>tp_IsLastPage := s\<rparr>) decBool),
      (''values'', decField tp_Values (\<lambda>s r. r\<lparr>tp_Values := s\<rparr>) (decSlice zeroTag decTag)),
      (''start'', decField tp_Start (\<lambda>s r. r\<lparr>tp_Start := s\<rparr>) decInt)]"

definition zeroBranch :: branch where
  "zeroBranch = \<lparr>br_ID = [], br_DisplayID = [], br_Type = [], br_LatestCommit = [], br_LatestChangeset = [], br_IsDefault = False\<rparr>"

definition decBranch :: "branch decoder" where
  "decBranch = decStruct
     [(''id'', decField br_ID (\<lambda>s r. r\<lparr>br_ID := s\<rparr>) decStr),
      (''displayId'', decField br_DisplayID (\<lambda>s r. r\<lparr>br_DisplayID := s\<rparr>) decStr),
      (''type'', decField br_Type (\<lambda>s r. r\<lparr>br_Type := s\<rparr>) decStr),
      (''latestCommit'', decField br_LatestCommit (\<lambda>s r. r\<lparr>br_LatestCommit := s\<rparr>) decStr),
      (''latestChangeset'', decField br_LatestChangeset (\<lambda>s r. r\<lparr>br_LatestChangeset := s\<rparr>) decStr),
      (''isDefault'', decField br_IsDefault (\<lambda>s r. r\<lparr>br_IsDefault := s\<rparr>) decBool)]"

definition zeroBranchPage :: branchPage where
  "zeroBranchPage = \<lparr>bp_Size = 0, bp_Limit = 0, bp_IsLastPage = False, bp_Values = [], bp_Start = 0\<rparr>"

definition decBranchPage :: "branchPage decoder" where
  "decBranchPage = decStruct
     [(''size'', decField bp_Size (\<lambda>s r. r\<lparr>bp_Size := s\<rparr>) decInt),
      (''limit'', decField bp_Limit (\<lambda>s r. r\<lparr>bp_Limit := s\<rparr>) decInt),
      (''isLastPage'', decField bp_IsLastPage (\<lambda>s r. r\<lparr>bp_IsLastPage := s\<rparr>) decBool),
      (''values'', decField bp_Values (\<lambda>s r. r\<lparr>bp_Values := s\<rparr>) (decSlice zeroBranch decBranch)),
      (''start'', decField bp_Start (\<lambda>s r. r\<lparr>bp_Start := s\<rparr>) decInt)]"

definition zeroPerson :: person where
  "zeroPerson = \<lparr>pe_Name = [], pe_EmailAddress = []\<rparr>"

definition decPerson :: "person decoder" where
  "decPerson = decStruct
     [(''name'', decField pe_Name (\<lambda>s r. r\<lparr>pe_Name := s\<rparr>) decStr),
      (''emailAddress'', decField pe_EmailAddress (\<lambda>s r. r\<lparr>pe_EmailAddress := s\<rparr>) decStr)]"

text \<open>A struct of two strings.\<close>

definition decPair :: "string \<Rightarrow> string \<Rightarrow> (string \<times> string) decoder" where
  "decPair a b = decStruct [(a, decField fst (\<lambda>s p. (s, snd p)) decStr), (b, decField snd (\<lambda>s p. (fst p, s)) decStr)]"

definition zeroCommit :: commit where
  "zeroCommit = \<lparr>cm_ID = [], cm_DisplayID = [], cm_Author = zeroPerson, cm_AuthorTimestamp = 0,
     cm_Committer = zeroPerson, cm_CommitterTimestamp = 0, cm_Message = [], cm_Parents = []\<rparr>"

definition decCommit :: "commit decoder" where
  "decCommit = decStruct
     [(''id'', decField cm_ID (\<lambda>s r. r\<lparr>cm_ID := s\<rparr>) decStr),
      (''displayId'', decField cm_DisplayID (\<lambda>s r. r\<lparr>cm_DisplayID := s\<rparr>) decStr),
      (''author'', decField cm_Author (\<lambda>s r. r\<lparr>cm_Author := s\<rparr>) decPerson),
      (''authorTimestamp'', decField cm_AuthorTimestamp (\<lambda>s r. r\<lparr>cm_AuthorTimestamp := s\<rparr>) decInt),
      (''committer'', decField cm_Committer (\<lambda>s r. r\<lparr>cm_Committer := s\<rparr>) decPerson),
      (''committerTimestamp'', decField cm_CommitterTimestamp (\<lambda>s r. r\<lparr>cm_CommitterTimestamp := s\<rparr>) decInt),
      (''message'', decField cm_Message (\<lambda>s r. r\<lparr>cm_Message := s\<rparr>) decStr),
      (''parents'', decField cm_Parents (\<lambda>s r. r\<lparr>cm_Parents := s\<rparr>) (decSlice ([], []) (decPair ''id'' ''displayId'')))]"

definition zeroCommitPage :: commitPage where
  "zeroCommitPage = \<lparr>cp_Size = 0, cp_Limit = 0, cp_IsLastPage = False, cp_Values = [], cp_Start = 0,
     cp_AuthorCount = 0, cp_TotalCount = 0\<rparr>"

definition decCommitPage :: "commitPage decoder" where
  "decCommitPage = decStruct
     [(''size'', decField cp_Size (\<lambda>s r. r\<lparr>cp_Size := s\<rparr>) decInt),
      (''limit'', decField cp_Limit (\<lambda>s r. r\<lparr>cp_Limit := s\<rparr>) decInt),
      (''isLastPage'', decField cp_IsLastPage (\<lambda>s r. r\<lparr>cp_IsLastPage := s\<rparr>) decBool),
      (''values'', decField cp_Values (\<lambda>s r. r\<lparr>cp_Values := s\<rparr>) (decSlice zeroCommit decCommit)),
      (''start'', decField cp_Start (\<lambda>s r. r\<lparr>cp_Start := s\<rparr>) decInt),
      (''authorCount'', decField cp_AuthorCount (\<lambda>s r. r\<lparr>cp_AuthorCount := s\<rparr>) decInt),
      (''totalCount'', decField cp_TotalCount (\<lambda>s r. r\<lparr>cp_TotalCount := s\<rparr>) decInt)]"

definition zeroUser :: user where
  "zeroUser = \<lparr>us_Name = [], us_EmailAddress = [], us_ID = 0, us_DisplayName = [], us_Active = False,
     us_Slug = [], us_Type = []\<rparr>"

definition decUser :: "user decoder" where
  "decUser = decStruct
     [(''name'', decField us_Name (\<lambda>s r. r\<lparr>us_Name := s\<rparr>) decStr),
      (''emailAddress'', decField us_EmailAddress (\<lambda>s r. r\<lparr>us_EmailAddress := s\<rparr>) decStr),
      (''id'', decField us_ID (\<lambda>s r. r\<lparr>us_ID := s\<rparr>) decInt),
      (''displayName'', decField us_DisplayName (\<lambda>s r. r\<lparr>us_DisplayName := s\<rparr>) decStr),
      (''active'', decField us_Active (\<lambda>s r. r\<lparr>us_Active := s\<rparr>) decBool),
      (''slug'', decField us_Slug (\<lambda>s r. r\<lparr>us_Slug := s\<rparr>) decStr),
      (''type'', decField us_Type (\<lambda>s r. r\<lparr>us_Type := s\<rparr>) decStr)]"

definition zeroRef :: ref where
  "zeroRef = \<lparr>rf_ID = [], rf_Repository_Slug = [], rf_Repository_Name = [], rf_Repository_Project_Key = []\<rparr>"

text \<open>The nested structs of \<open>Ref\<close> are flattened into the record.\<close>

definition decRefProject :: "ref decoder" where
  "decRefProject = decStruct
     [(''key'', decField rf_Repository_Project_Key (\<lambda>s r. r\<lparr>rf_Repository_Project_Key := s\<rparr>) decStr)]"

definition decRefRepository :: "ref decoder" where
  "decRefRepository = decStruct
     [(''slug'', decField rf_Repository_Slug (\<lambda>s r. r\<lparr>rf_Repository_Slug := s\<rparr>) decStr),
      (''name'', decField rf_Repository_Name (\<lambda>s r. r\<lparr>rf_Repository_Name := s\<rparr>) decAny),
      (''project'', decRefProject)]"

definition decRef :: "ref decoder" where
  "decRef = decStruct
     [(''id'', decField rf_ID (\<lambda>s r. r\<lparr>rf_ID := s\<rparr>) decStr),
      (''repository'', decRefRepository)]"

definition participantFields :: "(string \<times> participant decoder) list" where
  "participantFields =
     [(''user'', decField fst (\<lambda>u p. (u, snd p)) decUser),
      (''role'', decField (fst \<circ> snd) (\<lambda>s p. (fst p, s, snd (snd p))) decStr),
      (''approved'', decField (fst \<circ> snd \<circ> snd) (\<lambda>s p. (fst p, fst (snd p), s, snd (snd (snd p)))) decBool),
      (''status'', decField (snd \<circ> snd \<circ> snd) (\<lambda>s p. (fst p, fst (snd p), fst (snd (snd p)), s)) decStr)]"

definition zeroParticipant :: participant where
  "zeroParticipant = (zeroUser, [], False, [])"

definition decParticipant :: "participant decoder" where
  "decParticipant = decStruct participantFields"

definition decReviewer :: "(string \<times> participant) decoder" where
  "decReviewer = decStruct
     ((''lastReviewedCommit'', decField fst (\<lambda>s p. (s, snd p)) decStr) #
      map (\<lambda>(k, d). (k, decField snd (\<lambda>x p. (fst p, x)) d)) participantFields)"

text \<open>\<open>Links.Self\<close>: an array of structs with a member \<open>href\<close>.\<close>

definition decHref :: "string decoder" where
  "decHref = decStruct [(''href'', decStr)]"

definition decSelf :: "string list decoder" where
  "decSelf = decStruct [(''self'', decSlice [] decHref)]"

definition zeroPullRequest :: pullRequest where
  "zeroPullRequest = \<lparr>pq_ID = 0, pq_Version = 0, pq_Title = [], pq_Description = [], pq_State = [], pq_Open = False,
     pq_Closed = False, pq_CreatedDate = 0, pq_UpdatedDate = 0, pq_FromRef = zeroRef, pq_ToRef = zeroRef,
     pq_Locked = False, pq_Author = zeroParticipant, pq_Reviewers = [], pq_Participants = [], pq_Links_Self = []\<rparr>"

definition decPullRequest :: "pullRequest decoder" where
  "decPullRequest = decStruct
     [(''id'', decField pq_ID (\<lambda>s r. r\<lparr>pq_ID := s\<rparr>) decInt),
      (''version'', decField pq_Version (\<lambda>s r. r\<lparr>pq_Version := s\<rparr>) decInt),
      (''title'', decField pq_Title (\<lambda>s r. r\<lparr>pq_Title := s\<rparr>) decStr),
      (''description'', decField pq_Description (\<lambda>s r. r\<lparr>pq_Description := s\<rparr>) decStr),
      (''state'', decField pq_State (\<lambda>s r. r\<lparr>pq_State := s\<rparr>) decStr),
      (''open'', decField pq_Open (\<lambda>s r. r\<lparr>pq_Open := s\<rparr>) decBool),
      (''closed'', decField pq_Closed (\<lambda>s r. r\<lparr>pq_Closed := s\<rparr>) decBool),
      (''createdDate'', decField pq_CreatedDate (\<lambda>s r. r\<lparr>pq_CreatedDate := s\<rparr>) decInt),
      (''updatedDate'', decField pq_UpdatedDate (\<lambda>s r. r\<lparr>pq_UpdatedDate := s\<rparr>) decInt),
      (''fromRef'', decField pq_FromRef (\<lambda>s r. r\<lparr>pq_FromRef := s\<rparr>) decRef),
      (''toRef'', decField pq_ToRef (\<lambda>s r. r\<lparr>pq_ToRef := s\<rparr>) decRef),
      (''locked'', decField pq_Locked (\<lambda>s r. r\<lparr>pq_Locked := s\<rparr>) decBool),
      (''author'', decField pq_Author (\<lambda>s r. r\<lparr>pq_Author := s\<rparr>) decParticipant),
      (''reviewers'', decField pq_Reviewers (\<lambda>s r. r\<lparr>pq_Reviewers := s\<rparr>) (decSlice ([], zeroParticipant) decReviewer)),
      (''participants'', decField pq_Participants (\<lambda>s r. r\<lparr>pq_Participants := s\<rparr>) (decSlice zeroParticipant decParticipant)),
      (''links'', decField pq_Links_Self (\<lambda>s r. r\<lparr>pq_Links_Self := s\<rparr>) decSelf)]"

definition zeroPullRequestPage :: pullRequestPage where
  "zeroPullRequestPage = \<lparr>pp_Size = 0, pp_Limit = 0, pp_IsLastPage = False, pp_Values = [], pp_Start = 0\<rparr>"

text \<open>The member \<open>Values\<close> has no tag: it is found under its Go name, in any case.\<close>

definition decPullRequestPage :: "pullRequestPage decoder" where
  "decPullRequestPage = decStruct
     [(''size'', decField pp_Size (\<lambda>s r. r\<lparr>pp_Size := s\<rparr>) decInt),
      (''limit'', decField pp_Limit (\<lambda>s r. r\<lparr>pp_Limit := s\<rparr>) decInt),
      (''isLastPage'', decField pp_IsLastPage (\<lambda>s r. r\<lparr>pp_IsLastPage := s\<rparr>) decBool),
      (''Values'', decField pp_Values (\<lambda>s r. r\<lparr>pp_Values := s\<rparr>) (decSlice zeroPullRequest decPullRequest)),
      (''start'', decField pp_Start (\<lambda>s r. r\<lparr>pp_Start := s\<rparr>) decInt)]"

definition zeroProject :: project where
  "zeroProject = \<lparr>pj_Key = [], pj_Name = [], pj_ID = 0, pj_Description = [], pj_Public = False, pj_Type = [], pj_Links_Self = []\<rparr>"

definition decProject :: "project decoder" where
  "decProject = decStruct
     [(''key'', decField pj_Key (\<lambda>s r. r\<lparr>pj_Key := s\<rparr>) decStr),
      (''name'', decField pj_Name (\<lambda>s r. r\<lparr>pj_Name := s\<rparr>) decStr),
      (''id'', decField pj_ID (\<lambda>s r. r\<lparr>pj_ID := s\<rparr>) decInt),
      (''description'', decField pj_Description (\<lambda>s r. r\<lparr>pj_Description := s\<rparr>) decStr),
      (''public'', decField pj_Public (\<lambda>s r. r\<lparr>pj_Public := s\<rparr>) decBool),
      (''type'', decField pj_Type (\<lambda>s r. r\<lparr>pj_Type := s\<rparr>) decStr),
      (''links'', decField pj_Links_Self (\<lambda>s r. r\<lparr>pj_Links_Self := s\<rparr>) decSelf)]"

text \<open>The member \<open>Links\<close> of a repository: the clone links (address, name) and its own.\<close>

definition decRepoLinks :: "((string \<times> string) list \<times> string list) decoder" where
  "decRepoLinks = decStruct
     [(''clone'', decField fst (\<lambda>s p. (s, snd p)) (decSlice ([], []) (decPair ''href'' ''name''))),
      (''self'', decField snd (\<lambda>s p. (fst p, s)) (decSlice [] decHref))]"

definition zeroRepo :: repo where
  "zeroRepo = \<lparr>rp_Slug = [], rp_ID = 0, rp_Name = [], rp_Description = [], rp_Hierarchyid = [], rp_SCMID = [], rp_State = [], rp_StatusMessage = [], rp_Forkable = False, rp_Project = zeroProject, rp_Public = False, rp_Links_Clone = [], rp_Links_Self = []\<rparr>"

definition decRepo :: "repo decoder" where
  "decRepo = decStruct
     [(''slug'', decField rp_Slug (\<lambda>s r. r\<lparr>rp_Slug := s\<rparr>) decStr),
      (''id'', decField rp_ID (\<lambda>s r. r\<lparr>rp_ID := s\<rparr>) decInt),
      (''name'', decField rp_Name (\<lambda>s r. r\<lparr>rp_Name := s\<rparr>) decStr),
      (''description'', decField rp_Description (\<lambda>s r. r\<lparr>rp_Description := s\<rparr>) decStr),
      (''hierarchyId'', decField rp_Hierarchyid (\<lambda>s r. r\<lparr>rp_Hierarchyid := s\<rparr>) decStr),
      (''scmId'', decField rp_SCMID (\<lambda>s r. r\<lparr>rp_SCMID := s\<rparr>) decStr),
      (''state'', decField rp_State (\<lambda>s r. r\<lparr>rp_State := s\<rparr>) decStr),
      (''statusMessage'', decField rp_StatusMessage (\<lambda>s r. r\<lparr>rp_StatusMessage := s\<rparr>) decStr),
      (''forkable'', decField rp_Forkable (\<lambda>s r. r\<lparr>rp_Forkable := s\<rparr>) decBool),
      (''project'', decField rp_Project (\<lambda>s r. r\<lparr>rp_Project := s\<rparr>) decProject),
      (''public'', decField rp_Public (\<lambda>s r. r\<lparr>rp_Public := s\<rparr>) decBool),
      (''links'', decField (\<lambda>r. (rp_Links_Clone r, rp_Links_Self r)) (\<lambda>p r. r\<lparr>rp_Links_Clone := fst p, rp_Links_Self := snd p\<rparr>) decRepoLinks)]"

definition zeroRepoPage :: repoPage where
  "zeroRepoPage = \<lparr>rg_Size = 0, rg_Limit = 0, rg_IsLastPage = False, rg_Values = [], rg_Start = 0\<rparr>"

definition decRepoPage :: "repoPage decoder" where
  "decRepoPage = decStruct
     [(''size'', decField rg_Size (\<lambda>s r. r\<lparr>rg_Size := s\<rparr>) decInt),
      (''limit'', decField rg_Limit (\<lambda>s r. r\<lparr>rg_Limit := s\<rparr>) decInt),
      (''isLastPage'', decField rg_IsLastPage (\<lambda>s r. r\<lparr>rg_IsLastPage := s\<rparr>) decBool),
      (''values'', decField rg_Values (\<lambda>s r. r\<lparr>rg_Values := s\<rparr>) (decSlice zeroRepo decRepo)),
      (''start'', decField rg_Start (\<lambda>s r. r\<lparr>rg_Start := s\<rparr>) decInt)]"

record buildStatus =
  bt_State :: string
  bt_Key :: string
  bt_Name :: string
  bt_URL :: string
  bt_Description :: string
  bt_DateAdded :: int

definition zeroBuildStatus :: buildStatus where
  "zeroBuildStatus = \<lparr>bt_State = [], bt_Key = [], bt_Name = [], bt_URL = [], bt_Description = [], bt_DateAdded = 0\<rparr>"

definition decBuildStatus :: "buildStatus decoder" where
  "decBuildStatus = decStruct
     [(''state'', decField bt_State (\<lambda>s r. r\<lparr>bt_State := s\<rparr>) decStr),
      (''key'', decField bt_Key (\<lambda>s r. r\<lparr>bt_Key := s\<rparr>) decStr),
      (''name'', decField bt_Name (\<lambda>s r. r\<lparr>bt_Name := s\<rparr>) decStr),
      (''url'', decField bt_URL (\<lambda>s r. r\<lparr>bt_URL := s\<rparr>) decStr),
      (''description'', decField bt_Description (\<lambda>s r. r\<lparr>bt_Description := s\<rparr>) decStr),
      (''dateAdded'', decField bt_DateAdded (\<lambda>s r. r\<lparr>bt_DateAdded := s\<rparr>) decInt)]"

record buildStatusPage =
  bu_Size :: int
  bu_Limit :: int
  bu_IsLastPage :: bool
  bu_Values :: "buildStatus list"
  bu_Start :: int

definition zeroBuildStatusPage :: buildStatusPage where
  "zeroBuildStatusPage = \<lparr>bu_Size = 0, bu_Limit = 0, bu_IsLastPage = False, bu_Values = [], bu_Start = 0\<rparr>"

definition decBuildStatusPage :: "buildStatusPage decoder" where
  "decBuildStatusPage = decStruct
     [(''size'', decField bu_Size (\<lambda>s r. r\<lparr>bu_Size := s\<rparr>) decInt),
      (''limit'', decField bu_Limit (\<lambda>s r. r\<lparr>bu_Limit := s\<rparr>) decInt),
      (''isLastPage'', decField bu_IsLastPage (\<lambda>s r. r\<lparr>bu_IsLastPage := s\<rparr>) decBool),
      (''values'', decField bu_Values (\<lambda>s r. r\<lparr>bu_Values := s\<rparr>) (decSlice zeroBuildStatus decBuildStatus)),
      (''start'', decField bu_Start (\<lambda>s r. r\<lparr>bu_Start := s\<rparr>) decInt)]"

text \<open>Report data as received: the value is untyped JSON, kept as text.\<close>

record receivedData =
  rd_Title :: string
  rd_Value :: string
  rd_Type :: string

definition zeroReceivedData :: receivedData where
  "zeroReceivedData = \<lparr>rd_Title = [], rd_Value = [], rd_Type = []\<rparr>"

definition decReceivedData :: "receivedData decoder" where
  "decReceivedData = decStruct
     [(''title'', decField rd_Title (\<lambda>s r. r\<lparr>rd_Title := s\<rparr>) decStr),
      (''value'', decField rd_Value (\<lambda>s r. r\<lparr>rd_Value := s\<rparr>) decAny),
      (''type'', decField rd_Type (\<lambda>s r. r\<lparr>rd_Type := s\<rparr>) decStr)]"

record insightReport =
  it_Data :: "receivedData list"
  it_CreatedDate :: int
  it_Details :: string
  it_Key :: string
  it_Link :: string
  it_LogoURL :: string
  it_Result :: string
  it_Title :: string
  it_Reporter :: string

definition zeroInsightReport :: insightReport where
  "zeroInsightReport = \<lparr>it_Data = [], it_CreatedDate = 0, it_Details = [], it_Key = [], it_Link = [], it_LogoURL = [], it_Result = [], it_Title = [], it_Reporter = []\<rparr>"

definition decInsightReport :: "insightReport decoder" where
  "decInsightReport = decStruct
     [(''data'', decField it_Data (\<lambda>s r. r\<lparr>it_Data := s\<rparr>) (decSlice zeroReceivedData decReceivedData)),
      (''createdDate'', decField it_CreatedDate (\<lambda>s r. r\<lparr>it_CreatedDate := s\<rparr>) decInt),
      (''details'', decField it_Details (\<lambda>s r. r\<lparr>it_Details := s\<rparr>) decStr),
      (''key'', decField it_Key (\<lambda>s r. r\<lparr>it_Key := s\<rparr>) decStr),
      (''link'', decField it_Link (\<lambda>s r. r\<lparr>it_Link := s\<rparr>) decStr),
      (''logoUrl'', decField it_LogoURL (\<lambda>s r. r\<lparr>it_LogoURL := s\<rparr>) decStr),
      (''result'', decField it_Result (\<lambda>s r. r\<lparr>it_Result := s\<rparr>) decStr),
      (''title'', decField it_Title (\<lambda>s r. r\<lparr>it_Title := s\<rparr>) decStr),
      (''reporter'', decField it_Reporter (\<lambda>s r. r\<lparr>it_Reporter := s\<rparr>) decStr)]"

record webhook =
  wk_ID :: int
  wk_Name :: string
  wk_CreatedDate :: int
  wk_UpdatedDate :: int
  wk_Events :: "string list"
  wk_Configuration_Secret :: string
  wk_URL :: string
  wk_Active :: bool

definition zeroWebhook :: webhook where
  "zeroWebhook = \<lparr>wk_ID = 0, wk_Name = [], wk_CreatedDate = 0, wk_UpdatedDate = 0, wk_Events = [], wk_Configuration_Secret = [], wk_URL = [], wk_Active = False\<rparr>"

definition decWebhook :: "webhook decoder" where
  "decWebhook = decStruct
     [(''id'', decField wk_ID (\<lambda>s r. r\<lparr>wk_ID := s\<rparr>) decInt),
      (''name'', decField wk_Name (\<lambda>s r. r\<lparr>wk_Name := s\<rparr>) decStr),
      (''createdDate'', decField wk_CreatedDate (\<lambda>s r. r\<lparr>wk_CreatedDate := s\<rparr>) decInt),
      (''updatedDate'', decField wk_UpdatedDate (\<lambda>s r. r\<lparr>wk_UpdatedDate := s\<rparr>) decInt),
      (''events'', decField wk_Events (\<lambda>s r. r\<lparr>wk_Events := s\<rparr>) (decSlice [] decStr)),
      (''configuration'', decField wk_Configuration_Secret (\<lambda>s r. r\<lparr>wk_Configuration_Secret := s\<rparr>) (decStruct [(''secret'', decStr)])),
      (''url'', decField wk_URL (\<lambda>s r. r\<lparr>wk_URL := s\<rparr>) decStr),
      (''active'', decField wk_Active (\<lambda>s r. r\<lparr>wk_Active := s\<rparr>) decBool)]"

section \<open>Encoding payloads\<close>

definition tagPayloadJson :: "tagCreatePayload \<Rightarrow> json" where
  "tagPayloadJson p = JObj [(''message'', JStr (tc_Message p)), (''name'', JStr (tc_Name p)), (''force'', JBool (tc_Force p)),
     (''startPoint'', JStr (tc_StartPoint p)), (''type'', JStr (tc_Type p))]"

definition buildStatusPayloadJson :: "buildStatusCreatePayload \<Rightarrow> json" where
  "buildStatusPayloadJson p = JObj [(''state'', JStr (bs_State p)), (''key'', JStr (bs_Key p)), (''name'', JStr (bs_Name p)),
     (''url'', JStr (bs_URL p)), (''description'', JStr (bs_Description p))]"

text \<open>A Go map is encoded with its keys in order; \<open>omitempty\<close> leaves out an empty string.\<close>

definition insightDataJson :: "insightReportData \<Rightarrow> json" where
  "insightDataJson d = JObj [(''title'', JStr (id_Title d)),
     (''value'', JObj (map (\<lambda>(k, v). (k, JStr v)) (sort_key fst (id_Value d)))), (''type'', JStr (id_Type d))]"

definition omitEmpty :: "string \<Rightarrow> string \<Rightarrow> (string \<times> json) list" where
  "omitEmpty key s = (if s = [] then [] else [(key, JStr s)])"

definition insightPayloadJson :: "insightReportCreatePayload \<Rightarrow> json" where
  "insightPayloadJson p = JObj
     ([(''data'', JArr (map insightDataJson (ir_Data p)))] @ omitEmpty ''details'' (ir_Details p) @
      [(''title'', JStr (ir_Title p))] @ omitEmpty ''reporter'' (ir_Reporter p) @
      [(''createdDate'', JNum (Itoa (ir_CreatedDate p)))] @ omitEmpty ''link'' (ir_Link p) @
      omitEmpty ''logoUrl'' (ir_LogoURL p) @ omitEmpty ''result'' (ir_Result p))"

record repoCreatePayload =
  rq_SCMID :: string
  rq_Name :: string
  rq_Forkable :: bool
  rq_DefaultBranch :: string

definition repoPayloadJson :: "repoCreatePayload \<Rightarrow> json" where
  "repoPayloadJson p = JObj [(''scmId'', JStr (rq_SCMID p)), (''name'', JStr (rq_Name p)), (''forkable'', JBool (rq_Forkable p)),
     (''defaultBranch'', JStr (rq_DefaultBranch p))]"

record projectCreatePayload =
  pd_Key :: string
  pd_Name :: string
  pd_Description :: string
  pd_Avatar :: string

definition projectPayloadJson :: "projectCreatePayload \<Rightarrow> json" where
  "projectPayloadJson p = JObj [(''key'', JStr (pd_Key p)), (''name'', JStr (pd_Name p)), (''description'', JStr (pd_Description p)),
     (''avatar'', JStr (pd_Avatar p))]"

record webhookCreatePayload =
  wp_Name :: string
  wp_Events :: "string list"
  wp_Secret :: string
  wp_URL :: string
  wp_Active :: bool

definition webhookPayloadJson :: "webhookCreatePayload \<Rightarrow> json" where
  "webhookPayloadJson p = JObj [(''name'', JStr (wp_Name p)), (''events'', JArr (map JStr (wp_Events p))),
     (''configuration'', JObj [(''secret'', JStr (wp_Secret p))]), (''url'', JStr (wp_URL p)), (''active'', JBool (wp_Active p))]"

section \<open>Operations\<close>

subsection \<open>Tags (tags.go)\<close>

definition TagList :: "transport \<Rightarrow> bitbucketConfig \<Rightarrow> call list \<Rightarrow> string \<Rightarrow> string \<Rightarrow> tagListParams \<Rightarrow> string + tagPage" where
  "TagList tr cfg h projectKey repositorySlug params =
     decodeAny decTagPage zeroTagPage (bitbucket_get tr cfg h (repoPath projectKey repositorySlug @ ''/tags?'' @
       valuesEncode [(''filterText'', tl_FilterText params), (''orderBy'', tl_OrderBy params)]))"

definition TagGet :: "transport \<Rightarrow> bitbucketConfig \<Rightarrow> call list \<Rightarrow> string \<Rightarrow> string \<Rightarrow> string \<Rightarrow> string + tag" where
  "TagGet tr cfg h projectKey repositorySlug name =
     decodeAny decTag zeroTag (bitbucket_get tr cfg h (repoPath projectKey repositorySlug @ ''/tags/'' @ name))"

definition TagCreate :: "transport \<Rightarrow> bitbucketConfig \<Rightarrow> call list \<Rightarrow> string \<Rightarrow> string \<Rightarrow> tagCreatePayload \<Rightarrow> string + tag" where
  "TagCreate tr cfg h projectKey repositorySlug payload =
     decodeStatus [201, 200] decTag zeroTag
       (bitbucket_post tr cfg h (repoPath projectKey repositorySlug @ ''/tags'') (Marshal (tagPayloadJson payload)))"

subsection \<open>Branches and commits (branches.go, commits.go)\<close>

definition BranchList :: "transport \<Rightarrow> bitbucketConfig \<Rightarrow> call list \<Rightarrow> string \<Rightarrow> string \<Rightarrow> branchListParams \<Rightarrow> string + branchPage" where
  "BranchList tr cfg h projectKey repositorySlug params =
     decodeAny decBranchPage zeroBranchPage (bitbucket_get tr cfg h (repoPath projectKey repositorySlug @ ''/branches?'' @
       valuesEncode [(''base'', bl_Base params), (''details'', fmtBool (bl_Details params)), (''filterText'', bl_FilterText params),
         (''orderBy'', bl_OrderBy params), (''boostMatches'', fmtBool (bl_BoostMatches params))]))"

definition CommitList :: "transport \<Rightarrow> bitbucketConfig \<Rightarrow> call list \<Rightarrow> string \<Rightarrow> string \<Rightarrow> commitListParams \<Rightarrow> string + commitPage" where
  "CommitList tr cfg h projectKey repositorySlug params =
     decodeAny decCommitPage zeroCommitPage (bitbucket_get tr cfg h (repoPath projectKey repositorySlug @ ''/commits?'' @
       valuesEncode [(''since'', cl_Since params), (''until'', cl_Until params)]))"

definition CommitGet :: "transport \<Rightarrow> bitbucketConfig \<Rightarrow> call list \<Rightarrow> string \<Rightarrow> string \<Rightarrow> string \<Rightarrow> string + commit" where
  "CommitGet tr cfg h projectKey repositorySlug commitID =
     decodeWrapped decCommit zeroCommit (bitbucket_get tr cfg h (repoPath projectKey repositorySlug @ ''/commits/'' @ commitID))"

definition CommitPullRequestList :: "transport \<Rightarrow> bitbucketConfig \<Rightarrow> call list \<Rightarrow> string \<Rightarrow> string \<Rightarrow> string \<Rightarrow> string + pullRequestPage" where
  "CommitPullRequestList tr cfg h projectKey repositorySlug commitID =
     decodeWrapped decPullRequestPage zeroPullRequestPage
       (bitbucket_get tr cfg h (repoPath projectKey repositorySlug @ ''/commits/'' @ commitID @ ''/pull-requests''))"

subsection \<open>Repositories, projects, files (repos.go, projects.go, raw.go)\<close>

definition RepoList :: "transport \<Rightarrow> bitbucketConfig \<Rightarrow> call list \<Rightarrow> string \<Rightarrow> string + repoPage" where
  "RepoList tr cfg h projectKey =
     decodeAny decRepoPage zeroRepoPage (bitbucket_get tr cfg h (''/rest/api/1.0/projects/'' @ projectKey @ ''/repos''))"

definition RepoCreate :: "transport \<Rightarrow> bitbucketConfig \<Rightarrow> call list \<Rightarrow> string \<Rightarrow> repoCreatePayload \<Rightarrow> string + repo" where
  "RepoCreate tr cfg h projectKey payload =
     decodeWrapped decRepo zeroRepo
       (bitbucket_post tr cfg h (''/rest/api/1.0/projects/'' @ projectKey @ ''/repos'') (Marshal (repoPayloadJson payload)))"

definition ProjectCreate :: "transport \<Rightarrow> bitbucketConfig \<Rightarrow> call list \<Rightarrow> projectCreatePayload \<Rightarrow> string + project" where
  "ProjectCreate tr cfg h payload =
     (case bitbucket_post tr cfg h ''/rest/api/1.0/projects'' (Marshal (projectPayloadJson payload)) of
        Inr (statusCode, response) \<Rightarrow>
          (if statusCode \<noteq> 201
           then Inl (''request returned unexpected status code: '' @ Itoa statusCode @ '', body: '' @ response)
           else decodeStatus [201] decProject zeroProject (Inr (statusCode, response)))
      | Inl e \<Rightarrow> Inl (''request returned error: '' @ e))"

definition RawGet :: "transport \<Rightarrow> bitbucketConfig \<Rightarrow> call list \<Rightarrow> string \<Rightarrow> string \<Rightarrow> string \<Rightarrow> string \<Rightarrow> string + string" where
  "RawGet tr cfg h project repository filename gitFullRef =
     (case bitbucket_get tr cfg h (''/projects/'' @ project @ ''/repos/'' @ repository @ ''/raw/'' @ filename @ ''?at='' @ QueryEscape gitFullRef) of
        Inl e \<Rightarrow> Inl (''could not get file: '' @ e)
      | Inr (statusCode, body) \<Rightarrow>
          (if statusCode = 200 then Inr body
           else if statusCode = 404
           then Inl (''could not find file '' @ [CHR 0x27] @ filename @ [CHR 0x27] @ '' at '' @ [CHR 0x27] @ gitFullRef @ [CHR 0x27])
           else Inl (''unexpected status code '' @ Itoa statusCode)))"

subsection \<open>Build status, code insights, webhooks (build\_status.go, code\_insights.go, webhooks.go)\<close>

definition BuildStatusCreate :: "transport \<Rightarrow> bitbucketConfig \<Rightarrow> call list \<Rightarrow> string \<Rightarrow> buildStatusCreatePayload \<Rightarrow> string + unit" where
  "BuildStatusCreate tr cfg h gitCommit payload =
     (case bitbucket_post tr cfg h (''/rest/build-status/1.0/commits/'' @ gitCommit) (Marshal (buildStatusPayloadJson payload)) of
        Inl e \<Rightarrow> Inl (''request returned error: '' @ e)
      | Inr (statusCode, response) \<Rightarrow>
          (if statusCode \<noteq> 204
           then Inl (''request returned unexpected response code: '' @ Itoa statusCode @ '', body: '' @ response)
           else Inr ()))"

definition BuildStatusList :: "transport \<Rightarrow> bitbucketConfig \<Rightarrow> call list \<Rightarrow> string \<Rightarrow> string + buildStatusPage" where
  "BuildStatusList tr cfg h gitCommit =
     (case bitbucket_get tr cfg h (''/rest/build-status/1.0/commits/'' @ gitCommit) of
        Inl e \<Rightarrow> Inl (''request returned error: '' @ e)
      | Inr (statusCode, response) \<Rightarrow>
          (if statusCode = 200
           then (case Unmarshal decBuildStatusPage zeroBuildStatusPage response of
                   Inl e \<Rightarrow> Inl (unmarshalError e statusCode response)
                 | Inr p \<Rightarrow> Inr p)
           else if statusCode = 401
           then Inl (''you are not permitted to get the build status of git commit '' @ gitCommit)
           else Inl (''unexpected status code '' @ Itoa statusCode)))"

definition InsightReportCreate ::
  "transport \<Rightarrow> bitbucketConfig \<Rightarrow> call list \<Rightarrow> string \<Rightarrow> string \<Rightarrow> string \<Rightarrow> string \<Rightarrow> insightReportCreatePayload \<Rightarrow> string + insightReport" where
  "InsightReportCreate tr cfg h projectKey repositorySlug commitID key payload =
     decodeStatus [200] decInsightReport zeroInsightReport
       (bitbucket_put tr cfg h (''/rest/insights/1.0/projects/'' @ projectKey @ ''/repos/'' @ repositorySlug @
          ''/commits/'' @ commitID @ ''/reports/'' @ key) (Marshal (insightPayloadJson payload)))"

definition WebhookCreate :: "transport \<Rightarrow> bitbucketConfig \<Rightarrow> call list \<Rightarrow> string \<Rightarrow> string \<Rightarrow> webhookCreatePayload \<Rightarrow> string + webhook" where
  "WebhookCreate tr cfg h projectKey repositorySlug payload =
     decodeStatus [201] decWebhook zeroWebhook
       (bitbucket_post tr cfg h (repoPath projectKey repositorySlug @ ''/webhooks'') (Marshal (webhookPayloadJson payload)))"

text \<open>The environment of the tasks and of the pipeline manager, with this client in it.\<close>

definition withBitbucket :: "transport \<Rightarrow> bitbucketConfig \<Rightarrow> services \<Rightarrow> services" where
  "withBitbucket tr cfg sv = sv\<lparr>sv_TagList := TagList tr cfg, sv_TagGet := TagGet tr cfg, sv_TagCreate := TagCreate tr cfg,
     sv_BranchList := BranchList tr cfg, sv_CommitList := CommitList tr cfg, sv_CommitGet := CommitGet tr cfg,
     sv_CommitPullRequestList := CommitPullRequestList tr cfg, sv_RepoList := RepoList tr cfg, sv_RawGet := RawGet tr cfg,
     sv_BuildStatusCreate := BuildStatusCreate tr cfg,
     sv_InsightReportCreate := (\<lambda>h p r c k x. map_sum id (\<lambda>_. ()) (InsightReportCreate tr cfg h p r c k x))\<rparr>"

section \<open>Facts\<close>

text \<open>The requests of this client: to a path below the base URL, with the token and nothing else in the headers.\<close>

definition authorized :: "bitbucketConfig \<Rightarrow> clientRequest \<Rightarrow> bool" where
  "authorized cfg req \<longleftrightarrow> cr_Method req \<in> {''GET'', ''POST'', ''PUT''} \<and>
     (\<exists>path. cr_URL req = bc_BaseURL cfg @ ''/'' @ path) \<and>
     cr_Header req = [(''Content-Type'', ''application/json''), (''Authorization'', ''Bearer '' @ bc_APIToken cfg)] \<and>
     (cr_Method req = ''GET'' \<longleftrightarrow> cr_Body req = None)"

definition agree :: "bitbucketConfig \<Rightarrow> transport \<Rightarrow> transport \<Rightarrow> bool" where
  "agree cfg tr tr' \<longleftrightarrow> (\<forall>h req. authorized cfg req \<longrightarrow> tr h req = tr' h req)"

lemma createRequest_agree:
  assumes "agree cfg tr tr'" "method \<in> {''GET'', ''POST'', ''PUT''}" "method = ''GET'' \<longleftrightarrow> payload = None"
  shows "createRequest tr cfg h method (CHR ''/'' # path) payload = createRequest tr' cfg h method (CHR ''/'' # path) payload"
proof -
  let ?req = "bitbucket_do cfg \<lparr>cr_Method = method, cr_URL = bc_BaseURL cfg @ CHR ''/'' # path,
      cr_Header = [(''Content-Type'', ''application/json'')], cr_Body = payload\<rparr>"
  have "authorized cfg ?req" using assms(2,3) by (auto simp: authorized_def bitbucket_do_def)
  with assms(1) have "tr h ?req = tr' h ?req" by (simp add: agree_def)
  then show ?thesis by (simp add: createRequest_def doRequest_def Let_def split: sum.split)
qed

lemma agree_methods:
  assumes "agree cfg tr tr'"
  shows "bitbucket_get tr cfg h (CHR ''/'' # path) = bitbucket_get tr' cfg h (CHR ''/'' # path)"
    and "bitbucket_post tr cfg h (CHR ''/'' # path) b = bitbucket_post tr' cfg h (CHR ''/'' # path) b"
    and "bitbucket_put tr cfg h (CHR ''/'' # path) b = bitbucket_put tr' cfg h (CHR ''/'' # path) b"
  unfolding bitbucket_get_def bitbucket_post_def bitbucket_put_def
  by (rule createRequest_agree [OF assms]; simp)+

text \<open>A document without any of the members a struct has decodes to the struct unchanged.\<close>

definition errorDocument :: "json \<Rightarrow> json" where
  "errorDocument v = JObj [(''errors'', v)]"

lemma Unmarshal_errorDocument:
  assumes "jsonOk v" "fieldOf fds ''errors'' = None"
  shows "Unmarshal (decStruct fds) zero (Marshal (errorDocument v)) = Inr zero"
proof -
  have "jsonOk (errorDocument v)" using assms(1) by (simp add: errorDocument_def)
  from parseJson_Marshal [OF this, of "[]"] have "parseJson (Marshal (errorDocument v)) = Some (errorDocument v)"
    by (simp add: stopsNumber_def)
  then show ?thesis using assms(2) by (simp add: Unmarshal_def decStruct_def errorDocument_def)
qed

lemma no_errors_member:
  "decTag zeroTag (errorDocument v) = Inr zeroTag"
  "decTagPage zeroTagPage (errorDocument v) = Inr zeroTagPage"
  "decBranchPage zeroBranchPage (errorDocument v) = Inr zeroBranchPage"
  "decCommitPage zeroCommitPage (errorDocument v) = Inr zeroCommitPage"
  "decCommit zeroCommit (errorDocument v) = Inr zeroCommit"
  "decPullRequestPage zeroPullRequestPage (errorDocument v) = Inr zeroPullRequestPage"
  "decRepoPage zeroRepoPage (errorDocument v) = Inr zeroRepoPage"
  by (simp_all add: errorDocument_def decTag_def decTagPage_def decBranchPage_def decCommitPage_def decCommit_def
      decPullRequestPage_def decRepoPage_def decStruct_def fieldOf_def ToLower_def toLowerC_def isUpper_def)

section \<open>Properties\<close>

text \<open>
  C33: the client sends nothing but requests to paths below the base URL that carry the API token
  as bearer: its answers depend on no other request.
\<close>

theorem client_sends_only_authorized_requests:
  assumes "\<And>h req. cr_Method req \<in> {''GET'', ''POST'', ''PUT''} \<Longrightarrow>
     \<exists>path. cr_URL req = bc_BaseURL cfg @ ''/'' @ path \<Longrightarrow>
     cr_Header req = [(''Content-Type'', ''application/json''), (''Authorization'', ''Bearer '' @ bc_APIToken cfg)] \<Longrightarrow>
     cr_Method req = ''GET'' \<longleftrightarrow> cr_Body req = None \<Longrightarrow> tr h req = tr' h req"
  shows "withBitbucket tr cfg sv = withBitbucket tr' cfg sv \<and> RepoCreate tr cfg = RepoCreate tr' cfg \<and>
     ProjectCreate tr cfg = ProjectCreate tr' cfg \<and> BuildStatusList tr cfg = BuildStatusList tr' cfg \<and>
     WebhookCreate tr cfg = WebhookCreate tr' cfg"
proof -
  have a: "agree cfg tr tr'" using assms by (auto simp: agree_def authorized_def)
  note eqs = agree_methods [OF a]
  have "TagList tr cfg = TagList tr' cfg" "TagGet tr cfg = TagGet tr' cfg" "TagCreate tr cfg = TagCreate tr' cfg"
    "BranchList tr cfg = BranchList tr' cfg" "CommitList tr cfg = CommitList tr' cfg" "CommitGet tr cfg = CommitGet tr' cfg"
    "CommitPullRequestList tr cfg = CommitPullRequestList tr' cfg" "RepoList tr cfg = RepoList tr' cfg"
    "RawGet tr cfg = RawGet tr' cfg" "BuildStatusCreate tr cfg = BuildStatusCreate tr' cfg"
    "InsightReportCreate tr cfg = InsightReportCreate tr' cfg"
    by (simp_all add: fun_eq_iff TagList_def TagGet_def TagCreate_def BranchList_def CommitList_def CommitGet_def
        CommitPullRequestList_def RepoList_def RawGet_def BuildStatusCreate_def InsightReportCreate_def repoPath_def eqs)
  then show ?thesis
    by (simp add: withBitbucket_def fun_eq_iff RepoCreate_def ProjectCreate_def BuildStatusList_def WebhookCreate_def repoPath_def eqs)
qed

text \<open>
  C34: the status of the answer to a tag request is not looked at: for a tag that does not exist
  the download task goes on with the empty commit, so it looks for artifacts in the group that
  ends in no commit.
\<close>

theorem missing_tag_taken_for_empty_commit:
  assumes "ad_tag opts \<noteq> WIP" and "jsonOk v"
    and "urlParse (bc_BaseURL cfg @ ''/rest/api/1.0/projects/'' @ ad_project opts @ ''/repos/'' @ ad_repository opts @ ''/tags/'' @ ad_tag opts) = Inr u"
    and "\<And>h. tr h \<lparr>cr_Method = ''GET'',
         cr_URL = bc_BaseURL cfg @ ''/rest/api/1.0/projects/'' @ ad_project opts @ ''/repos/'' @ ad_repository opts @ ''/tags/'' @ ad_tag opts,
         cr_Header = [(''Content-Type'', ''application/json''), (''Authorization'', ''Bearer '' @ bc_APIToken cfg)],
         cr_Body = None\<rparr> = Inr (404, Inr (Marshal (JObj [(''errors'', v)])))"
  shows "\<exists>ctxt w'. getODSContext (withBitbucket tr cfg sv) opts dir w = (Ok ctxt, w') \<and> oc_GitCommitSHA ctxt = [] \<and>
     ArtifactGroupBase ctxt = ''/'' @ ad_project opts @ ''/'' @ ad_repository opts @ ''/''"
proof -
  have parse: "parseJson (Marshal (errorDocument v)) = Some (errorDocument v)"
    using parseJson_Marshal [of "errorDocument v" "[]"] assms(2) by (simp add: errorDocument_def stopsNumber_def)
  have "TagGet tr cfg h (ad_project opts) (ad_repository opts) (ad_tag opts) = Inr zeroTag" for h
    using assms(3,4) parse no_errors_member(1)
    by (simp add: TagGet_def repoPath_def bitbucket_get_def createRequest_def doRequest_def bitbucket_do_def
        decodeAny_def Unmarshal_def errorDocument_def)
  with assms(1) show ?thesis
    by (simp add: getODSContext_def tagGet_def perform_def bindP_def withBitbucket_def zeroTag_def ret_def
        ArtifactGroupBase_def nexus_ArtifactGroupBase_def)
qed

subsection \<open>Examples\<close>

definition exampleBitbucket :: bitbucketConfig where
  "exampleBitbucket = \<lparr>bc_APIToken = ''t'', bc_BaseURL = ''https://b.org''\<rparr>"

definition notFound :: transport where
  "notFound h req = Inr (404, Inr (Marshal (JObj [(''errors'', JArr [])])))"

text \<open>A server that answers to anybody, and one that wants the token.\<close>

definition wantsToken :: transport where
  "wantsToken h req = (if map_of (cr_Header req) ''Authorization'' = Some ''Bearer t'' then notFound h req
     else Inr (401, Inr []))"

lemma client_authorized_witness:
  "withBitbucket notFound exampleBitbucket noServices = withBitbucket wantsToken exampleBitbucket noServices"
  using client_sends_only_authorized_requests [of exampleBitbucket notFound wantsToken noServices]
  by (simp add: wantsToken_def exampleBitbucket_def)

lemma missing_tag_witness:
  "\<exists>ctxt w'. getODSContext (withBitbucket notFound exampleBitbucket noServices) taggedDownload ''.'' emptyWorld = (Ok ctxt, w') \<and>
     ArtifactGroupBase ctxt = ''/p/main/''"
proof -
  let ?url = "bc_BaseURL exampleBitbucket @ ''/rest/api/1.0/projects/'' @ ad_project taggedDownload @ ''/repos/'' @
      ad_repository taggedDownload @ ''/tags/'' @ ad_tag taggedDownload"
  have "case urlParse ?url of Inr u \<Rightarrow> True | Inl e \<Rightarrow> False" by code_simp
  then obtain u where u: "urlParse ?url = Inr u" by (auto split: sum.splits)
  have "ad_tag taggedDownload \<noteq> WIP" by (simp add: taggedDownload_def WIP_def)
  from missing_tag_taken_for_empty_commit [OF this _ u, of "JArr []" notFound noServices "''.''" emptyWorld]
  show ?thesis by (auto simp: notFound_def taggedDownload_def)
qed

end
