(* ===== verification/Logging.thy ===== *)
theory Logging
  imports GoStrings "HOL-Library.Word"
begin

text \<open>
  \<open>pkg/logging/logger.go\<close>: the leveled logger, and the part of \<open>fmt.Fprintf\<close> its callers use.
  A writer is a name; what was written is the list of the pieces, in order.
\<close>

section \<open>Formatting\<close>

text \<open>
  An argument is given as its type and its text.  The verbs are those of the repository's messages,
  each of which stands for the text of the argument; an argument that is missing, a verb that is
  missing and arguments left over show in the output, as they do in Go.
\<close>

type_synonym fmtArg = "string \<times> string"

definition extraArgs :: "fmtArg list \<Rightarrow> string" where
  "extraArgs args = (if args = [] then []
     else ''%!(EXTRA '' @ Join (map (\<lambda>(ty, v). ty @ ''='' @ v) args) '', '' @ '')'')"

fun sprintf :: "string \<Rightarrow> fmtArg list \<Rightarrow> string" where
  "sprintf [] args = extraArgs args"
| "sprintf (c # cs) args =
     (if c \<noteq> CHR ''%'' then c # sprintf cs args
      else case cs of
          [] \<Rightarrow> ''%!(NOVERB)'' @ extraArgs args
        | v # rest \<Rightarrow>
            if v = CHR ''%'' then CHR ''%'' # sprintf rest args
            else case rest of
                v' # rest' \<Rightarrow>
                  if v = CHR ''+'' \<and> v' = CHR ''v''
                  then (case args of [] \<Rightarrow> ''%!v(MISSING)'' @ sprintf rest' [] | (_, t) # as \<Rightarrow> t @ sprintf rest' as)
                  else (case args of [] \<Rightarrow> ''%!'' @ [v] @ ''(MISSING)'' @ sprintf rest [] | (_, t) # as \<Rightarrow> t @ sprintf rest as)
              | [] \<Rightarrow>
                  (case args of [] \<Rightarrow> ''%!'' @ [v] @ ''(MISSING)'' @ sprintf rest [] | (_, t) # as \<Rightarrow> t @ sprintf rest as))"

section \<open>The logger\<close>

type_synonym level = "32 word"

definition LevelNull :: level where "LevelNull = 0"
definition LevelError :: level where "LevelError = 1"
definition LevelWarn :: level where "LevelWarn = 2"
definition LevelInfo :: level where "LevelInfo = 3"
definition LevelDebug :: level where "LevelDebug = 4"

lemmas levels = LevelNull_def LevelError_def LevelWarn_def LevelInfo_def LevelDebug_def

datatype writer = OsStdout | OsStderr | Override nat

record leveledLogger =
  lg_Level :: level
  lg_StderrOverride :: "writer option"
  lg_StdoutOverride :: "writer option"

type_synonym written = "(writer \<times> string) list"

definition logger_stderr :: "leveledLogger \<Rightarrow> writer" where
  "logger_stderr l = (case lg_StderrOverride l of Some w \<Rightarrow> w | None \<Rightarrow> OsStderr)"

definition logger_stdout :: "leveledLogger \<Rightarrow> writer" where
  "logger_stdout l = (case lg_StdoutOverride l of Some w \<Rightarrow> w | None \<Rightarrow> OsStdout)"

definition Debugf :: "leveledLogger \<Rightarrow> string \<Rightarrow> fmtArg list \<Rightarrow> written \<Rightarrow> written" where
  "Debugf l format v out = (if lg_Level l \<ge> LevelDebug
     then out @ [(logger_stdout l, sprintf (''[DEBUG] '' @ format @ [CHR 0x0A]) v)] else out)"

definition Errorf :: "leveledLogger \<Rightarrow> string \<Rightarrow> fmtArg list \<Rightarrow> written \<Rightarrow> written" where
  "Errorf l format v out = (if lg_Level l \<ge> LevelError
     then out @ [(logger_stderr l, sprintf (''[ERROR] '' @ format @ [CHR 0x0A]) v)] else out)"

definition Infof :: "leveledLogger \<Rightarrow> string \<Rightarrow> fmtArg list \<Rightarrow> written \<Rightarrow> written" where
  "Infof l format v out = (if lg_Level l \<ge> LevelInfo
     then out @ [(logger_stdout l, sprintf (''[INFO] '' @ format @ [CHR 0x0A]) v)] else out)"

definition Warnf :: "leveledLogger \<Rightarrow> string \<Rightarrow> fmtArg list \<Rightarrow> written \<Rightarrow> written" where
  "Warnf l format v out = (if lg_Level l \<ge> LevelWarn
     then out @ [(logger_stderr l, sprintf (''[WARN] '' @ format @ [CHR 0x0A]) v)] else out)"

text \<open>The logger interface: a program that logs is a sequence of its operations.\<close>

datatype logCall = LogDebug string "fmtArg list" | LogInfo string "fmtArg list" | LogWarn string "fmtArg list" | LogError string "fmtArg list"

primrec logWith :: "leveledLogger \<Rightarrow> logCall \<Rightarrow> written \<Rightarrow> written" where
  "logWith l (LogDebug f v) = Debugf l f v"
| "logWith l (LogInfo f v) = Infof l f v"
| "logWith l (LogWarn f v) = Warnf l f v"
| "logWith l (LogError f v) = Errorf l f v"

definition logAll :: "leveledLogger \<Rightarrow> logCall list \<Rightarrow> written \<Rightarrow> written" where
  "logAll l cs out = foldl (\<lambda>o' c. logWith l c o') out cs"

text \<open>The logger that clients without one get.\<close>

definition loggerAt :: "level \<Rightarrow> leveledLogger" where
  "loggerAt lv = \<lparr>lg_Level = lv, lg_StderrOverride = None, lg_StdoutOverride = None\<rparr>"

section \<open>Specification: a filter by severity\<close>

primrec severity :: "logCall \<Rightarrow> level" where
  "severity (LogDebug f v) = LevelDebug"
| "severity (LogInfo f v) = LevelInfo"
| "severity (LogWarn f v) = LevelWarn"
| "severity (LogError f v) = LevelError"

primrec rendered :: "leveledLogger \<Rightarrow> logCall \<Rightarrow> writer \<times> string" where
  "rendered l (LogDebug f v) = (logger_stdout l, sprintf (''[DEBUG] '' @ f @ [CHR 0x0A]) v)"
| "rendered l (LogInfo f v) = (logger_stdout l, sprintf (''[INFO] '' @ f @ [CHR 0x0A]) v)"
| "rendered l (LogWarn f v) = (logger_stderr l, sprintf (''[WARN] '' @ f @ [CHR 0x0A]) v)"
| "rendered l (LogError f v) = (logger_stderr l, sprintf (''[ERROR] '' @ f @ [CHR 0x0A]) v)"

text \<open>A locale for anything that logs: what a client relies on is that a call only adds to the output.\<close>

locale logger_interface =
  fixes log1 :: "'c \<Rightarrow> 'o list \<Rightarrow> 'o list"
    and shown :: "'c \<Rightarrow> bool" and text1 :: "'c \<Rightarrow> 'o"
  assumes log1: "log1 c out = (if shown c then out @ [text1 c] else out)"
begin

lemma log_all: "foldl (\<lambda>o' c. log1 c o') out cs = out @ map text1 (filter shown cs)"
  by (induction cs arbitrary: out) (simp_all add: log1)

end

interpretation lev: logger_interface "logWith l" "\<lambda>c. severity c \<le> lg_Level l" "rendered l" for l
proof
  show "logWith l c out = (if severity c \<le> lg_Level l then out @ [rendered l c] else out)" for c out
    by (cases c) (simp_all add: Debugf_def Infof_def Warnf_def Errorf_def)
qed

lemma logAll_filter: "logAll l cs out = out @ map (rendered l) (filter (\<lambda>c. severity c \<le> lg_Level l) cs)"
  unfolding logAll_def by (rule lev.log_all)

text \<open>Raising the level keeps every message, in order; at \<open>LevelNull\<close> there is none.\<close>

lemma logAll_mono:
  assumes "lg_Level l \<le> lv"
  shows "subseq (logAll l cs []) (logAll (l\<lparr>lg_Level := lv\<rparr>) cs [])"
proof -
  have r: "rendered (l\<lparr>lg_Level := lv\<rparr>) = rendered l"
    by (rule ext, rename_tac c, case_tac c) (simp_all add: logger_stdout_def logger_stderr_def)
  have "filter (\<lambda>c. severity c \<le> lg_Level l) cs = filter (\<lambda>c. severity c \<le> lg_Level l) (filter (\<lambda>c. severity c \<le> lv) cs)"
    using assms by (auto intro!: filter_cong)
  then have "subseq (filter (\<lambda>c. severity c \<le> lg_Level l) cs) (filter (\<lambda>c. severity c \<le> lv) cs)"
    by (metis subseq_filter_left)
  then show ?thesis by (simp add: logAll_filter r subseq_map)
qed

lemma logAll_null: "lg_Level l = LevelNull \<Longrightarrow> logAll l cs out = out"
proof -
  assume l: "lg_Level l = LevelNull"
  have "\<not> severity c \<le> lg_Level l" for c unfolding l by (cases c) (simp_all add: levels)
  then show ?thesis by (simp add: logAll_filter)
qed

text \<open>A message without verbs and without arguments is printed as it is.\<close>

lemma sprintf_plain: "CHR ''%'' \<notin> set s \<Longrightarrow> sprintf s [] = s"
  by (induction s) (auto simp: extraArgs_def)

lemma sprintf_append: "CHR ''%'' \<notin> set s \<Longrightarrow> sprintf (s @ t) args = s @ sprintf t args"
  by (induction s) auto

end
