(* ===== verification/ClusterClients.thy ===== *)
theory ClusterClients
  imports Tekton Logging
begin

text \<open>
  \<open>internal/kubernetes\<close> and \<open>internal/tekton\<close>: the clients for a cluster.  The client sets
  they wrap are third-party code: what the cluster answers is a parameter, and may depend on
  all calls made before.  The state is the list of those calls and what was logged.
\<close>

section \<open>Objects of the cluster\<close>

record secret =
  sc_Name :: string
  sc_Data :: labels

record configMap =
  cm_Name :: string
  cm_Data :: labels

record persistentVolume =
  pv_Name :: string
  pv_Labels :: labels
  pv_Capacity :: string
  pv_AccessModes :: "string list"
  pv_HostPath :: string
  pv_ReclaimPolicy :: string
  pv_StorageClassName :: string

text \<open>Ports are 32-bit integers; \<open>sp_Selector\<close> is in the order in which Go iterates over the map.\<close>

record servicePort =
  spt_Name :: string
  spt_NodePort :: "32 word"
  spt_Port :: "32 word"
  spt_Protocol :: string
  spt_TargetPort :: "32 word"

record service =
  svc_Name :: string
  svc_Namespace :: string
  svc_Labels :: labels
  svc_ExternalTrafficPolicy :: string
  svc_Ports :: "servicePort list"
  svc_Selector :: labels
  svc_SessionAffinity :: string
  svc_Type :: string

record containerStatus =
  cs_Name :: string
  cs_Ready :: bool
  cs_Running :: bool

record pod =
  pod_Name :: string
  pod_Namespace :: string
  pod_Phase :: string
  pod_Containers :: "string list"
  pod_ContainerStatuses :: "containerStatus list"

section \<open>Calls to the cluster\<close>

datatype apiCall =
    GetPVCCall string string
  | CreatePVCCall string pvc
  | GetConfigMapCall string string
  | CreateNamespaceCall string
  | DeleteNamespaceCall string
  | CreateSecretCall string secret
  | GetSecretCall string string
  | CreatePVCall persistentVolume
  | DeletePVCall string
  | CreateServiceCall string service
  | ListPodsCall string string
  | GetPipelineCall string string
  | CreatePipelineCall string pipeline
  | UpdatePipelineCall string pipeline
  | DeletePipelineCall string string
  | ListPipelineRunsCall string string
  | GetPipelineRunCall string string
  | CreatePipelineRunCall string pipelineRun
  | UpdatePipelineRunCall string pipelineRun
  | DeletePipelineRunCall string string

record clientset =
  api_GetPVC :: "apiCall list \<Rightarrow> string \<Rightarrow> string \<Rightarrow> string + pvc"
  api_CreatePVC :: "apiCall list \<Rightarrow> string \<Rightarrow> pvc \<Rightarrow> string + pvc"
  api_GetConfigMap :: "apiCall list \<Rightarrow> string \<Rightarrow> string \<Rightarrow> string + configMap"
  api_CreateNamespace :: "apiCall list \<Rightarrow> string \<Rightarrow> string + unit"
  api_DeleteNamespace :: "apiCall list \<Rightarrow> string \<Rightarrow> string + unit"
  api_CreateSecret :: "apiCall list \<Rightarrow> string \<Rightarrow> secret \<Rightarrow> string + secret"
  api_GetSecret :: "apiCall list \<Rightarrow> string \<Rightarrow> string \<Rightarrow> string + secret"
  api_CreatePV :: "apiCall list \<Rightarrow> persistentVolume \<Rightarrow> string + persistentVolume"
  api_DeletePV :: "apiCall list \<Rightarrow> string \<Rightarrow> string + unit"
  api_CreateService :: "apiCall list \<Rightarrow> string \<Rightarrow> service \<Rightarrow> string + service"
  api_ListPods :: "apiCall list \<Rightarrow> string \<Rightarrow> string \<Rightarrow> string + pod list"

record tektonset =
  api_GetPipeline :: "apiCall list \<Rightarrow> string \<Rightarrow> string \<Rightarrow> string + pipeline"
  api_CreatePipeline :: "apiCall list \<Rightarrow> string \<Rightarrow> pipeline \<Rightarrow> string + pipeline"
  api_UpdatePipeline :: "apiCall list \<Rightarrow> string \<Rightarrow> pipeline \<Rightarrow> string + pipeline"
  api_DeletePipeline :: "apiCall list \<Rightarrow> string \<Rightarrow> string \<Rightarrow> string + unit"
  api_ListPipelineRuns :: "apiCall list \<Rightarrow> string \<Rightarrow> string \<Rightarrow> string + pipelineRun list"
  api_GetPipelineRun :: "apiCall list \<Rightarrow> string \<Rightarrow> string \<Rightarrow> string + pipelineRun"
  api_CreatePipelineRun :: "apiCall list \<Rightarrow> string \<Rightarrow> pipelineRun \<Rightarrow> string + pipelineRun"
  api_UpdatePipelineRun :: "apiCall list \<Rightarrow> string \<Rightarrow> pipelineRun \<Rightarrow> string + pipelineRun"
  api_DeletePipelineRun :: "apiCall list \<Rightarrow> string \<Rightarrow> string \<Rightarrow> string + unit"

record clusterState =
  cl_Calls :: "apiCall list"
  cl_Written :: written

type_synonym 'a onCluster = "(clusterState, 'a) prog"

definition callApi :: "apiCall \<Rightarrow> (apiCall list \<Rightarrow> string + 'a) \<Rightarrow> 'a onCluster" where
  "callApi c f s = ((case f (cl_Calls s) of Inl e \<Rightarrow> Err e | Inr x \<Rightarrow> Ok x), s\<lparr>cl_Calls := cl_Calls s @ [c]\<rparr>)"

definition debugf :: "leveledLogger \<Rightarrow> string \<Rightarrow> fmtArg list \<Rightarrow> unit onCluster" where
  "debugf l format v s = (Ok (), s\<lparr>cl_Written := Debugf l format v (cl_Written s)\<rparr>)"

text \<open>\<open>log.Printf\<close> writes to the standard error stream whatever the level, and ends the line if need be.\<close>

definition logPrintf :: "string \<Rightarrow> fmtArg list \<Rightarrow> unit onCluster" where
  "logPrintf format v s =
     (let t = sprintf format v
      in (Ok (), s\<lparr>cl_Written := cl_Written s @ [(OsStderr, if HasSuffix t [CHR 0x0A] then t else t @ [CHR 0x0A])]\<rparr>))"

definition str :: "string \<Rightarrow> fmtArg" where "str s = (''string'', s)"

section \<open>Creating a client\<close>

text \<open>Pointers to a client set and to a logger may be nil; without a logger the client gets one for errors.\<close>

record 'c clientConfig =
  cc_Namespace :: string
  cc_Logger :: "leveledLogger option"
  cc_ClientSet :: "'c option"

definition kube_NewClient :: "clientset clientConfig \<Rightarrow> (string + clientset clientConfig) \<times> clientset clientConfig" where
  "kube_NewClient cfg =
     (if cc_Namespace cfg = [] then (Inl ''namespace is required'', cfg)
      else if cc_ClientSet cfg = None then (Inl ''kubernetes client is required'', cfg)
      else
        (let cfg' = (if cc_Logger cfg = None then cfg\<lparr>cc_Logger := Some (loggerAt LevelError)\<rparr> else cfg)
         in (Inr cfg', cfg')))"

definition tekton_NewClient :: "tektonset clientConfig \<Rightarrow> (string + tektonset clientConfig) \<times> tektonset clientConfig" where
  "tekton_NewClient cfg =
     (if cc_Namespace cfg = [] then (Inl ''namespace is required'', cfg)
      else if cc_ClientSet cfg = None then (Inl ''tekton client is required'', cfg)
      else
        (let cfg' = (if cc_Logger cfg = None then cfg\<lparr>cc_Logger := Some (loggerAt LevelError)\<rparr> else cfg)
         in (Inr cfg', cfg')))"

text \<open>Inside a cluster the client set is made from the configuration found there, both of which may fail.\<close>

definition kube_NewInClusterClient ::
  "string + 'k \<Rightarrow> ('k \<Rightarrow> string + clientset) \<Rightarrow> clientset clientConfig \<Rightarrow> (string + clientset clientConfig) \<times> clientset clientConfig" where
  "kube_NewInClusterClient inClusterConfig newForConfig cfg = (case inClusterConfig of
       Inl e \<Rightarrow> (Inl e, cfg)
     | Inr config \<Rightarrow> (case newForConfig config of
           Inl e \<Rightarrow> (Inl e, cfg)
         | Inr cs \<Rightarrow> kube_NewClient (cfg\<lparr>cc_ClientSet := Some cs\<rparr>)))"

definition tekton_NewInClusterClient ::
  "string + 'k \<Rightarrow> ('k \<Rightarrow> string + tektonset) \<Rightarrow> tektonset clientConfig \<Rightarrow> (string + tektonset clientConfig) \<times> tektonset clientConfig" where
  "tekton_NewInClusterClient inClusterConfig newForConfig cfg = (case inClusterConfig of
       Inl e \<Rightarrow> (Inl e, cfg)
     | Inr config \<Rightarrow> (case newForConfig config of
           Inl e \<Rightarrow> (Inl e, cfg)
         | Inr cs \<Rightarrow> tekton_NewClient (cfg\<lparr>cc_ClientSet := Some cs\<rparr>)))"

definition NewInClusterClientset :: "string + 'k \<Rightarrow> ('k \<Rightarrow> string + clientset) \<Rightarrow> string + clientset" where
  "NewInClusterClientset inClusterConfig newForConfig = (case inClusterConfig of
       Inl e \<Rightarrow> Inl e | Inr config \<Rightarrow> newForConfig config)"

text \<open>Outside a cluster: the clients of the kubeconfig in the home directory, or a panic.\<close>

definition NewClients ::
  "string \<Rightarrow> (string \<Rightarrow> string + 'k) \<Rightarrow> ('k \<Rightarrow> string + clientset) \<Rightarrow> ('k \<Rightarrow> string + tektonset) \<Rightarrow> (clientset \<times> tektonset) outcome" where
  "NewClients home buildConfigFromFlags newKube newTekton =
     (case buildConfigFromFlags (filepathJoin [home, ''.kube'', ''config'']) of
        Inl e \<Rightarrow> Panic e
      | Inr config \<Rightarrow> (case newKube config of
            Inl e \<Rightarrow> Panic e
          | Inr kc \<Rightarrow> (case newTekton config of Inl e \<Rightarrow> Panic e | Inr tc \<Rightarrow> Ok (kc, tc))))"

text \<open>A method on a client without a logger or a client set would panic.\<close>

definition withClient :: "'c clientConfig \<Rightarrow> (leveledLogger \<Rightarrow> string \<Rightarrow> 'c \<Rightarrow> 'a onCluster) \<Rightarrow> 'a onCluster" where
  "withClient c m = (case (cc_Logger c, cc_ClientSet c) of
       (Some l, Some cs) \<Rightarrow> m l (cc_Namespace c) cs
     | _ \<Rightarrow> panicP ''invalid memory address or nil pointer dereference'')"

section \<open>Operations of the Kubernetes client\<close>

definition kube_GetPersistentVolumeClaim :: "clientset clientConfig \<Rightarrow> string \<Rightarrow> pvc onCluster" where
  "kube_GetPersistentVolumeClaim c name = withClient c (\<lambda>l ns cs.
     bindP (debugf l ''Get persistent volume claim %s'' [str name]) (\<lambda>_.
     callApi (GetPVCCall ns name) (\<lambda>h. api_GetPVC cs h ns name)))"

definition kube_CreatePersistentVolumeClaim :: "clientset clientConfig \<Rightarrow> pvc \<Rightarrow> pvc onCluster" where
  "kube_CreatePersistentVolumeClaim c v = withClient c (\<lambda>l ns cs.
     bindP (debugf l ''Create persistent volume claim %s'' [str (vc_Name v)]) (\<lambda>_.
     callApi (CreatePVCCall ns v) (\<lambda>h. api_CreatePVC cs h ns v)))"

definition kube_GetConfigMap :: "clientset clientConfig \<Rightarrow> string \<Rightarrow> configMap onCluster" where
  "kube_GetConfigMap c cmName = withClient c (\<lambda>l ns cs.
     bindP (debugf l ''Get configmap %s'' [str cmName]) (\<lambda>_.
     callApi (GetConfigMapCall ns cmName) (\<lambda>h. api_GetConfigMap cs h ns cmName)))"

text \<open>Looking up a key of the data of an object.\<close>

definition dataKey :: "labels \<Rightarrow> string \<Rightarrow> string onCluster" where
  "dataKey m key = (case map_of m key of
       Some v \<Rightarrow> ret v
     | None \<Rightarrow> failE (''key '' @ key @ '' not found''))"

definition kube_GetConfigMapKey :: "clientset clientConfig \<Rightarrow> string \<Rightarrow> string \<Rightarrow> string onCluster" where
  "kube_GetConfigMapKey c cmName key = withClient c (\<lambda>l ns cs.
     bindP (debugf l ''Get configmap %s'' [str cmName]) (\<lambda>_.
     bindP (kube_GetConfigMap c cmName) (\<lambda>cm.
     dataKey (cm_Data cm) key)))"

section \<open>Functions on a Kubernetes client set\<close>

definition CreateNamespace :: "clientset \<Rightarrow> string \<Rightarrow> unit onCluster" where
  "CreateNamespace cs namespace =
     bindP (logPrintf ''Create namespace %s to deploy to'' [str namespace]) (\<lambda>_.
     bindP (attempt (callApi (CreateNamespaceCall namespace) (\<lambda>h. api_CreateNamespace cs h namespace))) (\<lambda>r. case r of
         Inl e \<Rightarrow> logPrintf ''Failed to create namespace %s for tests: %s'' [str namespace, (''error'', e)]
       | Inr _ \<Rightarrow> ret ()))"

definition CreateSecret :: "clientset \<Rightarrow> string \<Rightarrow> secret \<Rightarrow> secret onCluster" where
  "CreateSecret cs namespace sec =
     bindP (logPrintf ''Create secret %s'' [str (sc_Name sec)]) (\<lambda>_.
     callApi (CreateSecretCall namespace sec) (\<lambda>h. api_CreateSecret cs h namespace sec))"

definition GetSecret :: "clientset \<Rightarrow> string \<Rightarrow> string \<Rightarrow> secret onCluster" where
  "GetSecret cs namespace secretName =
     bindP (logPrintf ''Get secret %s'' [str secretName]) (\<lambda>_.
     callApi (GetSecretCall namespace secretName) (\<lambda>h. api_GetSecret cs h namespace secretName))"

definition GetSecretKey :: "clientset \<Rightarrow> string \<Rightarrow> string \<Rightarrow> string \<Rightarrow> string onCluster" where
  "GetSecretKey cs namespace secretName key =
     bindP (logPrintf ''Get secret %s'' [str secretName]) (\<lambda>_.
     bindP (callApi (GetSecretCall namespace secretName) (\<lambda>h. api_GetSecret cs h namespace secretName)) (\<lambda>sec.
     dataKey (sc_Data sec) key))"

definition managedBy :: labels where
  "managedBy = [(''app.kubernetes.io/managed-by'', ''ods-pipeline'')]"

text \<open>The quantity is parsed before the volume is created; a malformed one is a panic.\<close>

definition MustParse :: "(string \<Rightarrow> bool) \<Rightarrow> string \<Rightarrow> string onCluster" where
  "MustParse quantityValid q =
     (if quantityValid q then ret q
      else panicP (''cannot parse '' @ [CHR 0x27] @ q @ [CHR 0x27] @ '': quantities must match the regular expression''))"

definition CreatePersistentVolume ::
  "(string \<Rightarrow> bool) \<Rightarrow> clientset \<Rightarrow> string \<Rightarrow> string \<Rightarrow> string \<Rightarrow> string \<Rightarrow> persistentVolume onCluster" where
  "CreatePersistentVolume quantityValid cs pvName capacity hostPath storageClassName =
     bindP (logPrintf ''Create persistent volume %s'' [str pvName]) (\<lambda>_.
     bindP (MustParse quantityValid capacity) (\<lambda>q.
     let v = \<lparr>pv_Name = pvName, pv_Labels = managedBy, pv_Capacity = q, pv_AccessModes = [''ReadWriteOnce''],
              pv_HostPath = hostPath, pv_ReclaimPolicy = ''Retain'', pv_StorageClassName = storageClassName\<rparr>
     in callApi (CreatePVCall v) (\<lambda>h. api_CreatePV cs h v)))"

definition CreatePersistentVolumeClaim ::
  "(string \<Rightarrow> bool) \<Rightarrow> clientset \<Rightarrow> string \<Rightarrow> string \<Rightarrow> string \<Rightarrow> pvc onCluster" where
  "CreatePersistentVolumeClaim quantityValid cs capacity storageClassName namespace =
     bindP (logPrintf ''Create persistent volume claim %s'' [str ''task-pv-claim'']) (\<lambda>_.
     bindP (MustParse quantityValid capacity) (\<lambda>q.
     let v = \<lparr>vc_Name = ''task-pv-claim'', vc_Labels = managedBy, vc_Finalizers = [], vc_Annotations = [],
              vc_AccessModes = [''ReadWriteOnce''], vc_StorageRequest = q, vc_StorageClassName = storageClassName, vc_VolumeMode = []\<rparr>
     in callApi (CreatePVCCall namespace v) (\<lambda>h. api_CreatePVC cs h namespace v)))"

definition CreateNodePortService ::
  "clientset \<Rightarrow> string \<Rightarrow> labels \<Rightarrow> 32 word \<Rightarrow> 32 word \<Rightarrow> string \<Rightarrow> service onCluster" where
  "CreateNodePortService cs name selectors port targetPort namespace =
     bindP (logPrintf ''Create node port service %s'' [str name]) (\<lambda>_.
     let v = \<lparr>svc_Name = name, svc_Namespace = [], svc_Labels = managedBy, svc_ExternalTrafficPolicy = ''Cluster'',
              svc_Ports = [\<lparr>spt_Name = Itoa (sint port) @ ''-'' @ Itoa (sint targetPort), spt_NodePort = port, spt_Port = port,
                            spt_Protocol = ''TCP'', spt_TargetPort = targetPort\<rparr>],
              svc_Selector = selectors, svc_SessionAffinity = ''None'', svc_Type = ''NodePort''\<rparr>
     in callApi (CreateServiceCall namespace v) (\<lambda>h. api_CreateService cs h namespace v))"

definition servicePods :: "clientset \<Rightarrow> service \<Rightarrow> pod list onCluster" where
  "servicePods cs svc =
     (let selector = Join (map (\<lambda>(key, value). key @ ''='' @ value) (svc_Selector svc)) '',''
      in callApi (ListPodsCall (svc_Namespace svc) selector) (\<lambda>h. api_ListPods cs h (svc_Namespace svc) selector))"

fun firstNotReady :: "containerStatus list \<Rightarrow> string option" where
  "firstNotReady [] = None"
| "firstNotReady (c # cs) = (if \<not> cs_Ready c then Some (cs_Name c) else firstNotReady cs)"

fun podsReady :: "pod list \<Rightarrow> bool \<times> string" where
  "podsReady [] = (True, ''ok'')"
| "podsReady (p # ps) =
     (if pod_Phase p \<noteq> ''Running'' then (False, ''pod '' @ pod_Name p @ '' is in phase '' @ pod_Phase p)
      else case firstNotReady (pod_ContainerStatuses p) of
          Some c \<Rightarrow> (False, ''container '' @ c @ '' in pod '' @ pod_Name p @ '' is not ready'')
        | None \<Rightarrow> podsReady ps)"

definition ServiceHasReadyPods :: "clientset \<Rightarrow> service \<Rightarrow> (bool \<times> string \<times> string option) onCluster" where
  "ServiceHasReadyPods cs svc =
     bindP (attempt (servicePods cs svc)) (\<lambda>r. case r of
         Inl e \<Rightarrow> ret (False, ''error'', Some e)
       | Inr items \<Rightarrow> ret (case podsReady items of (b, m) \<Rightarrow> (b, m, None)))"

section \<open>Operations of the Tekton client\<close>

definition tekton_GetPipeline :: "tektonset clientConfig \<Rightarrow> string \<Rightarrow> pipeline onCluster" where
  "tekton_GetPipeline c name = withClient c (\<lambda>l ns cs.
     bindP (debugf l ''Get pipeline %s'' [str name]) (\<lambda>_.
     callApi (GetPipelineCall ns name) (\<lambda>h. api_GetPipeline cs h ns name)))"

definition tekton_CreatePipeline :: "tektonset clientConfig \<Rightarrow> pipeline \<Rightarrow> pipeline onCluster" where
  "tekton_CreatePipeline c p = withClient c (\<lambda>l ns cs.
     bindP (debugf l ''Create pipeline %s'' [str (pl_Name p)]) (\<lambda>_.
     callApi (CreatePipelineCall ns p) (\<lambda>h. api_CreatePipeline cs h ns p)))"

definition tekton_UpdatePipeline :: "tektonset clientConfig \<Rightarrow> pipeline \<Rightarrow> pipeline onCluster" where
  "tekton_UpdatePipeline c p = withClient c (\<lambda>l ns cs.
     bindP (debugf l ''Update pipeline %s'' [str (pl_Name p)]) (\<lambda>_.
     callApi (UpdatePipelineCall ns p) (\<lambda>h. api_UpdatePipeline cs h ns p)))"

definition tekton_DeletePipeline :: "tektonset clientConfig \<Rightarrow> string \<Rightarrow> unit onCluster" where
  "tekton_DeletePipeline c name = withClient c (\<lambda>l ns cs.
     bindP (debugf l ''Delete pipeline %s'' [str name]) (\<lambda>_.
     callApi (DeletePipelineCall ns name) (\<lambda>h. api_DeletePipeline cs h ns name)))"

definition tekton_ListPipelineRuns :: "tektonset clientConfig \<Rightarrow> string \<Rightarrow> pipelineRun list onCluster" where
  "tekton_ListPipelineRuns c selector = withClient c (\<lambda>l ns cs.
     bindP (debugf l ''Get pipeline runs'' []) (\<lambda>_.
     callApi (ListPipelineRunsCall ns selector) (\<lambda>h. api_ListPipelineRuns cs h ns selector)))"

definition tekton_GetPipelineRun :: "tektonset clientConfig \<Rightarrow> string \<Rightarrow> pipelineRun onCluster" where
  "tekton_GetPipelineRun c name = withClient c (\<lambda>l ns cs.
     bindP (debugf l ''Get pipeline run %s'' [str name]) (\<lambda>_.
     callApi (GetPipelineRunCall ns name) (\<lambda>h. api_GetPipelineRun cs h ns name)))"

definition tekton_CreatePipelineRun :: "tektonset clientConfig \<Rightarrow> pipelineRun \<Rightarrow> pipelineRun onCluster" where
  "tekton_CreatePipelineRun c pr = withClient c (\<lambda>l ns cs.
     bindP (debugf l ''Create pipeline run %s'' [str (pr_Name pr)]) (\<lambda>_.
     callApi (CreatePipelineRunCall ns pr) (\<lambda>h. api_CreatePipelineRun cs h ns pr)))"

definition tekton_UpdatePipelineRun :: "tektonset clientConfig \<Rightarrow> pipelineRun \<Rightarrow> pipelineRun onCluster" where
  "tekton_UpdatePipelineRun c pr = withClient c (\<lambda>l ns cs.
     bindP (debugf l ''Update pipeline run %s'' [str (pr_Name pr)]) (\<lambda>_.
     callApi (UpdatePipelineRunCall ns pr) (\<lambda>h. api_UpdatePipelineRun cs h ns pr)))"

definition tekton_DeletePipelineRun :: "tektonset clientConfig \<Rightarrow> string \<Rightarrow> unit onCluster" where
  "tekton_DeletePipelineRun c name = withClient c (\<lambda>l ns cs.
     bindP (debugf l ''Delete pipeline run %s'' [str name]) (\<lambda>_.
     callApi (DeletePipelineRunCall ns name) (\<lambda>h. api_DeletePipelineRun cs h ns name)))"

section \<open>Facts: what a client asks for\<close>

fun callNamespace :: "apiCall \<Rightarrow> string option" where
  "callNamespace (GetPVCCall ns _) = Some ns"
| "callNamespace (CreatePVCCall ns _) = Some ns"
| "callNamespace (GetConfigMapCall ns _) = Some ns"
| "callNamespace (CreateNamespaceCall _) = None"
| "callNamespace (DeleteNamespaceCall _) = None"
| "callNamespace (CreateSecretCall ns _) = Some ns"
| "callNamespace (GetSecretCall ns _) = Some ns"
| "callNamespace (CreatePVCall _) = None"
| "callNamespace (DeletePVCall _) = None"
| "callNamespace (CreateServiceCall ns _) = Some ns"
| "callNamespace (ListPodsCall ns _) = Some ns"
| "callNamespace (GetPipelineCall ns _) = Some ns"
| "callNamespace (CreatePipelineCall ns _) = Some ns"
| "callNamespace (UpdatePipelineCall ns _) = Some ns"
| "callNamespace (DeletePipelineCall ns _) = Some ns"
| "callNamespace (ListPipelineRunsCall ns _) = Some ns"
| "callNamespace (GetPipelineRunCall ns _) = Some ns"
| "callNamespace (CreatePipelineRunCall ns _) = Some ns"
| "callNamespace (UpdatePipelineRunCall ns _) = Some ns"
| "callNamespace (DeletePipelineRunCall ns _) = Some ns"

text \<open>
  \<open>asks ns quiet m\<close>: the operation makes one call, in the namespace \<open>ns\<close>, does not panic, and
  logs nothing if it is to be \<open>quiet\<close>.
\<close>

definition asks :: "string \<Rightarrow> bool \<Rightarrow> 'a onCluster \<Rightarrow> bool" where
  "asks ns quiet m \<longleftrightarrow> (\<forall>s. \<exists>r s' call. m s = (r, s') \<and> cl_Calls s' = cl_Calls s @ [call] \<and> callNamespace call = Some ns \<and>
     (\<forall>e. r \<noteq> Panic e) \<and> (\<forall>n. r \<noteq> Exit n) \<and> (quiet \<longrightarrow> cl_Written s' = cl_Written s))"

lemma asks_call:
  assumes "callNamespace call = Some ns" "quiet \<longrightarrow> \<not> LevelDebug \<le> lg_Level l"
  shows "asks ns quiet (bindP (debugf l format v) (\<lambda>_. callApi call f))"
  using assms by (auto simp: asks_def debugf_def bindP_def callApi_def Debugf_def split: sum.splits)

lemma asks_then_key:
  assumes "asks ns quiet m"
  shows "asks ns quiet (bindP m (\<lambda>x. dataKey (d x) key))"
  unfolding asks_def
proof
  fix s :: clusterState
  obtain r s' where m: "m s = (r, s')" by (cases "m s")
  moreover have "fst (dataKey (d x) key s') \<noteq> Panic e \<and> fst (dataKey (d x) key s') \<noteq> Exit n \<and> snd (dataKey (d x) key s') = s'" for x e n
    by (simp add: dataKey_def ret_def failE_def split: option.split)
  moreover obtain r2 s2 where "bindP m (\<lambda>x. dataKey (d x) key) s = (r2, s2)" by (cases "bindP m (\<lambda>x. dataKey (d x) key) s")
  ultimately show "\<exists>r s' call. bindP m (\<lambda>x. dataKey (d x) key) s = (r, s') \<and> cl_Calls s' = cl_Calls s @ [call] \<and>
      callNamespace call = Some ns \<and> (\<forall>e. r \<noteq> Panic e) \<and> (\<forall>n. r \<noteq> Exit n) \<and> (quiet \<longrightarrow> cl_Written s' = cl_Written s)"
    using spec [OF assms [unfolded asks_def], of s]
    by (cases r) (auto simp: bindP_def, (metis fst_conv snd_conv)+)
qed

lemma asks_logged:
  assumes "asks ns quiet m" "quiet \<longrightarrow> \<not> LevelDebug \<le> lg_Level l"
  shows "asks ns quiet (bindP (debugf l format v) (\<lambda>_. m))"
  unfolding asks_def
proof
  fix s :: clusterState
  let ?s1 = "s\<lparr>cl_Written := Debugf l format v (cl_Written s)\<rparr>"
  have "bindP (debugf l format v) (\<lambda>_. m) s = m ?s1" by (simp add: debugf_def bindP_def)
  moreover have "quiet \<longrightarrow> cl_Written ?s1 = cl_Written s" using assms(2) by (simp add: Debugf_def)
  moreover have "cl_Calls ?s1 = cl_Calls s" by simp
  ultimately show "\<exists>r s' call. bindP (debugf l format v) (\<lambda>_. m) s = (r, s') \<and> cl_Calls s' = cl_Calls s @ [call] \<and>
     callNamespace call = Some ns \<and> (\<forall>e. r \<noteq> Panic e) \<and> (\<forall>n. r \<noteq> Exit n) \<and> (quiet \<longrightarrow> cl_Written s' = cl_Written s)"
    using spec [OF assms(1) [unfolded asks_def], of ?s1] by metis
qed

text \<open>A client made by \<open>NewClient\<close> has a namespace, a client set and a logger.\<close>

lemma NewClient_Inr:
  "kube_NewClient cfg = (Inr c, cfg') \<Longrightarrow> cfg' = c \<and> cc_Namespace c = cc_Namespace cfg \<and> cc_Namespace c \<noteq> [] \<and>
     cc_ClientSet c = cc_ClientSet cfg \<and> cc_ClientSet c \<noteq> None \<and>
     cc_Logger c = Some (case cc_Logger cfg of Some l \<Rightarrow> l | None \<Rightarrow> loggerAt LevelError)"
  "tekton_NewClient tcfg = (Inr tc, tcfg') \<Longrightarrow> tcfg' = tc \<and> cc_Namespace tc = cc_Namespace tcfg \<and> cc_Namespace tc \<noteq> [] \<and>
     cc_ClientSet tc = cc_ClientSet tcfg \<and> cc_ClientSet tc \<noteq> None \<and>
     cc_Logger tc = Some (case cc_Logger tcfg of Some l \<Rightarrow> l | None \<Rightarrow> loggerAt LevelError)"
  by (auto simp: kube_NewClient_def tekton_NewClient_def Let_def split: if_splits)

definition quietLogger :: "leveledLogger option \<Rightarrow> bool" where
  "quietLogger lo = (case lo of Some l \<Rightarrow> \<not> LevelDebug \<le> lg_Level l | None \<Rightarrow> True)"

lemma quiet_default: "\<not> LevelDebug \<le> lg_Level (loggerAt LevelError)"
  by (simp add: levels loggerAt_def word_le_nat_alt)

lemma withClient_asks:
  assumes "cc_Logger c = Some (case lo of Some l \<Rightarrow> l | None \<Rightarrow> loggerAt LevelError)" "cc_ClientSet c \<noteq> None"
    and "\<And>l cs. quietLogger lo \<longrightarrow> \<not> LevelDebug \<le> lg_Level l \<Longrightarrow> asks (cc_Namespace c) (quietLogger lo) (m l (cc_Namespace c) cs)"
  shows "asks (cc_Namespace c) (quietLogger lo) (withClient c m)"
  using assms quiet_default by (auto simp: withClient_def quietLogger_def split: option.splits)

text \<open>
  A client made by \<open>NewClient\<close> is confined to the namespace it was made for.  Each of its
  operations makes one call to the cluster, in that namespace, returns whatever the cluster
  answers, and logs nothing unless the logger is one for debugging; a client made without a
  logger is quiet.
\<close>

lemma kube_asks:
  assumes "kube_NewClient cfg = (Inr c, cfg')"
  shows "asks (cc_Namespace cfg) (quietLogger (cc_Logger cfg)) (kube_GetPersistentVolumeClaim c name)"
    and "asks (cc_Namespace cfg) (quietLogger (cc_Logger cfg)) (kube_CreatePersistentVolumeClaim c v)"
    and "asks (cc_Namespace cfg) (quietLogger (cc_Logger cfg)) (kube_GetConfigMap c name)"
    and "asks (cc_Namespace cfg) (quietLogger (cc_Logger cfg)) (kube_GetConfigMapKey c name key)"
proof -
  note c = NewClient_Inr(1) [OF assms]
  note asks = withClient_asks [of c "cc_Logger cfg"]
  have ns: "cc_Namespace c = cc_Namespace cfg" using c by simp
  show "asks (cc_Namespace cfg) (quietLogger (cc_Logger cfg)) (kube_GetPersistentVolumeClaim c name)"
    "asks (cc_Namespace cfg) (quietLogger (cc_Logger cfg)) (kube_CreatePersistentVolumeClaim c v)"
    unfolding kube_GetPersistentVolumeClaim_def kube_CreatePersistentVolumeClaim_def using c
    by (auto simp flip: ns intro!: asks asks_call)
  show cm: "asks (cc_Namespace cfg) (quietLogger (cc_Logger cfg)) (kube_GetConfigMap c name)" for name
    unfolding kube_GetConfigMap_def using c by (auto simp flip: ns intro!: asks asks_call)
  show "asks (cc_Namespace cfg) (quietLogger (cc_Logger cfg)) (kube_GetConfigMapKey c name key)"
    unfolding kube_GetConfigMapKey_def using c cm [of name]
    by (auto simp flip: ns intro!: asks asks_logged asks_then_key)
qed

lemma tekton_asks:
  assumes "tekton_NewClient cfg = (Inr c, cfg')"
  shows "asks (cc_Namespace cfg) (quietLogger (cc_Logger cfg)) (tekton_GetPipeline c name)"
    and "asks (cc_Namespace cfg) (quietLogger (cc_Logger cfg)) (tekton_CreatePipeline c p)"
    and "asks (cc_Namespace cfg) (quietLogger (cc_Logger cfg)) (tekton_UpdatePipeline c p)"
    and "asks (cc_Namespace cfg) (quietLogger (cc_Logger cfg)) (tekton_DeletePipeline c name)"
    and "asks (cc_Namespace cfg) (quietLogger (cc_Logger cfg)) (tekton_ListPipelineRuns c selector)"
    and "asks (cc_Namespace cfg) (quietLogger (cc_Logger cfg)) (tekton_GetPipelineRun c name)"
    and "asks (cc_Namespace cfg) (quietLogger (cc_Logger cfg)) (tekton_CreatePipelineRun c pr)"
    and "asks (cc_Namespace cfg) (quietLogger (cc_Logger cfg)) (tekton_UpdatePipelineRun c pr)"
    and "asks (cc_Namespace cfg) (quietLogger (cc_Logger cfg)) (tekton_DeletePipelineRun c name)"
proof -
  note c = NewClient_Inr(2) [OF assms]
  note asks = withClient_asks [of c "cc_Logger cfg"]
  have ns: "cc_Namespace c = cc_Namespace cfg" using c by simp
  show "asks (cc_Namespace cfg) (quietLogger (cc_Logger cfg)) (tekton_GetPipeline c name)"
    "asks (cc_Namespace cfg) (quietLogger (cc_Logger cfg)) (tekton_CreatePipeline c p)"
    "asks (cc_Namespace cfg) (quietLogger (cc_Logger cfg)) (tekton_UpdatePipeline c p)"
    "asks (cc_Namespace cfg) (quietLogger (cc_Logger cfg)) (tekton_DeletePipeline c name)"
    "asks (cc_Namespace cfg) (quietLogger (cc_Logger cfg)) (tekton_ListPipelineRuns c selector)"
    "asks (cc_Namespace cfg) (quietLogger (cc_Logger cfg)) (tekton_GetPipelineRun c name)"
    "asks (cc_Namespace cfg) (quietLogger (cc_Logger cfg)) (tekton_CreatePipelineRun c pr)"
    "asks (cc_Namespace cfg) (quietLogger (cc_Logger cfg)) (tekton_UpdatePipelineRun c pr)"
    "asks (cc_Namespace cfg) (quietLogger (cc_Logger cfg)) (tekton_DeletePipelineRun c name)"
    unfolding tekton_GetPipeline_def tekton_CreatePipeline_def tekton_UpdatePipeline_def tekton_DeletePipeline_def
      tekton_ListPipelineRuns_def tekton_GetPipelineRun_def tekton_CreatePipelineRun_def tekton_UpdatePipelineRun_def
      tekton_DeletePipelineRun_def using c by (auto simp flip: ns intro!: asks asks_call)
qed

theorem clients_confined:
  assumes k: "kube_NewClient kcfg = (Inr kc, kcfg')" and t: "tekton_NewClient tcfg = (Inr tc, tcfg')"
  shows "asks (cc_Namespace kcfg) (quietLogger (cc_Logger kcfg)) (kube_GetPersistentVolumeClaim kc name) \<and>
     asks (cc_Namespace kcfg) (quietLogger (cc_Logger kcfg)) (kube_CreatePersistentVolumeClaim kc v) \<and>
     asks (cc_Namespace kcfg) (quietLogger (cc_Logger kcfg)) (kube_GetConfigMap kc name) \<and>
     asks (cc_Namespace kcfg) (quietLogger (cc_Logger kcfg)) (kube_GetConfigMapKey kc name key) \<and>
     asks (cc_Namespace tcfg) (quietLogger (cc_Logger tcfg)) (tekton_GetPipeline tc name) \<and>
     asks (cc_Namespace tcfg) (quietLogger (cc_Logger tcfg)) (tekton_CreatePipeline tc p) \<and>
     asks (cc_Namespace tcfg) (quietLogger (cc_Logger tcfg)) (tekton_UpdatePipeline tc p) \<and>
     asks (cc_Namespace tcfg) (quietLogger (cc_Logger tcfg)) (tekton_DeletePipeline tc name) \<and>
     asks (cc_Namespace tcfg) (quietLogger (cc_Logger tcfg)) (tekton_ListPipelineRuns tc selector) \<and>
     asks (cc_Namespace tcfg) (quietLogger (cc_Logger tcfg)) (tekton_GetPipelineRun tc name) \<and>
     asks (cc_Namespace tcfg) (quietLogger (cc_Logger tcfg)) (tekton_CreatePipelineRun tc pr) \<and>
     asks (cc_Namespace tcfg) (quietLogger (cc_Logger tcfg)) (tekton_UpdatePipelineRun tc pr) \<and>
     asks (cc_Namespace tcfg) (quietLogger (cc_Logger tcfg)) (tekton_DeletePipelineRun tc name)"
  by (intro conjI kube_asks [OF k] tekton_asks [OF t])

definition answering :: clientset where
  "answering = \<lparr>api_GetPVC = (\<lambda>h ns n. Inl ''not found''), api_CreatePVC = (\<lambda>h ns v. Inr v),
     api_GetConfigMap = (\<lambda>h ns n. Inr \<lparr>cm_Name = n, cm_Data = [(''url'', ns)]\<rparr>), api_CreateNamespace = (\<lambda>h ns. Inr ()), api_DeleteNamespace = (\<lambda>h ns. Inr ()),
     api_CreateSecret = (\<lambda>h ns s. Inr s), api_GetSecret = (\<lambda>h ns n. Inl ''forbidden''), api_CreatePV = (\<lambda>h v. Inr v), api_DeletePV = (\<lambda>h v. Inr ()),
     api_CreateService = (\<lambda>h ns s. Inr s), api_ListPods = (\<lambda>h ns s. Inr [])\<rparr>"

definition answeringTekton :: tektonset where
  "answeringTekton = \<lparr>api_GetPipeline = (\<lambda>h ns n. Inl ''not found''), api_CreatePipeline = (\<lambda>h ns p. Inr p),
     api_UpdatePipeline = (\<lambda>h ns p. Inr p), api_DeletePipeline = (\<lambda>h ns n. Inr ()), api_ListPipelineRuns = (\<lambda>h ns s. Inr []),
     api_GetPipelineRun = (\<lambda>h ns n. Inl ''not found''), api_CreatePipelineRun = (\<lambda>h ns p. Inr p),
     api_UpdatePipelineRun = (\<lambda>h ns p. Inr p), api_DeletePipelineRun = (\<lambda>h ns n. Inr ())\<rparr>"

lemma clients_confined_witness:
  "\<exists>c c'. kube_NewClient \<lparr>cc_Namespace = ''foo-cd'', cc_Logger = None, cc_ClientSet = Some answering\<rparr> = (Inr c, c') \<and>
     asks ''foo-cd'' True (kube_GetConfigMapKey c ''cm'' ''url'')"
proof -
  let ?k = "\<lparr>cc_Namespace = ''foo-cd'', cc_Logger = None, cc_ClientSet = Some answering\<rparr>"
    and ?t = "\<lparr>cc_Namespace = ''foo-cd'', cc_Logger = None, cc_ClientSet = Some answeringTekton\<rparr>"
  have k: "kube_NewClient ?k = (Inr (?k\<lparr>cc_Logger := Some (loggerAt LevelError)\<rparr>), ?k\<lparr>cc_Logger := Some (loggerAt LevelError)\<rparr>)"
    and t: "tekton_NewClient ?t = (Inr (?t\<lparr>cc_Logger := Some (loggerAt LevelError)\<rparr>), ?t\<lparr>cc_Logger := Some (loggerAt LevelError)\<rparr>)"
    by (simp_all add: kube_NewClient_def tekton_NewClient_def Let_def)
  from clients_confined [OF k t, of "''cm''" undefined "''url''"] have
    "asks ''foo-cd'' True (kube_GetConfigMapKey (?k\<lparr>cc_Logger := Some (loggerAt LevelError)\<rparr>) ''cm'' ''url'')"
    by (simp add: quietLogger_def)
  with k show ?thesis by blast
qed

section \<open>Facts: pods of a service\<close>

lemma firstNotReady_None: "firstNotReady cs = None \<longleftrightarrow> (\<forall>c\<in>set cs. cs_Ready c)"
  by (induction cs) auto

lemma podsReady_iff: "fst (podsReady ps) \<longleftrightarrow> (\<forall>p\<in>set ps. pod_Phase p = ''Running'' \<and> (\<forall>c\<in>set (pod_ContainerStatuses p). cs_Ready c))"
  by (induction ps) (auto split: option.split simp flip: firstNotReady_None)

lemma podsReady_reason: "\<not> fst (podsReady ps) \<Longrightarrow> \<exists>p\<in>set ps. Contains (snd (podsReady ps)) (pod_Name p)"
proof (induction ps)
  case Nil
  then show ?case by simp
next
  case (Cons p ps)
  show ?case
  proof (cases "pod_Phase p = ''Running'' \<and> firstNotReady (pod_ContainerStatuses p) = None")
    case True
    with Cons show ?thesis by auto
  next
    case False
    have "Contains (a @ pod_Name p @ b) (pod_Name p)" for a b by (auto simp: Contains_iff)
    from this [of "''pod ''"] this [of "''container '' @ _ @ '' in pod ''"] False show ?thesis
      by (auto split: option.splits)
  qed
qed

text \<open>
  The pods of a service are reported ready exactly if the cluster lists them and every pod listed
  runs with all its containers ready; with no pod at all the service is reported ready, too.
\<close>

lemma ServiceHasReadyPods_iff:
  "(\<exists>m s'. ServiceHasReadyPods cs svc s = (Ok (True, m, None), s')) \<longleftrightarrow>
   (\<exists>ps s'. servicePods cs svc s = (Ok ps, s') \<and>
      (\<forall>p\<in>set ps. pod_Phase p = ''Running'' \<and> (\<forall>c\<in>set (pod_ContainerStatuses p). cs_Ready c)))"
proof -
  obtain r s' where r: "servicePods cs svc s = (r, s')" by (cases "servicePods cs svc s")
  then have "(\<exists>ps. r = Ok ps) \<or> (\<exists>e. r = Err e)" by (auto simp: servicePods_def Let_def callApi_def split: sum.splits)
  with r show ?thesis
    by (auto simp: ServiceHasReadyPods_def attempt_def bindP_def ret_def podsReady_iff [symmetric] split: prod.splits)
qed

lemma no_pods_ready: "servicePods cs svc s = (Ok [], s') \<Longrightarrow> ServiceHasReadyPods cs svc s = (Ok (True, ''ok'', None), s')"
  by (simp add: ServiceHasReadyPods_def attempt_def bindP_def ret_def)

end
