(* ===== verification/TestDoubles.thy ===== *)
theory TestDoubles
  imports BitbucketClient ClusterClients Nexus
begin

text \<open>
  The test doubles: the clients that answer from memory (\<open>test_client.go\<close> of \<open>pkg/bitbucket\<close>,
  \<open>pkg/nexus\<close>, \<open>internal/tekton\<close> and \<open>internal/kubernetes\<close>) and the HTTP server that answers with
  enqueued responses (\<open>test/testserver\<close>).
\<close>

section \<open>Two contracts of the clients in memory\<close>

text \<open>Looking up an object by name in a pool.\<close>

locale named_pool =
  fixes get1 :: "'s \<Rightarrow> string \<Rightarrow> string + 'a" and pool :: "'s \<Rightarrow> 'a list" and name :: "'a \<Rightarrow> string"
  assumes get_Inr: "get1 s n = Inr x \<Longrightarrow> x \<in> set (pool s) \<and> name x = n"
    and get_Inl: "get1 s n = Inl e \<Longrightarrow> x \<in> set (pool s) \<Longrightarrow> name x \<noteq> n"
begin

lemma found_iff: "(\<exists>x. get1 s n = Inr x) \<longleftrightarrow> n \<in> name ` set (pool s)"
  by (cases "get1 s n") (auto dest: get_Inr get_Inl)

lemma found_unique: "distinct (map name (pool s)) \<Longrightarrow> x \<in> set (pool s) \<Longrightarrow> get1 s (name x) = Inr x"
proof -
  assume d: "distinct (map name (pool s))" and x: "x \<in> set (pool s)"
  then obtain y where y: "get1 s (name x) = Inr y" using found_iff [of s "name x"] by auto
  then have "y \<in> set (pool s)" "name y = name x" by (auto dest: get_Inr)
  with d x have "y = x" by (auto simp: distinct_map dest: inj_onD)
  with y show ?thesis by simp
qed

end

text \<open>Recording the name an operation was called with, whether or not it is set to fail.\<close>

locale recorder =
  fixes op1 :: "'x \<Rightarrow> 's \<Rightarrow> (string + 'r) \<times> 's" and recorded :: "'s \<Rightarrow> string list" and name :: "'x \<Rightarrow> string" and fails :: "'s \<Rightarrow> bool"
  assumes records: "recorded (snd (op1 x s)) = recorded s @ [name x]"
    and failing: "fails (snd (op1 x s)) = fails s" "(\<exists>e. fst (op1 x s) = Inl e) \<longleftrightarrow> fails s"
begin

primrec calls :: "'x list \<Rightarrow> 's \<Rightarrow> (string + 'r) list \<times> 's" where
  "calls [] s = ([], s)"
| "calls (x # xs) s = (let (r, s') = op1 x s; (rs, s'') = calls xs s' in (r # rs, s''))"

lemma calls_recorded: "recorded (snd (calls xs s)) = recorded s @ map name xs"
proof (induction xs arbitrary: s)
  case Nil
  then show ?case by simp
next
  case (Cons x xs)
  then show ?case by (simp add: case_prod_beta Let_def records)
qed

lemma calls_fail: "(\<forall>r\<in>set (fst (calls xs s)). \<exists>e. r = Inl e) \<longleftrightarrow> xs = [] \<or> fails s"
proof (induction xs arbitrary: s)
  case Nil
  then show ?case by simp
next
  case (Cons x xs)
  then show ?case using failing by (auto simp: case_prod_beta Let_def)
qed

end

section \<open>The Kubernetes client in memory\<close>

record kubeTestClient =
  ktc_PVCs :: "pvc list"
  ktc_FailCreatePVC :: bool
  ktc_CreatedPVCs :: "string list"
  ktc_CMs :: "configMap list"

fun firstNamed :: "('a \<Rightarrow> string) \<Rightarrow> string \<Rightarrow> 'a list \<Rightarrow> 'a option" where
  "firstNamed nm n [] = None"
| "firstNamed nm n (x # xs) = (if nm x = n then Some x else firstNamed nm n xs)"

definition ktc_GetPersistentVolumeClaim :: "kubeTestClient \<Rightarrow> string \<Rightarrow> string + pvc" where
  "ktc_GetPersistentVolumeClaim c n = (case firstNamed vc_Name n (ktc_PVCs c) of
       Some p \<Rightarrow> Inr p
     | None \<Rightarrow> Inl (''PersistentVolumeClaim.core '' @ [CHR 0x22] @ n @ [CHR 0x22] @ '' not found''))"

definition ktc_CreatePersistentVolumeClaim :: "pvc \<Rightarrow> kubeTestClient \<Rightarrow> (string + pvc) \<times> kubeTestClient" where
  "ktc_CreatePersistentVolumeClaim p c =
     (if ktc_FailCreatePVC c then Inl ''creation error'' else Inr p,
      c\<lparr>ktc_CreatedPVCs := ktc_CreatedPVCs c @ [vc_Name p]\<rparr>)"

definition ktc_GetConfigMap :: "kubeTestClient \<Rightarrow> string \<Rightarrow> string + configMap" where
  "ktc_GetConfigMap c n = (case firstNamed cm_Name n (ktc_CMs c) of
       Some cm \<Rightarrow> Inr cm
     | None \<Rightarrow> Inl (''ConfigMap.core '' @ [CHR 0x22] @ n @ [CHR 0x22] @ '' not found''))"

definition ktc_GetConfigMapKey :: "kubeTestClient \<Rightarrow> string \<Rightarrow> string \<Rightarrow> string + string" where
  "ktc_GetConfigMapKey c n key = (case ktc_GetConfigMap c n of
       Inl e \<Rightarrow> Inl e
     | Inr cm \<Rightarrow> (case map_of (cm_Data cm) key of
           Some v \<Rightarrow> Inr v
         | None \<Rightarrow> Inl (''key '' @ key @ '' not found'')))"

section \<open>The Tekton client in memory\<close>

record tektonTestClient =
  ttc_Pipelines :: "pipeline list"
  ttc_FailCreatePipeline :: bool
  ttc_CreatedPipelines :: "string list"
  ttc_FailUpdatePipeline :: bool
  ttc_UpdatedPipelines :: "string list"
  ttc_FailDeletePipeline :: bool
  ttc_DeletedPipelines :: "string list"
  ttc_PipelineRuns :: "pipelineRun list"
  ttc_FailCreatePipelineRun :: bool
  ttc_CreatedPipelineRuns :: "string list"
  ttc_FailUpdatePipelineRun :: bool
  ttc_UpdatedPipelineRuns :: "string list"
  ttc_FailDeletePipelineRun :: bool
  ttc_DeletedPipelineRuns :: "string list"

definition ttc_GetPipeline :: "tektonTestClient \<Rightarrow> string \<Rightarrow> string + pipeline" where
  "ttc_GetPipeline c n = (case firstNamed pl_Name n (ttc_Pipelines c) of
       Some p \<Rightarrow> Inr p | None \<Rightarrow> Inl (''pipeline '' @ n @ '' not found''))"

definition ttc_CreatePipeline :: "pipeline \<Rightarrow> tektonTestClient \<Rightarrow> (string + pipeline) \<times> tektonTestClient" where
  "ttc_CreatePipeline p c =
     (if ttc_FailCreatePipeline c then Inl ''creation error'' else Inr p,
      c\<lparr>ttc_CreatedPipelines := ttc_CreatedPipelines c @ [pl_Name p]\<rparr>)"

definition ttc_UpdatePipeline :: "pipeline \<Rightarrow> tektonTestClient \<Rightarrow> (string + pipeline) \<times> tektonTestClient" where
  "ttc_UpdatePipeline p c =
     (if ttc_FailUpdatePipeline c then Inl ''update error'' else Inr p,
      c\<lparr>ttc_UpdatedPipelines := ttc_UpdatedPipelines c @ [pl_Name p]\<rparr>)"

definition ttc_DeletePipeline :: "string \<Rightarrow> tektonTestClient \<Rightarrow> (string + unit) \<times> tektonTestClient" where
  "ttc_DeletePipeline n c =
     (if ttc_FailDeletePipeline c then Inl ''delete error'' else Inr (),
      c\<lparr>ttc_DeletedPipelines := ttc_DeletedPipelines c @ [n]\<rparr>)"

definition ttc_ListPipelineRuns :: "tektonTestClient \<Rightarrow> string + pipelineRun list" where
  "ttc_ListPipelineRuns c = Inr (ttc_PipelineRuns c)"

definition ttc_GetPipelineRun :: "tektonTestClient \<Rightarrow> string \<Rightarrow> string + pipelineRun" where
  "ttc_GetPipelineRun c n = (case firstNamed pr_Name n (ttc_PipelineRuns c) of
       Some p \<Rightarrow> Inr p | None \<Rightarrow> Inl (''pipeline run '' @ n @ '' not found''))"

definition ttc_CreatePipelineRun :: "pipelineRun \<Rightarrow> tektonTestClient \<Rightarrow> (string + pipelineRun) \<times> tektonTestClient" where
  "ttc_CreatePipelineRun p c =
     (if ttc_FailCreatePipelineRun c then Inl ''creation error'' else Inr p,
      c\<lparr>ttc_CreatedPipelineRuns := ttc_CreatedPipelineRuns c @ [pr_Name p]\<rparr>)"

definition ttc_UpdatePipelineRun :: "pipelineRun \<Rightarrow> tektonTestClient \<Rightarrow> (string + pipelineRun) \<times> tektonTestClient" where
  "ttc_UpdatePipelineRun p c =
     (if ttc_FailUpdatePipelineRun c then Inl ''update error'' else Inr p,
      c\<lparr>ttc_UpdatedPipelineRuns := ttc_UpdatedPipelineRuns c @ [pr_Name p]\<rparr>)"

definition ttc_DeletePipelineRun :: "string \<Rightarrow> tektonTestClient \<Rightarrow> (string + unit) \<times> tektonTestClient" where
  "ttc_DeletePipelineRun n c =
     (if ttc_FailDeletePipelineRun c then Inl ''delete error'' else Inr (),
      c\<lparr>ttc_DeletedPipelineRuns := ttc_DeletedPipelineRuns c @ [n]\<rparr>)"

section \<open>The Bitbucket client in memory\<close>

record bitbucketTestClient =
  btc_Branches :: "branch list"
  btc_Tags :: "tag list"
  btc_Repos :: "repo list"
  btc_Commits :: "commit list"
  btc_PullRequests :: "pullRequest list"
  btc_Files :: "(string \<times> string) list"

definition btc_BranchList :: "bitbucketTestClient \<Rightarrow> string \<Rightarrow> string \<Rightarrow> branchListParams \<Rightarrow> string + branchPage" where
  "btc_BranchList c projectKey repositorySlug params = Inr (zeroBranchPage\<lparr>bp_Values := btc_Branches c\<rparr>)"

definition btc_TagList :: "bitbucketTestClient \<Rightarrow> string \<Rightarrow> string \<Rightarrow> tagListParams \<Rightarrow> string + tagPage" where
  "btc_TagList c projectKey repositorySlug params = Inr (zeroTagPage\<lparr>tp_Values := btc_Tags c\<rparr>)"

definition btc_TagGet :: "bitbucketTestClient \<Rightarrow> string \<Rightarrow> string \<Rightarrow> string \<Rightarrow> string + tag" where
  "btc_TagGet c projectKey repositorySlug n = (case firstNamed tg_DisplayID n (btc_Tags c) of
       Some t \<Rightarrow> Inr t | None \<Rightarrow> Inl (''no tag '' @ n))"

definition btc_TagCreate :: "bitbucketTestClient \<Rightarrow> string \<Rightarrow> string \<Rightarrow> tagCreatePayload \<Rightarrow> string + tag" where
  "btc_TagCreate c projectKey repositorySlug payload = Inl ''not implemented''"

definition btc_RepoList :: "bitbucketTestClient \<Rightarrow> string \<Rightarrow> string + repoPage" where
  "btc_RepoList c projectKey = Inr (zeroRepoPage\<lparr>rg_Values := btc_Repos c\<rparr>)"

definition btc_RepoCreate :: "bitbucketTestClient \<Rightarrow> string \<Rightarrow> repoCreatePayload \<Rightarrow> string + repo" where
  "btc_RepoCreate c projectKey payload = Inl ''not implemented''"

definition btc_RawGet :: "bitbucketTestClient \<Rightarrow> string \<Rightarrow> string \<Rightarrow> string \<Rightarrow> string \<Rightarrow> string + string" where
  "btc_RawGet c proj repository filename gitFullRef = (case map_of (btc_Files c) filename of
       Some f \<Rightarrow> Inr f | None \<Rightarrow> Inl (filename @ '' not found''))"

definition btc_CommitList :: "bitbucketTestClient \<Rightarrow> string \<Rightarrow> string \<Rightarrow> commitListParams \<Rightarrow> string + commitPage" where
  "btc_CommitList c projectKey repositorySlug params = Inr (zeroCommitPage\<lparr>cp_Values := btc_Commits c\<rparr>)"

definition btc_CommitGet :: "bitbucketTestClient \<Rightarrow> string \<Rightarrow> string \<Rightarrow> string \<Rightarrow> string + commit" where
  "btc_CommitGet c projectKey repositorySlug commitID = (case firstNamed cm_ID commitID (btc_Commits c) of
       Some co \<Rightarrow> Inr co | None \<Rightarrow> Inl (''no commit '' @ commitID))"

definition btc_CommitPullRequestList :: "bitbucketTestClient \<Rightarrow> string \<Rightarrow> string \<Rightarrow> string \<Rightarrow> string + pullRequestPage" where
  "btc_CommitPullRequestList c projectKey repositorySlug commitID =
     Inr (zeroPullRequestPage\<lparr>pp_Values := btc_PullRequests c\<rparr>)"

text \<open>An environment whose Bitbucket is the client in memory.\<close>

definition withTestBitbucket :: "bitbucketTestClient \<Rightarrow> services \<Rightarrow> services" where
  "withTestBitbucket c sv = sv\<lparr>sv_BranchList := (\<lambda>h. btc_BranchList c), sv_TagList := (\<lambda>h. btc_TagList c),
     sv_TagGet := (\<lambda>h. btc_TagGet c), sv_TagCreate := (\<lambda>h. btc_TagCreate c), sv_RepoList := (\<lambda>h. btc_RepoList c),
     sv_RawGet := (\<lambda>h. btc_RawGet c), sv_CommitList := (\<lambda>h. btc_CommitList c), sv_CommitGet := (\<lambda>h. btc_CommitGet c),
     sv_CommitPullRequestList := (\<lambda>h. btc_CommitPullRequestList c)\<rparr>"

section \<open>The Nexus client in memory\<close>

text \<open>The URLs per repository; the map may be nil, and writing to it is a panic then.\<close>

type_synonym nexusTestClient = "(string \<times> string list) list option"

definition urlsOf :: "nexusTestClient \<Rightarrow> string \<Rightarrow> string list" where
  "urlsOf c repository = (case c of None \<Rightarrow> [] | Some m \<Rightarrow> (case map_of m repository of Some us \<Rightarrow> us | None \<Rightarrow> []))"

definition ntc_Download :: "string \<Rightarrow> string \<Rightarrow> int prog_w" where
  "ntc_Download url outfile = bindP (writeFile outfile ''test'') (\<lambda>_. ret 0)"

definition ntc_Search :: "string \<Rightarrow> string \<Rightarrow> (nexusTestClient, string list) prog" where
  "ntc_Search repository grp = gets (\<lambda>c. urlsOf c repository)"

definition ntc_Upload :: "string \<Rightarrow> string \<Rightarrow> string \<Rightarrow> (nexusTestClient, string) prog" where
  "ntc_Upload repository grp file c =
     (let path = grp @ ''/'' @ Base file
      in case c of
           None \<Rightarrow> (Panic ''assignment to entry in nil map'', c)
         | Some m \<Rightarrow> (Ok (repository @ ''/'' @ path), Some (AList.update repository (urlsOf c repository @ [path]) m)))"

section \<open>The HTTP server with enqueued responses\<close>

record recordedResponse =
  rr_Body :: string
  rr_StatusCode :: int
  rr_Fixture :: string

text \<open>A request as the server sees it: its path, and its body, reading which may fail.\<close>

record serverRequest =
  sr_Path :: string
  sr_Body :: "string + string"

record testServer =
  ts_EnqueuedResponses :: "(string \<times> recordedResponse list) list"
  ts_ObservedRequests :: "serverRequest list"

definition NewTestServer :: testServer where
  "NewTestServer = \<lparr>ts_EnqueuedResponses = [], ts_ObservedRequests = []\<rparr>"

definition cloneRequest :: "serverRequest \<Rightarrow> string + serverRequest" where
  "cloneRequest r = (case sr_Body r of Inl e \<Rightarrow> Inl e | Inr b \<Rightarrow> Inr r)"

text \<open>
  What the client gets: the status and the body.  A status outside the range of
  \<open>WriteHeader\<close> is a panic, and no body is sent with a status that does not allow one.
\<close>

definition respond :: "recordedResponse \<Rightarrow> (int \<times> string) outcome" where
  "respond r =
     (let st = rr_StatusCode r
      in if st < 100 \<or> 999 < st then Panic (''invalid WriteHeader code '' @ Itoa st)
         else Ok (st, if st < 200 \<or> st = 204 \<or> st = 304 then [] else rr_Body r))"

definition notFound :: "int \<times> string" where
  "notFound = (404, ''404 page not found'' @ [CHR 0x0A])"

definition queueOf :: "testServer \<Rightarrow> string \<Rightarrow> recordedResponse list" where
  "queueOf ts p = (case map_of (ts_EnqueuedResponses ts) p of Some q \<Rightarrow> q | None \<Rightarrow> [])"

definition stub :: "serverRequest \<Rightarrow> testServer \<Rightarrow> (int \<times> string) outcome \<times> testServer" where
  "stub r ts = (case cloneRequest r of
       Inl e \<Rightarrow> (Ok (500, ''clone request error'' @ [CHR 0x0A]), ts)
     | Inr cr \<Rightarrow>
         (let ts1 = ts\<lparr>ts_ObservedRequests := ts_ObservedRequests ts @ [cr]\<rparr>
          in case map_of (ts_EnqueuedResponses ts1) (sr_Path r) of
               Some (response # rest) \<Rightarrow>
                 (respond response, ts1\<lparr>ts_EnqueuedResponses := AList.update (sr_Path r) rest (ts_EnqueuedResponses ts1)\<rparr>)
             | _ \<Rightarrow> (Ok notFound, ts1)))"

text \<open>The body is the fixture's content, if one is named; \<open>fixture\<close> is read from the test data.\<close>

definition EnqueueResponse ::
  "(string \<Rightarrow> string + string) \<Rightarrow> string \<Rightarrow> int \<Rightarrow> string \<Rightarrow> testServer \<Rightarrow> string + testServer" where
  "EnqueueResponse readFixture path statusCode fixture ts =
     (case (if fixture = [] then Inr [] else readFixture fixture) of
        Inl e \<Rightarrow> Inl e
      | Inr body \<Rightarrow>
          (let m = (case map_of (ts_EnqueuedResponses ts) path of
                      None \<Rightarrow> AList.update path [] (ts_EnqueuedResponses ts) | Some q \<Rightarrow> ts_EnqueuedResponses ts);
               q = (case map_of m path of Some q \<Rightarrow> q | None \<Rightarrow> [])
           in Inr (ts\<lparr>ts_EnqueuedResponses := AList.update path
                (q @ [\<lparr>rr_Body = body, rr_StatusCode = statusCode, rr_Fixture = fixture\<rparr>]) m\<rparr>)))"

definition LastRequest :: "testServer \<Rightarrow> string + serverRequest" where
  "LastRequest ts = (if length (ts_ObservedRequests ts) < 1 then Inl ''no request''
     else Inr (ts_ObservedRequests ts ! (length (ts_ObservedRequests ts) - 1)))"

definition testServer_Reset :: "testServer \<Rightarrow> testServer" where
  "testServer_Reset ts = \<lparr>ts_EnqueuedResponses = [], ts_ObservedRequests = []\<rparr>"

primrec serveRequests :: "serverRequest list \<Rightarrow> testServer \<Rightarrow> (int \<times> string) outcome list \<times> testServer" where
  "serveRequests [] ts = ([], ts)"
| "serveRequests (r # rs) ts = (let (x, ts') = stub r ts; (xs, ts'') = serveRequests rs ts' in (x # xs, ts''))"

section \<open>Facts: the contracts hold\<close>

lemma firstNamed_Some: "firstNamed nm n xs = Some x \<Longrightarrow> x \<in> set xs \<and> nm x = n"
  by (induction xs) (auto split: if_splits)

lemma firstNamed_None: "firstNamed nm n xs = None \<longleftrightarrow> (\<forall>x\<in>set xs. nm x \<noteq> n)"
  by (induction xs) auto

lemmas firstNamed_pool = firstNamed_Some firstNamed_None

interpretation pvcs: named_pool ktc_GetPersistentVolumeClaim ktc_PVCs vc_Name
  by unfold_locales (auto simp: ktc_GetPersistentVolumeClaim_def firstNamed_None dest: firstNamed_Some split: option.splits)

interpretation cms: named_pool ktc_GetConfigMap ktc_CMs cm_Name
  by unfold_locales (auto simp: ktc_GetConfigMap_def firstNamed_None dest: firstNamed_Some split: option.splits)

interpretation pipelines: named_pool ttc_GetPipeline ttc_Pipelines pl_Name
  by unfold_locales (auto simp: ttc_GetPipeline_def firstNamed_None dest: firstNamed_Some split: option.splits)

interpretation runs: named_pool ttc_GetPipelineRun ttc_PipelineRuns pr_Name
  by unfold_locales (auto simp: ttc_GetPipelineRun_def firstNamed_None dest: firstNamed_Some split: option.splits)

interpretation tags: named_pool "\<lambda>c. btc_TagGet c projectKey slug" btc_Tags tg_DisplayID for projectKey slug
  by unfold_locales (auto simp: btc_TagGet_def firstNamed_None dest: firstNamed_Some split: option.splits)

interpretation commits: named_pool "\<lambda>c. btc_CommitGet c projectKey slug" btc_Commits cm_ID for projectKey slug
  by unfold_locales (auto simp: btc_CommitGet_def firstNamed_None dest: firstNamed_Some split: option.splits)

interpretation createPVC: recorder ktc_CreatePersistentVolumeClaim ktc_CreatedPVCs vc_Name ktc_FailCreatePVC
  by unfold_locales (auto simp: ktc_CreatePersistentVolumeClaim_def)

interpretation createPipeline: recorder ttc_CreatePipeline ttc_CreatedPipelines pl_Name ttc_FailCreatePipeline
  by unfold_locales (auto simp: ttc_CreatePipeline_def)

interpretation updatePipeline: recorder ttc_UpdatePipeline ttc_UpdatedPipelines pl_Name ttc_FailUpdatePipeline
  by unfold_locales (auto simp: ttc_UpdatePipeline_def)

interpretation deletePipeline: recorder ttc_DeletePipeline ttc_DeletedPipelines "\<lambda>n. n" ttc_FailDeletePipeline
  by unfold_locales (auto simp: ttc_DeletePipeline_def)

interpretation createRun: recorder ttc_CreatePipelineRun ttc_CreatedPipelineRuns pr_Name ttc_FailCreatePipelineRun
  by unfold_locales (auto simp: ttc_CreatePipelineRun_def)

interpretation updateRun: recorder ttc_UpdatePipelineRun ttc_UpdatedPipelineRuns pr_Name ttc_FailUpdatePipelineRun
  by unfold_locales (auto simp: ttc_UpdatePipelineRun_def)

interpretation deleteRun: recorder ttc_DeletePipelineRun ttc_DeletedPipelineRuns "\<lambda>n. n" ttc_FailDeletePipelineRun
  by unfold_locales (auto simp: ttc_DeletePipelineRun_def)

lemma ntc_upload_search:
  assumes "ntc_Upload repository grp file c = (Ok link, c')"
  shows "urlsOf c' repository = urlsOf c repository @ [grp @ ''/'' @ Base file]" "r \<noteq> repository \<Longrightarrow> urlsOf c' r = urlsOf c r"
  using assms by (auto simp: ntc_Upload_def Let_def urlsOf_def update_conv' split: option.splits)

section \<open>Facts: the server is a queue per path\<close>

lemma stub_queue:
  assumes "sr_Body r = Inr b"
  shows "queueOf (snd (stub r ts)) p = (if p = sr_Path r then drop 1 (queueOf ts p) else queueOf ts p)"
    and "fst (stub r ts) = (case queueOf ts (sr_Path r) of [] \<Rightarrow> Ok notFound | q # qs \<Rightarrow> respond q)"
    and "ts_ObservedRequests (snd (stub r ts)) = ts_ObservedRequests ts @ [r]"
  using assms by (auto simp: stub_def cloneRequest_def queueOf_def Let_def update_conv' split: option.splits list.splits)

lemma EnqueueResponse_queue:
  assumes "EnqueueResponse rf path st fixture ts = Inr ts'"
  shows "\<exists>body. queueOf ts' path = queueOf ts path @ [\<lparr>rr_Body = body, rr_StatusCode = st, rr_Fixture = fixture\<rparr>] \<and>
      (fixture = [] \<longrightarrow> body = []) \<and> (fixture \<noteq> [] \<longrightarrow> rf fixture = Inr body)"
    and "p \<noteq> path \<Longrightarrow> queueOf ts' p = queueOf ts p"
  using assms by (auto simp: EnqueueResponse_def queueOf_def Let_def update_conv' split: option.splits sum.splits if_splits)

text \<open>The answers to the requests on one path.\<close>

definition answersOn :: "string \<Rightarrow> serverRequest list \<Rightarrow> (int \<times> string) outcome list \<Rightarrow> (int \<times> string) outcome list" where
  "answersOn p rs xs = map snd (filter (\<lambda>(r, x). sr_Path r = p) (zip rs xs))"

text \<open>
  C36: the test server is one queue per path.  Whatever requests are interleaved, the answers on a
  path are the responses enqueued for it, in the order they were enqueued, each once, and
  after those "not found"; the responses left are those not used; all requests are observed in
  order.
\<close>

theorem TestServer_fifo:
  fixes p :: string
  assumes "\<forall>r\<in>set rs. \<exists>b. sr_Body r = Inr b"
  defines "k \<equiv> length (filter (\<lambda>r. sr_Path r = p) rs)"
  shows "answersOn p rs (fst (serveRequests rs ts)) =
       take k (map respond (queueOf ts p)) @ replicate (k - length (queueOf ts p)) (Ok notFound) \<and>
     queueOf (snd (serveRequests rs ts)) p = drop k (queueOf ts p) \<and>
     ts_ObservedRequests (snd (serveRequests rs ts)) = ts_ObservedRequests ts @ rs"
  using assms(1) unfolding k_def
proof (induction rs arbitrary: ts)
  case Nil
  then show ?case by (simp add: answersOn_def)
next
  case (Cons r rs)
  then obtain b where b: "sr_Body r = Inr b" by auto
  note st = stub_queue [OF b, of ts]
  from Cons.IH [of "snd (stub r ts)"] Cons.prems
  show ?case
    by (cases "queueOf ts p") (auto simp: answersOn_def case_prod_beta Let_def st)
qed

definition exampleServer :: testServer where
  "exampleServer = \<lparr>ts_EnqueuedResponses = [(''/a'', [\<lparr>rr_Body = ''1'', rr_StatusCode = 200, rr_Fixture = []\<rparr>,
      \<lparr>rr_Body = ''2'', rr_StatusCode = 201, rr_Fixture = []\<rparr>])], ts_ObservedRequests = []\<rparr>"

lemma TestServer_witness:
  "answersOn ''/a'' [\<lparr>sr_Path = ''/a'', sr_Body = Inr []\<rparr>, \<lparr>sr_Path = ''/b'', sr_Body = Inr []\<rparr>, \<lparr>sr_Path = ''/a'', sr_Body = Inr []\<rparr>,
       \<lparr>sr_Path = ''/a'', sr_Body = Inr []\<rparr>] (fst (serveRequests [\<lparr>sr_Path = ''/a'', sr_Body = Inr []\<rparr>, \<lparr>sr_Path = ''/b'', sr_Body = Inr []\<rparr>,
       \<lparr>sr_Path = ''/a'', sr_Body = Inr []\<rparr>, \<lparr>sr_Path = ''/a'', sr_Body = Inr []\<rparr>] exampleServer)) =
     [Ok (200, ''1''), Ok (201, ''2''), Ok notFound]"
  using TestServer_fifo [of "[\<lparr>sr_Path = ''/a'', sr_Body = Inr []\<rparr>, \<lparr>sr_Path = ''/b'', sr_Body = Inr []\<rparr>, \<lparr>sr_Path = ''/a'', sr_Body = Inr []\<rparr>,
       \<lparr>sr_Path = ''/a'', sr_Body = Inr []\<rparr>]" "''/a''" exampleServer]
  by (simp add: exampleServer_def queueOf_def respond_def)

end
