(* ===== verification/Sonar.thy ===== *)
theory Sonar
  imports ImageArtifact
begin

text \<open>
  The SonarQube task: the client of \<open>pkg/sonar\<close> (scan, polling of the background task, reports,
  quality gate) and \<open>cmd/sonar/main.go\<close>, which puts the steps in order.  The HTTP exchange is the
  operation \<open>sv_SonarGet\<close> of the environment, the scanner and the report generator are child
  processes.
\<close>

section \<open>Client (client.go)\<close>

record sonarConfig =
  sq_APIToken :: string
  sq_BaseURL :: string
  sq_ServerEdition :: string
  sq_Debug :: bool

definition sonar_NewClient :: "sonarConfig \<Rightarrow> sonarConfig" where
  "sonar_NewClient cfg = (if sq_ServerEdition cfg = [] then cfg\<lparr>sq_ServerEdition := ''community''\<rparr> else cfg)"

definition ProjectKey :: "ODSContext \<Rightarrow> string \<Rightarrow> string" where
  "ProjectKey ctxt artifactPrefix =
     (let sonarProject = oc_Project ctxt @ ''-'' @ oc_Component ctxt
      in if artifactPrefix \<noteq> [] then sonarProject @ ''-'' @ TrimSuffix artifactPrefix ''-'' else sonarProject)"

definition sonar_get :: "services \<Rightarrow> sonarConfig \<Rightarrow> string \<Rightarrow> (int \<times> string) prog_w" where
  "sonar_get sv cfg urlPath =
     (let u = sq_BaseURL cfg @ urlPath in perform (CSonarGet u) (\<lambda>h. sv_SonarGet sv h u))"

section \<open>Scan (scan.go)\<close>

record sonarPullRequest =
  sp_Key :: string
  sp_Branch :: string
  sp_Base :: string

definition ScannerworkDir :: string where "ScannerworkDir = ''.scannerwork''"
definition ReportTaskFilename :: string where "ReportTaskFilename = ''report-task.txt''"
definition ReportTaskFile :: string where "ReportTaskFile = ScannerworkDir @ ''/'' @ ReportTaskFilename"

definition scannerParams :: "sonarConfig \<Rightarrow> string \<Rightarrow> string \<Rightarrow> string \<Rightarrow> sonarPullRequest option \<Rightarrow> string list" where
  "scannerParams cfg sonarProject branch commit pr =
     [''-Dsonar.host.url='' @ sq_BaseURL cfg, ''-Dsonar.scm.provider=git'', ''-Dsonar.projectKey='' @ sonarProject,
      ''-Dsonar.projectName='' @ sonarProject, ''-Dsonar.projectVersion='' @ commit] @
     (if sq_Debug cfg then [''-X''] else []) @
     (if sq_ServerEdition cfg \<noteq> ''community''
      then (case pr of
              Some p \<Rightarrow> [''-Dsonar.pullrequest.key='' @ sp_Key p, ''-Dsonar.pullrequest.branch='' @ sp_Branch p,
                         ''-Dsonar.pullrequest.base='' @ sp_Base p]
            | None \<Rightarrow> [''-Dsonar.branch.name='' @ branch])
      else []) @
     [''-Dsonar.login='' @ sq_APIToken cfg]"

definition sonar_Scan ::
  "services \<Rightarrow> sonarConfig \<Rightarrow> string \<Rightarrow> string \<Rightarrow> string \<Rightarrow> sonarPullRequest option \<Rightarrow> string prog_w" where
  "sonar_Scan sv cfg sonarProject branch commit pr =
     bindP (command_Run sv ''sonar-scanner'' (scannerParams cfg sonarProject branch commit pr)) (\<lambda>(stdout, stderr, err).
     case err of
       Some e \<Rightarrow> failE (''scanning failed: '' @ e @ '', stderr: '' @ stderr)
     | None \<Rightarrow> ret stdout)"

fun findTaskID :: "string \<Rightarrow> string list \<Rightarrow> string + string" where
  "findTaskID filename [] = Inl (''properties file '' @ filename @ '' does not contain ceTaskId='')"
| "findTaskID filename (l # ls) =
     (if 65536 \<le> length l then Inl ''bufio.Scanner: token too long''
      else let line = TrimSpace l
           in if HasPrefix line ''ceTaskId='' then Inr (TrimPrefix line ''ceTaskId='') else findTaskID filename ls)"

definition ExtractComputeEngineTaskID :: "string \<Rightarrow> string prog_w" where
  "ExtractComputeEngineTaskID filename =
     bindP (osOpen filename) (\<lambda>_.
     bindP (readFile filename) (\<lambda>content.
     liftE (findTaskID filename (scanLines content))))"

section \<open>Background tasks (compute\_engine.go)\<close>

definition TaskStatusInProgress :: string where "TaskStatusInProgress = ''IN_PROGRESS''"
definition TaskStatusPending :: string where "TaskStatusPending = ''PENDING''"
definition TaskStatusSuccess :: string where "TaskStatusSuccess = ''SUCCESS''"
definition TaskStatusFailed :: string where "TaskStatusFailed = ''FAILED''"

record computeEngineTask =
  ct_Organization :: string
  ct_ID :: string
  ct_Type :: string
  ct_ComponentID :: string
  ct_ComponentKey :: string
  ct_ComponentName :: string
  ct_ComponentQualifier :: string
  ct_AnalysisID :: string
  ct_Status :: string
  ct_SubmittedAt :: string
  ct_StartedAt :: string
  ct_ExecutedAt :: string
  ct_ExecutionTimeMs :: int
  ct_ErrorMessage :: string
  ct_Logs :: bool
  ct_HasErrorStacktrace :: bool
  ct_ErrorStacktrace :: string
  ct_ScannerContext :: string
  ct_HasScannerContext :: bool

definition zeroTask :: computeEngineTask where
  "zeroTask = \<lparr>ct_Organization = [], ct_ID = [], ct_Type = [], ct_ComponentID = [], ct_ComponentKey = [],
     ct_ComponentName = [], ct_ComponentQualifier = [], ct_AnalysisID = [], ct_Status = [], ct_SubmittedAt = [],
     ct_StartedAt = [], ct_ExecutedAt = [], ct_ExecutionTimeMs = 0, ct_ErrorMessage = [], ct_Logs = False,
     ct_HasErrorStacktrace = False, ct_ErrorStacktrace = [], ct_ScannerContext = [], ct_HasScannerContext = False\<rparr>"

definition decTask :: "computeEngineTask decoder" where
  "decTask = decStruct
     [(''organization'', decField ct_Organization (\<lambda>s r. r\<lparr>ct_Organization := s\<rparr>) decStr),
      (''id'', decField ct_ID (\<lambda>s r. r\<lparr>ct_ID := s\<rparr>) decStr),
      (''type'', decField ct_Type (\<lambda>s r. r\<lparr>ct_Type := s\<rparr>) decStr),
      (''componentId'', decField ct_ComponentID (\<lambda>s r. r\<lparr>ct_ComponentID := s\<rparr>) decStr),
      (''componentKey'', decField ct_ComponentKey (\<lambda>s r. r\<lparr>ct_ComponentKey := s\<rparr>) decStr),
      (''componentName'', decField ct_ComponentName (\<lambda>s r. r\<lparr>ct_ComponentName := s\<rparr>) decStr),
      (''componentQualifier'', decField ct_ComponentQualifier (\<lambda>s r. r\<lparr>ct_ComponentQualifier := s\<rparr>) decStr),
      (''analysisId'', decField ct_AnalysisID (\<lambda>s r. r\<lparr>ct_AnalysisID := s\<rparr>) decStr),
      (''status'', decField ct_Status (\<lambda>s r. r\<lparr>ct_Status := s\<rparr>) decStr),
      (''submittedAt'', decField ct_SubmittedAt (\<lambda>s r. r\<lparr>ct_SubmittedAt := s\<rparr>) decStr),
      (''startedAt'', decField ct_StartedAt (\<lambda>s r. r\<lparr>ct_StartedAt := s\<rparr>) decStr),
      (''executedAt'', decField ct_ExecutedAt (\<lambda>s r. r\<lparr>ct_ExecutedAt := s\<rparr>) decStr),
      (''executionTimeMs'', decField ct_ExecutionTimeMs (\<lambda>s r. r\<lparr>ct_ExecutionTimeMs := s\<rparr>) decInt),
      (''errorMessage'', decField ct_ErrorMessage (\<lambda>s r. r\<lparr>ct_ErrorMessage := s\<rparr>) decStr),
      (''logs'', decField ct_Logs (\<lambda>s r. r\<lparr>ct_Logs := s\<rparr>) decBool),
      (''hasErrorStacktrace'', decField ct_HasErrorStacktrace (\<lambda>s r. r\<lparr>ct_HasErrorStacktrace := s\<rparr>) decBool),
      (''errorStacktrace'', decField ct_ErrorStacktrace (\<lambda>s r. r\<lparr>ct_ErrorStacktrace := s\<rparr>) decStr),
      (''scannerContext'', decField ct_ScannerContext (\<lambda>s r. r\<lparr>ct_ScannerContext := s\<rparr>) decStr),
      (''hasScannerContext'', decField ct_HasScannerContext (\<lambda>s r. r\<lparr>ct_HasScannerContext := s\<rparr>) decBool)]"

text \<open>The response is decoded into a pointer to a struct whose only member is a pointer.\<close>

definition decTaskResponse :: "computeEngineTask option option decoder" where
  "decTaskResponse = decPtr None (decStruct [(''task'', decPtr zeroTask decTask)])"

definition ComputeEngineTaskGet :: "services \<Rightarrow> sonarConfig \<Rightarrow> string \<Rightarrow> computeEngineTask option prog_w" where
  "ComputeEngineTaskGet sv cfg taskID =
     bindP (wrapErr ''request returned err: '' (sonar_get sv cfg (''/api/ce/task?id='' @ taskID))) (\<lambda>(statusCode, response).
     if statusCode \<noteq> 200
     then failE (''request returned unexpected response code: '' @ Itoa statusCode @ '', body: '' @ response)
     else bindP (wrapErr ''could not unmarshal response: '' (liftE (Unmarshal decTaskResponse None response))) (\<lambda>cetr.
          liftPanic ''nil pointer dereference'' cetr))"

section \<open>Quality gate (quality\_gate.go)\<close>

definition QualityGateStatusOk :: string where "QualityGateStatusOk = ''OK''"
definition QualityGateStatusNone :: string where "QualityGateStatusNone = ''NONE''"

record qualityGateCondition =
  qc_Status :: string
  qc_MetricKey :: string
  qc_Comparator :: string
  qc_PeriodIndex :: int
  qc_ErrorThreshold :: string
  qc_ActualValue :: string

record qualityGatePeriod =
  qp_Index :: int
  qp_Mode :: string
  qp_Date :: string
  qp_Parameter :: string

text \<open>The two slices are \<open>None\<close> when nil.\<close>

record qualityGate =
  qg_Status :: string
  qg_IgnoredConditions :: bool
  qg_Conditions :: "qualityGateCondition list option"
  qg_Periods :: "qualityGatePeriod list option"

definition zeroCondition :: qualityGateCondition where
  "zeroCondition = \<lparr>qc_Status = [], qc_MetricKey = [], qc_Comparator = [], qc_PeriodIndex = 0,
     qc_ErrorThreshold = [], qc_ActualValue = []\<rparr>"

definition zeroPeriod :: qualityGatePeriod where
  "zeroPeriod = \<lparr>qp_Index = 0, qp_Mode = [], qp_Date = [], qp_Parameter = []\<rparr>"

definition zeroGate :: qualityGate where
  "zeroGate = \<lparr>qg_Status = [], qg_IgnoredConditions = False, qg_Conditions = None, qg_Periods = None\<rparr>"

definition decCondition :: "qualityGateCondition decoder" where
  "decCondition = decStruct
     [(''status'', decField qc_Status (\<lambda>s r. r\<lparr>qc_Status := s\<rparr>) decStr),
      (''metricKey'', decField qc_MetricKey (\<lambda>s r. r\<lparr>qc_MetricKey := s\<rparr>) decStr),
      (''comparator'', decField qc_Comparator (\<lambda>s r. r\<lparr>qc_Comparator := s\<rparr>) decStr),
      (''periodIndex'', decField qc_PeriodIndex (\<lambda>s r. r\<lparr>qc_PeriodIndex := s\<rparr>) decInt),
      (''errorThreshold'', decField qc_ErrorThreshold (\<lambda>s r. r\<lparr>qc_ErrorThreshold := s\<rparr>) decStr),
      (''actualValue'', decField qc_ActualValue (\<lambda>s r. r\<lparr>qc_ActualValue := s\<rparr>) decStr)]"

definition decPeriod :: "qualityGatePeriod decoder" where
  "decPeriod = decStruct
     [(''index'', decField qp_Index (\<lambda>s r. r\<lparr>qp_Index := s\<rparr>) decInt),
      (''mode'', decField qp_Mode (\<lambda>s r. r\<lparr>qp_Mode := s\<rparr>) decStr),
      (''date'', decField qp_Date (\<lambda>s r. r\<lparr>qp_Date := s\<rparr>) decStr),
      (''parameter'', decField qp_Parameter (\<lambda>s r. r\<lparr>qp_Parameter := s\<rparr>) decStr)]"

definition decProjectStatus :: "qualityGate decoder" where
  "decProjectStatus = decStruct
     [(''status'', decField qg_Status (\<lambda>s r. r\<lparr>qg_Status := s\<rparr>) decStr),
      (''ignoredConditions'', decField qg_IgnoredConditions (\<lambda>s r. r\<lparr>qg_IgnoredConditions := s\<rparr>) decBool),
      (''conditions'', decField qg_Conditions (\<lambda>s r. r\<lparr>qg_Conditions := s\<rparr>) (decPtr [] (decSlice zeroCondition decCondition))),
      (''periods'', decField qg_Periods (\<lambda>s r. r\<lparr>qg_Periods := s\<rparr>) (decPtr [] (decSlice zeroPeriod decPeriod)))]"

definition decGate :: "qualityGate option decoder" where
  "decGate = decPtr zeroGate (decStruct [(''projectStatus'', decProjectStatus)])"

definition sliceJson :: "('a \<Rightarrow> json) \<Rightarrow> 'a list option \<Rightarrow> json" where
  "sliceJson f xs = (case xs of None \<Rightarrow> JNull | Some ys \<Rightarrow> JArr (map f ys))"

definition conditionJson :: "qualityGateCondition \<Rightarrow> json" where
  "conditionJson c = JObj
     ([(''status'', JStr (qc_Status c)), (''metricKey'', JStr (qc_MetricKey c)), (''comparator'', JStr (qc_Comparator c)),
       (''periodIndex'', JNum (Itoa (qc_PeriodIndex c)))] @
      (if qc_ErrorThreshold c = [] then [] else [(''errorThreshold'', JStr (qc_ErrorThreshold c))]) @
      [(''actualValue'', JStr (qc_ActualValue c))])"

definition periodJson :: "qualityGatePeriod \<Rightarrow> json" where
  "periodJson p = JObj [(''index'', JNum (Itoa (qp_Index p))), (''mode'', JStr (qp_Mode p)), (''date'', JStr (qp_Date p)),
     (''parameter'', JStr (qp_Parameter p))]"

definition qualityGateJson :: "qualityGate \<Rightarrow> json" where
  "qualityGateJson g = JObj [(''projectStatus'', JObj
     [(''status'', JStr (qg_Status g)), (''ignoredConditions'', JBool (qg_IgnoredConditions g)),
      (''conditions'', sliceJson conditionJson (qg_Conditions g)), (''periods'', sliceJson periodJson (qg_Periods g))])]"

text \<open>A failed request is not an error: the gate then has the status \<open>NONE\<close>.\<close>

definition QualityGateGet :: "services \<Rightarrow> sonarConfig \<Rightarrow> string \<Rightarrow> qualityGate option prog_w" where
  "QualityGateGet sv cfg project =
     bindP (attempt (sonar_get sv cfg (''/api/qualitygates/project_status?projectKey='' @ project))) (\<lambda>r. case r of
       Inl e \<Rightarrow> ret (Some (zeroGate\<lparr>qg_Status := QualityGateStatusNone\<rparr>))
     | Inr (statusCode, response) \<Rightarrow>
         (if statusCode \<noteq> 200
          then failE (''request returned unexpected response code: '' @ Itoa statusCode @ '', body: '' @ response)
          else liftE (Unmarshal decGate None response)))"

section \<open>Reports (report.go)\<close>

text \<open>\<open>Time.Format("2006-01-02")\<close> of a time in nanoseconds since 1970, in UTC.\<close>

definition padTo :: "nat \<Rightarrow> int \<Rightarrow> string" where
  "padTo n i = (let s = Itoa i in replicate (n - length s) (CHR ''0'') @ s)"

definition civilDate :: "int \<Rightarrow> int \<times> int \<times> int" where
  "civilDate days =
     (let z = days + 719468; era = z div 146097; doe = z mod 146097;
          yoe = (doe - doe div 1460 + doe div 36524 - doe div 146096) div 365;
          doy = doe - (365 * yoe + yoe div 4 - yoe div 100);
          mp = (5 * doy + 2) div 153;
          month = (if mp < 10 then mp + 3 else mp - 9)
      in (yoe + era * 400 + (if month \<le> 2 then 1 else 0), month, doy - (153 * mp + 2) div 5 + 1))"

definition currentDate :: "string prog_w" where
  "currentDate = bindP (gets w_now) (\<lambda>now.
     case civilDate (now div (24 * hour)) of (y, m, d) \<Rightarrow> ret (padTo 4 y @ ''-'' @ padTo 2 m @ ''-'' @ padTo 2 d))"

definition copySonarReport :: "string \<Rightarrow> string \<Rightarrow> string \<Rightarrow> string \<Rightarrow> unit prog_w" where
  "copySonarReport project destinationDir artifactPrefix name =
     bindP currentDate (\<lambda>date.
     let reportFile = date @ ''-'' @ project @ ''-'' @ name
     in wrapErr (''copying '' @ reportFile @ '' failed: '')
          (file_Copy reportFile (filepathJoin [destinationDir, artifactPrefix @ name])))"

definition copyReportFiles :: "string \<Rightarrow> string \<Rightarrow> string \<Rightarrow> unit prog_w" where
  "copyReportFiles project destinationDir artifactPrefix =
     bindP (copySonarReport project destinationDir artifactPrefix ''analysis-report.md'') (\<lambda>_.
     copySonarReport project destinationDir artifactPrefix ''issues-report.csv'')"

definition reportParams :: "sonarConfig \<Rightarrow> string \<Rightarrow> string \<Rightarrow> string \<Rightarrow> string list" where
  "reportParams cfg sonarProject author branch =
     [''-jar'', ''/usr/local/cnes/cnesreport.jar'', ''-s'', sq_BaseURL cfg, ''-t'', sq_APIToken cfg,
      ''-p'', sonarProject, ''-a'', author, branch]"

definition GenerateReports :: "services \<Rightarrow> sonarConfig \<Rightarrow> string \<Rightarrow> string \<Rightarrow> string \<Rightarrow> string \<Rightarrow> string \<Rightarrow> unit prog_w" where
  "GenerateReports sv cfg sonarProject author branch rootPath artifactPrefix =
     bindP (command_Run sv ''java'' (reportParams cfg sonarProject author branch)) (\<lambda>(stdout, stderr, err).
     case err of
       Some e \<Rightarrow> failE (''report generation failed: '' @ e @ '', stderr: '' @ stderr @ '', stdout: '' @ stdout)
     | None \<Rightarrow> wrapErr ''copying report to artifacts failed: ''
         (copyReportFiles sonarProject (filepathJoin [rootPath, SonarAnalysisPath]) artifactPrefix))"

section \<open>The task (cmd/sonar/main.go)\<close>

record sonarOptions =
  so_sonarAuthToken :: string
  so_sonarURL :: string
  so_sonarEdition :: string
  so_workingDir :: string
  so_rootPath :: string
  so_qualityGate :: bool
  so_debug :: bool

definition sonarDefaults :: "string \<Rightarrow> (string \<Rightarrow> string) \<Rightarrow> sonarOptions" where
  "sonarDefaults rootPath getenv =
     \<lparr>so_sonarAuthToken = getenv ''SONAR_AUTH_TOKEN'', so_sonarURL = getenv ''SONAR_URL'',
      so_sonarEdition = getenv ''SONAR_EDITION'', so_workingDir = ''.'', so_rootPath = rootPath,
      so_qualityGate = False, so_debug = (getenv ''DEBUG'' = ''true'')\<rparr>"

text \<open>The loop over the attempts that are left; the waiting time doubles.\<close>

primrec pollTask :: "services \<Rightarrow> sonarConfig \<Rightarrow> string \<Rightarrow> nat \<Rightarrow> int \<Rightarrow> unit prog_w" where
  "pollTask sv cfg taskID 0 sleep = failE (''background task '' @ taskID @ '' did not succeed within timeout'')"
| "pollTask sv cfg taskID (Suc n) sleep =
     bindP (timeSleep sleep) (\<lambda>_.
     bindP (attempt (ComputeEngineTaskGet sv cfg taskID)) (\<lambda>r. case r of
       Inl e \<Rightarrow> pollTask sv cfg taskID n (sleep * 2)
     | Inr t \<Rightarrow> bindP (liftPanic ''nil pointer dereference'' t) (\<lambda>task.
         if ct_Status task = TaskStatusInProgress then pollTask sv cfg taskID n (sleep * 2)
         else if ct_Status task = TaskStatusPending then pollTask sv cfg taskID n (sleep * 2)
         else if ct_Status task = TaskStatusFailed then failE (''background task '' @ taskID @ '' has failed'')
         else if ct_Status task = TaskStatusSuccess then ret ()
         else pollTask sv cfg taskID n (sleep * 2))))"

definition waitUntilComputeEngineTaskIsSuccessful :: "services \<Rightarrow> sonarConfig \<Rightarrow> unit prog_w" where
  "waitUntilComputeEngineTaskIsSuccessful sv cfg =
     bindP (wrapErr ''cannot read task ID: '' (ExtractComputeEngineTaskID ReportTaskFile)) (\<lambda>reportTaskID.
     pollTask sv cfg reportTaskID 8 second)"

definition sonarArtifactPrefix :: "sonarOptions \<Rightarrow> string" where
  "sonarArtifactPrefix opts = (if so_workingDir opts \<noteq> ''.'' then ReplaceAll (so_workingDir opts) ''/'' ''-'' @ ''-'' else [])"

definition sonarPullRequestOf :: "ODSContext \<Rightarrow> sonarPullRequest option" where
  "sonarPullRequestOf ctxt =
     (if oc_PullRequestKey ctxt \<noteq> [] \<and> oc_PullRequestKey ctxt \<noteq> ''0'' \<and> oc_PullRequestBase ctxt \<noteq> []
      then Some \<lparr>sp_Key = oc_PullRequestKey ctxt, sp_Branch = oc_GitRef ctxt, sp_Base = oc_PullRequestBase ctxt\<rparr> else None)"

definition checkQualityGate :: "services \<Rightarrow> sonarConfig \<Rightarrow> sonarOptions \<Rightarrow> string \<Rightarrow> unit prog_w" where
  "checkQualityGate sv cfg opts sonarProject =
     bindP (wrapErr ''quality gate could not be retrieved: '' (QualityGateGet sv cfg sonarProject)) (\<lambda>gate.
     bindP (wrapErr ''quality gate status could not be stored as an artifact: ''
              (WriteJsonArtifact (case gate of None \<Rightarrow> JNull | Some g \<Rightarrow> qualityGateJson g)
                (filepathJoin [so_rootPath opts, SonarAnalysisPath]) (sonarArtifactPrefix opts @ ''quality-gate.json''))) (\<lambda>_.
     bindP (liftPanic ''nil pointer dereference'' gate) (\<lambda>g.
     if qg_Status g \<noteq> QualityGateStatusOk
     then failE (''quality gate status is '' @ [CHR 0x27] @ qg_Status g @ [CHR 0x27] @ '', not '' @ [CHR 0x27] @ QualityGateStatusOk @ [CHR 0x27])
     else ret ())))"

definition sonarScan :: "services \<Rightarrow> sonarConfig \<Rightarrow> sonarOptions \<Rightarrow> ODSContext \<Rightarrow> unit prog_w" where
  "sonarScan sv cfg opts ctxt =
     (let artifactPrefix = sonarArtifactPrefix opts;
          sonarProject = ProjectKey ctxt artifactPrefix;
          prInfo = sonarPullRequestOf ctxt
      in bindP (wrapErr ''scan failed: '' (sonar_Scan sv cfg sonarProject (oc_GitRef ctxt) (oc_GitCommitSHA ctxt) prInfo)) (\<lambda>_.
         bindP (wrapErr ''background task did not finish successfully: '' (waitUntilComputeEngineTaskIsSuccessful sv cfg)) (\<lambda>_.
         bindP (if prInfo = None
                then fatal (GenerateReports sv cfg sonarProject ''OpenDevStack'' (oc_GitRef ctxt) (so_rootPath opts) artifactPrefix)
                else ret ()) (\<lambda>_.
         if so_qualityGate opts then checkQualityGate sv cfg opts sonarProject else ret ()))))"

definition Sonar_main :: "services \<Rightarrow> rangeOrder \<Rightarrow> sonarOptions \<Rightarrow> unit prog_w" where
  "Sonar_main sv ord opts =
     bindP (gets w_trace) (\<lambda>h.
     bindP (fatal (ReadCache (ord h) emptyContext ''.'')) (\<lambda>ctxt.
     bindP (fatal (osChdir (so_workingDir opts))) (\<lambda>_.
     let cfg = sonar_NewClient \<lparr>sq_APIToken = so_sonarAuthToken opts, sq_BaseURL = so_sonarURL opts,
                 sq_ServerEdition = so_sonarEdition opts, sq_Debug = so_debug opts\<rparr>
     in fatal (sonarScan sv cfg opts ctxt))))"

section \<open>Facts: polling\<close>

text \<open>What one answer says about the background task.\<close>

datatype verdict = Undecided | Finished | Failed | Malformed

definition taskVerdict :: "string + int \<times> string \<Rightarrow> verdict" where
  "taskVerdict answer = (case answer of
       Inl e \<Rightarrow> Undecided
     | Inr (status, body) \<Rightarrow>
         (if status \<noteq> 200 then Undecided
          else case Unmarshal decTaskResponse None body of
              Inl e \<Rightarrow> Undecided
            | Inr (Some (Some t)) \<Rightarrow>
                (if ct_Status t = ''SUCCESS'' then Finished else if ct_Status t = ''FAILED'' then Failed else Undecided)
            | _ \<Rightarrow> Malformed))"

definition taskURL :: "sonarConfig \<Rightarrow> string \<Rightarrow> string" where
  "taskURL cfg taskID = sq_BaseURL cfg @ ''/api/ce/task?id='' @ taskID"

lemmas status_defs = TaskStatusInProgress_def TaskStatusPending_def TaskStatusFailed_def TaskStatusSuccess_def

lemma taskGet_run:
  "ComputeEngineTaskGet sv cfg taskID w =
     (case sv_SonarGet sv (w_trace w) (taskURL cfg taskID) of
        Inl e \<Rightarrow> Err (''request returned err: '' @ e)
      | Inr (status, body) \<Rightarrow>
          (if status \<noteq> 200
           then Err (''request returned unexpected response code: '' @ Itoa status @ '', body: '' @ body)
           else case Unmarshal decTaskResponse None body of
               Inl e \<Rightarrow> Err (''could not unmarshal response: '' @ e)
             | Inr None \<Rightarrow> Panic ''nil pointer dereference''
             | Inr (Some t) \<Rightarrow> Ok t),
      w\<lparr>w_trace := w_trace w @ [CSonarGet (taskURL cfg taskID)]\<rparr>)"
  by (auto simp: ComputeEngineTaskGet_def sonar_get_def taskURL_def perform_def wrapErr_def bindP_def Let_def
      liftPanic_def prog_simps split: sum.split prod.split option.split)

lemma pollTask_step:
  fixes w :: world and s :: int and cfg :: sonarConfig and taskID :: string
  defines "w1 \<equiv> w\<lparr>w_now := w_now w + s, w_trace := w_trace w @ [CSleep s, CSonarGet (taskURL cfg taskID)]\<rparr>"
  shows "pollTask sv cfg taskID (Suc n) s w =
     (case taskVerdict (sv_SonarGet sv (w_trace w @ [CSleep s]) (taskURL cfg taskID)) of
        Undecided \<Rightarrow> pollTask sv cfg taskID n (s * 2) w1
      | Finished \<Rightarrow> (Ok (), w1)
      | Failed \<Rightarrow> (Err (''background task '' @ taskID @ '' has failed''), w1)
      | Malformed \<Rightarrow> (Panic ''nil pointer dereference'', w1))"
proof -
  have "timeSleep s w = (Ok (), w\<lparr>w_now := w_now w + s, w_trace := w_trace w @ [CSleep s]\<rparr>)"
    by (simp add: timeSleep_def record_call_def bindP_def modifyP_def)
  then show ?thesis
    by (auto simp: w1_def bindP_def [of "attempt _"] attempt_def taskGet_run taskVerdict_def status_defs prog_simps
        split: sum.splits prod.splits option.splits if_splits)
qed

text \<open>The calls of the first \<open>n\<close> attempts, and the answer to attempt \<open>k\<close>.\<close>

definition pollCalls :: "string \<Rightarrow> int \<Rightarrow> nat \<Rightarrow> call list" where
  "pollCalls u s n = concat (map (\<lambda>k. [CSleep (s * 2 ^ k), CSonarGet u]) [0..<n])"

definition pollAnswer :: "services \<Rightarrow> string \<Rightarrow> int \<Rightarrow> call list \<Rightarrow> nat \<Rightarrow> string + int \<times> string" where
  "pollAnswer sv u s h k = sv_SonarGet sv (h @ pollCalls u s k @ [CSleep (s * 2 ^ k)]) u"

lemma pollCalls_0 [simp]: "pollCalls u s 0 = []"
  by (simp add: pollCalls_def)

lemma pollCalls_Suc: "pollCalls u s (Suc n) = [CSleep s, CSonarGet u] @ pollCalls u (s * 2) n"
proof -
  have "[0..<Suc n] = 0 # map Suc [0..<n]" by (simp only: map_Suc_upt upt_conv_Cons [of 0 "Suc n"] zero_less_Suc)
  then show ?thesis by (simp add: pollCalls_def comp_def mult.assoc)
qed

lemma pollAnswer_Suc: "pollAnswer sv u s h (Suc k) = pollAnswer sv u (s * 2) (h @ [CSleep s, CSonarGet u]) k"
  by (simp add: pollAnswer_def pollCalls_Suc mult.assoc)

text \<open>How a loop of attempts ends, by the verdict on its last answer.\<close>

definition pollEnd :: "(nat \<Rightarrow> verdict) \<Rightarrow> nat \<Rightarrow> nat \<Rightarrow> unit outcome \<Rightarrow> bool" where
  "pollEnd v m n r \<longleftrightarrow> n \<le> m \<and> (\<forall>k. Suc k < n \<longrightarrow> v k = Undecided) \<and>
     (case r of
        Ok _ \<Rightarrow> 0 < n \<and> v (n - 1) = Finished
      | Err _ \<Rightarrow> (0 < n \<and> v (n - 1) = Failed) \<or> (n = m \<and> (0 < n \<longrightarrow> v (n - 1) = Undecided))
      | Panic _ \<Rightarrow> 0 < n \<and> v (n - 1) = Malformed
      | Exit _ \<Rightarrow> False)"

lemma pollEnd_Suc:
  assumes "pollEnd (\<lambda>k. v (Suc k)) m n r" "v 0 = Undecided"
  shows "pollEnd v (Suc m) (Suc n) r"
proof -
  have "v k = Undecided" if "Suc k < Suc n" for k
    using assms that by (cases k) (auto simp: pollEnd_def)
  then show ?thesis using assms by (cases n) (auto simp: pollEnd_def split: outcome.splits)
qed

lemma pollTask_result:
  "pollTask sv cfg taskID m s w = (r, w') \<Longrightarrow>
     \<exists>n. pollEnd (\<lambda>k. taskVerdict (pollAnswer sv (taskURL cfg taskID) s (w_trace w) k)) m n r \<and>
       w' = w\<lparr>w_now := w_now w + s * (2 ^ n - 1), w_trace := w_trace w @ pollCalls (taskURL cfg taskID) s n\<rparr>"
proof (induction m arbitrary: s w)
  case 0
  then show ?case by (intro exI [of _ 0]) (auto simp: prog_simps pollEnd_def)
next
  case (Suc m)
  let ?u = "taskURL cfg taskID"
  let ?w1 = "w\<lparr>w_now := w_now w + s, w_trace := w_trace w @ [CSleep s, CSonarGet ?u]\<rparr>"
  let ?v = "\<lambda>k. taskVerdict (pollAnswer sv ?u s (w_trace w) k)"
  have v0: "?v 0 = taskVerdict (sv_SonarGet sv (w_trace w @ [CSleep s]) ?u)" by (simp add: pollAnswer_def)
  show ?case
  proof (cases "?v 0 = Undecided")
    case True
    with Suc.prems v0 have "pollTask sv cfg taskID m (s * 2) ?w1 = (r, w')" by (simp add: pollTask_step del: pollTask.simps)
    from Suc.IH [OF this] obtain n where
      e: "pollEnd (\<lambda>k. ?v (Suc k)) m n r"
      and w': "w' = ?w1\<lparr>w_now := w_now ?w1 + s * 2 * (2 ^ n - 1), w_trace := w_trace ?w1 @ pollCalls ?u (s * 2) n\<rparr>"
      by (auto simp: pollAnswer_Suc)
    from pollEnd_Suc [of ?v, OF e True] have "pollEnd ?v (Suc m) (Suc n) r" .
    moreover have "w' = w\<lparr>w_now := w_now w + s * (2 ^ Suc n - 1), w_trace := w_trace w @ pollCalls ?u s (Suc n)\<rparr>"
      unfolding w' pollCalls_Suc by (simp add: algebra_simps)
    ultimately show ?thesis by blast
  next
    case False
    with Suc.prems v0 have "w' = ?w1" "pollEnd ?v (Suc m) 1 r"
      by (auto simp: pollTask_step pollEnd_def simp del: pollTask.simps split: verdict.splits)
    then show ?thesis by (intro exI [of _ 1]) (simp add: pollCalls_Suc)
  qed
qed

section \<open>Facts: the steps of a successful run\<close>

lemma command_Ok:
  assumes "bindP (command_Run sv e args) f w = (Ok y, w')"
  obtains out err x w1 where "f (out, err, x) w1 = (Ok y, w')" "w_trace w1 = w_trace w @ [CExec e args [] []]"
  using assms by (auto simp: command_Run_def runCommand_def bindP_def split: prod.splits)

lemma scan_trace:
  assumes "sonar_Scan sv cfg project branch commit pr w = (Ok out, w')"
  shows "w_trace w' = w_trace w @ [CExec ''sonar-scanner'' (scannerParams cfg project branch commit pr) [] []]"
  using assms unfolding sonar_Scan_def
  by (rule command_Ok) (auto simp: prog_simps split: option.splits)

lemma wait_trace:
  assumes "waitUntilComputeEngineTaskIsSuccessful sv cfg w = (Ok u, w')"
  shows "\<exists>taskID n. w_trace w' = w_trace w @ pollCalls (taskURL cfg taskID) second n \<and> 0 < n \<and> n \<le> 8 \<and>
     taskVerdict (pollAnswer sv (taskURL cfg taskID) second (w_trace w) (n - 1)) = Finished"
proof -
  from assms obtain taskID w1 where e: "ExtractComputeEngineTaskID ReportTaskFile w = (Ok taskID, w1)"
    and p: "pollTask sv cfg taskID 8 second w1 = (Ok u, w')"
    unfolding waitUntilComputeEngineTaskIsSuccessful_def by (rule bindP_OkE) (simp only: wrapErr_Ok)
  have "preserves only_files (ExtractComputeEngineTaskID ReportTaskFile)"
    unfolding ExtractComputeEngineTaskID_def by (intro fo.rules files_only)
  from only_files_frame(4) [OF preservesD [OF this e]] have t: "w_trace w1 = w_trace w" .
  from pollTask_result [OF p] obtain n where
    "pollEnd (\<lambda>k. taskVerdict (pollAnswer sv (taskURL cfg taskID) second (w_trace w1) k)) 8 n (Ok u)"
    "w' = w1\<lparr>w_now := w_now w1 + second * (2 ^ n - 1), w_trace := w_trace w1 @ pollCalls (taskURL cfg taskID) second n\<rparr>"
    by blast
  with t show ?thesis by (intro exI [of _ taskID] exI [of _ n]) (simp add: pollEnd_def)
qed

lemma currentDate_fo: "preserves only_files currentDate"
  unfolding currentDate_def by (intro fo.rules)

lemma reports_trace:
  assumes "GenerateReports sv cfg project author branch root pref w = (Ok u, w')"
  shows "w_trace w' = w_trace w @ [CExec ''java'' (reportParams cfg project author branch) [] []]"
proof -
  have fo: "preserves only_files (copyReportFiles project dir pref)" for dir
    unfolding copyReportFiles_def copySonarReport_def Let_def by (intro fo.rules currentDate_fo files_only)
  from assms show ?thesis unfolding GenerateReports_def
  proof (rule command_Ok)
    fix out err x w1
    assume c: "(case (out, err, x) of (stdout, stderr, err) \<Rightarrow> case err of
         None \<Rightarrow> wrapErr ''copying report to artifacts failed: ''
           (copyReportFiles project (filepathJoin [root, SonarAnalysisPath]) pref)
       | Some e \<Rightarrow> failE (''report generation failed: '' @ e @ '', stderr: '' @ stderr @ '', stdout: '' @ stdout)) w1 = (Ok u, w')"
      and t: "w_trace w1 = w_trace w @ [CExec ''java'' (reportParams cfg project author branch) [] []]"
    from c have "copyReportFiles project (filepathJoin [root, SonarAnalysisPath]) pref w1 = (Ok u, w')"
      by (cases x) (simp_all add: prog_simps)
    from only_files_frame(4) [OF preservesD [OF fo this]] t show ?thesis by simp
  qed
qed

definition gateURL :: "sonarConfig \<Rightarrow> string \<Rightarrow> string" where
  "gateURL cfg project = sq_BaseURL cfg @ ''/api/qualitygates/project_status?projectKey='' @ project"

lemma gate_run:
  "QualityGateGet sv cfg project w =
     (case sv_SonarGet sv (w_trace w) (gateURL cfg project) of
        Inl e \<Rightarrow> Ok (Some (zeroGate\<lparr>qg_Status := ''NONE''\<rparr>))
      | Inr (status, body) \<Rightarrow>
          (if status \<noteq> 200
           then Err (''request returned unexpected response code: '' @ Itoa status @ '', body: '' @ body)
           else case Unmarshal decGate None body of Inl e \<Rightarrow> Err e | Inr g \<Rightarrow> Ok g),
      w\<lparr>w_trace := w_trace w @ [CSonarGet (gateURL cfg project)]\<rparr>)"
  by (auto simp: QualityGateGet_def sonar_get_def gateURL_def perform_def attempt_def bindP_def Let_def
      QualityGateStatusNone_def prog_simps liftE_def split: sum.split prod.split)

lemma checkQualityGate_Ok:
  assumes "checkQualityGate sv cfg opts project w = (Ok u, w')"
  shows "\<exists>body g. sv_SonarGet sv (w_trace w) (gateURL cfg project) = Inr (200, body) \<and>
     Unmarshal decGate None body = Inr (Some g) \<and> qg_Status g = ''OK'' \<and>
     w_trace w' = w_trace w @ [CSonarGet (gateURL cfg project)] \<and>
     contentAt (filepathJoin [filepathJoin [so_rootPath opts, SonarAnalysisPath], sonarArtifactPrefix opts @ ''quality-gate.json'']) w'
       = Some (Marshal (qualityGateJson g))"
proof -
  from assms obtain gate w1 where q: "QualityGateGet sv cfg project w = (Ok gate, w1)"
    and 1: "bindP (wrapErr ''quality gate status could not be stored as an artifact: ''
              (WriteJsonArtifact (case gate of None \<Rightarrow> JNull | Some g \<Rightarrow> qualityGateJson g)
                (filepathJoin [so_rootPath opts, SonarAnalysisPath]) (sonarArtifactPrefix opts @ ''quality-gate.json''))) (\<lambda>_.
     bindP (liftPanic ''nil pointer dereference'' gate) (\<lambda>g.
     if qg_Status g \<noteq> QualityGateStatusOk
     then failE (''quality gate status is '' @ [CHR 0x27] @ qg_Status g @ [CHR 0x27] @ '', not '' @ [CHR 0x27] @ QualityGateStatusOk @ [CHR 0x27])
     else ret ())) w1 = (Ok u, w')"
    unfolding checkQualityGate_def by (rule bindP_OkE) (simp only: wrapErr_Ok)
  from 1 obtain u2 w2 where wj: "WriteJsonArtifact (case gate of None \<Rightarrow> JNull | Some g \<Rightarrow> qualityGateJson g)
                (filepathJoin [so_rootPath opts, SonarAnalysisPath]) (sonarArtifactPrefix opts @ ''quality-gate.json'') w1 = (Ok u2, w2)"
    and 2: "bindP (liftPanic ''nil pointer dereference'' gate) (\<lambda>g.
     if qg_Status g \<noteq> QualityGateStatusOk
     then failE (''quality gate status is '' @ [CHR 0x27] @ qg_Status g @ [CHR 0x27] @ '', not '' @ [CHR 0x27] @ QualityGateStatusOk @ [CHR 0x27])
     else ret ()) w2 = (Ok u, w')"
    by (rule bindP_OkE) (simp only: wrapErr_Ok)
  from 2 obtain g where g: "gate = Some g" "qg_Status g = ''OK''" "w' = w2"
    by (cases gate) (auto simp: prog_simps QualityGateStatusOk_def split: if_splits)
  have "preserves only_files (WriteJsonArtifact j d f)" for j d f
    unfolding WriteJsonArtifact_def by (intro fo.rules files_only)
  from only_files_frame(4) [OF preservesD [OF this wj]] have t: "w_trace w2 = w_trace w1" .
  from wj g(1) obtain w3 where "writeFile (filepathJoin [filepathJoin [so_rootPath opts, SonarAnalysisPath],
      sonarArtifactPrefix opts @ ''quality-gate.json'']) (Marshal (qualityGateJson g)) w3 = (Ok (), w2)"
    unfolding WriteJsonArtifact_def by (auto elim!: bindP_OkE)
  from contentAt_write_same [OF this] q g t show ?thesis
    by (auto simp: gate_run zeroGate_def split: sum.splits prod.splits if_splits)
qed

section \<open>Properties\<close>

text \<open>
  C29: waiting for the background task ends after at most eight requests and 255 seconds, whatever
  the server answers: it stops at the first answer that decides, succeeds exactly on
  \<open>SUCCESS\<close>, and answers that are errors or name another status only cost an attempt.
\<close>

theorem wait_for_background_task_bounded:
  assumes "ExtractComputeEngineTaskID ReportTaskFile w = (Ok taskID, w)"
    and "waitUntilComputeEngineTaskIsSuccessful sv cfg w = (r, w')"
  shows "\<exists>n\<le>8. let u = sq_BaseURL cfg @ ''/api/ce/task?id='' @ taskID;
        v = (\<lambda>k. taskVerdict (pollAnswer sv u second (w_trace w) k))
     in w_trace w' = w_trace w @ concat (map (\<lambda>k. [CSleep (second * 2 ^ k), CSonarGet u]) [0..<n]) \<and>
        w_now w' = w_now w + second * (2 ^ n - 1) \<and> w_now w' \<le> w_now w + 255 * second \<and>
        (\<forall>k. Suc k < n \<longrightarrow> v k = Undecided) \<and>
        (case r of Ok _ \<Rightarrow> 0 < n \<and> v (n - 1) = Finished
           | Err _ \<Rightarrow> 0 < n \<and> (v (n - 1) = Failed \<or> n = 8 \<and> v 7 = Undecided)
           | Panic _ \<Rightarrow> 0 < n \<and> v (n - 1) = Malformed
           | Exit _ \<Rightarrow> False)"
proof -
  have "pollTask sv cfg taskID 8 second w = (r, w')"
    using assms by (simp add: waitUntilComputeEngineTaskIsSuccessful_def bindP_def wrapErr_def)
  from pollTask_result [OF this] obtain n where
    e: "pollEnd (\<lambda>k. taskVerdict (pollAnswer sv (taskURL cfg taskID) second (w_trace w) k)) 8 n r"
    and w': "w' = w\<lparr>w_now := w_now w + second * (2 ^ n - 1), w_trace := w_trace w @ pollCalls (taskURL cfg taskID) second n\<rparr>"
    by blast
  from e have n: "n \<le> 8" by (simp add: pollEnd_def)
  then have "(2::int) ^ n \<le> 2 ^ 8" by (intro power_increasing) auto
  then have "second * (2 ^ n - 1) \<le> 255 * second" by (simp add: second_def)
  with n e w' show ?thesis
    unfolding Let_def taskURL_def [symmetric] pollCalls_def [symmetric]
    by (intro exI [of _ n]) (auto simp: pollEnd_def split: outcome.splits)
qed

text \<open>
  C28: the SonarQube task ends without an error only after a scan, a background task that
  succeeded, and reports unless a pull request was scanned; if the quality gate is required,
  the server answered that it is \<open>OK\<close> and this answer is stored as an artifact.
\<close>

theorem sonarScan_requires_quality_gate:
  assumes "sonarScan sv cfg opts ctxt w = (Ok (), w')"
  shows "\<exists>taskID n. let project = ProjectKey ctxt (sonarArtifactPrefix opts);
        pr = sonarPullRequestOf ctxt;
        scan = CExec ''sonar-scanner'' (scannerParams cfg project (oc_GitRef ctxt) (oc_GitCommitSHA ctxt) pr) [] [];
        u = sq_BaseURL cfg @ ''/api/ce/task?id='' @ taskID;
        gate = sq_BaseURL cfg @ ''/api/qualitygates/project_status?projectKey='' @ project
     in 0 < n \<and> n \<le> 8 \<and> taskVerdict (pollAnswer sv u second (w_trace w @ [scan]) (n - 1)) = Finished \<and>
        w_trace w' = w_trace w @ [scan] @ pollCalls u second n @
          (if pr = None then [CExec ''java'' (reportParams cfg project ''OpenDevStack'' (oc_GitRef ctxt)) [] []] else []) @
          (if so_qualityGate opts then [CSonarGet gate] else []) \<and>
        (so_qualityGate opts \<longrightarrow> (\<exists>body g.
           sv_SonarGet sv (butlast (w_trace w')) gate = Inr (200, body) \<and>
           Unmarshal decGate None body = Inr (Some g) \<and> qg_Status g = ''OK'' \<and>
           contentAt (filepathJoin [filepathJoin [so_rootPath opts, SonarAnalysisPath],
             sonarArtifactPrefix opts @ ''quality-gate.json'']) w' = Some (Marshal (qualityGateJson g))))"
proof -
  let ?p = "ProjectKey ctxt (sonarArtifactPrefix opts)" and ?pr = "sonarPullRequestOf ctxt"
  let ?java = "if ?pr = None then [CExec ''java'' (reportParams cfg ?p ''OpenDevStack'' (oc_GitRef ctxt)) [] []] else []"
  from assms obtain out w1 u2 w2 u3 w3 where
    s: "sonar_Scan sv cfg ?p (oc_GitRef ctxt) (oc_GitCommitSHA ctxt) ?pr w = (Ok out, w1)"
    and t: "waitUntilComputeEngineTaskIsSuccessful sv cfg w1 = (Ok u2, w2)"
    and r: "(if ?pr = None then fatal (GenerateReports sv cfg ?p ''OpenDevStack'' (oc_GitRef ctxt) (so_rootPath opts)
               (sonarArtifactPrefix opts)) else ret ()) w2 = (Ok u3, w3)"
    and q: "(if so_qualityGate opts then checkQualityGate sv cfg opts ?p else ret ()) w3 = (Ok (), w')"
    unfolding sonarScan_def Let_def by (elim bindP_OkE) (simp only: wrapErr_Ok)
  from r have j: "w_trace w3 = w_trace w2 @ ?java"
    by (cases "?pr = None") (auto simp: prog_simps dest!: reports_trace)
  from wait_trace [OF t] obtain taskID n where p: "0 < n" "n \<le> 8"
    "taskVerdict (pollAnswer sv (taskURL cfg taskID) second (w_trace w1) (n - 1)) = Finished"
    "w_trace w2 = w_trace w1 @ pollCalls (taskURL cfg taskID) second n" by blast
  show ?thesis
  proof (cases "so_qualityGate opts")
    case True
    with q have "checkQualityGate sv cfg opts ?p w3 = (Ok (), w')" by simp
    from checkQualityGate_Ok [OF this] True show ?thesis
      unfolding Let_def taskURL_def [symmetric] gateURL_def [symmetric]
      by (intro exI [of _ taskID] exI [of _ n]) (use p j scan_trace [OF s] in \<open>auto simp: butlast_append\<close>)
  next
    case False
    with q p j scan_trace [OF s] show ?thesis
      unfolding Let_def taskURL_def [symmetric] gateURL_def [symmetric]
      by (intro exI [of _ taskID] exI [of _ n]) (auto simp: prog_simps)
  qed
qed

subsection \<open>Example: the task is in progress first, then succeeds, and the quality gate is passed\<close>

definition statusBody :: "string \<Rightarrow> string \<Rightarrow> string" where
  "statusBody member status = Marshal (JObj [(member, JObj [(''status'', JStr status)])])"

definition scannedTree :: node where
  "scannedTree = Dir
     [(''.scannerwork'', Dir [(''report-task.txt'', File (''projectKey=p'' @ [CHR 0x0A] @ ''ceTaskId=T1'' @ [CHR 0x0A]) 0)]),
      (''.ods'', Dir [(''artifacts'', Dir [(''sonarqube-analysis'', Dir [])])])]"

definition sonarExample :: sonarConfig where
  "sonarExample = sonar_NewClient \<lparr>sq_APIToken = ''t'', sq_BaseURL = ''https://s'', sq_ServerEdition = [], sq_Debug = False\<rparr>"

definition sonarServices :: services where
  "sonarServices = noServices\<lparr>
     sv_Exec := (\<lambda>h e a x d r. (r, [], [], None)),
     sv_SonarGet := (\<lambda>h u.
       if HasPrefix u ''https://s/api/ce/'' then Inr (200, statusBody ''task'' (if CSonarGet u \<in> set h then ''SUCCESS'' else ''IN_PROGRESS''))
       else Inr (200, statusBody ''projectStatus'' ''OK''))\<rparr>"

definition sonarContext :: ODSContext where
  "sonarContext = emptyContext\<lparr>oc_Project := ''p'', oc_Component := ''c'', oc_GitRef := ''fix'', oc_GitCommitSHA := ''abc'',
     oc_PullRequestKey := ''7'', oc_PullRequestBase := ''main''\<rparr>"

definition gateOptions :: sonarOptions where
  "gateOptions = (sonarDefaults ''/'' (\<lambda>v. []))\<lparr>so_qualityGate := True\<rparr>"

lemma example_verdicts:
  "taskVerdict (Inr (200, statusBody ''task'' ''SUCCESS'')) = Finished"
  "taskVerdict (Inr (200, statusBody ''task'' ''IN_PROGRESS'')) = Undecided"
  by code_simp+

definition exampleTaskURL :: string where "exampleTaskURL = ''https://s/api/ce/task?id=T1''"

lemma example_taskURL: "taskURL sonarExample ''T1'' = exampleTaskURL" "HasPrefix exampleTaskURL ''https://s/api/ce/''"
  by code_simp+

lemma example_poll:
  assumes "CSonarGet exampleTaskURL \<notin> set (w_trace w)"
  shows "pollTask sonarServices sonarExample ''T1'' 8 second w =
     (Ok (), w\<lparr>w_now := w_now w + second * 3, w_trace := w_trace w @ [CSleep second, CSonarGet exampleTaskURL,
        CSleep (second * 2), CSonarGet exampleTaskURL]\<rparr>)"
proof -
  have n: "(8::nat) = Suc (Suc 6)" by simp
  have get: "sv_SonarGet sonarServices h exampleTaskURL =
      Inr (200, statusBody ''task'' (if CSonarGet exampleTaskURL \<in> set h then ''SUCCESS'' else ''IN_PROGRESS''))" for h
    by (simp add: sonarServices_def example_taskURL)
  show ?thesis
    unfolding n pollTask_step example_taskURL get using assms by (simp add: example_verdicts)
qed

lemma osOpen_contentAt: "contentAt s w = Some c \<Longrightarrow> osOpen s w = (Ok (), w)"
  by (auto simp: contentAt_def osOpen_def osStat_def fs_get_def split: statRes.splits if_splits)

lemma example_taskID: "ExtractComputeEngineTaskID ReportTaskFile (emptyWorld\<lparr>w_root := scannedTree, w_trace := t\<rparr>) =
    (Ok ''T1'', emptyWorld\<lparr>w_root := scannedTree, w_trace := t\<rparr>)"
proof -
  have "contentAt ReportTaskFile (emptyWorld\<lparr>w_root := scannedTree\<rparr>) = Some (''projectKey=p'' @ [CHR 0x0A] @ ''ceTaskId=T1'' @ [CHR 0x0A])"
    by code_simp
  then have "contentAt ReportTaskFile (emptyWorld\<lparr>w_root := scannedTree, w_trace := t\<rparr>) =
      Some (''projectKey=p'' @ [CHR 0x0A] @ ''ceTaskId=T1'' @ [CHR 0x0A])"
    by (subst contentAt_adds [where w = "emptyWorld\<lparr>w_root := scannedTree\<rparr>" and cs = t]) (simp_all add: adds_def emptyWorld_def)
  moreover have "scanLines (''projectKey=p'' @ [CHR 0x0A] @ ''ceTaskId=T1'' @ [CHR 0x0A]) = [''projectKey=p'', ''ceTaskId=T1'']"
    by code_simp
  ultimately show ?thesis
    by (simp add: ExtractComputeEngineTaskID_def readFile_contentAt osOpen_contentAt TrimSpace_def isSpace_def HasPrefix_def
        TrimPrefix_def prog_simps)
qed

lemma wait_bounded_witness:
  "fst (waitUntilComputeEngineTaskIsSuccessful sonarServices sonarExample (emptyWorld\<lparr>w_root := scannedTree\<rparr>)) = Ok () \<and>
   w_now (snd (waitUntilComputeEngineTaskIsSuccessful sonarServices sonarExample (emptyWorld\<lparr>w_root := scannedTree\<rparr>))) \<le> 255 * second"
proof -
  let ?w = "emptyWorld\<lparr>w_root := scannedTree\<rparr>"
  obtain r w' where run: "waitUntilComputeEngineTaskIsSuccessful sonarServices sonarExample ?w = (r, w')"
    by (cases "waitUntilComputeEngineTaskIsSuccessful sonarServices sonarExample ?w")
  have e: "ExtractComputeEngineTaskID ReportTaskFile ?w = (Ok ''T1'', ?w)"
    using example_taskID [of "[]"] by (simp add: emptyWorld_def)
  from wait_for_background_task_bounded [OF this run] have "w_now w' \<le> w_now ?w + 255 * second"
    by (auto simp: Let_def)
  then have "w_now w' \<le> 255 * second" by (simp add: emptyWorld_def)
  moreover have "fst (waitUntilComputeEngineTaskIsSuccessful sonarServices sonarExample ?w) = Ok ()"
    using example_poll [of ?w] e by (simp add: waitUntilComputeEngineTaskIsSuccessful_def emptyWorld_def)
  ultimately show ?thesis using run by simp
qed

lemma example_gate:
  "sv_SonarGet sonarServices h (gateURL sonarExample ''p-c'') = Inr (200, statusBody ''projectStatus'' ''OK'')"
  "Unmarshal decGate None (statusBody ''projectStatus'' ''OK'') = Inr (Some (zeroGate\<lparr>qg_Status := ''OK''\<rparr>))"
proof -
  have "\<not> HasPrefix (gateURL sonarExample ''p-c'') ''https://s/api/ce/''" by code_simp
  then show "sv_SonarGet sonarServices h (gateURL sonarExample ''p-c'') = Inr (200, statusBody ''projectStatus'' ''OK'')"
    by (simp add: sonarServices_def)
  show "Unmarshal decGate None (statusBody ''projectStatus'' ''OK'') = Inr (Some (zeroGate\<lparr>qg_Status := ''OK''\<rparr>))"
    by code_simp
qed

lemma sonarScan_witness:
  "\<exists>w' g. sonarScan sonarServices sonarExample gateOptions sonarContext (emptyWorld\<lparr>w_root := scannedTree\<rparr>) = (Ok (), w') \<and>
     qg_Status g = ''OK'' \<and>
     contentAt ''/.ods/artifacts/sonarqube-analysis/quality-gate.json'' w' = Some (Marshal (qualityGateJson g))"
proof -
  let ?m = "sonarScan sonarServices sonarExample gateOptions sonarContext (emptyWorld\<lparr>w_root := scannedTree\<rparr>)"
  let ?pr = "\<lparr>sp_Key = ''7'', sp_Branch = ''fix'', sp_Base = ''main''\<rparr>"
  define scan where "scan = CExec ''sonar-scanner'' (scannerParams sonarExample ''p-c'' ''fix'' ''abc'' (Some ?pr)) [] []"
  define w1 where "w1 = emptyWorld\<lparr>w_root := scannedTree, w_trace := [scan]\<rparr>"
  define w2 where "w2 = emptyWorld\<lparr>w_root := scannedTree, w_now := second * 3, w_trace := [scan, CSleep second,
        CSonarGet exampleTaskURL, CSleep (second * 2), CSonarGet exampleTaskURL]\<rparr>"
  define w4 where "w4 = w2\<lparr>w_trace := w_trace w2 @ [CSonarGet (gateURL sonarExample ''p-c'')]\<rparr>"
  let ?g = "zeroGate\<lparr>qg_Status := ''OK''\<rparr>"
  have names: "sonarPullRequestOf sonarContext = Some ?pr" "sonarArtifactPrefix gateOptions = []" "ProjectKey sonarContext [] = ''p-c''"
    "oc_GitRef sonarContext = ''fix''" "oc_GitCommitSHA sonarContext = ''abc''"
    by code_simp+
  have s: "sonar_Scan sonarServices sonarExample ''p-c'' ''fix'' ''abc'' (Some ?pr) (emptyWorld\<lparr>w_root := scannedTree\<rparr>) = (Ok [], w1)"
    by (simp add: sonar_Scan_def command_Run_def runCommand_def bindP_def sonarServices_def prog_simps
        w1_def scan_def emptyWorld_def)
  have t: "waitUntilComputeEngineTaskIsSuccessful sonarServices sonarExample w1 = (Ok (), w2)"
    using example_poll [of w1] example_taskID [of "[scan]"]
    by (simp add: waitUntilComputeEngineTaskIsSuccessful_def w1_def w2_def scan_def emptyWorld_def)
  have gate: "QualityGateGet sonarServices sonarExample ''p-c'' w2 = (Ok (Some ?g), w4)"
    by (simp add: gate_run w4_def example_gate)
  have "fst (WriteJsonArtifact (qualityGateJson ?g) (filepathJoin [so_rootPath gateOptions, SonarAnalysisPath]) ''quality-gate.json'' w4) = Ok ()"
    unfolding w4_def w2_def scan_def by code_simp
  then obtain w5 where "WriteJsonArtifact (qualityGateJson ?g) (filepathJoin [so_rootPath gateOptions, SonarAnalysisPath])
      ''quality-gate.json'' w4 = (Ok (), w5)"
    by (metis prod.collapse)
  with gate have check: "checkQualityGate sonarServices sonarExample gateOptions ''p-c'' w2 = (Ok (), w5)"
    by (simp add: checkQualityGate_def names QualityGateStatusOk_def prog_simps)
  have "so_qualityGate gateOptions" by (simp add: gateOptions_def)
  with s t check have "fst ?m = Ok ()" by (simp add: sonarScan_def names Let_def)
  then have run: "?m = (Ok (), snd ?m)" by (metis prod.collapse)
  have "so_qualityGate gateOptions" by (simp add: gateOptions_def)
  with sonarScan_requires_quality_gate [OF run] obtain g where "qg_Status g = ''OK''"
    "contentAt (filepathJoin [filepathJoin [so_rootPath gateOptions, SonarAnalysisPath],
       sonarArtifactPrefix gateOptions @ ''quality-gate.json'']) (snd ?m) = Some (Marshal (qualityGateJson g))"
    unfolding Let_def by blast
  moreover have "filepathJoin [filepathJoin [so_rootPath gateOptions, SonarAnalysisPath],
       sonarArtifactPrefix gateOptions @ ''quality-gate.json''] = ''/.ods/artifacts/sonarqube-analysis/quality-gate.json''"
    by code_simp
  ultimately show ?thesis using run by metis
qed

end
