(* ===== verification/TestRepos.thy ===== *)
theory TestRepos
  imports Directory ArtifactDownload TestDoubles HttpClients
begin

text \<open>
  Repositories and files for tests: \<open>internal/gittest\<close>, \<open>internal/random\<close>, \<open>internal/testfile\<close>, and of \<open>pkg/tasktesting\<close> the
  files \<open>git.go\<close>, \<open>bitbucket.go\<close>, \<open>nexus.go\<close> and \<open>check.go\<close>.  \<open>t.Fatal\<close> ends the test, but not
  the process: it is the outcome \<open>Err\<close> with its message, which no caller looks at.
\<close>

section \<open>Random names (internal/random)\<close>

text \<open>\<open>intn i\<close> is the result of the \<open>i\<close>-th call of \<open>rand.Intn\<close>, below its argument.\<close>

definition pick :: "string \<Rightarrow> nat \<Rightarrow> char" where
  "pick chars i = chars ! (i mod length chars)"

definition PseudoString :: "(nat \<Rightarrow> nat) \<Rightarrow> string" where
  "PseudoString intn = map (\<lambda>i. pick ''abcdefghijklmnopqrstuvwxyz'' (intn i)) [0..<8]"

definition PseudoSHA :: "(nat \<Rightarrow> nat) \<Rightarrow> string" where
  "PseudoSHA intn = map (\<lambda>i. pick ''0123456789abcdefghijklmnopqrstuvwxyz'' (intn i)) [0..<40]"

section \<open>A fake repository (internal/gittest)\<close>

definition gitConfigText :: "string \<Rightarrow> string" where
  "gitConfigText url =
     ''[remote '' @ [CHR 0x22] @ ''origin'' @ [CHR 0x22] @ '']'' @ [CHR 0x0A, CHR 0x09] @ ''url = '' @ url @
     [CHR 0x0A, CHR 0x09] @ ''fetch = +refs/heads/*:refs/remotes/origin/*''"

definition CreateFakeGitRepoDir :: "(nat \<Rightarrow> string) \<Rightarrow> string \<Rightarrow> string \<Rightarrow> string \<Rightarrow> string prog_w" where
  "CreateFakeGitRepoDir rnd url branch sha =
     bindP (ioutilTempDir rnd ''.'' ''test-git-repo-'') (\<lambda>dir.
     let gitDir = filepathJoin [dir, ''.git'']
     in bindP (osMkdirAll gitDir) (\<lambda>_.
        bindP (writeFile (filepathJoin [gitDir, ''HEAD'']) (''ref: refs/heads/'' @ branch)) (\<lambda>_.
        bindP (writeFile (filepathJoin [gitDir, ''config'']) (gitConfigText url)) (\<lambda>_.
        let gitHeadsDir = filepathJoin [gitDir, ''refs/heads'']
        in bindP (osMkdirAll gitHeadsDir) (\<lambda>_.
           bindP (writeFile (filepathJoin [gitHeadsDir, branch]) sha) (\<lambda>_.
           ret dir))))))"

text \<open>The function to defer.\<close>

definition fakeGitCleanup :: "string \<Rightarrow> unit prog_w" where
  "fakeGitCleanup dir = bindP (attempt (osRemoveAll dir)) (\<lambda>_. ret ())"

section \<open>Repositories of task tests (git.go)\<close>

definition fakeContext :: "(nat \<Rightarrow> nat) \<Rightarrow> string \<Rightarrow> ODSContext" where
  "fakeContext intn ns = emptyContext\<lparr>oc_Namespace := ns, oc_Project := ''myproject'', oc_Repository := ''myrepo'',
     oc_Component := ''myrepo'', oc_GitCommitSHA := PseudoSHA intn, oc_GitFullRef := ''refs/heads/master'',
     oc_GitRef := ''master'', oc_GitURL := ''http://bitbucket.acme.org/scm/myproject/myrepo.git'',
     oc_Environment := ''dev'', oc_Version := WIP\<rparr>"

definition SetupFakeRepo :: "(ctxtField list \<Rightarrow> ctxtField list) \<Rightarrow> (nat \<Rightarrow> nat) \<Rightarrow> string \<Rightarrow> string \<Rightarrow> ODSContext prog_w" where
  "SetupFakeRepo ord intn ns wsDir =
     (let ctxt = fakeContext intn ns
      in bindP (wrapErr (''could not write '' @ BaseDir @ '': '') (WriteCache ord ctxt wsDir)) (\<lambda>_. ret ctxt))"

definition assembleAndCacheOdsCtxtOrFatal ::
  "(ctxtField list \<Rightarrow> ctxtField list) \<Rightarrow> ODSContext \<Rightarrow> string \<Rightarrow> ODSContext prog_w" where
  "assembleAndCacheOdsCtxtOrFatal ord ctxt wsDir =
     bindP (wrapErr ''could not assemble ODS context information: '' (Assemble ctxt wsDir)) (\<lambda>ctxt'.
     bindP (wrapErr (''could not write '' @ BaseDir @ '': '') (WriteCache ord ctxt' wsDir)) (\<lambda>_. ret ctxt'))"

text \<open>A run of \<open>git\<close> in the workspace that must succeed; the messages differ in their beginning and in what they show.\<close>

definition gitOrFatal :: "services \<Rightarrow> string \<Rightarrow> string list \<Rightarrow> string \<Rightarrow> unit prog_w" where
  "gitOrFatal sv msg args wsDir =
     bindP (command_RunInDir sv ''git'' args wsDir) (\<lambda>(stdout, stderr, err). case err of
         None \<Rightarrow> ret ()
       | Some e \<Rightarrow> failE (msg @ '': '' @ e @ '', stdout: '' @ stdout @ '', stderr: '' @ stderr))"

definition gitPushOrFatal :: "services \<Rightarrow> string \<Rightarrow> string list \<Rightarrow> string \<Rightarrow> unit prog_w" where
  "gitPushOrFatal sv msg args wsDir =
     bindP (command_RunInDir sv ''git'' args wsDir) (\<lambda>(stdout, stderr, err). case err of
         None \<Rightarrow> ret ()
       | Some e \<Rightarrow> failE (msg @ '': '' @ e @ '', stderr: '' @ stderr))"

text \<open>The base directory is looked for, and made, in the working directory, not in \<open>wsDir\<close>.\<close>

definition initAndCommitOrFatal :: "services \<Rightarrow> string \<Rightarrow> unit prog_w" where
  "initAndCommitOrFatal sv wsDir =
     bindP (gets (osStat BaseDir)) (\<lambda>r.
     bindP (if IsNotExist r then wrapErr (''could not create '' @ BaseDir @ '': '') (osMkdir BaseDir) else ret ()) (\<lambda>_.
     bindP (wrapErr ''could not write .gitignore: '' (WriteGitIgnore (filepathJoin [wsDir, ''.gitignore'']))) (\<lambda>_.
     bindP (gitOrFatal sv ''error running git init'' [''init''] wsDir) (\<lambda>_.
     bindP (gitOrFatal sv ''error running git config.user.email'' [''config'', ''user.email'', ''testing@opendevstack.org''] wsDir) (\<lambda>_.
     bindP (gitOrFatal sv ''error running git config.user.name'' [''config'', ''user.name'', ''testing''] wsDir) (\<lambda>_.
     bindP (gitOrFatal sv ''error running git add'' [''add'', ''.''] wsDir) (\<lambda>_.
     gitOrFatal sv ''error running git commit'' [''commit'', ''-m'', ''initial commit''] wsDir)))))))"

definition BitbucketProjectKey :: string where "BitbucketProjectKey = ''ODSPIPELINETEST''"
definition BitbucketKinDHost :: string where "BitbucketKinDHost = ''ods-test-bitbucket-server.kind''"
definition NexusKinDHost :: string where "NexusKinDHost = ''ods-test-nexus.kind''"
definition bbURL :: string where "bbURL = ''http://localhost:7990''"

definition scmURL :: "string \<Rightarrow> string \<Rightarrow> string" where
  "scmURL key slug = bbURL @ ''/scm/'' @ key @ ''/'' @ slug @ ''.git''"

definition SetupGitRepo ::
  "services \<Rightarrow> (ctxtField list \<Rightarrow> ctxtField list) \<Rightarrow> string \<Rightarrow> string \<Rightarrow> ODSContext prog_w" where
  "SetupGitRepo sv ord ns wsDir =
     bindP (initAndCommitOrFatal sv wsDir) (\<lambda>_.
     let ctxt = emptyContext\<lparr>oc_Namespace := ns, oc_GitURL := scmURL BitbucketProjectKey (Base wsDir),
                  oc_Environment := ''dev'', oc_Version := WIP\<rparr>
     in assembleAndCacheOdsCtxtOrFatal ord ctxt wsDir)"

definition tasktesting_RemoveAll :: "string list \<Rightarrow> unit prog_w" where
  "tasktesting_RemoveAll path = wrapErr (''could not remove '' @ filepathJoin path @ '', '') (osRemoveAll (filepathJoin path))"

definition PushFileToBitbucketOrFatal :: "services \<Rightarrow> string \<Rightarrow> string \<Rightarrow> string \<Rightarrow> unit prog_w" where
  "PushFileToBitbucketOrFatal sv wsDir branch filename =
     bindP (gitOrFatal sv (''failed to add file='' @ filename) [''add'', filename] wsDir) (\<lambda>_.
     bindP (gitOrFatal sv ''error running git commit'' [''commit'', ''-m'', ''update '' @ filename] wsDir) (\<lambda>_.
     gitOrFatal sv ''failed to push to remote'' [''push'', ''origin'', branch] wsDir))"

definition BitbucketClientOrFatal :: "services \<Rightarrow> string \<Rightarrow> bitbucketConfig prog_w" where
  "BitbucketClientOrFatal sv namespace =
     bindP (wrapErr ''could not create Bitbucket client config: '' (NewBitbucketClientConfig sv namespace)) (\<lambda>bcc.
     ret (bcc\<lparr>bc_BaseURL := Replace 1 (bc_BaseURL bcc) BitbucketKinDHost ''localhost''\<rparr>))"

definition NexusClientOrFatal :: "services \<Rightarrow> string \<Rightarrow> nexusConfig prog_w" where
  "NexusClientOrFatal sv namespace =
     bindP (wrapErr ''could not create Nexus client config: '' (NewNexusClientConfig sv namespace)) (\<lambda>ncc.
     let ncc' = ncc\<lparr>nx_BaseURL := Replace 1 (nx_BaseURL ncc) NexusKinDHost ''localhost''\<rparr>
     in bindP (wrapErr ''could not create nexus client: '' (liftE (sv_NexusNew sv (nx_BaseURL ncc') (nx_Username ncc') (nx_Password ncc')))) (\<lambda>_. ret ncc'))"

text \<open>\<open>kubernetes.GetSecretKey\<close> on the services of the world.\<close>

definition secretKeyOf :: "services \<Rightarrow> string \<Rightarrow> string \<Rightarrow> string \<Rightarrow> string prog_w" where
  "secretKeyOf sv ns name key =
     bindP (getSecretOf sv ns name) (\<lambda>d. case map_of d key of
         Some v \<Rightarrow> ret v
       | None \<Rightarrow> failE (''key '' @ key @ '' not found''))"

text \<open>The request creating the repository goes through the transport; it is not in the trace.\<close>

definition pushToBitbucketOrFatal ::
  "services \<Rightarrow> transport \<Rightarrow> string \<Rightarrow> string \<Rightarrow> string \<Rightarrow> string prog_w" where
  "pushToBitbucketOrFatal sv tr ns wsDir projectKey =
     bindP (wrapErr ''could not get Bitbucket token: '' (secretKeyOf sv ns ''ods-bitbucket-auth'' ''password'')) (\<lambda>bbToken.
     bindP (BitbucketClientOrFatal sv ns) (\<lambda>bcc.
     bindP (gets w_trace) (\<lambda>h.
     bindP (wrapErr ''could not create Bitbucket repository: '' (liftE (RepoCreate tr bcc h projectKey
         \<lparr>rq_SCMID = ''git'', rq_Name = Base wsDir, rq_Forkable = True, rq_DefaultBranch = ''master''\<rparr>))) (\<lambda>repo.
     let originURL = scmURL projectKey (rp_Slug repo);
         originURLWithCredentials = ReplaceAll originURL ''http://'' (''http://'' @ ''admin'' @ '':'' @ bbToken @ ''@'')
     in bindP (gitPushOrFatal sv (''failed to add remote origin='' @ originURL) [''remote'', ''add'', ''origin'', originURLWithCredentials] wsDir) (\<lambda>_.
        bindP (gitPushOrFatal sv ''failed to push to remote'' [''push'', ''-u'', ''origin'', ''master''] wsDir) (\<lambda>_.
        ret (ReplaceAll originURL ''http://localhost'' ''http://ods-test-bitbucket-server.kind'')))))))"

definition SetupBitbucketRepo ::
  "services \<Rightarrow> transport \<Rightarrow> (ctxtField list \<Rightarrow> ctxtField list) \<Rightarrow> string \<Rightarrow> string \<Rightarrow> string \<Rightarrow> ODSContext prog_w" where
  "SetupBitbucketRepo sv tr ord ns wsDir projectKey =
     bindP (initAndCommitOrFatal sv wsDir) (\<lambda>_.
     bindP (pushToBitbucketOrFatal sv tr ns wsDir projectKey) (\<lambda>originURL.
     let ctxt = emptyContext\<lparr>oc_Namespace := ns, oc_Project := projectKey, oc_GitURL := originURL,
                  oc_Environment := ''dev'', oc_Version := WIP\<rparr>
     in assembleAndCacheOdsCtxtOrFatal ord ctxt wsDir))"

text \<open>The random content of the file and the digest function are parameters.\<close>

definition createJpgRandomFileOrFatal :: "(nat \<Rightarrow> string + string) \<Rightarrow> (string \<Rightarrow> string) \<Rightarrow> string \<Rightarrow> string \<Rightarrow> string prog_w" where
  "createJpgRandomFileOrFatal randRead sum256 wsDir filename =
     bindP (wrapErr ''error creating random JPG file: '' (liftE (randRead 1000000))) (\<lambda>fileContent.
     bindP (wrapErr (''could not write file='' @ filename @ '': '') (writeFile (filepathJoin [wsDir, filename]) fileContent)) (\<lambda>_.
     ret (sum256 fileContent)))"

definition trackLfsJpgFileToBitbucketOrFatal :: "services \<Rightarrow> string \<Rightarrow> string \<Rightarrow> unit prog_w" where
  "trackLfsJpgFileToBitbucketOrFatal sv wsDir filename =
     bindP (gitOrFatal sv (''failed to track '' @ filename @ '' as LFS file'') [''lfs'', ''track'', ''*.jpg''] wsDir) (\<lambda>_.
     bindP (gitOrFatal sv ''error running git add'' [''add'', ''.gitattributes'', filename] wsDir) (\<lambda>_.
     bindP (gitOrFatal sv ''error running git commit'' [''commit'', ''-m'', ''track as LFS file '' @ filename] wsDir) (\<lambda>_.
     gitOrFatal sv ''failed to push to remote'' [''push'', ''origin'', ''master''] wsDir)))"

definition UpdateBitbucketRepoWithLfsOrFatal ::
  "services \<Rightarrow> (ctxtField list \<Rightarrow> ctxtField list) \<Rightarrow> (nat \<Rightarrow> string + string) \<Rightarrow> (string \<Rightarrow> string) \<Rightarrow> ODSContext \<Rightarrow>
   string \<Rightarrow> string \<Rightarrow> (string \<times> ODSContext) prog_w" where
  "UpdateBitbucketRepoWithLfsOrFatal sv ord randRead sum256 ctxt wsDir filename =
     bindP (createJpgRandomFileOrFatal randRead sum256 wsDir filename) (\<lambda>fileHash.
     bindP (trackLfsJpgFileToBitbucketOrFatal sv wsDir filename) (\<lambda>_.
     bindP (assembleAndCacheOdsCtxtOrFatal ord (ctxt\<lparr>oc_GitCommitSHA := []\<rparr>) wsDir) (\<lambda>ctxt'.
     ret (fileHash, ctxt'))))"

section \<open>Large file storage (git.go)\<close>

text \<open>
  The requests are made with one HTTP client, whose cookies are part of what the answers depend
  on: the requests made so far.  A parsed page is a tree of elements.
\<close>

datatype htmlNode = Element string "(string \<times> string) list" "htmlNode list" | OtherNode "htmlNode list"

definition getAttribute :: "(string \<times> string) list \<Rightarrow> string \<Rightarrow> string \<times> bool" where
  "getAttribute attrs key = (case map_of attrs key of Some v \<Rightarrow> (v, True) | None \<Rightarrow> ([], False))"

fun finder :: "htmlNode \<Rightarrow> string \<times> bool" and finders :: "htmlNode list \<Rightarrow> string \<times> bool" where
  "finder (Element d attrs cs) =
     (if d = ''input'' \<and> getAttribute attrs ''name'' = (''atl_token'', True) then getAttribute attrs ''value'' else finders cs)"
| "finder (OtherNode cs) = finders cs"
| "finders [] = ([], False)"
| "finders (c # cs) = (case finder c of (val, ok) \<Rightarrow> if ok then (val, ok) else finders cs)"

definition getAtlassianToken :: "(string \<Rightarrow> string + htmlNode) \<Rightarrow> string \<Rightarrow> string + string" where
  "getAtlassianToken htmlParse b = (case htmlParse b of
       Inl e \<Rightarrow> Inl e
     | Inr doc \<Rightarrow> (case finder doc of (val, ok) \<Rightarrow> if ok then Inr val else Inl ''atl_token not found''))"

type_synonym httpClientDo = "clientRequest list \<Rightarrow> clientRequest \<Rightarrow> string + int \<times> string"

definition httpDo :: "httpClientDo \<Rightarrow> clientRequest \<Rightarrow> (clientRequest list, int \<times> string) prog" where
  "httpDo do1 req h = ((case do1 h req of Inl e \<Rightarrow> Err e | Inr x \<Rightarrow> Ok x), h @ [req])"

definition formRequest :: "string \<Rightarrow> string \<Rightarrow> clientRequest" where
  "formRequest u body = \<lparr>cr_Method = ''POST'', cr_URL = u,
     cr_Header = [(''Content-Type'', ''application/x-www-form-urlencoded'')], cr_Body = Some body\<rparr>"

definition loginRequest :: clientRequest where
  "loginRequest = formRequest ''http://localhost:7990/j_atl_security_check''
     ''j_username=admin&j_password=admin&_atl_remember_me=on&submit=Login''"

definition settingsUrl :: "string \<Rightarrow> string \<Rightarrow> string" where
  "settingsUrl repo projectKey = ''http://localhost:7990/projects/'' @ projectKey @ ''/repos/'' @ repo @ ''/settings''"

definition settingsForm :: "string \<Rightarrow> string \<Rightarrow> string \<Rightarrow> clientRequest" where
  "settingsForm repo projectKey atlToken = formRequest (settingsUrl repo projectKey)
     (''name='' @ repo @ ''&description=&defaultBranchId=refs/heads/master&forkable=on&lfsRepoEnabled=on&submit=Save&atl_token='' @ atlToken)"

definition EnableLfsOnBitbucketRepoOrFatal ::
  "httpClientDo \<Rightarrow> (string \<Rightarrow> string + htmlNode) \<Rightarrow> string \<Rightarrow> string \<Rightarrow> (clientRequest list, unit) prog" where
  "EnableLfsOnBitbucketRepoOrFatal do1 htmlParse repo projectKey =
     bindP (wrapErr ''failed to run login request with cookie jar, err: '' (httpDo do1 loginRequest)) (\<lambda>(status, body).
     if status \<noteq> 302 then failE (''failed to login with cookie jar, status code was: '' @ Itoa status)
     else
       bindP (wrapErr ''failed to request settings page with cookie jar, err: '' (liftE (urlParse (settingsUrl repo projectKey)))) (\<lambda>_.
       bindP (wrapErr ''failed to request settings page with cookie jar, err: '' (httpDo do1 \<lparr>cr_Method = ''GET'', cr_URL = settingsUrl repo projectKey, cr_Header = [], cr_Body = None\<rparr>)) (\<lambda>(status', page).
       bindP (wrapErr ''failed to get atl_token attribute, err: '' (liftE (getAtlassianToken htmlParse page))) (\<lambda>atlToken.
       bindP (wrapErr ''failed to run enable LFS request with cookie jar, err: '' (httpDo do1 (settingsForm repo projectKey atlToken))) (\<lambda>(status'', body').
       if status'' \<noteq> 302 then failE (''failed to enable LFS with cookie jar, status code was: '' @ Itoa status'') else ret ())))))"

section \<open>Files with test data (internal/testfile)\<close>

definition ReadFileOrFatal :: "string \<Rightarrow> string prog_w" where
  "ReadFileOrFatal filename = readFile filename"

definition ReadFixture :: "string \<Rightarrow> string \<Rightarrow> string prog_w" where
  "ReadFixture projectRoot filename = ReadFileOrFatal (filepathJoin [projectRoot, ''test/testdata/fixtures'', filename])"

definition ReadGolden :: "string \<Rightarrow> string \<Rightarrow> string prog_w" where
  "ReadGolden projectRoot filename = ReadFileOrFatal (filepathJoin [projectRoot, ''test/testdata/golden'', filename])"

section \<open>Safeguards (check.go)\<close>

definition CheckCluster :: "services \<Rightarrow> bool \<Rightarrow> unit prog_w" where
  "CheckCluster sv outsideKindAllowed =
     (if outsideKindAllowed then ret ()
      else bindP (command_Run sv ''kubectl'' [''config'', ''current-context'']) (\<lambda>(stdout, stderr, err).
           case err of
             Some e \<Rightarrow> failE (''could not check current Kube context: '' @ stderr @ '', err: '' @ e)
           | None \<Rightarrow> if TrimSpace stdout \<noteq> ''kind-kind''
               then failE (''Not running tests outside KinD cluster ('' @ [CHR 0x27] @ ''kind-kind'' @ [CHR 0x27] @
                        '') without -outside-kind! Current context: '' @ TrimSpace stdout) else ret ()))"

definition serviceName :: "string \<Rightarrow> string" where
  "serviceName port = lookupS [(''7990'', ''Bitbucket''), (''8081'', ''Nexus''), (''9000'', ''SonarQube'')] port"

definition CheckServices :: "services \<Rightarrow> string list \<Rightarrow> unit prog_w" where
  "CheckServices sv requiredServices =
     forEach requiredServices (\<lambda>port.
       let u = ''http://localhost:'' @ port
       in bindP (wrapErr (serviceName port @ '' needs to run for this test to be executable, but it could not be reached: '')
            (perform (CHttpGet u) (\<lambda>h. sv_HttpGet sv h u))) (\<lambda>_. ret ()))"

section \<open>Facts\<close>

lemma PseudoString_name: "length (PseudoString intn) = 8 \<and> set (PseudoString intn) \<subseteq> set ''abcdefghijklmnopqrstuvwxyz''"
proof -
  have "pick ''abcdefghijklmnopqrstuvwxyz'' i \<in> set ''abcdefghijklmnopqrstuvwxyz''" for i
    unfolding pick_def by (rule nth_mem) simp
  then show ?thesis by (auto simp: PseudoString_def simp del: list.set)
qed

lemma PseudoSHA_length: "length (PseudoSHA intn) = 40"
  by (simp add: PseudoSHA_def)

text \<open>The first input element named \<open>atl_token\<close>, in the order of the document, that has a value.\<close>

fun inputsOf :: "htmlNode \<Rightarrow> (string \<times> string) list list" where
  "inputsOf (Element d attrs cs) = (if d = ''input'' then [attrs] else []) @ concat (map inputsOf cs)"
| "inputsOf (OtherNode cs) = concat (map inputsOf cs)"

fun leafInputs :: "htmlNode \<Rightarrow> bool" where
  "leafInputs (Element d attrs cs) = ((d = ''input'' \<longrightarrow> cs = []) \<and> (\<forall>c\<in>set cs. leafInputs c))"
| "leafInputs (OtherNode cs) = (\<forall>c\<in>set cs. leafInputs c)"

definition tokenOf :: "(string \<times> string) list \<Rightarrow> string option" where
  "tokenOf attrs = (if map_of attrs ''name'' = Some ''atl_token'' then map_of attrs ''value'' else None)"

definition firstToken :: "(string \<times> string) list list \<Rightarrow> string \<times> bool" where
  "firstToken as = (case List.map_filter tokenOf as of [] \<Rightarrow> ([], False) | v # vs \<Rightarrow> (v, True))"

lemma firstToken_append: "firstToken (xs @ ys) = (case firstToken xs of (v, ok) \<Rightarrow> if ok then (v, ok) else firstToken ys)"
  by (induction xs) (auto simp: firstToken_def map_filter_simps split: option.split list.split)

lemma finder_first:
  "leafInputs n \<Longrightarrow> finder n = firstToken (inputsOf n)"
  "\<forall>c\<in>set cs. leafInputs c \<Longrightarrow> finders cs = firstToken (concat (map inputsOf cs))"
proof (induction n and cs rule: finder_finders.induct)
  case (1 d attrs cs)
  then show ?case
    by (auto simp: getAttribute_def firstToken_def tokenOf_def map_filter_simps split: option.splits)
next
  case (4 c cs)
  then show ?case by (cases "firstToken (inputsOf c)"; cases "snd (firstToken (inputsOf c))") (simp_all add: firstToken_append)
qed (simp_all add: firstToken_def map_filter_simps)

text \<open>Large file storage is enabled by three requests, the last with the token found on the page.\<close>

lemma EnableLfs_Ok:
  assumes "EnableLfsOnBitbucketRepoOrFatal do1 htmlParse repo projectKey h = (Ok (), h')"
  shows "\<exists>page tok getReq st b b'. h' = h @ [loginRequest, getReq, settingsForm repo projectKey tok] \<and>
     cr_Method getReq = ''GET'' \<and> cr_URL getReq = settingsUrl repo projectKey \<and>
     do1 h loginRequest = Inr (302, b) \<and> do1 (h @ [loginRequest]) getReq = Inr (st, page) \<and>
     getAtlassianToken htmlParse page = Inr tok \<and>
     do1 (h @ [loginRequest, getReq]) (settingsForm repo projectKey tok) = Inr (302, b')"
  using assms unfolding EnableLfsOnBitbucketRepoOrFatal_def
  by (auto elim!: bindP_OkE simp: httpDo_def liftE_def wrapErr_def ret_def failE_def split: sum.splits if_splits)

text \<open>No test runs outside the test cluster unless it is allowed to.\<close>

lemma CheckCluster_Ok:
  assumes "CheckCluster sv outside w = (Ok (), w')" "\<not> outside"
  shows "\<exists>r out err. sv_Exec sv (w_trace w) ''kubectl'' [''config'', ''current-context''] [] [] (w_root w) = (r, out, err, None) \<and>
     TrimSpace out = ''kind-kind''"
  using assms by (auto simp: CheckCluster_def command_Run_def runCommand_def bindP_def failE_def ret_def
      split: prod.splits option.splits if_splits)

section \<open>Facts: a fake repository is read back\<close>

lemma fs_mkdirs_file: "fs_mkdirs p n = Some n' \<Longrightarrow> fs_get q n = Some (File c t) \<Longrightarrow> fs_get q n' = Some (File c t)"
proof (induction p arbitrary: n n' q)
  case Nil
  then show ?case by (cases n) simp_all
next
  case (Cons a p)
  from Cons.prems(1) obtain es m where n: "n = Dir es" and m: "fs_mkdirs p (case map_of es a of None \<Rightarrow> Dir [] | Some m \<Rightarrow> m) = Some m"
    and n': "n' = Dir (AList.update a m es)" by (cases n) auto
  from Cons.prems(2) n obtain b q' where q: "q = b # q'" by (cases q) auto
  show ?case
  proof (cases "b = a")
    case False
    with Cons.prems(2) n n' q show ?thesis by (simp add: update_conv')
  next
    case True
    with Cons.prems(2) n q obtain x where x: "map_of es a = Some x" "fs_get q' x = Some (File c t)" by (auto split: option.splits)
    with Cons.IH [of x m q'] m have "fs_get q' m = Some (File c t)" by simp
    with n' q True show ?thesis by (simp add: update_conv')
  qed
qed

lemma osMkdirAll_OkD:
  assumes "osMkdirAll s w = (Ok (), w')"
  shows "only_files w w'" "contentAt g w = Some c \<Longrightarrow> contentAt g w' = Some c"
proof -
  from assms obtain r where r: "fs_mkdirs (resolve w s) (w_root w) = Some r" "w' = w\<lparr>w_root := r\<rparr>"
    by (auto simp: osMkdirAll_def split: if_splits option.splits)
  then show "only_files w w'" by (auto simp: only_files_def)
  show "contentAt g w' = Some c" if "contentAt g w = Some c"
  proof -
    from that obtain t where "fs_get (resolve w g) (w_root w) = Some (File c t)" "\<not> w_faulty w (resolve w g)"
      by (auto simp: contentAt_def split: if_splits option.splits node.splits)
    with fs_mkdirs_file [OF r(1)] r(2) show ?thesis by (simp add: contentAt_def)
  qed
qed

lemma writeFile_only_files: "writeFile s c w = (Ok (), w') \<Longrightarrow> only_files w w'"
  using writeFile_OkD(2) [of s c w w'] by (auto simp: only_files_def)

lemma only_files_resolve: "only_files w w' \<Longrightarrow> resolve w' s = resolve w s"
  by (auto simp: only_files_def)

lemma contentAt_same_path: "resolve w s = resolve w t \<Longrightarrow> contentAt s w = contentAt t w"
  by (simp add: contentAt_def)

lemma resolve_Join3:
  assumes "a \<noteq> []" "b \<noteq> []"
  shows "resolve w (filepathJoin [a, b, c]) = stepInto (stepInto (resolve w a) b) c"
  using assms resolve_append [of a w b] resolve_append [of "a @ ''/'' @ b" w c] by (simp add: filepathJoin_def resolve_Clean)

lemma tempDirLoop_name: "tempDirLoop rnd pre suf i w = (Ok d, w') \<Longrightarrow> (\<exists>i. d = pre @ rnd i @ suf) \<and> only_files w w'"
proof (induction "10000 - i" arbitrary: i rule: less_induct)
  case less
  have step: "tempDirLoop rnd pre suf i w = (if StatSucceeds (osStat (pre @ rnd i @ suf) w)
      then (if i + 1 < 10000 then tempDirLoop rnd pre suf (i + 1) w
            else (Err (''mkdirtemp '' @ pre @ ''*'' @ suf @ '': file already exists''), w))
      else bindP (osMkdir (pre @ rnd i @ suf)) (\<lambda>_. ret (pre @ rnd i @ suf)) w)"
    by (subst tempDirLoop.simps) (simp add: Let_def gets_def bindP_def failE_def)
  show ?case
  proof (cases "StatSucceeds (osStat (pre @ rnd i @ suf) w)")
    case True
    with less(2) step have "i + 1 < 10000" "tempDirLoop rnd pre suf (i + 1) w = (Ok d, w')" by (auto split: if_splits)
    with less(1) [of "i + 1"] show ?thesis by simp
  next
    case False
    with less(2) step show ?thesis
      by (auto simp: bindP_def ret_def osMkdir_def only_files_def split: statRes.splits option.splits)
  qed
qed

text \<open>The files of the fake repository once it is there.\<close>

lemma CreateFakeGitRepoDir_files:
  assumes run: "CreateFakeGitRepoDir rnd url branch sha w = (Ok dir, w')" and branch: "legalName branch"
  shows "dir \<noteq> []" "contentAt (filepathJoin [dir, ''.git/HEAD'']) w' = Some (''ref: refs/heads/'' @ branch)"
    "contentAt (filepathJoin [dir, ''.git/config'']) w' = Some (gitConfigText url)"
    "contentAt (filepathJoin [dir, ''.git'', ''refs/heads/'' @ branch]) w' = Some sha"
proof -
  let ?g = "filepathJoin [dir, ''.git'']" let ?h = "filepathJoin [?g, ''refs/heads'']"
  let ?head = "filepathJoin [?g, ''HEAD'']" let ?conf = "filepathJoin [?g, ''config'']" let ?br = "filepathJoin [?h, branch]"
  from run obtain w1 w2 w3 w4 w5 where
    1: "ioutilTempDir rnd ''.'' ''test-git-repo-'' w = (Ok dir, w1)" and 2: "osMkdirAll ?g w1 = (Ok (), w2)" and
    3: "writeFile ?head (''ref: refs/heads/'' @ branch) w2 = (Ok (), w3)" and 4: "writeFile ?conf (gitConfigText url) w3 = (Ok (), w4)" and
    5: "osMkdirAll ?h w4 = (Ok (), w5)" and 6: "writeFile ?br sha w5 = (Ok (), w')"
    unfolding CreateFakeGitRepoDir_def Let_def by (auto simp: ret_def elim!: bindP_OkE)
  have "prefixAndSuffix ''test-git-repo-'' = Inr (''test-git-repo-'', [])" by code_simp
  with 1 obtain w0 where "tempDirLoop rnd (joinPath ''.'' ''test-git-repo-'') [] 0 w0 = (Ok dir, w1)"
    by (auto simp: ioutilTempDir_def gets_def bindP_def ret_def)
  then obtain i where "dir = joinPath ''.'' ''test-git-repo-'' @ rnd i" using tempDirLoop_name by fastforce
  then show d: "dir \<noteq> []" by (simp add: joinPath_def split: if_splits)
  have fo: "only_files w1 w2" "only_files w2 w3" "only_files w3 w4" "only_files w4 w5" "only_files w5 w'"
    using osMkdirAll_OkD(1) [OF 2] osMkdirAll_OkD(1) [OF 5] 3 4 6 writeFile_only_files by blast+
  then have res: "resolve w2 s = resolve w1 s" "resolve w3 s = resolve w1 s" "resolve w4 s = resolve w1 s"
    "resolve w5 s = resolve w1 s" "resolve w' s = resolve w1 s" for s by (simp_all add: only_files_resolve)
  let ?D = "resolve w1 dir"
  have l: "legalName ''.git''" "legalName ''HEAD''" "legalName ''config''" "legalName ''refs''" "legalName ''heads''"
    by (simp_all add: legalName_def plainElem_def)
  have g: "resolve w1 ?g = ?D @ [''.git'']" "?g \<noteq> []" using Join_resolve [OF l(1) d] d by (simp_all add: filepathJoin_def Clean_ne)
  have h: "resolve w1 ?h = ?D @ [''.git'', ''refs'', ''heads'']" "?h \<noteq> []"
    using resolve_Join [of ?g "''refs/heads''" w1] g stepInto_plain2 [of "''refs''" "''heads''"] l
    by (simp_all add: legalName_def filepathJoin_def Clean_ne)
  have paths: "resolve w1 ?head = ?D @ [''.git'', ''HEAD'']" "resolve w1 ?conf = ?D @ [''.git'', ''config'']"
    "resolve w1 ?br = ?D @ [''.git'', ''refs'', ''heads'', branch]"
    using Join_resolve [OF l(2) g(2)] Join_resolve [OF l(3) g(2)] Join_resolve [OF branch h(2)] g(1) h(1) by simp_all
  have alt: "resolve w1 (filepathJoin [dir, ''.git/HEAD'']) = ?D @ [''.git'', ''HEAD'']"
    "resolve w1 (filepathJoin [dir, ''.git/config'']) = ?D @ [''.git'', ''config'']"
    using resolve_Join [of dir "''.git/HEAD''" w1] resolve_Join [of dir "''.git/config''" w1] d l
      stepInto_plain2 [of "''.git''" "''HEAD''"] stepInto_plain2 [of "''.git''" "''config''"] by (simp_all add: legalName_def)
  have alt3: "resolve w1 (filepathJoin [dir, ''.git'', ''refs/heads/'' @ branch]) = ?D @ [''.git'', ''refs'', ''heads'', branch]"
    using resolve_Join3 [OF d, of "''.git''" w1 "''refs/heads/'' @ branch"] stepInto_plain1 [of "''.git''" ?D] l(1,4,5)
      stepInto_relPath [of "[''refs'', ''heads'', branch]" "?D @ [''.git'']"] branch
    by (simp add: legalName_def relPath_def)
  have "contentAt ?head w5 = Some (''ref: refs/heads/'' @ branch)"
    using osMkdirAll_OkD(2) [OF 5] contentAt_write_other [OF 4, of ?head] contentAt_write_same [OF 3] paths by (simp add: res)
  then have "contentAt ?head w' = Some (''ref: refs/heads/'' @ branch)"
    using contentAt_write_other [OF 6, of ?head] paths by (simp add: res)
  then show "contentAt (filepathJoin [dir, ''.git/HEAD'']) w' = Some (''ref: refs/heads/'' @ branch)"
    using contentAt_same_path [of w' ?head "filepathJoin [dir, ''.git/HEAD'']"] alt(1) paths(1) by (simp add: res)
  have "contentAt ?conf w5 = Some (gitConfigText url)"
    using osMkdirAll_OkD(2) [OF 5] contentAt_write_same [OF 4] by blast
  then have "contentAt ?conf w' = Some (gitConfigText url)"
    using contentAt_write_other [OF 6, of ?conf] paths by (simp add: res)
  then show "contentAt (filepathJoin [dir, ''.git/config'']) w' = Some (gitConfigText url)"
    using contentAt_same_path [of w' ?conf "filepathJoin [dir, ''.git/config'']"] alt(2) paths(2) by (simp add: res)
  show "contentAt (filepathJoin [dir, ''.git'', ''refs/heads/'' @ branch]) w' = Some sha"
    using contentAt_same_path [of w' ?br "filepathJoin [dir, ''.git'', ''refs/heads/'' @ branch]"] contentAt_write_same [OF 6] alt3 paths(3)
    by (simp add: res)
qed

definition lineText :: "string \<Rightarrow> bool" where
  "lineText s \<longleftrightarrow> s \<noteq> [] \<and> (\<forall>c\<in>set s. \<not> isSpace c)"

lemma TrimSpace_lineText: "lineText s \<Longrightarrow> TrimSpace s = s"
  by (rule TrimSpace_id) (simp add: lineText_def)

lemma TrimSpace_prefix: "lineText s \<Longrightarrow> p \<noteq> [] \<Longrightarrow> \<not> isSpace (hd p) \<Longrightarrow> TrimSpace (p @ s) = p @ s"
  by (rule TrimSpace_id) (simp add: lineText_def)

lemma SplitN_ref: "SplitN 3 (''refs/heads/'' @ b) ''/'' = [''refs'', ''heads'', b]"
  by (simp add: numeral_3_eq_3)

lemma split1_three: "c \<notin> set x \<Longrightarrow> c \<notin> set y \<Longrightarrow> c \<notin> set z \<Longrightarrow> split1 c (x @ c # (y @ c # z)) = [x, y, z]"
  by (simp add: split1_append_sep split1_no)

lemma gitConfig_url:
  assumes "lineText url" "length url < 60000"
  shows "findOriginURL (scanLines (gitConfigText url)) = Inr url"
proof -
  have nl: "CHR 0x0A \<notin> set url" using assms(1) by (auto simp: lineText_def isSpace_def)
  have parts: "gitConfigText url = (''[remote '' @ [CHR 0x22] @ ''origin'' @ [CHR 0x22] @ '']'') @ CHR 0x0A #
      (([CHR 0x09] @ ''url = '' @ url) @ CHR 0x0A # ([CHR 0x09] @ ''fetch = +refs/heads/*:refs/remotes/origin/*''))"
    by (simp add: gitConfigText_def)
  have "split1 (CHR 0x0A) (gitConfigText url) =
      [''[remote '' @ [CHR 0x22] @ ''origin'' @ [CHR 0x22] @ '']'', [CHR 0x09] @ ''url = '' @ url,
       [CHR 0x09] @ ''fetch = +refs/heads/*:refs/remotes/origin/*'']"
    unfolding parts using nl by (intro split1_three) simp_all
  then have lines: "scanLines (gitConfigText url) = [''[remote '' @ [CHR 0x22] @ ''origin'' @ [CHR 0x22] @ '']'', [CHR 0x09] @ ''url = '' @ url,
       [CHR 0x09] @ ''fetch = +refs/heads/*:refs/remotes/origin/*'']"
    by (simp add: scanLines_def Split_char)
  have "TrimSpace ([CHR 0x09] @ ''url = '' @ url) = TrimSpace (''url = '' @ url)" by (simp add: TrimSpace_def isSpace_def)
  also have "\<dots> = ''url = '' @ url" by (rule TrimSpace_prefix [OF assms(1)]) (simp_all add: isSpace_def)
  finally have t: "TrimSpace ([CHR 0x09] @ ''url = '' @ url) = ''url = '' @ url" .
  have f: "TrimSpace (''[remote '' @ [CHR 0x22] @ ''origin'' @ [CHR 0x22] @ '']'') = ''[remote '' @ [CHR 0x22] @ ''origin'' @ [CHR 0x22] @ '']''"
    by (rule TrimSpace_id) (simp add: isSpace_def)
  have long: "\<not> lineTooLong ([CHR 0x09] @ ''url = '' @ url)" using assms(2) by (simp add: lineTooLong_def)
  have short: "\<not> lineTooLong (''[remote '' @ [CHR 0x22] @ ''origin'' @ [CHR 0x22] @ '']'')" by (simp add: lineTooLong_def)
  show ?thesis unfolding lines findOriginURL.simps t f using long short by (simp add: HasPrefix_def TrimPrefix_def)
qed

lemma ifEmpty_set: "getField f c \<noteq> [] \<Longrightarrow> ifEmpty f m c = ret c"
  by (simp add: ifEmpty_def)

lemma ifEmpty_run: "getField f c = [] \<Longrightarrow> m c w = (Ok s, w) \<Longrightarrow> ifEmpty f m c w = (Ok (setField f s c), w)"
  by (simp add: ifEmpty_def ret_def)

text \<open>
  C39: a context assembled from a fake repository has what the repository was made with: the
  branch as its Git ref, the commit and the remote URL.  The branch is one path element, without
  white space, and the URL has a path of at least two elements.
\<close>

theorem fake_repo_roundtrip:
  assumes run: "CreateFakeGitRepoDir rnd url branch sha w = (Ok dir, w')"
    and "legalName branch" "lineText branch" "lineText url" "length url < 60000" "lineText sha" "ns \<noteq> []"
    and u: "urlParse url = Inr u" "2 \<le> length (Split (ur_Path u) ''/'')"
  shows "\<exists>c. Assemble (emptyContext\<lparr>oc_Namespace := ns\<rparr>) dir w' = (Ok c, w') \<and> oc_Namespace c = ns \<and>
     oc_GitFullRef c = ''refs/heads/'' @ branch \<and> oc_GitRef c = branch \<and> oc_GitURL c = url \<and> oc_GitCommitSHA c = sha \<and>
     oc_Project c = ToLower (Split (ur_Path u) ''/'' ! (length (Split (ur_Path u) ''/'') - 2))"
proof -
  note files = CreateFakeGitRepoDir_files [OF run assms(2)]
  let ?head = "filepathJoin [dir, ''.git/HEAD'']" and ?conf = "filepathJoin [dir, ''.git/config'']"
    and ?sha = "filepathJoin [dir, ''.git'', ''refs/heads/'' @ branch]"
  have head: "getTrimmedFileContent ?head w' = (Ok (''ref: refs/heads/'' @ branch), w')"
    using files(2) TrimSpace_prefix [OF assms(3), of "''ref: refs/heads/''"]
    unfolding readFile_contentAt by (simp add: getTrimmedFileContent_def ret_def isSpace_def)
  have shaf: "getTrimmedFileContent ?sha w' = (Ok sha, w')"
    using files(4) TrimSpace_lineText [OF assms(6)] unfolding readFile_contentAt by (simp add: getTrimmedFileContent_def ret_def)
  have conf: "readFile ?conf w' = (Ok (gitConfigText url), w')" using files(3) unfolding readFile_contentAt .
  then have "osOpen ?conf w' = (Ok (), w')" by (auto simp: readFile_def osOpen_def split: statRes.splits node.splits)
  with conf have urlf: "readRemoteOriginURL ?conf w' = (Ok url, w')"
    by (simp add: readRemoteOriginURL_def wrapErr_def gitConfig_url [OF assms(4,5)] ret_def)
  define c0 where "c0 = emptyContext\<lparr>oc_Namespace := ns\<rparr>"
  define c2 where "c2 = setField FGitFullRef (''refs/heads/'' @ branch) c0"
  define c3 where "c3 = setField FGitRef branch c2"
  define c4 where "c4 = setField FGitURL url c3"
  define c5 where "c5 = setField FGitCommitSHA sha c4"
  have 1: "ifEmpty FNamespace m c0 = ret c0" for m by (rule ifEmpty_set) (simp add: c0_def assms(7))
  have 2: "ifEmpty FGitFullRef (\<lambda>_. bindP (wrapErr ''could not read .git/HEAD: '' (getTrimmedFileContent ?head))
      (\<lambda>gitHead. ret (TrimPrefix gitHead ''ref: ''))) c0 w' = (Ok c2, w')"
    unfolding c2_def by (rule ifEmpty_run)
      (simp_all add: c0_def emptyContext_def wrapErr_def head ret_def TrimPrefix_def HasPrefix_def)
  have 3: "ifEmpty FGitRef (\<lambda>o'. gitRefOf (oc_GitFullRef o')) c2 w' = (Ok c3, w')"
    unfolding c3_def by (rule ifEmpty_run)
      (simp_all add: c2_def c0_def emptyContext_def gitRefOf_def ret_def SplitN_ref [simplified])
  have 4: "ifEmpty FGitURL (\<lambda>_. wrapErr ''could not get remote origin URL: '' (readRemoteOriginURL ?conf)) c3 w' = (Ok c4, w')"
    unfolding c4_def by (rule ifEmpty_run) (simp_all add: c3_def c2_def c0_def emptyContext_def wrapErr_def urlf)
  have full: "oc_GitFullRef c4 = ''refs/heads/'' @ branch" "oc_GitURL c5 = url" by (simp_all add: c5_def c4_def c3_def c2_def)
  have 5: "ifEmpty FGitCommitSHA (\<lambda>o'. wrapErr (''could not read .git/'' @ oc_GitFullRef o' @ '': '')
      (getTrimmedFileContent (filepathJoin [dir, ''.git'', oc_GitFullRef o']))) c4 w' = (Ok c5, w')"
    unfolding c5_def by (rule ifEmpty_run, simp add: c4_def c3_def c2_def c0_def emptyContext_def)
      (simp only: full wrapErr_def shaf prod.case outcome.case)
  let ?p = "Split (ur_Path u) ''/''"
  let ?c = "assembleNames (?p ! (length ?p - 2)) (?p ! (length ?p - 1)) c5"
  have "Assemble c0 dir w' = (Ok ?c, w')"
    unfolding Assemble_def 1 bind_ret using 2 3 4 5 u full(2)
    by (simp add: Let_def wrapErr_def liftPanic_def ret_def bindP_def)
  moreover have "oc_Project c5 = []" "oc_Namespace c5 = ns" by (simp_all add: c5_def c4_def c3_def c2_def c0_def emptyContext_def)
  then have "oc_Namespace ?c = ns" "oc_GitFullRef ?c = ''refs/heads/'' @ branch" "oc_GitRef ?c = branch" "oc_GitURL ?c = url"
    "oc_GitCommitSHA ?c = sha" "oc_Project ?c = ToLower (?p ! (length ?p - 2))"
    by (simp_all add: assembleNames_def Let_def c5_def c4_def c3_def c2_def)
  ultimately show ?thesis unfolding c0_def by blast
qed

lemma fake_repo_witness:
  "\<exists>dir w' c. CreateFakeGitRepoDir (\<lambda>_. ''1'') ''https://b.org/scm/FOO/foo-bar.git'' ''main'' ''abc'' copyWorld = (Ok dir, w') \<and>
     Assemble (emptyContext\<lparr>oc_Namespace := ''foo-cd''\<rparr>) dir w' = (Ok c, w') \<and> oc_GitRef c = ''main'' \<and> oc_GitCommitSHA c = ''abc'' \<and>
     oc_Project c = ''foo''"
proof -
  let ?url = "''https://b.org/scm/FOO/foo-bar.git''"
  have "(case fst (CreateFakeGitRepoDir (\<lambda>_. ''1'') ?url ''main'' ''abc'' copyWorld) of Ok d \<Rightarrow> True | _ \<Rightarrow> False)" by code_simp
  then obtain dir w' where run: "CreateFakeGitRepoDir (\<lambda>_. ''1'') ?url ''main'' ''abc'' copyWorld = (Ok dir, w')"
    by (cases "CreateFakeGitRepoDir (\<lambda>_. ''1'') ?url ''main'' ''abc'' copyWorld") (auto split: outcome.splits)
  have "(case urlParse ?url of Inr u \<Rightarrow> Split (ur_Path u) ''/'' = [[], ''scm'', ''FOO'', ''foo-bar.git''] | Inl _ \<Rightarrow> False)" by code_simp
  then obtain u where u: "urlParse ?url = Inr u" "Split (ur_Path u) ''/'' = [[], ''scm'', ''FOO'', ''foo-bar.git'']" by (auto split: sum.splits)
  have "\<exists>c. Assemble (emptyContext\<lparr>oc_Namespace := ''foo-cd''\<rparr>) dir w' = (Ok c, w') \<and> oc_Namespace c = ''foo-cd'' \<and>
     oc_GitFullRef c = ''refs/heads/'' @ ''main'' \<and> oc_GitRef c = ''main'' \<and> oc_GitURL c = ?url \<and> oc_GitCommitSHA c = ''abc'' \<and>
     oc_Project c = ToLower (Split (ur_Path u) ''/'' ! (length (Split (ur_Path u) ''/'') - 2))"
    by (rule fake_repo_roundtrip [OF run _ _ _ _ _ _ u(1)])
      (simp_all add: u(2) legalName_def plainElem_def lineText_def isSpace_def)
  moreover have "ToLower (Split (ur_Path u) ''/'' ! (length (Split (ur_Path u) ''/'') - 2)) = ''foo''"
    unfolding u(2) by code_simp
  ultimately show ?thesis using run by auto
qed

end
