(* ===== verification/TaskTesting.thy ===== *)
theory TaskTesting
  imports TestRepos
begin

text \<open>
  Running a task in a test: \<open>run.go\<close>, \<open>taskrun.go\<close>, \<open>logs.go\<close>, \<open>events.go\<close> and \<open>helper.go\<close> of
  \<open>pkg/tasktesting\<close>.  What the cluster reports is a sequence of events, in the order in which the
  loops receive them.  \<open>t.Fatal\<close> is the outcome \<open>Err\<close>: deferred functions still run, which they do
  not when the process ends.
\<close>

section \<open>Task runs (taskrun.go)\<close>

record workspaceBinding =
  wb_Name :: string
  wb_ClaimName :: string
  wb_ReadOnly :: bool
  wb_SubPath :: string

record taskRun =
  tkr_Name :: string
  tkr_TaskKind :: string
  tkr_TaskName :: string
  tkr_Params :: labels
  tkr_Workspaces :: "workspaceBinding list"
  tkr_ServiceAccountName :: string
  tkr_Status :: "string \<times> string \<times> string"

text \<open>Third-party methods on a task run, and the creation of one by the cluster.\<close>

record taskApi =
  ta_IsDone :: "taskRun \<Rightarrow> bool"
  ta_IsSuccessful :: "taskRun \<Rightarrow> bool"
  ta_Create :: "world \<Rightarrow> string \<Rightarrow> taskRun \<Rightarrow> string + taskRun"

definition TestdataWorkspacesPath :: string where
  "TestdataWorkspacesPath = ''testdata/workspaces''"

text \<open>The maps are given in the order in which Go iterates over them.\<close>

definition CreateTaskRunWithParams ::
  "taskApi \<Rightarrow> (nat \<Rightarrow> nat) \<Rightarrow> string \<Rightarrow> string \<Rightarrow> labels \<Rightarrow> labels \<Rightarrow> string \<Rightarrow> taskRun prog_w" where
  "CreateTaskRunWithParams api intn taskRefKind taskName parameters workspaces namespace =
     (if taskRefKind \<noteq> ''ClusterTask'' \<and> taskRefKind \<noteq> ''Task'' then exitP 1
      else
        (let tr = \<lparr>tkr_Name = taskName @ ''-taskrun-'' @ PseudoString intn, tkr_TaskKind = taskRefKind, tkr_TaskName = taskName,
               tkr_Params = parameters,
               tkr_Workspaces = map (\<lambda>(wn, wd). \<lparr>wb_Name = wn, wb_ClaimName = ''task-pv-claim'', wb_ReadOnly = False,
                   wb_SubPath = filepathJoin [TestdataWorkspacesPath, Base wd]\<rparr>) workspaces,
               tkr_ServiceAccountName = ''pipeline'', tkr_Status = ([], [], [])\<rparr>
         in bindP (gets (\<lambda>w. ta_Create api w namespace tr)) liftE))"

text \<open>The messages to the loop that watches a task run; \<open>PodAdded None\<close> is a nil pod.\<close>

datatype runEvent = ErrReceived "string option" | PodAdded "pod option" | LogsReceived string | RunDone taskRun

text \<open>
  Waiting for the end of a task run: the objects of the watch, in order, and the one message that
  is sent.  Once the channel of the watch is closed, receiving from it gives an event without an
  object, again and again; the loop has no other way out than a finished task run.
\<close>

fun taskRunLoop :: "taskApi \<Rightarrow> taskRun option list \<Rightarrow> taskRun option" where
  "taskRunLoop api [] = None"
| "taskRunLoop api (ev # evs) = (case ev of
       None \<Rightarrow> taskRunLoop api evs
     | Some tr \<Rightarrow> if ta_IsDone api tr then Some tr else taskRunLoop api evs)"

definition waitForTaskRunDone :: "taskApi \<Rightarrow> string + taskRun option list \<Rightarrow> runEvent option" where
  "waitForTaskRunDone api watch1 = (case watch1 of
       Inl e \<Rightarrow> Some (ErrReceived (Some (''error watching taskrun: '' @ e)))
     | Inr evs \<Rightarrow> map_option RunDone (taskRunLoop api evs))"

text \<open>Waiting for the pod: the pods that are added to the cluster, in any namespace.\<close>

fun waitForTaskRunPod :: "string \<Rightarrow> pod list \<Rightarrow> pod option" where
  "waitForTaskRunPod taskRunName [] = None"
| "waitForTaskRunPod taskRunName (p # ps) =
     (if HasPrefix (pod_Name p) taskRunName then Some p else waitForTaskRunPod taskRunName ps)"

section \<open>Events and logs of a pod (events.go, logs.go)\<close>

text \<open>An event of the pod, or the request to stop watching.\<close>

datatype podEvent = PodEvent string string | NoObject | StopWatching

fun podEventLoop :: "podEvent list \<Rightarrow> string option" where
  "podEventLoop [] = None"
| "podEventLoop (PodEvent ty msg # evs) =
     (if ty = ''Warning'' \<and> Contains msg ''Error'' then Some (''error detected in events: '' @ msg) else podEventLoop evs)"
| "podEventLoop (NoObject # evs) = podEventLoop evs"
| "podEventLoop (StopWatching # evs) = None"

text \<open>The error that is sent, if any.\<close>

definition watchPodEvents :: "string \<Rightarrow> string \<Rightarrow> string + podEvent list \<Rightarrow> string option" where
  "watchPodEvents podName namespace eventWatch = (case eventWatch of
       Inl e \<Rightarrow> Some (''failed to watch events from pod '' @ podName @ '' in namespace '' @ namespace)
     | Inr evs \<Rightarrow> podEventLoop evs)"

fun statusNamed :: "string \<Rightarrow> containerStatus list \<Rightarrow> containerStatus option" where
  "statusNamed n [] = None"
| "statusNamed n (cs # css) = (if cs_Name cs = n then Some cs else statusNamed n css)"

text \<open>The object of an event may be absent; objects other than pods count as absent.\<close>

definition containerFromEvent :: "pod option \<Rightarrow> string \<Rightarrow> string \<Rightarrow> containerStatus option" where
  "containerFromEvent ev podName containerName = (case ev of
       None \<Rightarrow> None
     | Some p \<Rightarrow> if pod_Name p = podName then statusNamed containerName (pod_ContainerStatuses p) else None)"

text \<open>
  Reading a log: each line comes with whether the context is done by then; after such a line
  nothing more is read.  The error is the scanner's, at the end.
\<close>

type_synonym logStream = "(string \<times> bool) list \<times> string option"

fun sendLines :: "(string \<times> bool) list \<Rightarrow> string option \<Rightarrow> string list \<times> string option" where
  "sendLines [] e = ([], e)"
| "sendLines ((line, ctxDone) # ls) e =
     (if ctxDone then ([line], None) else (case sendLines ls e of (sent, r) \<Rightarrow> (line # sent, r)))"

text \<open>
  Streaming the logs of a container: nothing until an event shows it running, then the lines of
  its log.  \<open>None\<close>: the container never runs, and the loop does not end.
\<close>

fun streamContainerLogs ::
  "(string \<Rightarrow> string + logStream) \<Rightarrow> string \<Rightarrow> string \<Rightarrow> string \<Rightarrow> pod option list \<Rightarrow> (string list \<times> string option) option" where
  "streamContainerLogs open1 ns podName c [] = None"
| "streamContainerLogs open1 ns podName c (ev # evs) =
     (case containerFromEvent ev podName c of
        Some cs \<Rightarrow>
          (if cs_Running cs
           then (case open1 c of
               Inl e \<Rightarrow> Some ([], Some (''could not create log stream for pod '' @ podName @ '' in namespace '' @ ns @ '': '' @ e))
             | Inr (ls, e) \<Rightarrow> Some (sendLines ls e))
           else streamContainerLogs open1 ns podName c evs)
      | None \<Rightarrow> streamContainerLogs open1 ns podName c evs)"

text \<open>
  The containers of the pod one after the other; each has a watch of its own.  The result: what is
  sent to the collector, the error reported, and whether the function returns.  After the first
  container the watcher of events is told to stop, which waits for ever if it is \<open>gone\<close>.
\<close>

fun logsOfContainers ::
  "(string \<Rightarrow> string + logStream) \<Rightarrow> (string \<Rightarrow> string + pod option list) \<Rightarrow> string \<Rightarrow> string \<Rightarrow> bool \<Rightarrow> bool \<Rightarrow> string list \<Rightarrow>
   string list \<times> string option \<times> bool" where
  "logsOfContainers open1 watch1 ns podName gone watchingEvents [] = ([], None, True)"
| "logsOfContainers open1 watch1 ns podName gone watchingEvents (c # cs) =
     (case watch1 c of
        Inl e \<Rightarrow> ([], Some (''error watching pods: '' @ e), True)
      | Inr evs \<Rightarrow>
          (case streamContainerLogs open1 ns podName c evs of
             None \<Rightarrow> ([], None, False)
           | Some (sent, Some e) \<Rightarrow> (sent, Some e, True)
           | Some (sent, None) \<Rightarrow>
               if watchingEvents \<and> gone then (sent, None, False)
               else (case logsOfContainers open1 watch1 ns podName gone False cs of (rest, e, returns) \<Rightarrow> (sent @ rest, e, returns))))"

text \<open>
  \<open>eventWatch\<close> is what the watcher of events gets before the log of the first container has
  ended; its error comes first.
\<close>

definition getEventsAndLogsOfPod ::
  "(string \<Rightarrow> string + logStream) \<Rightarrow> (string \<Rightarrow> string + pod option list) \<Rightarrow> string + podEvent list \<Rightarrow> pod \<Rightarrow>
   string option \<times> string list \<times> string option \<times> bool" where
  "getEventsAndLogsOfPod open1 watch1 eventWatch p =
     (let err = watchPodEvents (pod_Name p) (pod_Namespace p) eventWatch
      in (err, logsOfContainers open1 watch1 (pod_Namespace p) (pod_Name p) (err \<noteq> None) True (pod_Containers p)))"

section \<open>Watching a task run (run.go)\<close>

definition timeoutMessage :: string where
  "timeoutMessage = ''timeout waiting for task run to finish. Consider increasing the timeout for your testcase at hand''"

text \<open>
  The events up to the timeout, in the order they are received; after them the context is done.
  The result is the task run or an error, the logs collected, and the pods whose logs were asked for.
\<close>

fun WatchTaskRunUntilDone :: "runEvent list \<Rightarrow> string \<Rightarrow> pod list \<Rightarrow> (string + taskRun) \<times> string \<times> pod list" where
  "WatchTaskRunUntilDone [] buf pods = (Inl timeoutMessage, buf, pods)"
| "WatchTaskRunUntilDone (ErrReceived e # evs) buf pods = (case e of
       Some m \<Rightarrow> (Inl m, buf, pods)
     | None \<Rightarrow> WatchTaskRunUntilDone evs buf pods)"
| "WatchTaskRunUntilDone (PodAdded p # evs) buf pods = (case p of
       Some p' \<Rightarrow> WatchTaskRunUntilDone evs buf (pods @ [p'])
     | None \<Rightarrow> WatchTaskRunUntilDone evs buf pods)"
| "WatchTaskRunUntilDone (LogsReceived b # evs) buf pods = WatchTaskRunUntilDone evs (buf @ b) pods"
| "WatchTaskRunUntilDone (RunDone tr # evs) buf pods = (Inr tr, buf, pods)"

section \<open>Test cases (run.go)\<close>

text \<open>
  The context of a run is shared by the functions of a test case and changed by them; with the
  world it is the state of a test.
\<close>

record taskRunContext =
  tx_Namespace :: string
  tx_Workspaces :: labels
  tx_Params :: labels
  tx_ODS :: ODSContext
  tx_Cleanup :: "unit prog_w option"
  tx_CollectedLogs :: string

record testState =
  xs_World :: world
  xs_Context :: taskRunContext

type_synonym 'a test = "(testState, 'a) prog"

definition onWorld :: "'a prog_w \<Rightarrow> 'a test" where
  "onWorld m s = (case m (xs_World s) of (r, w') \<Rightarrow> (r, s\<lparr>xs_World := w'\<rparr>))"

text \<open>
  \<open>defer\<close>: the deferred function runs when the body returns or fails the test, not when the
  process ends; if it fails itself, that is the outcome.
\<close>

definition deferring :: "unit test \<Rightarrow> 'a test \<Rightarrow> 'a test" where
  "deferring d m s = (case m s of
       (Exit n, s') \<Rightarrow> (Exit n, s')
     | (r, s') \<Rightarrow> (case d s' of
           (Ok _, s'') \<Rightarrow> (r, s'')
         | (Err e, s'') \<Rightarrow> (case r of Panic p \<Rightarrow> (Panic p, s'') | _ \<Rightarrow> (Err e, s''))
         | (Exit n, s'') \<Rightarrow> (Exit n, s'')
         | (Panic p, s'') \<Rightarrow> (Panic p, s'')))"

record taskRunCase =
  trc_WantRunSuccess :: bool
  trc_WantSetupFail :: bool
  trc_PreRunFunc :: "unit test option"
  trc_PostRunFunc :: "unit test option"

record testCase =
  tcs_WorkspaceDirMapping :: labels
  tcs_TaskParamsMapping :: labels
  tcs_Single :: taskRunCase
  tcs_CleanupFunc :: "unit test option"
  tcs_AdditionalRuns :: "taskRunCase list"

record testOpts =
  top_TaskKindRef :: string
  top_TaskName :: string
  top_Namespace :: string
  top_Timeout :: int
  top_AlwaysKeepTmpWorkspaces :: bool

definition whenSome :: "unit test option \<Rightarrow> unit test" where
  "whenSome f = (case f of Some g \<Rightarrow> g | None \<Rightarrow> ret ())"

definition boolText :: "bool \<Rightarrow> string" where
  "boolText b = (if b then ''true'' else ''false'')"

text \<open>\<open>observe\<close> is what is received while a task run is watched, up to the timeout.\<close>

definition runTaskBody ::
  "taskApi \<Rightarrow> (world \<Rightarrow> nat \<Rightarrow> nat) \<Rightarrow> (world \<Rightarrow> int \<Rightarrow> taskRun \<Rightarrow> runEvent list) \<Rightarrow> testOpts \<Rightarrow> labels \<Rightarrow> taskRunCase \<Rightarrow> unit test" where
  "runTaskBody api intn observe opts taskWorkspaces tc =
     bindP (gets (\<lambda>s. (tx_Params (xs_Context s), intn (xs_World s)))) (\<lambda>(params, i).
     bindP (onWorld (CreateTaskRunWithParams api i (top_TaskKindRef opts) (top_TaskName opts) params taskWorkspaces (top_Namespace opts))) (\<lambda>tr.
     bindP (gets (\<lambda>s. WatchTaskRunUntilDone (observe (xs_World s) (top_Timeout opts) tr) [] [])) (\<lambda>(result, logs, pods).
     case result of
       Inl e \<Rightarrow> (if trc_WantSetupFail tc then ret () else failE (''Task setup failed: '' @ e))
     | Inr taskRun \<Rightarrow>
         if trc_WantSetupFail tc then failE ''Task setup was successful, but was expected to fail.''
         else
           bindP (modifyP (\<lambda>s. if logs \<noteq> [] then s\<lparr>xs_Context := (xs_Context s)\<lparr>tx_CollectedLogs := logs\<rparr>\<rparr> else s)) (\<lambda>_.
           if ta_IsSuccessful api taskRun \<noteq> trc_WantRunSuccess tc
           then failE (''Got: '' @ boolText (ta_IsSuccessful api taskRun) @ '', want: '' @ boolText (trc_WantRunSuccess tc) @ ''.'')
           else whenSome (trc_PostRunFunc tc)))))"

definition runTask ::
  "taskApi \<Rightarrow> (world \<Rightarrow> nat \<Rightarrow> nat) \<Rightarrow> (world \<Rightarrow> int \<Rightarrow> taskRun \<Rightarrow> runEvent list) \<Rightarrow> testOpts \<Rightarrow> labels \<Rightarrow> taskRunCase \<Rightarrow> unit test" where
  "runTask api intn observe opts taskWorkspaces tc =
     bindP (whenSome (trc_PreRunFunc tc)) (\<lambda>_.
     bindP (gets (\<lambda>s. tx_Cleanup (xs_Context s))) (\<lambda>cleanup.
     deferring (case cleanup of Some c \<Rightarrow> onWorld c | None \<Rightarrow> ret ())
       (runTaskBody api intn observe opts taskWorkspaces tc)))"

text \<open>A run without functions of its own takes those of the test case.\<close>

definition inherit :: "testCase \<Rightarrow> taskRunCase \<Rightarrow> taskRunCase" where
  "inherit tc c = c\<lparr>trc_PostRunFunc := (case trc_PostRunFunc c of None \<Rightarrow> trc_PostRunFunc (tcs_Single tc) | f \<Rightarrow> f),
                    trc_PreRunFunc := (case trc_PreRunFunc c of None \<Rightarrow> trc_PreRunFunc (tcs_Single tc) | f \<Rightarrow> f)\<rparr>"

definition InitWorkspace :: "permission \<Rightarrow> (nat \<Rightarrow> string) \<Rightarrow> string \<Rightarrow> string \<Rightarrow> string may" where
  "InitWorkspace own rnd projectRoot workspaceDir =
     (let workspaceSourceDirectory = filepathJoin [projectRoot, ''test'', TestdataWorkspacesPath, workspaceDir]
      in CopyToTempDir own rnd workspaceSourceDirectory (pathDir workspaceSourceDirectory) ''workspace-'')"

fun initWorkspaces :: "permission \<Rightarrow> (string \<Rightarrow> nat \<Rightarrow> string) \<Rightarrow> string \<Rightarrow> labels \<Rightarrow> labels may" where
  "initWorkspaces own rnd projectRoot [] = total (ret [])"
| "initWorkspaces own rnd projectRoot ((wn, wd) # m) =
     bindM (InitWorkspace own (rnd wn) projectRoot wd) (\<lambda>tempDir.
     bindM (initWorkspaces own rnd projectRoot m) (\<lambda>rest. total (ret ((wn, tempDir) # rest))))"

text \<open>The part of \<open>Run\<close> after the workspaces are there.\<close>

definition runTasks ::
  "taskApi \<Rightarrow> (world \<Rightarrow> nat \<Rightarrow> nat) \<Rightarrow> (world \<Rightarrow> int \<Rightarrow> taskRun \<Rightarrow> runEvent list) \<Rightarrow> testOpts \<Rightarrow> labels \<Rightarrow> testCase \<Rightarrow> unit test" where
  "runTasks api intn observe opts taskWorkspaces tc =
     deferring (whenSome (tcs_CleanupFunc tc))
      (bindP (forEach (tcs_Single tc # map (inherit tc) (tcs_AdditionalRuns tc)) (runTask api intn observe opts taskWorkspaces)) (\<lambda>_.
       if \<not> top_AlwaysKeepTmpWorkspaces opts then forEach taskWorkspaces (\<lambda>(wn, wd). onWorld (osRemoveAll wd)) else ret ()))"

definition tasktesting_Run ::
  "taskApi \<Rightarrow> (world \<Rightarrow> nat \<Rightarrow> nat) \<Rightarrow> (world \<Rightarrow> int \<Rightarrow> taskRun \<Rightarrow> runEvent list) \<Rightarrow> permission \<Rightarrow> (string \<Rightarrow> nat \<Rightarrow> string) \<Rightarrow>
   string \<Rightarrow> testCase \<Rightarrow> testOpts \<Rightarrow> unit may" where
  "tasktesting_Run api intn observe own rnd projectRoot tc opts =
     (let opts' = (if top_Timeout opts = 0 then opts\<lparr>top_Timeout := 120 * second\<rparr> else opts)
      in bindM (initWorkspaces own rnd projectRoot (tcs_WorkspaceDirMapping tc)) (\<lambda>taskWorkspaces.
         total (\<lambda>w.
           let ctxt = \<lparr>tx_Namespace = top_Namespace opts', tx_Workspaces = taskWorkspaces, tx_Params = tcs_TaskParamsMapping tc,
                        tx_ODS = emptyContext, tx_Cleanup = None, tx_CollectedLogs = []\<rparr>
           in (case runTasks api intn observe opts' taskWorkspaces tc \<lparr>xs_World = w, xs_Context = ctxt\<rparr> of
                 (r, s) \<Rightarrow> (r, xs_World s)))))"

section \<open>Setting up (helper.go)\<close>

definition testHeader :: "string \<Rightarrow> string list" where
  "testHeader txt0 =
     (let txt = ''### '' @ txt0 @ '' ###''; bar = replicate (length txt) (CHR ''#'') in [bar, txt, bar])"

definition CollectTaskResultInfo :: "taskRun option \<Rightarrow> string list" where
  "CollectTaskResultInfo tr = (case tr of
       None \<Rightarrow> [''error: no taskrun'']
     | Some t \<Rightarrow> (case tkr_Status t of (st, reason, msg) \<Rightarrow>
         [''Status: '' @ st @ [CHR 0x0A], ''Reason: '' @ reason @ [CHR 0x0A], ''Message: '' @ msg @ [CHR 0x0A]]))"

definition installCDNamespaceResources :: "services \<Rightarrow> bool \<Rightarrow> string \<Rightarrow> string \<Rightarrow> string \<Rightarrow> unit prog_w" where
  "installCDNamespaceResources sv verbose projectRoot ns serviceaccount =
     bindP (command_Run sv (filepathJoin [projectRoot, ''scripts/install-inside-kind.sh''])
         ([''-n'', ns, ''-s'', serviceaccount, ''--no-diff''] @ (if verbose then [''-v''] else []))) (\<lambda>(stdout, stderr, err).
     case err of None \<Rightarrow> ret () | Some e \<Rightarrow> failE e)"

text \<open>
  The resources of a test on the cluster; failing to make the volumes is reported, but the test
  goes on.  The result lists the errors reported.
\<close>

definition reportErr :: "'a onCluster \<Rightarrow> string list onCluster" where
  "reportErr m = bindP (attempt m) (\<lambda>r. ret (case r of Inl e \<Rightarrow> [e] | Inr _ \<Rightarrow> []))"

definition setupCluster :: "(string \<Rightarrow> bool) \<Rightarrow> clientset \<Rightarrow> string \<Rightarrow> string \<Rightarrow> string \<Rightarrow> string \<Rightarrow> string list onCluster" where
  "setupCluster quantityValid cs namespace storageCapacity sourceDir storageClassName =
     bindP (CreateNamespace cs namespace) (\<lambda>_.
     bindP (reportErr (CreatePersistentVolume quantityValid cs namespace storageCapacity sourceDir storageClassName)) (\<lambda>e1.
     bindP (reportErr (CreatePersistentVolumeClaim quantityValid cs storageCapacity storageClassName namespace)) (\<lambda>e2.
     ret (e1 @ e2))))"

text \<open>Both are deleted, or tried to be; without a client set there is nothing to delete.\<close>

definition TearDown :: "clientset option \<Rightarrow> string \<Rightarrow> string list onCluster" where
  "TearDown clientSet namespace = (case clientSet of
       None \<Rightarrow> ret []
     | Some cs \<Rightarrow>
         bindP (reportErr (wrapErr (''Failed to delete namespace '' @ namespace @ '': '')
                  (callApi (DeleteNamespaceCall namespace) (\<lambda>h. api_DeleteNamespace cs h namespace)))) (\<lambda>e1.
         bindP (reportErr (wrapErr (''Failed to delete persistent volume '' @ namespace @ '': '')
                  (callApi (DeletePVCall namespace) (\<lambda>h. api_DeletePV cs h namespace)))) (\<lambda>e2.
         ret (e1 @ e2))))"

text \<open>The handler of interrupts: on the first one the clean-up is done and the process ends.\<close>

definition CleanupOnInterrupt :: "('w, unit) prog \<Rightarrow> bool \<Rightarrow> ('w, unit) prog" where
  "CleanupOnInterrupt cleanup interrupted = (if interrupted then bindP cleanup (\<lambda>_. exitP 1) else ret ())"

section \<open>Facts: watching\<close>

fun decisive :: "runEvent \<Rightarrow> bool" where
  "decisive (ErrReceived e) = (e \<noteq> None)"
| "decisive (PodAdded p) = False"
| "decisive (LogsReceived b) = False"
| "decisive (RunDone tr) = True"

fun decision :: "runEvent list \<Rightarrow> string + taskRun" where
  "decision (RunDone tr # evs) = Inr tr"
| "decision (ErrReceived (Some e) # evs) = Inl e"
| "decision _ = Inl timeoutMessage"

fun logPart :: "runEvent \<Rightarrow> string" where
  "logPart (LogsReceived b) = b"
| "logPart _ = []"

fun podPart :: "runEvent \<Rightarrow> pod list" where
  "podPart (PodAdded (Some p)) = [p]"
| "podPart _ = []"

lemma Watch_until:
  "WatchTaskRunUntilDone evs buf pods =
     (let before = takeWhile (\<lambda>e. \<not> decisive e) evs
      in (decision (dropWhile (\<lambda>e. \<not> decisive e) evs), buf @ concat (map logPart before), pods @ concat (map podPart before)))"
  by (induction evs buf pods rule: WatchTaskRunUntilDone.induct) (auto simp: Let_def split: option.split)

text \<open>A watch whose channel is closed before the task run is done is never left.\<close>

lemma taskRunLoop_closed:
  "\<forall>tr\<in>set (List.map_filter id evs). \<not> ta_IsDone api tr \<Longrightarrow> taskRunLoop api (evs @ replicate n None) = None"
proof (induction evs)
  case Nil
  show ?case by (induction n) simp_all
next
  case (Cons ev evs)
  then show ?case by (cases ev) (simp_all add: map_filter_simps)
qed

lemma taskRunLoop_first:
  "taskRunLoop api evs = Some tr \<Longrightarrow> ta_IsDone api tr \<and> Some tr \<in> set evs"
  by (induction evs) (auto split: option.splits if_splits)

lemma podEventLoop_Some:
  "podEventLoop evs = Some e \<Longrightarrow> \<exists>msg. PodEvent ''Warning'' msg \<in> set evs \<and> Contains msg ''Error'' \<and> e = ''error detected in events: '' @ msg"
  by (induction evs rule: podEventLoop.induct) (auto split: if_splits)

text \<open>Logs are streamed from a container that runs, and only then.\<close>

lemma statusNamed_Some: "statusNamed n css = Some cs \<Longrightarrow> cs \<in> set css \<and> cs_Name cs = n"
  by (induction css) (auto split: if_splits)

lemma streamContainerLogs_running:
  "streamContainerLogs open1 ns podName c evs = Some r \<Longrightarrow>
     \<exists>p cs. Some p \<in> set evs \<and> pod_Name p = podName \<and> cs \<in> set (pod_ContainerStatuses p) \<and> cs_Name cs = c \<and> cs_Running cs"
proof (induction evs)
  case Nil
  then show ?case by simp
next
  case (Cons ev evs)
  show ?case
  proof (cases "containerFromEvent ev podName c")
    case None
    with Cons show ?thesis by auto
  next
    case (Some cs)
    then obtain p where p: "ev = Some p" "pod_Name p = podName" "statusNamed c (pod_ContainerStatuses p) = Some cs"
      by (auto simp: containerFromEvent_def split: option.splits if_splits)
    show ?thesis
    proof (cases "cs_Running cs")
      case True
      with p statusNamed_Some [OF p(3)] show ?thesis by auto
    next
      case False
      with Cons Some show ?thesis by auto
    qed
  qed
qed

text \<open>If the watcher of events has stopped with an error, the logs end with the first container and the function does not return.\<close>

lemma getEventsAndLogsOfPod_stuck:
  assumes "watchPodEvents (pod_Name p) (pod_Namespace p) ew = Some e" "pod_Containers p = c # cs" "watch1 c = Inr evs"
    and "streamContainerLogs open1 (pod_Namespace p) (pod_Name p) c evs = Some (sent, None)"
  shows "getEventsAndLogsOfPod open1 watch1 ew p = (Some e, sent, None, False)"
  by (simp add: getEventsAndLogsOfPod_def assms)

section \<open>Facts: a run of a test\<close>

lemma onWorld_Ok: "onWorld m s = (r, s') \<Longrightarrow> \<exists>w'. m (xs_World s) = (r, w') \<and> s' = s\<lparr>xs_World := w'\<rparr>"
  by (auto simp: onWorld_def split: prod.splits)

lemma runTaskBody_Ok:
  assumes "runTaskBody api intn observe opts ws tc s = (Ok (), s')"
  shows "\<exists>tr s1 result logs pods.
     onWorld (CreateTaskRunWithParams api (intn (xs_World s)) (top_TaskKindRef opts) (top_TaskName opts) (tx_Params (xs_Context s)) ws
       (top_Namespace opts)) s = (Ok tr, s1) \<and>
     WatchTaskRunUntilDone (observe (xs_World s1) (top_Timeout opts) tr) [] [] = (result, logs, pods) \<and>
     (if trc_WantSetupFail tc then \<exists>e. result = Inl e
      else \<exists>t. result = Inr t \<and> ta_IsSuccessful api t = trc_WantRunSuccess tc)"
proof -
  from assms obtain tr s1 result logs pods where
    1: "onWorld (CreateTaskRunWithParams api (intn (xs_World s)) (top_TaskKindRef opts) (top_TaskName opts) (tx_Params (xs_Context s)) ws
       (top_Namespace opts)) s = (Ok tr, s1)" and
    2: "WatchTaskRunUntilDone (observe (xs_World s1) (top_Timeout opts) tr) [] [] = (result, logs, pods)" and
    3: "(case result of
       Inl e \<Rightarrow> (if trc_WantSetupFail tc then ret () else failE (''Task setup failed: '' @ e))
     | Inr taskRun \<Rightarrow>
         if trc_WantSetupFail tc then failE ''Task setup was successful, but was expected to fail.''
         else
           bindP (modifyP (\<lambda>s. if logs \<noteq> [] then s\<lparr>xs_Context := (xs_Context s)\<lparr>tx_CollectedLogs := logs\<rparr>\<rparr> else s)) (\<lambda>_.
           if ta_IsSuccessful api taskRun \<noteq> trc_WantRunSuccess tc
           then failE (''Got: '' @ boolText (ta_IsSuccessful api taskRun) @ '', want: '' @ boolText (trc_WantRunSuccess tc) @ ''.'')
           else whenSome (trc_PostRunFunc tc))) s1 = (Ok (), s')"
    unfolding runTaskBody_def
    by (auto simp: gets_def bindP_def split: prod.splits outcome.splits)
  from 3 have "if trc_WantSetupFail tc then \<exists>e. result = Inl e
      else \<exists>t. result = Inr t \<and> ta_IsSuccessful api t = trc_WantRunSuccess tc"
    by (cases result) (auto simp: failE_def modifyP_def bindP_def split: if_splits)
  with 1 2 show ?thesis by blast
qed

lemma deferring_last:
  assumes "deferring d m s = (r, s')" "\<forall>n. r \<noteq> Exit n"
  shows "\<exists>r1 s1 rd. m s = (r1, s1) \<and> d s1 = (rd, s') \<and> (r = Ok x \<longrightarrow> r1 = Ok x \<and> rd = Ok ())"
proof -
  obtain r1 s1 where "m s = (r1, s1)" by (cases "m s")
  moreover obtain rd s2 where "d s1 = (rd, s2)" by (cases "d s1")
  ultimately show ?thesis using assms by (cases r1; cases rd) (auto simp: deferring_def)
qed


definition exampleTaskApi :: taskApi where
  "exampleTaskApi = \<lparr>ta_IsDone = (\<lambda>t. True), ta_IsSuccessful = (\<lambda>t. fst (tkr_Status t) = ''True''), ta_Create = (\<lambda>w ns t. Inr t)\<rparr>"

definition exampleOpts :: testOpts where
  "exampleOpts = \<lparr>top_TaskKindRef = ''ClusterTask'', top_TaskName = ''ods-build-go'', top_Namespace = ''ns'', top_Timeout = 0,
     top_AlwaysKeepTmpWorkspaces = False\<rparr>"

definition exampleObserve :: "world \<Rightarrow> int \<Rightarrow> taskRun \<Rightarrow> runEvent list" where
  "exampleObserve w t tr = [LogsReceived ''a'', PodAdded None, LogsReceived ''b'', RunDone (tr\<lparr>tkr_Status := (''True'', [], [])\<rparr>), LogsReceived ''c'']"

definition exampleCase :: taskRunCase where
  "exampleCase = \<lparr>trc_WantRunSuccess = True, trc_WantSetupFail = False,
     trc_PreRunFunc = Some (modifyP (\<lambda>s. s\<lparr>xs_Context := (xs_Context s)\<lparr>tx_Cleanup := Some (writeFile ''/cleaned'' ''yes'')\<rparr>\<rparr>)),
     trc_PostRunFunc = None\<rparr>"

definition exampleState :: testState where
  "exampleState = \<lparr>xs_World = copyWorld, xs_Context = \<lparr>tx_Namespace = ''ns'', tx_Workspaces = [], tx_Params = [], tx_ODS = emptyContext,
     tx_Cleanup = None, tx_CollectedLogs = []\<rparr>\<rparr>"


section \<open>Facts: a test that passes leaves the files as they were\<close>

lemma shapeAt_del:
  assumes "p \<noteq> []"
  shows "shapeAt q (fs_del p n) = (if prefix p q then Missing else shapeAt q n)"
proof -
  have above: "strict_prefix q p \<Longrightarrow> shapeAt q (fs_del p n) = shapeAt q n" for p q n
  proof (induction p arbitrary: q n)
    case Nil
    then show ?case by simp
  next
    case (Cons a p)
    show ?case
    proof (cases q)
      case Nil
      then show ?thesis by (cases n) (auto simp: shapeAt_def shapeOf_def split: option.split)
    next
      case (Cons b q')
      with \<open>strict_prefix q (a # p)\<close> have q: "b = a" "strict_prefix q' p" by auto
      then have "p \<noteq> []" by auto
      with Cons q Cons.IH [OF q(2)] show ?thesis
        by (cases n) (auto simp: shapeAt_def update_conv' split: option.split)
    qed
  qed
  consider "prefix p q" | "strict_prefix q p" | "\<not> prefix p q" "\<not> prefix q p" by (auto simp: strict_prefix_def)
  then show ?thesis
  proof cases
    case 1
    then obtain r where q: "q = p @ r" by (rule prefixE)
    have "fs_get q (fs_del p n) = None" using fs_get_del_same [OF assms, of n] by (simp add: q fs_get_above)
    with 1 show ?thesis by (simp add: shapeAt_def shapeOf_def)
  next
    case 2
    then show ?thesis using above [OF 2] by (auto simp: strict_prefix_def)
  next
    case 3
    then show ?thesis using fs_get_del_other [OF assms 3] by (simp add: shapeAt_def)
  qed
qed

text \<open>
  A function of a test may look around: it leaves the world alone and registers no clean-up.  A
  run whose functions do so does it too.
\<close>

definition leavesAlone :: "testState \<Rightarrow> testState \<Rightarrow> bool" where
  "leavesAlone s s' \<longleftrightarrow> (tx_Cleanup (xs_Context s) = None \<longrightarrow> xs_World s' = xs_World s \<and> tx_Cleanup (xs_Context s') = None)"

interpretation la: step_relation leavesAlone
  by unfold_locales (auto simp: leavesAlone_def)

lemma la_deferring: "preserves leavesAlone d \<Longrightarrow> preserves leavesAlone m \<Longrightarrow> preserves leavesAlone (deferring d m)"
  unfolding preserves_def
proof
  fix s
  assume d: "\<forall>s. leavesAlone s (snd (d s))" and "\<forall>s. leavesAlone s (snd (m s))"
  moreover obtain r s1 where m: "m s = (r, s1)" by (cases "m s")
  moreover obtain r2 s2 where "d s1 = (r2, s2)" by (cases "d s1")
  ultimately have "leavesAlone s s1" "leavesAlone s1 s2" "d s1 = (r2, s2)" by (metis snd_conv)+
  with m la.trans [of s s1 s2] show "leavesAlone s (snd (deferring d m s))"
    by (cases r; cases r2) (auto simp: deferring_def)
qed

lemma la_create: "preserves leavesAlone (onWorld (CreateTaskRunWithParams api i k n ps ws ns))"
proof -
  have "s' = s" if "onWorld (CreateTaskRunWithParams api i k n ps ws ns) s = (r, s')" for r s s'
    using that by (auto simp: onWorld_def CreateTaskRunWithParams_def Let_def gets_def bindP_def exitP_def liftE_def ret_def failE_def
      split: if_splits sum.splits)
  then show ?thesis unfolding preserves_def by (metis la.refl prod.collapse)
qed

lemma la_collect: "preserves leavesAlone (modifyP (\<lambda>s. if b then s\<lparr>xs_Context := (xs_Context s)\<lparr>tx_CollectedLogs := l\<rparr>\<rparr> else s))"
  by (auto simp: preserves_def leavesAlone_def modifyP_def)

lemma la_runTask:
  assumes "preserves leavesAlone (whenSome (trc_PreRunFunc tc))" "preserves leavesAlone (whenSome (trc_PostRunFunc tc))"
  shows "preserves leavesAlone (runTask api intn observe opts ws tc)"
proof -
  have body: "preserves leavesAlone (runTaskBody api intn observe opts ws tc)"
    unfolding runTaskBody_def by (intro la.rules la_create la_collect assms(2))
  define Q where "Q = bindP (gets (\<lambda>s. tx_Cleanup (xs_Context s))) (\<lambda>cleanup.
     deferring (case cleanup of Some c \<Rightarrow> onWorld c | None \<Rightarrow> ret ()) (runTaskBody api intn observe opts ws tc))"
  have "leavesAlone s (snd (Q s))" for s
  proof (cases "tx_Cleanup (xs_Context s)")
    case None
    then have "Q s = deferring (ret ()) (runTaskBody api intn observe opts ws tc) s" by (simp add: Q_def gets_def bindP_def)
    with la_deferring [OF la.ret body] show ?thesis by (simp add: preserves_def)
  qed (simp add: leavesAlone_def)
  then have "preserves leavesAlone Q" by (simp add: preserves_def)
  from la.bind [OF assms(1) this] show ?thesis unfolding runTask_def Q_def .
qed

definition testFunctions :: "testCase \<Rightarrow> unit test set" where
  "testFunctions tc = (\<Union>c\<in>set (tcs_Single tc # tcs_AdditionalRuns tc). set_option (trc_PreRunFunc c) \<union> set_option (trc_PostRunFunc c)) \<union>
     set_option (tcs_CleanupFunc tc)"

lemma la_whenSome: "(\<And>g. f = Some g \<Longrightarrow> preserves leavesAlone g) \<Longrightarrow> preserves leavesAlone (whenSome f)"
  by (cases f) (auto simp: whenSome_def la.ret)

lemma la_runs:
  assumes "\<forall>f\<in>testFunctions tc. preserves leavesAlone f"
  shows "preserves leavesAlone (forEach (tcs_Single tc # map (inherit tc) (tcs_AdditionalRuns tc)) (runTask api intn observe opts ws))"
    and "preserves leavesAlone (whenSome (tcs_CleanupFunc tc))"
proof -
  have f: "preserves leavesAlone (whenSome (trc_PreRunFunc c)) \<and> preserves leavesAlone (whenSome (trc_PostRunFunc c))"
    if "c \<in> set (tcs_Single tc # map (inherit tc) (tcs_AdditionalRuns tc))" for c
    using that assms by (auto simp: testFunctions_def inherit_def intro!: la_whenSome split: option.splits)
  show "preserves leavesAlone (forEach (tcs_Single tc # map (inherit tc) (tcs_AdditionalRuns tc)) (runTask api intn observe opts ws))"
    using f by (intro la.forEach la_runTask) blast+
  show "preserves leavesAlone (whenSome (tcs_CleanupFunc tc))"
    using assms by (intro la_whenSome) (auto simp: testFunctions_def)
qed

lemma deferring_Ok:
  "deferring d m s = (Ok x, s') \<Longrightarrow> \<exists>s1 u. m s = (Ok x, s1) \<and> d s1 = (Ok u, s')"
  by (auto simp: deferring_def split: prod.splits outcome.splits)

lemma runTasks_Ok:
  assumes "runTasks api intn observe opts [(wn, d)] tc st = (Ok (), s')" "\<not> top_AlwaysKeepTmpWorkspaces opts"
    and "\<forall>f\<in>testFunctions tc. preserves leavesAlone f" "tx_Cleanup (xs_Context st) = None"
  shows "xs_World s' = xs_World st\<lparr>w_root := fs_del (resolve (xs_World st) d) (w_root (xs_World st))\<rparr>"
proof -
  let ?runs = "forEach (tcs_Single tc # map (inherit tc) (tcs_AdditionalRuns tc)) (runTask api intn observe opts [(wn, d)])"
  from deferring_Ok [OF assms(1) [unfolded runTasks_def]] obtain s3 u where
    3: "bindP ?runs (\<lambda>_. if \<not> top_AlwaysKeepTmpWorkspaces opts then forEach [(wn, d)] (\<lambda>(wn, wd). onWorld (osRemoveAll wd)) else ret ()) st = (Ok (), s3)" and
    c: "whenSome (tcs_CleanupFunc tc) s3 = (Ok u, s')" by blast
  from bindP_OkE [OF 3] obtain s2 where 2: "?runs st = (Ok (), s2)" and rm: "forEach [(wn, d)] (\<lambda>(wn, wd). onWorld (osRemoveAll wd)) s2 = (Ok (), s3)"
    using assms(2) by auto
  from preservesD [OF la_runs(1) [OF assms(3)] 2] have w2: "xs_World s2 = xs_World st" "tx_Cleanup (xs_Context s2) = None"
    using assms(4) by (simp_all add: leavesAlone_def)
  from rm have "xs_World s3 = (xs_World s2)\<lparr>w_root := fs_del (resolve (xs_World s2) d) (w_root (xs_World s2))\<rparr> \<and> tx_Cleanup (xs_Context s3) = None"
    using w2(2) by (auto simp: bindP_def ret_def onWorld_def osRemoveAll_def split: prod.splits outcome.splits if_splits)
  with preservesD [OF la_runs(2) [OF assms(3)] c] w2 show ?thesis by (simp add: leavesAlone_def)
qed

text \<open>
  A test with one workspace that passes leaves the files as they were, if its functions only look
  around: the copy of the workspace is removed.  The directory of the workspaces is not inside the
  workspace.
\<close>

theorem Run_leaves_files:
  assumes run: "tasktesting_Run api intn observe own rnd projectRoot tc opts w = Some (Ok (), w')"
    and tc: "tcs_WorkspaceDirMapping tc = [(wn, wd)]" "\<not> top_AlwaysKeepTmpWorkspaces opts" "\<forall>f\<in>testFunctions tc. preserves leavesAlone f"
    and s: "s = filepathJoin [projectRoot, ''test'', TestdataWorkspacesPath, wd]"
    and src: "s \<noteq> []" "fs_get (resolve w s) (w_root w) = Some (Dir es)" "legalTree (Dir es)"
    and base: "pathDir s \<noteq> []" "\<not> HasSuffix (pathDir s) ''/''" "shapeAt (resolve w (pathDir s)) (w_root w) = Directory"
    and out: "\<not> prefix (resolve w s) (resolve w (pathDir s))" and faults: "\<forall>p. prefix (resolve w (pathDir s)) p \<longrightarrow> \<not> w_faulty w p"
    and rnd: "\<forall>i. rnd wn i \<noteq> [] \<and> set (rnd wn i) \<subseteq> set ''0123456789''"
  shows "shapeAt p (w_root w') = shapeAt p (w_root w)"
proof -
  have "prefixAndSuffix ''workspace-'' = Inr (''workspace-'', [])" by code_simp
  from CopyToTempDir_run [OF src refl base(1,2) refl base(3) out faults this rnd, of own] obtain r w1 where
    copy: "CopyToTempDir own (rnd wn) s (pathDir s) ''workspace-'' w = Some (r, w1)" "only_files w w1" and
    new: "(w1 = w \<and> (\<forall>d. r \<noteq> Ok d)) \<or> (\<exists>n. shapeAt (resolve w (pathDir s) @ [n]) (w_root w) = Missing \<and>
        (\<forall>d. r = Ok d \<longrightarrow> resolve w d = resolve w (pathDir s) @ [n]) \<and>
        (\<forall>p. \<not> prefix (resolve w (pathDir s) @ [n]) p \<longrightarrow> shapeAt p (w_root w1) = shapeAt p (w_root w)))" by blast
  from run tc(1) copy(1) obtain d where d: "r = Ok d"
    by (cases r) (auto simp: tasktesting_Run_def InitWorkspace_def bindM_def Let_def simp flip: s split: option.splits)
  with new obtain n where n: "shapeAt (resolve w (pathDir s) @ [n]) (w_root w) = Missing" "resolve w d = resolve w (pathDir s) @ [n]"
    "\<forall>p. \<not> prefix (resolve w (pathDir s) @ [n]) p \<longrightarrow> shapeAt p (w_root w1) = shapeAt p (w_root w)" by blast
  define opts' where "opts' = (if top_Timeout opts = 0 then opts\<lparr>top_Timeout := 120 * second\<rparr> else opts)"
  define st where "st = \<lparr>xs_World = w1, xs_Context = \<lparr>tx_Namespace = top_Namespace opts', tx_Workspaces = [(wn, d)],
     tx_Params = tcs_TaskParamsMapping tc, tx_ODS = emptyContext, tx_Cleanup = None, tx_CollectedLogs = []\<rparr>\<rparr>"
  from run tc(1) copy(1) d have "\<exists>s'. runTasks api intn observe opts' [(wn, d)] tc st = (Ok (), s') \<and> w' = xs_World s'"
    by (auto simp: tasktesting_Run_def InitWorkspace_def bindM_def total_def ret_def Let_def opts'_def st_def simp flip: s split: prod.splits)
  then obtain s' where s': "runTasks api intn observe opts' [(wn, d)] tc st = (Ok (), s')" "w' = xs_World s'" by blast
  have keep: "\<not> top_AlwaysKeepTmpWorkspaces opts'" using tc(2) by (simp add: opts'_def)
  have at: "resolve w1 d = resolve w (pathDir s) @ [n]" using n(2) copy(2) by (auto simp: only_files_def resolve_def)
  have "w' = w1\<lparr>w_root := fs_del (resolve w1 d) (w_root w1)\<rparr>"
    using runTasks_Ok [OF s'(1) keep tc(3)] s'(2) by (simp add: st_def)
  then have "shapeAt p (w_root w') = (if prefix (resolve w (pathDir s) @ [n]) p then Missing else shapeAt p (w_root w1))"
    using shapeAt_del [of "resolve w1 d" p] at by simp
  moreover have "shapeAt p (w_root w) = Missing" if "prefix (resolve w (pathDir s) @ [n]) p"
  proof -
    from that obtain x where x: "p = (resolve w (pathDir s) @ [n]) @ x" by (rule prefixE)
    have "fs_get (resolve w (pathDir s) @ [n]) (w_root w) = None" using n(1) by (simp only: shapeAt_simps)
    then show ?thesis unfolding x using fs_get_above [of "resolve w (pathDir s) @ [n]" x "w_root w"] by (simp only: shapeAt_simps option.case)
  qed
  ultimately show ?thesis using n(3) by simp
qed

text \<open>
  What the set-up of a test creates on the cluster (beside the claim, which goes with its
  namespace) is deleted when the test is torn down, whatever the cluster answers.
\<close>

theorem TearDown_undoes_setup:
  assumes "quantityValid storageCapacity"
  shows "\<exists>es s1 es' s2 v c.
     setupCluster quantityValid cs ns storageCapacity sourceDir storageClassName s = (Ok es, s1) \<and>
     TearDown (Some cs) ns s1 = (Ok es', s2) \<and> pv_Name v = ns \<and>
     cl_Calls s2 = cl_Calls s @ [CreateNamespaceCall ns, CreatePVCall v, CreatePVCCall ns c, DeleteNamespaceCall ns, DeletePVCall ns]"
proof -
  have ns: "\<exists>s'. CreateNamespace cs ns s = (Ok (), s') \<and> cl_Calls s' = cl_Calls s @ [CreateNamespaceCall ns]" for s
    by (auto simp: CreateNamespace_def bindP_def logPrintf_def attempt_def callApi_def ret_def Let_def split: sum.splits)
  have pv: "\<exists>e s' v. reportErr (CreatePersistentVolume quantityValid cs ns storageCapacity sourceDir storageClassName) s = (Ok e, s') \<and>
      pv_Name v = ns \<and> cl_Calls s' = cl_Calls s @ [CreatePVCall v]" for s
    using assms by (auto simp: reportErr_def CreatePersistentVolume_def MustParse_def bindP_def logPrintf_def attempt_def callApi_def
        ret_def Let_def intro!: exI [of _ "persistentVolume.make ns _ _ _ _ _ _"] split: sum.splits)
  have pvc: "\<exists>e s' c. reportErr (CreatePersistentVolumeClaim quantityValid cs storageCapacity storageClassName ns) s = (Ok e, s') \<and>
      cl_Calls s' = cl_Calls s @ [CreatePVCCall ns c]" for s
    using assms by (auto simp: reportErr_def CreatePersistentVolumeClaim_def MustParse_def bindP_def logPrintf_def attempt_def callApi_def
        ret_def Let_def split: sum.splits)
  have td: "\<exists>e s'. TearDown (Some cs) ns s = (Ok e, s') \<and> cl_Calls s' = cl_Calls s @ [DeleteNamespaceCall ns, DeletePVCall ns]" for s
    by (auto simp: TearDown_def reportErr_def bindP_def attempt_def wrapErr_def callApi_def ret_def split: sum.splits)
  from ns [of s] obtain s1 where s1: "CreateNamespace cs ns s = (Ok (), s1)" "cl_Calls s1 = cl_Calls s @ [CreateNamespaceCall ns]" by blast
  from pv [of s1] obtain e1 s2 v where s2: "reportErr (CreatePersistentVolume quantityValid cs ns storageCapacity sourceDir storageClassName) s1 = (Ok e1, s2)"
    "pv_Name v = ns" "cl_Calls s2 = cl_Calls s1 @ [CreatePVCall v]" by blast
  from pvc [of s2] obtain e2 s3 c where s3: "reportErr (CreatePersistentVolumeClaim quantityValid cs storageCapacity storageClassName ns) s2 = (Ok e2, s3)"
    "cl_Calls s3 = cl_Calls s2 @ [CreatePVCCall ns c]" by blast
  from td [of s3] obtain e4 s4 where s4: "TearDown (Some cs) ns s3 = (Ok e4, s4)"
    "cl_Calls s4 = cl_Calls s3 @ [DeleteNamespaceCall ns, DeletePVCall ns]" by blast
  have "setupCluster quantityValid cs ns storageCapacity sourceDir storageClassName s = (Ok (e1 @ e2), s3)"
    using s1 s2 s3 by (simp add: setupCluster_def bindP_def ret_def)
  with s1 s2 s3 s4 show ?thesis by fastforce
qed

end
