(* ===== verification/Spec2Isabelle.thy ===== *)
theory Spec2Isabelle
  imports PipelineManager QueueSystem CacheClean StartRun Finish BuildRun DeployHelm Docs TaskTesting
begin

text \<open>
  ODS pipeline runs the pipelines of the repositories of a Bitbucket project on Tekton.  A long
  running process, the pipeline manager (\<open>cmd/pipeline-manager\<close>, \<open>internal/manager\<close>), receives the
  webhook requests of Bitbucket, creates a pipeline and a run for each, lets at most one run of
  a repository be in progress, and deletes old runs.  The steps of a pipeline are short running
  programs: \<open>cmd/start\<close> checks out and prepares the context, \<open>cmd/build-push-image\<close>, \<open>cmd/sonar\<close> and
  \<open>cmd/deploy-with-helm\<close> do the work, and \<open>cmd/finish\<close> uploads the artifacts and reports.
  \<open>cmd/artifact-download\<close> is run by users.  All of them rest on the packages under \<open>pkg\<close> and
  \<open>internal\<close>.  This theory collects the development.

  \<^bold>\<open>How programs are modelled.\<close>  A Go function that only computes is a HOL function.  A Go
  function that acts is a program of theory Prelude: it takes a state and returns an outcome (a
  value, an error, the end of the process with a status, a panic) and a new state.  The state of
  theory World is a file tree with a working directory, the environment variables, the clock,
  the lines printed, and the trace of calls made to other systems.  What those systems answer is
  the parameter \<open>services\<close>, a record of functions that may look at the whole history of calls;
  third-party libraries (YAML, HMAC, shell words, templates, quantities, the methods of Tekton's
  types) are parameters in the same way.  Go's standard library, as far as the source uses it,
  is modelled: strings, strconv, path and filepath (GoStrings, Paths), net/url (GoUrl),
  encoding/json (GoJson), SHA-1 (Sha1, on 32-bit words).  Integers are \<open>int\<close>; where the width
  shows, it is written out (strconv, hours as 64-bit nanoseconds, SHA-1).

  \<^bold>\<open>Theories.\<close>
  \<^item> Prelude: outcomes, programs, combinators; the locale \<open>step_relation\<close> of relations between
    states that every combinator respects, with the rules by which a property of the primitive
    operations becomes one of every program.
  \<^item> GoStrings, GoUrl, Sha1, GoJson: the standard library.  JSON texts are read by a parser with
    fuel \<open>2 * length + 2\<close>, shown to be enough for everything the printer produces; more fuel never
    changes a result.
  \<^item> Tekton, Bitbucket, Config: the data that cross the interfaces (\<open>pkg/config/ods.go\<close>, the types
    of \<open>pkg/bitbucket\<close>, the used part of Tekton's types).
  \<^item> World, Paths: files, calls, \<open>internal/command\<close>, \<open>internal/file\<close>, \<open>internal/directory/files.go\<close>;
    the interpretations of \<open>step_relation\<close> that say which programs only read, only write files
    or only make calls; the locale \<open>file_store\<close>.
  \<^item> Pipeline, Schedule, Watch, Prune, Receive: \<open>internal/manager\<close>, one theory per goroutine and
    \<open>pipeline.go\<close>, \<open>pvc.go\<close> beside the scheduler.  Sorting is the interface \<open>desc_sorter\<close>.
  \<^item> QueueSystem: scheduler and watcher against one cluster, as a step relation whose steps are
    the single requests.  \<open>schedule_cases\<close> and the lemmas on \<open>advanceQueue\<close> connect the steps to
    the calls of the two programs.
  \<^item> PipelineManager: \<open>cmd/pipeline-manager/main.go\<close>, from the environment variables to the
    running process, as a step relation over the channels.
  \<^item> Nexus, PipelineCtxt, Repository, ImageArtifact, Notification: \<open>pkg/nexus\<close>,
    \<open>pkg/pipelinectxt\<close>, \<open>internal/repository\<close>, \<open>pkg/artifact\<close>, \<open>internal/notification\<close>.
  \<^item> Cache, CacheClean, Start, StartRun, Finish, BuildPush, BuildRun, Sonar, DeployHelm,
    ArtifactDownload: the programs under \<open>cmd\<close>, \<open>pkg/sonar\<close> and \<open>internal/installation\<close>.
    StartRun and BuildRun hold the properties of two whole programs.
  \<^item> BitbucketClient: the HTTP client of \<open>pkg/bitbucket\<close> over a transport; \<open>withBitbucket\<close> makes it
    the Bitbucket part of \<open>services\<close>, so that what holds of the programs for every Bitbucket
    holds of them with this client.
\<close>

text \<open>
  \<^bold>\<open>What is shown.\<close>
  \<^item> Safety of the manager: a run is created only for a received request that is signed under a
    non-empty secret, and it clones from the configured base (Receive for one request,
    PipelineManager for the whole process).
  \<^item> The queue: whatever the interleaving, at most one run of a repository is in progress; the
    system refines one queue per repository.  A single scheduling step and a single advance of
    a queue are characterised exactly; the watcher's timer is armed while a queue is active.
  \<^item> Pruning: what is deleted, what survives, and that the loops compute a reference definition
    that classifies each run by position and age.
  \<^item> Round trips: the cache of the context, the image artifact, the credentials in build
    arguments; names and labels within the bounds of Kubernetes.
  \<^item> The tasks: what the checkout directory and the cache keep, which tags are requested,
    which artifacts are uploaded or downloaded, when a release is upgraded, that the quality
    gate is enforced, that waiting ends.  For the whole start task the milestones it passes and
    their order; for the whole image task that what it records has been pushed.
  \<^item> The clients: requests carry the credentials and only those of their service; a client of
    the cluster stays in its namespace.
  \<^item> The means of testing: a copy of a directory shows what the source shows and the copying
    returns; the test server is a queue per path; a fake repository is read back; a test that
    passes had a task run that ended as wanted, its clean-up comes last, and a test whose functions
    only look around leaves the files as they were (Directory and TaskTesting together).
  \<^item> Errors: status codes of the webhook handler, requests whose failure is not noticed, a
    tagging that cannot be repeated.

  \<^bold>\<open>Bounds.\<close>  The poll for a SonarQube background task makes at most 8 attempts and waits at most
  255 seconds, both of the code.  Channels of the manager hold 5 elements.  The age of runs
  kept is at most 2562047 hours, above which the product with an hour leaves 64 bits.  Nothing
  else is bounded; no loop is cut off by fuel other than the JSON parser's.

  \<^bold>\<open>Abstractions.\<close>  Log messages are left out, printed lines are kept.  Texts of JSON and URL errors
  are the model's own; whether there is an error is Go's.  Iteration over a Go map is an
  arbitrary permutation of its entries, a parameter of the definition.  Days are days of UTC.
  HTTP headers are modelled where a property is about them (signature, bearer token) and left
  out of the requests to SonarQube and Nexus.  In PipelineManager a call of a handler is one
  step; what happens between the requests of a call is the subject of QueueSystem.

  \<^bold>\<open>Not modelled.\<close>  The scheduling of the goroutines of \<open>pkg/tasktesting\<close>: the loop that watches a task run is a function of the sequence of
  messages it receives.  Symbolic links: \<open>copySymLink\<close> cannot be reached, because the kind of an
  entry is asked of \<open>os.Stat\<close>, which follows links.  \<open>pkg/exchange\<close> holds records without
  operations; \<open>internal/projectpath\<close> asks the compiler for the path of the source, a parameter
  here.  Flags are parsed by the standard library: their
  values are the options records, their defaults are modelled.
\<close>

end
